(* ===== verification/Prelude.thy ===== *)
theory Prelude
  imports Main "HOL-Library.Word" "HOL-Library.Signed_Division" "HOL-Library.Sublist"
begin

text \<open>
  Shared ground of the development: the Go-level types (errno values, byte strings, 64-bit
  integers with their wrap-around), the named theorem collections the component theories fill,
  and generic lemmas on lists, options and maps.

  Times and durations are \<^typ>\<open>int\<close> nanoseconds, as Go's \<open>time.Duration\<close> and
  \<open>UnixNano\<close>; where the code multiplies durations without a check the product goes through
  \<open>wrap64\<close>. Strings are lists of bytes (\<^typ>\<open>char list\<close>), which is what Go's \<open>len\<close> and
  indexing see.
\<close>

section \<open>Lemma collections\<close>

named_theorems frame_simps \<open>what an operation leaves unchanged\<close>
named_theorems heap_simps \<open>reads of an updated store\<close>
named_theorems inv_intros \<open>preservation of a component invariant\<close>

section \<open>Go's basic types\<close>

type_synonym bytes = "8 word list"
type_synonym nanos = int

definition nanosecond_per_second :: int where
  "nanosecond_per_second = 1000000000"

abbreviation seconds :: "int \<Rightarrow> nanos" where
  "seconds n \<equiv> n * 1000000000"

abbreviation minutes :: "int \<Rightarrow> nanos" where
  "minutes n \<equiv> n * 60000000000"

text \<open>Two's complement wrap-around of a 64-bit signed value.\<close>

definition wrap64 :: "int \<Rightarrow> int" where
  "wrap64 x = (x + 9223372036854775808) mod 18446744073709551616 - 9223372036854775808"

lemma wrap64_id:
  "- 9223372036854775808 \<le> x \<Longrightarrow> x < 9223372036854775808 \<Longrightarrow> wrap64 x = x"
  by (simp add: wrap64_def mod_pos_pos_trivial)

lemma wrap64_lower: "- 9223372036854775808 \<le> wrap64 x"
  by (simp add: wrap64_def)

lemma wrap64_upper: "wrap64 x < 9223372036854775808"
proof -
  have "(x + 9223372036854775808) mod 18446744073709551616 < (18446744073709551616::int)"
    by simp
  then show ?thesis unfolding wrap64_def by linarith
qed

text \<open>The errno values the handlers return; \<open>OK\<close> is 0.\<close>

datatype errno = OK | EIO | ENOENT | EINTR | ETIMEDOUT | EINVAL | EXDEV | EBUSY | EACCES
  | EBADF | ENOTEMPTY | EISDIR | ENOTDIR | EEXIST | EOTHER

text \<open>Go's integer division rounds towards zero.\<close>

lemma sdiv_nonneg: "0 \<le> (a::int) \<Longrightarrow> 0 \<le> b \<Longrightarrow> a sdiv b = a div b"
  by (cases "b = 0"; cases "a = 0") (auto simp: signed_divide_int_def sgn_if)

section \<open>Lists\<close>

text \<open>Keeping the last \<open>n\<close> elements, as \<open>xs[len(xs)-n:]\<close>.\<close>

definition take_last :: "nat \<Rightarrow> 'a list \<Rightarrow> 'a list" where
  "take_last n xs = drop (length xs - n) xs"

lemma length_take_last [simp]: "length (take_last n xs) = min n (length xs)"
  by (simp add: take_last_def min_def)

lemma take_last_all [simp]: "length xs \<le> n \<Longrightarrow> take_last n xs = xs"
  by (simp add: take_last_def)

lemma set_take_last: "set (take_last n xs) \<subseteq> set xs"
  by (simp add: take_last_def set_drop_subset)

lemma take_last_snoc: "0 < n \<Longrightarrow> take_last n (take_last n xs @ [x]) = take_last n (xs @ [x])"
  by (cases "length xs \<le> n") (auto simp: take_last_def Suc_diff_le)

lemma distinct_snoc_tl:
  "distinct xs \<Longrightarrow> x \<notin> set xs \<Longrightarrow> distinct (tl xs @ [x])"
  by (cases xs) auto

lemma set_tl_subset: "set (tl xs) \<subseteq> set xs"
  by (cases xs) auto

lemma find_Some_mem: "List.find P xs = Some x \<Longrightarrow> x \<in> set xs \<and> P x"
  by (auto simp: find_Some_iff)

lemma find_None_all: "List.find P xs = None \<longleftrightarrow> (\<forall>x\<in>set xs. \<not> P x)"
  by (auto simp: find_None_iff)

lemma sum_list_concat_length: "length (concat xss) = sum_list (map length xss)"
  by (simp add: length_concat)

section \<open>Maps and functions used as stores\<close>

lemma upd_other [heap_simps]: "x \<noteq> y \<Longrightarrow> (f(x := v)) y = f y"
  by simp

lemma upd_same [heap_simps]: "(f(x := v)) x = v"
  by simp

section \<open>Caches that may forget\<close>

text \<open>
  The contract of every step relation of the development: one invariant, kept by each step. \<open>along\<close>
  carries it along a run; \<open>first_seen\<close> is for a fact only a step under the invariant can bring about.
\<close>

locale kept_invariant =
  fixes step :: "'s \<Rightarrow> 's \<Rightarrow> bool"
    and inv :: "'s \<Rightarrow> bool"
  assumes kept: "step s t \<Longrightarrow> inv s \<Longrightarrow> inv t"
begin

lemma along: "step\<^sup>*\<^sup>* s t \<Longrightarrow> inv s \<Longrightarrow> inv t"
  by (induction rule: rtranclp_induct) (auto intro: kept)

lemma first_seen:
  assumes "step\<^sup>*\<^sup>* s t" "inv s" "P t"
    and new: "\<And>y z. step y z \<Longrightarrow> inv y \<Longrightarrow> P z \<Longrightarrow> P y \<or> C"
  shows "P s \<or> C"
  using assms(1,3)
proof (induction rule: rtranclp_induct)
  case (step y z)
  then show ?case using new [OF step.hyps(2) along [OF step.hyps(1) assms(2)]] by blast
qed simp

end

text \<open>
  The contract of a cache a client can trust: it may drop entries at any time, but what it gives
  back for a key was stored under that key. \<open>sound truth\<close> is the client's view: every value the
  cache can return is the true one.
\<close>

locale lossy_store =
  fixes get :: "'s \<Rightarrow> 'k \<Rightarrow> 's \<times> 'v option"
    and put :: "'s \<Rightarrow> 'k \<Rightarrow> 'v \<Rightarrow> 's"
  assumes put_get: "snd (get (put s k v) k') = Some w \<Longrightarrow> (k' = k \<and> w = v) \<or> snd (get s k') = Some w"
    and get_get: "snd (get (fst (get s k)) k') = Some w \<Longrightarrow> snd (get s k') = Some w"
begin

definition sound :: "('k \<Rightarrow> 'v option) \<Rightarrow> 's \<Rightarrow> bool" where
  "sound truth s \<longleftrightarrow> (\<forall>k v. snd (get s k) = Some v \<longrightarrow> truth k = Some v)"

lemma sound_put: "sound truth s \<Longrightarrow> truth k = Some v \<Longrightarrow> sound truth (put s k v)"
  unfolding sound_def using put_get by metis

lemma sound_get: "sound truth s \<Longrightarrow> sound truth (fst (get s k))"
  unfolding sound_def using get_get by metis

lemma sound_hit: "sound truth s \<Longrightarrow> snd (get s k) = Some v \<Longrightarrow> truth k = Some v"
  by (simp add: sound_def)

text \<open>A read-through: the value from the cache, or from the source and then stored.\<close>

lemma read_through:
  assumes "sound truth s" and "\<And>v. fetch = Some v \<Longrightarrow> truth k = Some v"
    and "(case get s k of
            (s1, Some v) \<Rightarrow> (s1, Some v)
          | (s1, None) \<Rightarrow> (case fetch of None \<Rightarrow> (s1, None) | Some v \<Rightarrow> (put s1 k v, Some v))) = (s', r)"
  shows "sound truth s' \<and> (\<forall>v. r = Some v \<longrightarrow> truth k = Some v)"
proof -
  obtain s1 g where g: "get s k = (s1, g)" by (cases "get s k")
  have s1: "sound truth s1" using sound_get [OF assms(1), of k] g by simp
  show ?thesis
  proof (cases g)
    case (Some v)
    then show ?thesis using assms(3) g s1 sound_hit [OF assms(1), of k v] by simp
  next
    case None
    then show ?thesis using assms(2,3) g s1 sound_put [OF s1]
      by (cases fetch) auto
  qed
qed

end

section \<open>Sequencing calls that can fail\<close>

text \<open>\<open>if err != nil { return err }\<close> between two calls.\<close>

definition and_then :: "'e + 'a \<Rightarrow> ('a \<Rightarrow> 'e + 'b) \<Rightarrow> 'e + 'b" where
  "and_then r k = (case r of Inl e \<Rightarrow> Inl e | Inr a \<Rightarrow> k a)"

lemma and_then_simps [simp]: "and_then (Inl e) k = Inl e" "and_then (Inr a) k = k a"
  by (simp_all add: and_then_def)

lemma and_then_Inr: "and_then r k = Inr b \<longleftrightarrow> (\<exists>a. r = Inr a \<and> k a = Inr b)"
  by (cases r) auto

lemma and_then_Inl: "and_then r k = Inl e \<longleftrightarrow> r = Inl e \<or> (\<exists>a. r = Inr a \<and> k a = Inl e)"
  by (cases r) auto

end
