(* ===== verification/Go_Strings.thy ===== *)
theory Go_Strings
  imports Prelude
begin

text \<open>
  What the program uses of Go's \<open>strings\<close>, \<open>path\<close> and \<open>path/filepath\<close> packages, on byte
  strings: \<open>Split\<close>, \<open>Join\<close>, \<open>Cut\<close>, \<open>TrimSpace\<close>, \<open>Fields\<close>, \<open>LastIndex\<close>, \<open>Contains\<close>,
  \<open>ReplaceAll\<close>, and \<open>path.Clean\<close>/\<open>Join\<close>/\<open>Base\<close>/\<open>Dir\<close>/\<open>Ext\<close>. White space is the ASCII white
  space of \<open>unicode.IsSpace\<close>. The lemmas are the round trips and shape facts the components
  rely on (splitting and joining, what a cleaned path looks like).
\<close>

section \<open>Splitting and joining\<close>

fun split_on :: "char \<Rightarrow> string \<Rightarrow> string list" where
  "split_on c [] = [[]]"
| "split_on c (x # xs) =
     (if x = c then [] # split_on c xs
      else (case split_on c xs of [] \<Rightarrow> [[x]] | p # ps \<Rightarrow> (x # p) # ps))"

fun join_with :: "string \<Rightarrow> string list \<Rightarrow> string" where
  "join_with sep [] = []"
| "join_with sep [p] = p"
| "join_with sep (p # q # ps) = p @ sep @ join_with sep (q # ps)"

lemma split_on_ne [simp]: "split_on c s \<noteq> []"
  by (induction c s rule: split_on.induct) (auto split: list.splits)

lemma split_on_ne2 [simp]: "[] \<noteq> split_on c s"
  using split_on_ne by metis

lemma join_with_Cons: "ps \<noteq> [] \<Longrightarrow> join_with sep (p # ps) = p @ sep @ join_with sep ps"
  by (cases ps) auto

lemma join_split_on: "join_with [c] (split_on c s) = s"
proof (induction c s rule: split_on.induct)
  case (1 c)
  then show ?case by simp
next
  case (2 c x xs)
  show ?case
  proof (cases "x = c")
    case True
    then show ?thesis using 2(1) by (simp add: join_with_Cons)
  next
    case False
    obtain p ps where ps: "split_on c xs = p # ps"
      by (cases "split_on c xs") auto
    then show ?thesis using 2(2)[OF False] False
      by (cases ps) auto
  qed
qed

lemma split_on_no_sep: "c \<notin> set s \<Longrightarrow> split_on c s = [s]"
  by (induction s) auto

lemma split_on_append_sep:
  "c \<notin> set s \<Longrightarrow> split_on c (s @ c # t) = s # split_on c t"
  by (induction s) auto

lemma split_join:
  "ps \<noteq> [] \<Longrightarrow> (\<forall>p\<in>set ps. c \<notin> set p) \<Longrightarrow> split_on c (join_with [c] ps) = ps"
  by (induction ps rule: induct_list012) (auto simp: split_on_no_sep split_on_append_sep)

lemma split_on_parts: "p \<in> set (split_on c s) \<Longrightarrow> c \<notin> set p"
proof (induction c s arbitrary: p rule: split_on.induct)
  case (2 c x xs)
  then show ?case by (auto split: if_splits list.splits)
qed simp

section \<open>Cut, trim, fields, search\<close>

text \<open>\<open>strings.Cut(s, sep)\<close> for a one-byte separator: before, after, found.\<close>

fun cut_at :: "char \<Rightarrow> string \<Rightarrow> (string \<times> string) option" where
  "cut_at c [] = None"
| "cut_at c (x # xs) =
     (if x = c then Some ([], xs)
      else map_option (\<lambda>(a, b). (x # a, b)) (cut_at c xs))"

lemma cut_at_Some: "cut_at c s = Some (a, b) \<Longrightarrow> s = a @ c # b \<and> c \<notin> set a"
  by (induction s arbitrary: a) (auto split: if_splits)

lemma cut_at_None: "cut_at c s = None \<longleftrightarrow> c \<notin> set s"
  by (induction s) auto

lemma cut_at_append: "c \<notin> set a \<Longrightarrow> cut_at c (a @ c # b) = Some (a, b)"
  by (induction a) auto

text \<open>\<open>strings.LastIndex\<close> of a byte, as the pair of what is before and after it.\<close>

definition cut_last :: "char \<Rightarrow> string \<Rightarrow> (string \<times> string) option" where
  "cut_last c s = map_option (\<lambda>(a, b). (rev b, rev a)) (cut_at c (rev s))"

lemma cut_last_Some: "cut_last c s = Some (a, b) \<Longrightarrow> s = a @ c # b \<and> c \<notin> set b"
proof -
  assume "cut_last c s = Some (a, b)"
  then have "cut_at c (rev s) = Some (rev b, rev a)"
    by (auto simp: cut_last_def)
  then have "rev s = rev b @ c # rev a \<and> c \<notin> set (rev b)"
    by (rule cut_at_Some)
  then have "rev (rev s) = rev (rev b @ c # rev a) \<and> c \<notin> set b" by auto
  then show ?thesis by simp
qed

lemma cut_last_append: "c \<notin> set b \<Longrightarrow> cut_last c (a @ c # b) = Some (a, b)"
  by (simp add: cut_last_def cut_at_append)

lemma cut_last_None: "cut_last c s = None \<longleftrightarrow> c \<notin> set s"
  by (simp add: cut_last_def cut_at_None)

definition is_space :: "char \<Rightarrow> bool" where
  "is_space c \<longleftrightarrow> c \<in> {CHR 0x20, CHR 0x09, CHR 0x0A, CHR 0x0B, CHR 0x0C, CHR 0x0D}"

definition trim_left :: "string \<Rightarrow> string" where
  "trim_left = dropWhile is_space"

definition trim_space :: "string \<Rightarrow> string" where
  "trim_space s = rev (dropWhile is_space (rev (dropWhile is_space s)))"

lemma trim_space_no_space:
  "s = [] \<or> (\<not> is_space (hd s) \<and> \<not> is_space (last s)) \<Longrightarrow> trim_space s = s"
proof -
  assume a: "s = [] \<or> (\<not> is_space (hd s) \<and> \<not> is_space (last s))"
  show ?thesis
  proof (cases "s = []")
    case False
    with a have h: "\<not> is_space (hd s)" and l: "\<not> is_space (last s)" by auto
    have d1: "dropWhile is_space s = s" using False h by (cases s) auto
    have d2: "dropWhile is_space (rev s) = rev s"
      using False l by (cases s rule: rev_cases) auto
    show ?thesis by (simp add: trim_space_def d1 d2)
  qed (simp add: trim_space_def)
qed

lemma set_trim_space: "set (trim_space s) \<subseteq> set s"
  by (auto simp: trim_space_def dest!: set_dropWhileD)

text \<open>\<open>strings.Fields\<close>: the maximal runs of non-space bytes.\<close>

fun fields_acc :: "string \<Rightarrow> string \<Rightarrow> string list" where
  "fields_acc acc [] = (if acc = [] then [] else [rev acc])"
| "fields_acc acc (x # xs) =
     (if is_space x then (if acc = [] then fields_acc [] xs else rev acc # fields_acc [] xs)
      else fields_acc (x # acc) xs)"

definition fields_of :: "string \<Rightarrow> string list" where
  "fields_of s = fields_acc [] s"

lemma fields_acc_parts:
  "f \<in> set (fields_acc acc s) \<Longrightarrow> (\<forall>c\<in>set acc. \<not> is_space c) \<Longrightarrow>
     f \<noteq> [] \<and> (\<forall>c\<in>set f. \<not> is_space c)"
proof (induction s arbitrary: acc)
  case Nil
  then show ?case by (auto split: if_splits)
next
  case (Cons x xs)
  show ?case
  proof (cases "is_space x")
    case True
    with Cons.prems(1) have "f \<in> set (fields_acc [] xs) \<or> (acc \<noteq> [] \<and> f = rev acc)"
      by (auto split: if_splits)
    then show ?thesis using Cons.IH [of "[]"] Cons.prems(2) by auto
  next
    case False
    then show ?thesis using Cons.IH [of "x # acc"] Cons.prems by simp
  qed
qed

lemma fields_of_parts: "f \<in> set (fields_of s) \<Longrightarrow> f \<noteq> [] \<and> (\<forall>c\<in>set f. \<not> is_space c)"
  by (auto simp: fields_of_def dest: fields_acc_parts)

lemma fields_acc_word:
  "(\<forall>c\<in>set w. \<not> is_space c) \<Longrightarrow> fields_acc acc (w @ s) = fields_acc (rev w @ acc) s"
  by (induction w arbitrary: acc) auto

lemma fields_of_word_space:
  "w \<noteq> [] \<Longrightarrow> (\<forall>c\<in>set w. \<not> is_space c) \<Longrightarrow> is_space c \<Longrightarrow>
     fields_of (w @ c # s) = w # fields_of s"
  by (simp add: fields_of_def fields_acc_word)

lemma fields_of_word:
  "w \<noteq> [] \<Longrightarrow> (\<forall>c\<in>set w. \<not> is_space c) \<Longrightarrow> fields_of w = [w]"
  using fields_acc_word [of w "[]" "[]"] by (simp add: fields_of_def)

text \<open>\<open>strings.Contains\<close>.\<close>

fun contains_sub :: "string \<Rightarrow> string \<Rightarrow> bool" where
  "contains_sub sub [] = (sub = [])"
| "contains_sub sub (x # xs) = (prefix sub (x # xs) \<or> contains_sub sub xs)"

lemma contains_sub_iff: "contains_sub sub s \<longleftrightarrow> sublist sub s"
  by (induction s) (auto simp: sublist_Cons_right)

text \<open>\<open>strings.ReplaceAll\<close> with a non-empty old string, scanning left to right.\<close>

function replace_all :: "string \<Rightarrow> string \<Rightarrow> string \<Rightarrow> string" where
  "replace_all old new s =
     (if old = [] then s
      else case s of [] \<Rightarrow> []
        | x # xs \<Rightarrow> if prefix old s then new @ replace_all old new (drop (length old) s)
                   else x # replace_all old new xs)"
  by pat_completeness auto
termination
  by (relation "measure (\<lambda>(_, _, s). length s)") auto

declare replace_all.simps [simp del]

lemma replace_all_skip: "old \<noteq> [] \<Longrightarrow> x \<noteq> hd old \<Longrightarrow> replace_all old new (x # s) = x # replace_all old new s"
  by (subst replace_all.simps) (cases old, auto)

lemma replace_all_hit: "old \<noteq> [] \<Longrightarrow> replace_all old new (old @ s) = new @ replace_all old new s"
  by (subst replace_all.simps) (cases old, auto)

lemma replace_all_absent: "old \<noteq> [] \<Longrightarrow> \<not> sublist old s \<Longrightarrow> replace_all old new s = s"
proof (induction s)
  case (Cons x xs)
  then show ?case
    by (subst replace_all.simps) (auto simp: sublist_Cons_right)
qed (simp add: replace_all.simps)

text \<open>\<open>strings.Replace(s, old, new, 1)\<close>.\<close>

fun replace_first :: "string \<Rightarrow> string \<Rightarrow> string \<Rightarrow> string" where
  "replace_first old new [] = (if old = [] then new else [])"
| "replace_first old new (x # xs) =
     (if prefix old (x # xs) then new @ drop (length old) (x # xs)
      else x # replace_first old new xs)"

definition lower_char :: "char \<Rightarrow> char" where
  "lower_char c = (if 65 \<le> (of_char c :: nat) \<and> (of_char c :: nat) \<le> 90
     then char_of (of_char c + 32 :: nat) else c)"

definition upper_char :: "char \<Rightarrow> char" where
  "upper_char c = (if 97 \<le> (of_char c :: nat) \<and> (of_char c :: nat) \<le> 122
     then char_of (of_char c - 32 :: nat) else c)"

definition to_lower :: "string \<Rightarrow> string" where
  "to_lower = map lower_char"

section \<open>Decimal numbers\<close>

text \<open>\<open>strconv.Itoa\<close> and \<open>%d\<close>.\<close>

fun nat_digits :: "nat \<Rightarrow> string" where
  "nat_digits n = (if n < 10 then [char_of (48 + n)]
     else nat_digits (n div 10) @ [char_of (48 + n mod 10)])"

declare nat_digits.simps [simp del]

definition itoa :: "int \<Rightarrow> string" where
  "itoa i = (if i < 0 then CHR ''-'' # nat_digits (nat (- i)) else nat_digits (nat i))"

definition digit_val :: "char \<Rightarrow> nat option" where
  "digit_val c = (let k = (of_char c :: nat) in if 48 \<le> k \<and> k \<le> 57 then Some (k - 48) else None)"

fun parse_digits :: "nat \<Rightarrow> string \<Rightarrow> nat option" where
  "parse_digits acc [] = Some acc"
| "parse_digits acc (c # cs) =
     (case digit_val c of None \<Rightarrow> None | Some d \<Rightarrow> parse_digits (acc * 10 + d) cs)"

text \<open>
  \<open>strconv.Atoi\<close> / \<open>ParseInt(s, 10, 64)\<close>: an optional sign, at least one digit, and the value in
  the range of a 64-bit integer.
\<close>

definition atoi :: "string \<Rightarrow> int option" where
  "atoi s =
     (let (neg, ds) = (case s of [] \<Rightarrow> (False, [])
                        | c # cs \<Rightarrow> if c = CHR ''-'' then (True, cs)
                                   else if c = CHR ''+'' then (False, cs) else (False, s))
      in if ds = [] then None
         else case parse_digits 0 ds of None \<Rightarrow> None
              | Some n \<Rightarrow>
                  let v = (if neg then - int n else int n)
                  in if - 9223372036854775808 \<le> v \<and> v < 9223372036854775808 then Some v else None)"

lemma parse_digits_snoc:
  "parse_digits acc (s @ [c]) =
     (case parse_digits acc s of None \<Rightarrow> None
      | Some n \<Rightarrow> map_option (\<lambda>d. n * 10 + d) (digit_val c))"
  by (induction s arbitrary: acc) (auto split: option.splits)

lemma digit_val_char: "d < 10 \<Longrightarrow> digit_val (char_of (48 + d)) = Some d"
  by (simp add: digit_val_def)

lemma parse_nat_digits: "parse_digits 0 (nat_digits n) = Some n"
proof (induction n rule: nat_digits.induct)
  case (1 n)
  show ?case
  proof (cases "n < 10")
    case True
    then show ?thesis by (subst nat_digits.simps) (simp add: digit_val_char)
  next
    case False
    with 1 have "parse_digits 0 (nat_digits (n div 10)) = Some (n div 10)" by simp
    then show ?thesis using False
      by (subst nat_digits.simps) (simp add: parse_digits_snoc digit_val_char)
  qed
qed

lemma nat_digits_ne: "nat_digits n \<noteq> []"
  by (subst nat_digits.simps) simp

lemma nat_digits_chars:
  "c \<in> set (nat_digits n) \<Longrightarrow> 48 \<le> (of_char c :: nat) \<and> (of_char c :: nat) \<le> 57"
proof (induction n rule: nat_digits.induct)
  case (1 n)
  show ?case
  proof (cases "n < 10")
    case True
    with 1(2) show ?thesis by (subst (asm) nat_digits.simps) simp
  next
    case False
    with 1(2) have "c = char_of (48 + n mod 10) \<or> c \<in> set (nat_digits (n div 10))"
      by (simp add: nat_digits.simps [of n])
    then show ?thesis using 1(1)[OF False] by auto
  qed
qed

lemma atoi_itoa:
  "- 9223372036854775808 \<le> i \<Longrightarrow> i < 9223372036854775808 \<Longrightarrow> atoi (itoa i) = Some i"
proof -
  assume r: "- 9223372036854775808 \<le> i" "i < 9223372036854775808"
  show ?thesis
  proof (cases "i < 0")
    case True
    then show ?thesis using r
      by (simp add: atoi_def itoa_def nat_digits_ne parse_nat_digits Let_def)
  next
    case False
    obtain c cs where cs: "nat_digits (nat i) = c # cs"
      using nat_digits_ne by (cases "nat_digits (nat i)") auto
    then have "48 \<le> (of_char c :: nat)" using nat_digits_chars [of c "nat i"] by simp
    then have "c \<noteq> CHR ''-''" "c \<noteq> CHR ''+''" by auto
    then show ?thesis using False r parse_nat_digits [of "nat i"] cs
      by (simp add: atoi_def itoa_def Let_def)
  qed
qed

section \<open>Slash-separated paths\<close>

abbreviation slash :: char where
  "slash \<equiv> CHR ''/''"

text \<open>The elements of a path with \<open>.\<close> and empty ones dropped and \<open>..\<close> resolved, innermost first.\<close>

fun clean_elems :: "bool \<Rightarrow> string list \<Rightarrow> string list \<Rightarrow> string list" where
  "clean_elems rooted acc [] = rev acc"
| "clean_elems rooted acc (e # es) =
     (if e = [] \<or> e = ''.'' then clean_elems rooted acc es
      else if e = ''..'' then
        (case acc of
           [] \<Rightarrow> clean_elems rooted (if rooted then [] else [''..'']) es
         | a # as \<Rightarrow> if a = ''..'' then clean_elems rooted (''..'' # acc) es
                    else clean_elems rooted as es)
      else clean_elems rooted (e # acc) es)"

definition path_clean :: "string \<Rightarrow> string" where
  "path_clean p =
     (let rooted = (case p of c # _ \<Rightarrow> c = slash | [] \<Rightarrow> False);
          body = join_with [slash] (clean_elems rooted [] (split_on slash p));
          out = (if rooted then slash # body else body)
      in if out = [] then ''.'' else out)"

definition path_join :: "string list \<Rightarrow> string" where
  "path_join es =
     (let ne = filter (\<lambda>e. e \<noteq> []) es
      in if ne = [] then [] else path_clean (join_with [slash] ne))"

definition strip_slashes :: "string \<Rightarrow> string" where
  "strip_slashes p = rev (dropWhile (\<lambda>c. c = slash) (rev p))"

definition after_slash :: "string \<Rightarrow> string" where
  "after_slash p = (case cut_last slash p of None \<Rightarrow> p | Some (_, b) \<Rightarrow> b)"

definition path_base :: "string \<Rightarrow> string" where
  "path_base p =
     (if p = [] then ''.''
      else let b = after_slash (strip_slashes p) in if b = [] then [slash] else b)"

definition path_dir :: "string \<Rightarrow> string" where
  "path_dir p = path_clean (case cut_last slash p of None \<Rightarrow> [] | Some (a, _) \<Rightarrow> a @ [slash])"

definition path_ext :: "string \<Rightarrow> string" where
  "path_ext p = (case cut_last (CHR ''.'') (after_slash p) of None \<Rightarrow> [] | Some (_, e) \<Rightarrow> CHR ''.'' # e)"

text \<open>A name that is one ordinary path element.\<close>

definition plain_elem :: "string \<Rightarrow> bool" where
  "plain_elem e \<longleftrightarrow> e \<noteq> [] \<and> e \<noteq> ''.'' \<and> e \<noteq> ''..'' \<and> slash \<notin> set e"

lemma clean_elems_plain:
  "list_all plain_elem es \<Longrightarrow> clean_elems r acc es = rev acc @ es"
  by (induction es arbitrary: acc) (auto simp: plain_elem_def)

lemma path_base_join: "plain_elem e \<Longrightarrow> path_base (d @ slash # e) = e"
proof -
  assume e: "plain_elem e"
  then have ne: "e \<noteq> []" by (simp add: plain_elem_def)
  then have l: "last e \<noteq> slash" using e last_in_set [OF ne] by (metis plain_elem_def)
  obtain e' x where ex: "e = e' @ [x]" using ne by (cases e rule: rev_cases) auto
  with l have x: "x \<noteq> slash" by simp
  have "strip_slashes (d @ slash # e) = d @ slash # e"
    using ex x by (simp add: strip_slashes_def)
  moreover have "after_slash (d @ slash # e) = e"
    using e by (simp add: after_slash_def cut_last_append plain_elem_def)
  ultimately show ?thesis using ne by (simp add: path_base_def Let_def)
qed

lemma path_base_plain: "plain_elem e \<Longrightarrow> path_base e = e"
proof -
  assume e: "plain_elem e"
  then have ne: "e \<noteq> []" by (simp add: plain_elem_def)
  obtain e' x where ex: "e = e' @ [x]" using ne by (cases e rule: rev_cases) auto
  with e have x: "x \<noteq> slash" by (auto simp: plain_elem_def)
  have "strip_slashes e = e" using ex x by (simp add: strip_slashes_def)
  moreover have "cut_last slash e = None" using e by (simp add: cut_last_None plain_elem_def)
  ultimately show ?thesis using ne by (simp add: path_base_def after_slash_def)
qed

lemma join_with_eq_Nil: "join_with [c] ps = [] \<longleftrightarrow> ps = [] \<or> ps = [[]]"
proof (cases ps)
  case (Cons p qs)
  then show ?thesis by (cases qs) auto
qed simp

lemma path_clean_plain:
  assumes "es \<noteq> []" and "list_all plain_elem es"
  shows "path_clean (join_with [slash] es) = join_with [slash] es"
proof -
  have ns: "\<forall>p\<in>set es. slash \<notin> set p" and ne: "\<forall>p\<in>set es. p \<noteq> []"
    using assms(2) by (auto simp: list_all_iff plain_elem_def)
  have hd: "(case join_with [slash] es of c # _ \<Rightarrow> c = slash | [] \<Rightarrow> False) = False"
  proof -
    obtain e es' where es: "es = e # es'" using assms(1) by (cases es) auto
    with ne ns obtain c cs where c: "e = c # cs" "c \<noteq> slash"
      by (cases e) auto
    show ?thesis using es c by (cases es') auto
  qed
  have j: "join_with [slash] es \<noteq> []"
    using assms(1) ne by (auto simp: join_with_eq_Nil)
  show ?thesis
    unfolding path_clean_def Let_def hd
    using split_join [OF assms(1) ns] clean_elems_plain [OF assms(2), of False "[]"] j
    by simp
qed

lemma path_join_root: "plain_elem e \<Longrightarrow> path_join [[], e] = e"
  using path_clean_plain [of "[e]"] by (simp add: path_join_def plain_elem_def)

lemma path_join_plain:
  assumes "ds \<noteq> []" and "list_all plain_elem ds" and "plain_elem e"
  shows "path_join [join_with [slash] ds, e] = join_with [slash] ds @ slash # e"
proof -
  have ne: "join_with [slash] ds \<noteq> []"
    using assms by (auto simp: join_with_eq_Nil plain_elem_def)
  have snoc: "join_with [slash] (ds @ [e]) = join_with [slash] ds @ slash # e"
    using assms(1) by (induction ds rule: induct_list012) auto
  have "path_clean (join_with [slash] (ds @ [e])) = join_with [slash] (ds @ [e])"
    by (rule path_clean_plain) (use assms in auto)
  then show ?thesis using ne assms(3) snoc
    by (simp add: path_join_def plain_elem_def)
qed

end
