(* ===== verification/Api_Errors.thy ===== *)
theory Api_Errors
  imports Complex_Main Go_Strings
begin

text \<open>
  Errors as the program sees them (internal/drive/backoff.go, and the error tests of
  internal/drive/file.go, internal/fusefs/fusefs.go and internal/fusefs/previews.go), and the
  shared rate-limit window of \<open>drive.Client\<close>.

  A Go error is a value of \<open>go_error\<close>: a sentinel, a \<open>proton.APIError\<close> in its pointer or its
  value shape, or a wrapper made with \<open>%w\<close>. \<open>errors.As\<close> and \<open>errors.Is\<close> walk \<open>chain\<close>, the
  error and everything it wraps in depth-first order. The JSON value of \<open>APIError.Details\<close> is a
  \<open>json\<close>; its numbers are rationals, which is what a decoded \<open>float64\<close> denotes.
\<close>

section \<open>Error values\<close>

datatype json = JNull | JBool bool | JNum rat | JStr string | JArr "json list"
  | JObj "(string \<times> json) list"

record api_error =
  ae_status :: int
  ae_code :: int
  ae_message :: string
  ae_details :: json

datatype go_error =
    ErrMsg string
  | ErrApiPtr api_error
  | ErrApiVal api_error
  | ErrRateLimited
  | ErrNoDownloadSlot
  | ErrCanceled
  | ErrDeadline
  | ErrEOF
  | ErrUnexpectedEOF
  | ErrNotExist
  | ErrNet string
  | ErrWrap string go_error
  | ErrWrap2 go_error go_error

fun chain :: "go_error \<Rightarrow> go_error list" where
  "chain (ErrWrap m e) = ErrWrap m e # chain e"
| "chain (ErrWrap2 a b) = ErrWrap2 a b # chain a @ chain b"
| "chain e = [e]"

definition errors_is :: "go_error \<Rightarrow> go_error \<Rightarrow> bool" where
  "errors_is e target \<longleftrightarrow> target \<in> set (chain e)"

fun first_ptr :: "go_error list \<Rightarrow> api_error option" where
  "first_ptr [] = None"
| "first_ptr (ErrApiPtr a # es) = Some a"
| "first_ptr (_ # es) = first_ptr es"

fun first_val :: "go_error list \<Rightarrow> api_error option" where
  "first_val [] = None"
| "first_val (ErrApiVal a # es) = Some a"
| "first_val (_ # es) = first_val es"

fun is_net :: "go_error \<Rightarrow> bool" where
  "is_net (ErrNet _) = True"
| "is_net ErrDeadline = True"
| "is_net _ = False"

section \<open>HTTP statuses and Proton codes\<close>

text \<open>\<open>net/http\<close>'s constants, and the codes go-proton-api names (\<open>AuthRefreshTokenInvalid\<close>,
  \<open>AFileOrFolderNameExist\<close>, \<open>PaidPlanRequired\<close>, \<open>HumanVerificationRequired\<close>).\<close>

abbreviation statusOK :: int where "statusOK \<equiv> 200"
abbreviation statusUnauthorized :: int where "statusUnauthorized \<equiv> 401"
abbreviation statusForbidden :: int where "statusForbidden \<equiv> 403"
abbreviation statusNotFound :: int where "statusNotFound \<equiv> 404"
abbreviation statusUnprocessable :: int where "statusUnprocessable \<equiv> 422"
abbreviation statusTooMany :: int where "statusTooMany \<equiv> 429"
abbreviation statusUnavailable :: int where "statusUnavailable \<equiv> 503"
abbreviation codeNameExists :: int where "codeNameExists \<equiv> 2500"
abbreviation codeRefreshInvalid :: int where "codeRefreshInvalid \<equiv> 10013"
abbreviation codePaidPlan :: int where "codePaidPlan \<equiv> 10004"
abbreviation codeHumanVerification :: int where "codeHumanVerification \<equiv> 9001"

section \<open>Classifying errors\<close>

definition asAPIError :: "go_error \<Rightarrow> api_error option" where
  "asAPIError e = (case first_ptr (chain e) of Some p \<Rightarrow> Some p | None \<Rightarrow> first_val (chain e))"

definition isUnauthorized :: "go_error \<Rightarrow> bool" where
  "isUnauthorized e =
     (case asAPIError e of None \<Rightarrow> False | Some a \<Rightarrow> ae_status a = statusUnauthorized)"

definition isUnrecoverableAuth :: "go_error \<Rightarrow> bool" where
  "isUnrecoverableAuth e =
     (case asAPIError e of None \<Rightarrow> False | Some a \<Rightarrow> ae_code a = codeRefreshInvalid)"

definition isNotFound :: "go_error \<Rightarrow> bool" where
  "isNotFound e =
     (case first_ptr (chain e) of None \<Rightarrow> False | Some a \<Rightarrow> ae_status a = statusNotFound)"

definition storageTokenRejected :: "go_error \<Rightarrow> bool" where
  "storageTokenRejected e =
     (case asAPIError e of None \<Rightarrow> False
      | Some a \<Rightarrow> ae_status a \<in> {statusUnauthorized, statusForbidden, statusUnprocessable})"

definition permanentUploadError :: "go_error option \<Rightarrow> bool" where
  "permanentUploadError err =
     (case err of None \<Rightarrow> False
      | Some e \<Rightarrow>
          (case (case first_ptr (chain e) of Some p \<Rightarrow> Some p | None \<Rightarrow> first_val (chain e)) of
             None \<Rightarrow> False
           | Some a \<Rightarrow>
               (ae_code a = codeNameExists \<and> ae_status a = statusUnprocessable)
               \<or> ae_code a = codePaidPlan))"

definition transientThumbErr :: "go_error \<Rightarrow> bool" where
  "transientThumbErr e =
     (if errors_is e ErrDeadline \<or> errors_is e ErrCanceled \<or> errors_is e ErrRateLimited then True
      else if \<exists>x\<in>set (chain e). is_net x then True
      else case first_ptr (chain e) of
             Some a \<Rightarrow> 500 \<le> ae_status a
           | None \<Rightarrow> (case first_val (chain e) of None \<Rightarrow> False | Some a \<Rightarrow> 500 \<le> ae_status a))"

text \<open>Wrapping with \<open>%w\<close> never changes how an error is classified.\<close>

lemma first_ptr_append: "first_ptr (xs @ ys) = (case first_ptr xs of None \<Rightarrow> first_ptr ys | s \<Rightarrow> s)"
  by (induction xs rule: first_ptr.induct) auto

lemma first_val_append: "first_val (xs @ ys) = (case first_val xs of None \<Rightarrow> first_val ys | s \<Rightarrow> s)"
  by (induction xs rule: first_val.induct) auto

lemma chain_wrap_first [simp]:
  "first_ptr (chain (ErrWrap m e)) = first_ptr (chain e)"
  "first_val (chain (ErrWrap m e)) = first_val (chain e)"
  by simp_all

lemma asAPIError_wrap [simp]: "asAPIError (ErrWrap m e) = asAPIError e"
  unfolding asAPIError_def chain_wrap_first ..

lemma permanentUploadError_wrap [simp]:
  "permanentUploadError (Some (ErrWrap m e)) = permanentUploadError (Some e)"
  unfolding permanentUploadError_def option.case chain_wrap_first ..

lemma isNotFound_wrap [simp]: "isNotFound (ErrWrap m e) = isNotFound e"
  unfolding isNotFound_def chain_wrap_first ..

lemma storageTokenRejected_wrap [simp]: "storageTokenRejected (ErrWrap m e) = storageTokenRejected e"
  unfolding storageTokenRejected_def asAPIError_wrap ..

lemma transientThumbErr_wrap [simp]: "transientThumbErr (ErrWrap m e) = transientThumbErr e"
  unfolding transientThumbErr_def chain_wrap_first by (simp add: errors_is_def)

lemma asAPIError_joined:
  "asAPIError (ErrWrap2 ErrRateLimited (ErrApiVal a)) = Some a"
  by (simp add: asAPIError_def)

lemma storageTokenRejected_api [simp]:
  "storageTokenRejected (ErrApiPtr a) \<longleftrightarrow> ae_status a \<in> {401, 403, 422}"
  by (simp add: storageTokenRejected_def asAPIError_def)

section \<open>The shared rate-limit window\<close>

definition defaultRateLimitBackoff :: nanos where
  "defaultRateLimitBackoff = seconds 30"

definition maxRateLimitBackoff :: nanos where
  "maxRateLimitBackoff = minutes 5"

text \<open>
  The conversion \<open>time.Duration(secs)\<close> of a \<open>float64\<close> cuts towards zero; a value that does not fit
  in an \<open>int64\<close> becomes the minimal one, as the amd64 instruction leaves it.
\<close>

definition float_to_int64 :: "rat \<Rightarrow> int" where
  "float_to_int64 r =
     (let t = (if 0 \<le> r then \<lfloor>r\<rfloor> else \<lceil>r\<rceil>)
      in if - 9223372036854775808 \<le> t \<and> t < 9223372036854775808 then t else - 9223372036854775808)"

fun hint_in_keys :: "(string \<times> json) list \<Rightarrow> string list \<Rightarrow> nanos option" where
  "hint_in_keys m [] = None"
| "hint_in_keys m (k # ks) =
     (case map_of m k of
        Some (JNum secs) \<Rightarrow> if 0 < secs then Some (wrap64 (float_to_int64 secs * 1000000000))
                            else hint_in_keys m ks
      | _ \<Rightarrow> hint_in_keys m ks)"

definition retryAfterHint :: "api_error \<Rightarrow> nanos option" where
  "retryAfterHint a =
     (case ae_details a of
        JObj m \<Rightarrow> hint_in_keys m [''RetryAfter'', ''retryAfter'', ''Retry-After'']
      | _ \<Rightarrow> None)"

text \<open>
  \<open>noteRateLimitStatus\<close>: the new end of the window. \<open>until\<close> is \<open>rateLimit.until\<close>, \<open>now\<close> the
  clock; \<open>err\<close> is the API error when the caller has one.
\<close>

definition rate_limit_wait :: "go_error option \<Rightarrow> nanos \<Rightarrow> nanos" where
  "rate_limit_wait err retryAfter =
     (let wait = (case err of None \<Rightarrow> defaultRateLimitBackoff
                  | Some e \<Rightarrow> (case asAPIError e of None \<Rightarrow> defaultRateLimitBackoff
                              | Some a \<Rightarrow> (case retryAfterHint a of None \<Rightarrow> defaultRateLimitBackoff
                                          | Some hint \<Rightarrow> hint)));
          wait = (if 0 < retryAfter then retryAfter else wait)
      in if maxRateLimitBackoff < wait then maxRateLimitBackoff else wait)"

definition noteRateLimitStatus ::
    "int \<Rightarrow> go_error option \<Rightarrow> nanos \<Rightarrow> nanos \<Rightarrow> nanos \<Rightarrow> nanos" where
  "noteRateLimitStatus status err retryAfter now until =
     (if status \<noteq> statusTooMany \<and> status \<noteq> statusUnavailable then until
      else now + rate_limit_wait err retryAfter)"

definition rateLimited :: "nanos \<Rightarrow> nanos \<Rightarrow> nanos option" where
  "rateLimited now until =
     (let remaining = until - now in if remaining \<le> 0 then None else Some remaining)"

lemma rate_limit_wait_cap: "rate_limit_wait err r \<le> maxRateLimitBackoff"
  by (auto simp: rate_limit_wait_def Let_def)

lemma rate_limit_wait_header:
  "0 < r \<Longrightarrow> rate_limit_wait err r = min r maxRateLimitBackoff"
  by (auto simp: rate_limit_wait_def Let_def min_def)

lemma rate_limit_wait_default:
  "rate_limit_wait None 0 = defaultRateLimitBackoff"
  by (simp add: rate_limit_wait_def Let_def defaultRateLimitBackoff_def maxRateLimitBackoff_def)

lemma noteRateLimitStatus_other:
  "status \<noteq> 429 \<Longrightarrow> status \<noteq> 503 \<Longrightarrow> noteRateLimitStatus status err r now until = until"
  by (simp add: noteRateLimitStatus_def)

lemma noteRateLimitStatus_limited:
  "status = 429 \<or> status = 503 \<Longrightarrow>
     noteRateLimitStatus status err r now until = now + rate_limit_wait err r"
  by (auto simp: noteRateLimitStatus_def)

lemma rateLimited_None: "rateLimited now until = None \<longleftrightarrow> until \<le> now"
  by (simp add: rateLimited_def Let_def)

lemma rateLimited_Some: "rateLimited now until = Some r \<longleftrightarrow> now < until \<and> r = until - now"
  by (auto simp: rateLimited_def Let_def)

section \<open>Properties\<close>

definition huge_hint :: api_error where
  "huge_hint = \<lparr>ae_status = 429, ae_code = 0, ae_message = '''',
     ae_details = JObj [(''RetryAfter'', JNum 9223372037)]\<rparr>"

text \<open>The window is never pushed more than five minutes out, and other statuses leave it alone; but
  a \<open>RetryAfter\<close> detail too large for \<open>time.Duration\<close> wraps to a negative wait, which the cap does
  not catch: the 429 then opens no window at all.\<close>

theorem rate_limit_window:
  "noteRateLimitStatus status err r now until \<le> max until (now + minutes 5)
   \<and> (\<not> (status = 429 \<or> status = 503) \<longrightarrow> noteRateLimitStatus status err r now until = until)
   \<and> rateLimited now (noteRateLimitStatus 429 (Some (ErrApiPtr huge_hint)) 0 now until) = None"
proof -
  have "retryAfterHint huge_hint = Some (- 9223372036709551616)"
    by (simp add: retryAfterHint_def huge_hint_def float_to_int64_def Let_def wrap64_def)
  then have "rate_limit_wait (Some (ErrApiPtr huge_hint)) 0 = - 9223372036709551616"
    by (simp add: rate_limit_wait_def asAPIError_def maxRateLimitBackoff_def Let_def)
  then have "rateLimited now (noteRateLimitStatus 429 (Some (ErrApiPtr huge_hint)) 0 now until) = None"
    by (simp add: noteRateLimitStatus_limited rateLimited_None)
  moreover have "noteRateLimitStatus status err r now until \<le> max until (now + minutes 5)"
    using rate_limit_wait_cap [of err r] by (auto simp: noteRateLimitStatus_def maxRateLimitBackoff_def max_def)
  ultimately show ?thesis by (simp add: noteRateLimitStatus_other)
qed

theorem rate_limit_window_witness:
  "noteRateLimitStatus 500 None 0 10 7 = 7"
  using rate_limit_window [of 500 None 0 10 7] by simp

end
