(* ===== verification/Block_Cache.thy ===== *)
theory Block_Cache
  imports Go_Strings Api_Errors "HOL-Library.AList" "HOL-Library.List_Lexorder"
    "HOL-Library.Char_ord"
begin

text \<open>
  The on-disk cache of decrypted blocks and directory listings (internal/drive/cache.go).

  The directory tree under the cache root is a \<open>disk\<close>: files keyed by their path elements below
  the root, and the set of directories. Proton's identifiers are URL-safe base64, so each is one
  path element and \<open>filepath.Join\<close> of them is the list of elements. \<open>faults\<close> says which calls into
  the file system fail, so every early return of the code is a branch here. Two goroutines can be
  inside \<open>PutListing\<close> at once (it stats and renames outside \<open>c.mu\<close>), so it is given by its three
  steps and their composition.
\<close>

section \<open>The directory tree\<close>

type_synonym cpath = "string list"

record cfile =
  cf_data :: bytes
  cf_mtime :: nanos

record disk =
  dk_files :: "(cpath \<times> cfile) list"
  dk_dirs :: "cpath list"
  dk_now :: nanos

record faults =
  ft_mkdir :: "cpath \<Rightarrow> bool"
  ft_temp :: "cpath \<Rightarrow> bool"
  ft_chmod :: "cpath \<Rightarrow> bool"
  ft_rename :: "cpath \<Rightarrow> bool"
  ft_remove :: "cpath \<Rightarrow> bool"
  ft_read :: "cpath \<Rightarrow> bool"
  ft_walk :: "cpath \<Rightarrow> go_error option"

definition no_faults :: faults where
  "no_faults = \<lparr>ft_mkdir = (\<lambda>_. False), ft_temp = (\<lambda>_. False), ft_chmod = (\<lambda>_. False),
     ft_rename = (\<lambda>_. False), ft_remove = (\<lambda>_. False), ft_read = (\<lambda>_. False), ft_walk = (\<lambda>_. None)\<rparr>"

definition dk_stat :: "disk \<Rightarrow> cpath \<Rightarrow> cfile option" where
  "dk_stat d p = map_of (dk_files d) p"

definition dk_write :: "cpath \<Rightarrow> bytes \<Rightarrow> disk \<Rightarrow> disk" where
  "dk_write p data d = d\<lparr>dk_files := AList.update p \<lparr>cf_data = data, cf_mtime = dk_now d\<rparr> (dk_files d)\<rparr>"

definition dk_delete :: "cpath \<Rightarrow> disk \<Rightarrow> disk" where
  "dk_delete p d = d\<lparr>dk_files := AList.delete p (dk_files d)\<rparr>"

definition dk_rename :: "cpath \<Rightarrow> cpath \<Rightarrow> disk \<Rightarrow> disk" where
  "dk_rename p q d =
     (case dk_stat d p of
        None \<Rightarrow> d
      | Some f \<Rightarrow> d\<lparr>dk_files := AList.update q f (AList.delete p (dk_files d))\<rparr>)"

definition dk_touch :: "cpath \<Rightarrow> disk \<Rightarrow> disk" where
  "dk_touch p d =
     (case dk_stat d p of
        None \<Rightarrow> d
      | Some f \<Rightarrow> d\<lparr>dk_files := AList.update p (f\<lparr>cf_mtime := dk_now d\<rparr>) (dk_files d)\<rparr>)"

definition mkdir_all :: "cpath \<Rightarrow> disk \<Rightarrow> disk" where
  "mkdir_all p d = d\<lparr>dk_dirs := remdups (dk_dirs d @ filter (\<lambda>q. q \<noteq> []) (prefixes p))\<rparr>"

definition dir_empty :: "disk \<Rightarrow> cpath \<Rightarrow> bool" where
  "dir_empty d p \<longleftrightarrow>
     list_all (\<lambda>(q, _). \<not> strict_prefix p q) (dk_files d) \<and> list_all (\<lambda>q. \<not> strict_prefix p q) (dk_dirs d)"

section \<open>The cache\<close>

definition blocksSubdir :: string where "blocksSubdir = ''blocks''"
definition listingsSubdir :: string where "listingsSubdir = ''listings''"

definition staleTempAge :: nanos where "staleTempAge = minutes 60"

text \<open>\<open>bc_dir\<close> is the root; the empty string is a disabled cache.\<close>

record block_cache =
  bc_dir :: string
  bc_limit :: int
  bc_size :: int

definition isTempFile :: "string \<Rightarrow> bool" where
  "isTempFile name \<longleftrightarrow> suffix ''.tmp'' name"

definition base_name :: "cpath \<Rightarrow> string" where
  "base_name p = (if p = [] then '''' else last p)"

definition blockPath :: "string \<Rightarrow> string \<Rightarrow> int \<Rightarrow> cpath" where
  "blockPath linkID revID index = [blocksSubdir, linkID, revID, itoa index]"

definition listingPath :: "string \<Rightarrow> cpath" where
  "listingPath linkID = [listingsSubdir, linkID @ ''.json'']"

definition cf_size :: "cfile \<Rightarrow> int" where
  "cf_size f = int (length (cf_data f))"

text \<open>\<open>writeTemp\<close>: the new file's path, or \<open>None\<close> with nothing left behind. \<open>rnd\<close> is the random
  part \<open>os.CreateTemp\<close> puts in place of the star.\<close>

definition temp_path :: "cpath \<Rightarrow> string \<Rightarrow> string \<Rightarrow> cpath" where
  "temp_path dir before rnd = dir @ [before @ rnd @ ''.tmp'']"

definition writeTemp ::
    "faults \<Rightarrow> cpath \<Rightarrow> string \<Rightarrow> string \<Rightarrow> bytes \<Rightarrow> disk \<Rightarrow> disk \<times> cpath option" where
  "writeTemp ft dir before rnd data d =
     (let tmp = temp_path dir before rnd
      in if ft_temp ft tmp then (d, None) else (dk_write tmp data d, Some tmp))"

section \<open>Eviction\<close>

text \<open>\<open>removeEmptyParents\<close>: upwards from \<open>dir\<close> while it lies below \<open>blocks/\<close> and is empty.\<close>

fun removeEmptyParents :: "faults \<Rightarrow> nat \<Rightarrow> cpath \<Rightarrow> disk \<Rightarrow> disk" where
  "removeEmptyParents ft 0 dir d = d"
| "removeEmptyParents ft (Suc n) dir d =
     (if \<not> strict_prefix [blocksSubdir] dir then d
      else if ft_remove ft dir \<or> \<not> dir_empty d dir then d
      else removeEmptyParents ft n (butlast dir) (d\<lparr>dk_dirs := removeAll dir (dk_dirs d)\<rparr>))"

fun evict_loop :: "faults \<Rightarrow> (cpath \<times> cfile) list \<Rightarrow> block_cache \<times> disk \<Rightarrow> block_cache \<times> disk" where
  "evict_loop ft [] (bc, d) = (bc, d)"
| "evict_loop ft ((p, f) # es) (bc, d) =
     (if bc_size bc \<le> bc_limit bc then (bc, d)
      else if ft_remove ft p then evict_loop ft es (bc, d)
      else evict_loop ft es (bc\<lparr>bc_size := bc_size bc - cf_size f\<rparr>,
             removeEmptyParents ft (length p) (butlast p) (dk_delete p d)))"

definition evictable :: "faults \<Rightarrow> disk \<Rightarrow> (cpath \<times> cfile) list" where
  "evictable ft d =
     filter (\<lambda>(p, f). ft_walk ft p = None \<and> \<not> isTempFile (base_name p)) (dk_files d)"

definition evict :: "faults \<Rightarrow> block_cache \<times> disk \<Rightarrow> block_cache \<times> disk" where
  "evict ft cd =
     (case cd of (bc, d) \<Rightarrow>
        if bc_size bc \<le> bc_limit bc then (bc, d)
        else evict_loop ft (sort_key (\<lambda>(p, f). cf_mtime f) (evictable ft d)) (bc, d))"

section \<open>Blocks\<close>

definition Get :: "faults \<Rightarrow> string \<Rightarrow> string \<Rightarrow> int \<Rightarrow> block_cache \<times> disk \<Rightarrow> (block_cache \<times> disk) \<times> bytes option" where
  "Get ft linkID revID index cd =
     (case cd of (bc, d) \<Rightarrow>
        if bc_dir bc = '''' then (cd, None)
        else let path = blockPath linkID revID index
             in if ft_read ft path then (cd, None)
                else (case dk_stat d path of
                        None \<Rightarrow> (cd, None)
                      | Some f \<Rightarrow> ((bc, dk_touch path d), Some (cf_data f))))"

definition old_size :: "disk \<Rightarrow> cpath \<Rightarrow> int" where
  "old_size d path = (case dk_stat d path of Some f \<Rightarrow> cf_size f | None \<Rightarrow> 0)"

definition Put ::
    "faults \<Rightarrow> string \<Rightarrow> string \<Rightarrow> string \<Rightarrow> int \<Rightarrow> bytes \<Rightarrow> block_cache \<times> disk \<Rightarrow> block_cache \<times> disk" where
  "Put ft rnd linkID revID index data cd =
     (case cd of (bc, d) \<Rightarrow>
        if bc_dir bc = '''' then cd
        else let dir = [blocksSubdir, linkID, revID]
             in if ft_mkdir ft dir then cd
                else (case writeTemp ft dir ''block-'' rnd data (mkdir_all dir d) of
                        (d1, None) \<Rightarrow> (bc, d1)
                      | (d1, Some tmp) \<Rightarrow>
                          let path = dir @ [itoa index]; oldSize = old_size d1 path
                          in if ft_rename ft path then (bc, dk_delete tmp d1)
                             else evict ft (bc\<lparr>bc_size := bc_size bc + (int (length data) - oldSize)\<rparr>,
                                            dk_rename tmp path d1)))"

section \<open>Listings\<close>

text \<open>\<open>encode\<close> and \<open>decode\<close> are \<open>encoding/json\<close> on \<open>[]ListingEntry\<close>.\<close>

record ListingEntry =
  le_name :: string
  le_link :: json

definition GetListing ::
    "faults \<Rightarrow> (bytes \<Rightarrow> ListingEntry list option) \<Rightarrow> string \<Rightarrow> block_cache \<times> disk
       \<Rightarrow> (block_cache \<times> disk) \<times> ListingEntry list option" where
  "GetListing ft decode linkID cd =
     (case cd of (bc, d) \<Rightarrow>
        if bc_dir bc = '''' then (cd, None)
        else let path = listingPath linkID
             in if ft_read ft path then (cd, None)
                else (case dk_stat d path of
                        None \<Rightarrow> (cd, None)
                      | Some f \<Rightarrow> (case decode (cf_data f) of
                                     None \<Rightarrow> (cd, None)
                                   | Some es \<Rightarrow> ((bc, dk_touch path d), Some es))))"

text \<open>The steps of \<open>PutListing\<close>: write the temporary file and stat the target; rename; count.\<close>

definition put_listing_stat ::
    "faults \<Rightarrow> string \<Rightarrow> string \<Rightarrow> bytes \<Rightarrow> disk \<Rightarrow> disk \<times> (cpath \<times> int) option" where
  "put_listing_stat ft rnd linkID data d =
     (if ft_mkdir ft [listingsSubdir] then (d, None)
      else (case writeTemp ft [listingsSubdir] ''listing-'' rnd data (mkdir_all [listingsSubdir] d) of
              (d1, None) \<Rightarrow> (d1, None)
            | (d1, Some tmp) \<Rightarrow>
                if ft_chmod ft tmp then (dk_delete tmp d1, None)
                else (d1, Some (tmp, old_size d1 (listingPath linkID)))))"

definition put_listing_rename :: "faults \<Rightarrow> string \<Rightarrow> cpath \<Rightarrow> disk \<Rightarrow> disk \<times> bool" where
  "put_listing_rename ft linkID tmp d =
     (if ft_rename ft (listingPath linkID) then (dk_delete tmp d, False)
      else (dk_rename tmp (listingPath linkID) d, True))"

definition put_listing_count :: "bytes \<Rightarrow> int \<Rightarrow> block_cache \<Rightarrow> block_cache" where
  "put_listing_count data oldSize bc = bc\<lparr>bc_size := bc_size bc + (int (length data) - oldSize)\<rparr>"

definition PutListing ::
    "faults \<Rightarrow> (ListingEntry list \<Rightarrow> bytes option) \<Rightarrow> string \<Rightarrow> string \<Rightarrow> ListingEntry list
       \<Rightarrow> block_cache \<times> disk \<Rightarrow> block_cache \<times> disk" where
  "PutListing ft encode rnd linkID es cd =
     (case cd of (bc, d) \<Rightarrow>
        if bc_dir bc = '''' then cd
        else (case encode es of
                None \<Rightarrow> (bc, if ft_mkdir ft [listingsSubdir] then d else mkdir_all [listingsSubdir] d)
              | Some data \<Rightarrow>
                  (case put_listing_stat ft rnd linkID data d of
                     (d1, None) \<Rightarrow> (bc, d1)
                   | (d1, Some (tmp, oldSize)) \<Rightarrow>
                       (case put_listing_rename ft linkID tmp d1 of
                          (d2, False) \<Rightarrow> (bc, d2)
                        | (d2, True) \<Rightarrow> evict ft (put_listing_count data oldSize bc, d2)))))"

section \<open>Opening\<close>

text \<open>
  \<open>migrateLayout\<close>: with no \<open>blocks\<close> directory and anything at all in the root, every entry of the
  root moves under \<open>blocks.migrating\<close>, which then becomes \<open>blocks\<close>. The entries are read before the
  temporary directory is made, sorted as \<open>os.ReadDir\<close> sorts them. Renaming a directory into itself
  is refused by the system (EINVAL).
\<close>

definition migrating :: string where "migrating = blocksSubdir @ ''.migrating''"

definition root_entries :: "disk \<Rightarrow> string list" where
  "root_entries d = sort (remdups (map hd (filter (\<lambda>p. p \<noteq> []) (map fst (dk_files d) @ dk_dirs d))))"

definition move_top :: "string \<Rightarrow> cpath \<Rightarrow> disk \<Rightarrow> disk" where
  "move_top e to d =
     (let mv = (\<lambda>p. if p \<noteq> [] \<and> hd p = e then to @ tl p else p)
      in d\<lparr>dk_files := map (\<lambda>(p, f). (mv p, f)) (dk_files d), dk_dirs := map mv (dk_dirs d)\<rparr>)"

fun migrate_entries :: "faults \<Rightarrow> string list \<Rightarrow> disk \<Rightarrow> disk \<times> go_error option" where
  "migrate_entries ft [] d = (d, None)"
| "migrate_entries ft (e # es) d =
     (if e = migrating then (d, Some (ErrMsg ''invalid argument''))
      else if ft_rename ft [e] then (d, Some (ErrMsg ''rename''))
      else migrate_entries ft es (move_top e [migrating, e] d))"

definition migrateLayout :: "faults \<Rightarrow> disk \<Rightarrow> disk \<times> go_error option" where
  "migrateLayout ft d =
     (if [blocksSubdir] \<in> set (dk_dirs d) then (d, None)
      else let entries = root_entries d
           in if entries = [] then (d, None)
              else if ft_mkdir ft [migrating] then (d, Some (ErrMsg ''mkdir''))
              else (case migrate_entries ft entries (mkdir_all [migrating] d) of
                      (d1, Some e) \<Rightarrow> (d1, Some e)
                    | (d1, None) \<Rightarrow>
                        if ft_rename ft [blocksSubdir] then (d1, Some (ErrMsg ''rename''))
                        else (move_top migrating [blocksSubdir] d1, None)))"

text \<open>The walk that measures the cache: entries gone meanwhile are skipped, any other error stops
  it, a temporary file is never counted and removed once stale.\<close>

fun open_walk :: "faults \<Rightarrow> nanos \<Rightarrow> (cpath \<times> cfile) list \<Rightarrow> int \<Rightarrow> disk \<Rightarrow> disk \<times> (go_error + int)" where
  "open_walk ft now [] acc d = (d, Inr acc)"
| "open_walk ft now ((p, f) # es) acc d =
     (case ft_walk ft p of
        Some e \<Rightarrow> if errors_is e ErrNotExist then open_walk ft now es acc d else (d, Inl e)
      | None \<Rightarrow>
          if isTempFile (base_name p)
          then open_walk ft now es acc
                 (if staleTempAge < now - cf_mtime f \<and> \<not> ft_remove ft p then dk_delete p d else d)
          else open_walk ft now es (acc + cf_size f) d)"

definition OpenBlockCache ::
    "faults \<Rightarrow> string \<Rightarrow> int \<Rightarrow> disk \<Rightarrow> disk \<times> (go_error + block_cache)" where
  "OpenBlockCache ft dir limit d =
     (if limit \<le> 0 then (d, Inr \<lparr>bc_dir = '''', bc_limit = 0, bc_size = 0\<rparr>)
      else (case migrateLayout ft d of
              (d1, Some e) \<Rightarrow> (d1, Inl e)
            | (d1, None) \<Rightarrow>
                if ft_mkdir ft [blocksSubdir] then (d1, Inl (ErrMsg ''mkdir blocks''))
                else let d2 = mkdir_all [blocksSubdir] d1
                     in if ft_mkdir ft [listingsSubdir] then (d2, Inl (ErrMsg ''mkdir listings''))
                        else let d3 = mkdir_all [listingsSubdir] d2
                             in (case open_walk ft (dk_now d3) (dk_files d3) 0 d3 of
                                   (d4, Inl e) \<Rightarrow> (d4, Inl e)
                                 | (d4, Inr acc) \<Rightarrow>
                                     (d4, Inr \<lparr>bc_dir = dir, bc_limit = limit, bc_size = acc\<rparr>))))"

section \<open>What the size counts\<close>

definition weight :: "cpath \<Rightarrow> cfile \<Rightarrow> int" where
  "weight p f = (if isTempFile (base_name p) then 0 else cf_size f)"

definition counted :: "(cpath \<times> cfile) list \<Rightarrow> int" where
  "counted fs = (\<Sum>(p, f)\<leftarrow>fs. weight p f)"

definition stored :: "(cpath \<times> cfile) list \<Rightarrow> cpath \<Rightarrow> int" where
  "stored fs p = (case map_of fs p of Some f \<Rightarrow> weight p f | None \<Rightarrow> 0)"

text \<open>The invariant: one file per path, and \<open>c.size\<close> is the bytes of the files that count.\<close>

definition cache_ok :: "block_cache \<times> disk \<Rightarrow> bool" where
  "cache_ok cd \<longleftrightarrow> distinct (map fst (dk_files (snd cd)))
     \<and> (bc_dir (fst cd) = '''' \<or> bc_size (fst cd) = counted (dk_files (snd cd)))"

lemma counted_Cons [simp]: "counted ((p, f) # fs) = weight p f + counted fs"
  by (simp add: counted_def)

lemma counted_Nil [simp]: "counted [] = 0"
  by (simp add: counted_def)

lemma weight_nonneg: "0 \<le> weight p f"
  by (simp add: weight_def cf_size_def)

lemma counted_nonneg: "0 \<le> counted fs"
  by (induction fs) (auto simp: weight_nonneg)

lemma counted_update: "counted (AList.update p f fs) = counted fs - stored fs p + weight p f"
  by (induction fs) (auto simp: stored_def)

lemma counted_delete: "distinct (map fst fs) \<Longrightarrow> counted (AList.delete p fs) = counted fs - stored fs p"
  by (induction fs) (auto simp: stored_def AList.delete_id)

lemma stored_delete_other: "p \<noteq> q \<Longrightarrow> stored (AList.delete q fs) p = stored fs p"
  by (simp add: stored_def)

lemma isTemp_tmp: "isTempFile (x @ y @ ''.tmp'')"
  by (simp add: isTempFile_def suffix_def)

lemma not_temp_json: "\<not> isTempFile (x @ ''.json'')"
  by (auto simp: isTempFile_def suffix_def dest!: arg_cong [where f = rev])

lemma itoa_chars: "c \<in> set (itoa i) \<Longrightarrow> c = CHR ''-'' \<or> (48 \<le> (of_char c :: nat) \<and> (of_char c :: nat) \<le> 57)"
  by (auto simp: itoa_def dest: nat_digits_chars split: if_splits)

lemma not_temp_itoa: "\<not> isTempFile (itoa i)"
proof
  assume "isTempFile (itoa i)"
  then have "CHR ''p'' \<in> set (itoa i)" by (auto simp: isTempFile_def suffix_def)
  then show False using itoa_chars [of "CHR ''p''" i] by simp
qed

lemma temp_path_temp [simp]: "isTempFile (base_name (temp_path dir x y))"
  by (simp add: temp_path_def base_name_def isTemp_tmp)

lemma listingPath_not_temp [simp]: "\<not> isTempFile (base_name (listingPath l))"
  by (simp add: base_name_def listingPath_def not_temp_json)

lemma blockPath_not_temp [simp]: "\<not> isTempFile (base_name (blockPath l r i))"
  by (simp add: base_name_def blockPath_def not_temp_itoa)

lemma block_dir_path: "[blocksSubdir, l, r] @ [itoa i] = blockPath l r i"
  by (simp add: blockPath_def)

lemma removeEmptyParents_files [simp]:
  "dk_files (removeEmptyParents ft n dir d) = dk_files d"
  "dk_now (removeEmptyParents ft n dir d) = dk_now d"
  by (induction ft n dir d rule: removeEmptyParents.induct) auto

lemma mkdir_all_files [simp]: "dk_files (mkdir_all p d) = dk_files d" "dk_now (mkdir_all p d) = dk_now d"
  by (simp_all add: mkdir_all_def)

section \<open>Eviction keeps the count and meets the limit\<close>

definition present :: "(cpath \<times> cfile) list \<Rightarrow> disk \<Rightarrow> bool" where
  "present es d \<longleftrightarrow> distinct (map fst es) \<and>
     (\<forall>(p, f)\<in>set es. map_of (dk_files d) p = Some f \<and> \<not> isTempFile (base_name p))"

lemma present_delete:
  assumes "present ((p, f) # es) d"
  shows "present es (d\<lparr>dk_files := AList.delete p (dk_files d)\<rparr>)"
proof -
  have "q \<noteq> p" if "(q, g) \<in> set es" for q g
    using assms that by (auto simp: present_def rev_image_eqI)
  then show ?thesis using assms
    by (auto simp: present_def AList.delete_conv' split: if_splits)
qed

lemma present_removeEmptyParents [simp]: "present es (removeEmptyParents ft n dir d) = present es d"
  by (simp add: present_def)

lemma present_tl: "present (e # es) d \<Longrightarrow> present es d"
  by (simp add: present_def)

lemma evict_loop_ok:
  "present es d \<Longrightarrow> distinct (map fst (dk_files d)) \<Longrightarrow> bc_size bc = counted (dk_files d)
   \<Longrightarrow> evict_loop ft es (bc, d) = (bc', d')
   \<Longrightarrow> distinct (map fst (dk_files d')) \<and> bc_size bc' = counted (dk_files d')
     \<and> bc_limit bc' = bc_limit bc \<and> bc_dir bc' = bc_dir bc
     \<and> (\<forall>p f. map_of (dk_files d') p = Some f \<longrightarrow> map_of (dk_files d) p = Some f)"
proof (induction ft es "(bc, d)" arbitrary: bc d rule: evict_loop.induct)
  case (2 ft p f es bc d)
  have del: "distinct (map fst (dk_files (dk_delete p d)))"
    using 2(4) by (simp add: dk_delete_def distinct_delete)
  have w: "stored (dk_files d) p = cf_size f"
    using 2(3) by (simp add: present_def stored_def weight_def)
  have cnt: "bc_size bc - cf_size f = counted (dk_files (dk_delete p d))"
    using 2(4,5) w by (simp add: dk_delete_def counted_delete)
  have pres: "present es (removeEmptyParents ft (length p) (butlast p) (dk_delete p d))"
    using present_delete [OF 2(3)] by (simp add: dk_delete_def)
  have mono: "map_of (dk_files (dk_delete p d)) q = Some g \<Longrightarrow> map_of (dk_files d) q = Some g" for q g
    by (cases "q = p") (simp_all add: dk_delete_def AList.delete_conv')
  consider "bc_size bc \<le> bc_limit bc" | "\<not> bc_size bc \<le> bc_limit bc" "ft_remove ft p"
    | "\<not> bc_size bc \<le> bc_limit bc" "\<not> ft_remove ft p" by blast
  then show ?case
  proof cases
    case 1
    then show ?thesis using 2 by auto
  next
    case c: 2
    then show ?thesis using 2(1)[OF c present_tl [OF 2(3)] 2(4,5)] 2(6) by auto
  next
    case c: 3
    have "evict_loop ft es (bc\<lparr>bc_size := bc_size bc - cf_size f\<rparr>,
             removeEmptyParents ft (length p) (butlast p) (dk_delete p d)) = (bc', d')"
      using 2(6) c by simp
    then show ?thesis using 2(2)[OF c pres] del cnt mono by auto
  qed
qed simp

lemma present_evictable:
  assumes "distinct (map fst (dk_files d))"
  shows "present (sort_key k (evictable ft d)) d"
proof -
  have "distinct (map fst (evictable ft d))"
    using assms by (simp add: evictable_def distinct_map_filter)
  then have "distinct (map fst (sort_key k (evictable ft d)))"
    by (simp add: distinct_map)
  then show ?thesis using assms by (auto simp: present_def evictable_def)
qed

lemma evict_ok:
  assumes "distinct (map fst (dk_files d))" "bc_size bc = counted (dk_files d)"
    and "evict ft (bc, d) = (bc', d')"
  shows "distinct (map fst (dk_files d')) \<and> bc_size bc' = counted (dk_files d')
     \<and> bc_limit bc' = bc_limit bc \<and> bc_dir bc' = bc_dir bc
     \<and> (\<forall>p f. map_of (dk_files d') p = Some f \<longrightarrow> map_of (dk_files d) p = Some f)"
  using assms evict_loop_ok [OF present_evictable [OF assms(1)] assms(1,2)]
  by (simp add: evict_def split: if_splits)

text \<open>With no failing removal the files evicted are a prefix of the entries, oldest first.\<close>

lemma evict_loop_prefix:
  "(\<And>p. \<not> ft_remove ft p) \<Longrightarrow> evict_loop ft es (bc, d) = (bc', d') \<Longrightarrow>
     \<exists>n. (\<forall>q. map_of (dk_files d') q
              = (if q \<in> fst ` set (take n es) then None else map_of (dk_files d) q))
       \<and> (bc_size bc' \<le> bc_limit bc' \<or> n = length es)"
proof (induction ft es "(bc, d)" arbitrary: bc d rule: evict_loop.induct)
  case (1 ft bc d)
  then show ?case by simp
next
  case (2 ft p f es bc d)
  show ?case
  proof (cases "bc_size bc \<le> bc_limit bc")
    case True
    then show ?thesis using 2 by (intro exI [of _ 0]) auto
  next
    case False
    have eq: "dk_files (removeEmptyParents ft (length p) (butlast p) (dk_delete p d))
        = dk_files (dk_delete p d)" by simp
    have "evict_loop ft es (bc\<lparr>bc_size := bc_size bc - cf_size f\<rparr>,
             removeEmptyParents ft (length p) (butlast p) (dk_delete p d)) = (bc', d')"
      using 2(3,4) False by simp
    then obtain n where "\<forall>q. map_of (dk_files d') q
              = (if q \<in> fst ` set (take n es) then None else map_of (dk_files (dk_delete p d)) q)"
        "bc_size bc' \<le> bc_limit bc' \<or> n = length es"
      using 2(2)[OF False 2(3) 2(3)] unfolding eq by blast
    then show ?thesis
      by (intro exI [of _ "Suc n"]) (auto simp: dk_delete_def AList.delete_conv')
  qed
qed

lemma counted_eq_0: "(\<And>p f. (p, f) \<in> set fs \<Longrightarrow> isTempFile (base_name p)) \<Longrightarrow> counted fs = 0"
  by (induction fs) (force simp: weight_def)+

lemma evict_meets_limit:
  assumes ok: "distinct (map fst (dk_files d))" "bc_size bc = counted (dk_files d)"
    and faults: "\<And>p. \<not> ft_remove ft p" "\<And>p. ft_walk ft p = None"
    and lim: "0 \<le> bc_limit bc" and ev: "evict ft (bc, d) = (bc', d')"
  shows "bc_size bc' \<le> bc_limit bc'"
proof (cases "bc_size bc \<le> bc_limit bc")
  case True
  then show ?thesis using ev by (simp add: evict_def)
next
  case False
  let ?es = "sort_key (\<lambda>(p, f). cf_mtime f) (evictable ft d)"
  have loop: "evict_loop ft ?es (bc, d) = (bc', d')" using False ev by (simp add: evict_def)
  note e = evict_ok [OF ok ev]
  obtain n where n: "\<forall>q. map_of (dk_files d') q
              = (if q \<in> fst ` set (take n ?es) then None else map_of (dk_files d) q)"
        "bc_size bc' \<le> bc_limit bc' \<or> n = length ?es"
    using evict_loop_prefix [OF faults(1) loop] by blast
  show ?thesis
  proof (rule ccontr)
    assume c: "\<not> ?thesis"
    then have "n = length ?es" using n by blast
    then have n: "\<forall>q. map_of (dk_files d') q
        = (if q \<in> fst ` set (evictable ft d) then None else map_of (dk_files d) q)"
      using n by simp
    have "isTempFile (base_name p)" if "(p, f) \<in> set (dk_files d')" for p f
    proof (rule ccontr)
      assume t: "\<not> isTempFile (base_name p)"
      have m: "map_of (dk_files d') p = Some f" using that e by simp
      then have "(p, f) \<in> set (dk_files d)" using e by (meson map_of_SomeD)
      then have "(p, f) \<in> set (evictable ft d)" using t faults by (simp add: evictable_def)
      then show False using n m by (metis fst_conv image_eqI option.distinct(1))
    qed
    then have "counted (dk_files d') = 0" by (rule counted_eq_0)
    then show False using c e lim by simp
  qed
qed

lemma evict_oldest_first:
  assumes faults: "\<And>p. \<not> ft_remove ft p" "\<And>p. ft_walk ft p = None"
    and d: "distinct (map fst (dk_files d))" and ev: "evict ft (bc, d) = (bc', d')"
    and gone: "map_of (dk_files d) p = Some f" "map_of (dk_files d') p = None"
    and kept: "map_of (dk_files d') q = Some g" "\<not> isTempFile (base_name q)"
  shows "cf_mtime f \<le> cf_mtime g"
proof -
  let ?es = "sort_key (\<lambda>(p, f). cf_mtime f) (evictable ft d)"
  have "\<not> bc_size bc \<le> bc_limit bc"
    using ev gone by (auto simp: evict_def)
  then have loop: "evict_loop ft ?es (bc, d) = (bc', d')" using ev by (simp add: evict_def)
  obtain n where n: "\<forall>q. map_of (dk_files d') q
              = (if q \<in> fst ` set (take n ?es) then None else map_of (dk_files d) q)"
    using evict_loop_prefix [OF faults(1) loop] by blast
  then have p: "p \<in> fst ` set (take n ?es)" using gone by (metis option.distinct(1))
  have q: "q \<notin> fst ` set (take n ?es)" "map_of (dk_files d) q = Some g"
    using n kept by (auto split: if_splits)
  have pf: "(p, f) \<in> set (take n ?es)"
  proof -
    obtain f' where f': "(p, f') \<in> set (take n ?es)" using p by auto
    then have "(p, f') \<in> set (dk_files d)" by (auto dest: in_set_takeD simp: evictable_def)
    then show ?thesis using f' gone d by simp
  qed
  have "(q, g) \<in> set ?es" using q kept faults by (auto simp: evictable_def dest: map_of_SomeD)
  then have "(q, g) \<in> set (take n ?es) \<or> (q, g) \<in> set (drop n ?es)"
    by (metis append_take_drop_id Un_iff set_append)
  then have qg: "(q, g) \<in> set (drop n ?es)" using q(1) by (metis fst_conv image_eqI)
  have "sorted (map (\<lambda>(p, f). cf_mtime f) (take n ?es @ drop n ?es))" by simp
  then show ?thesis using pf qg unfolding map_append sorted_append by fastforce
qed

section \<open>Writes keep the count\<close>

lemma old_size_stored: "\<not> isTempFile (base_name p) \<Longrightarrow> old_size d p = stored (dk_files d) p"
  by (simp add: old_size_def stored_def dk_stat_def weight_def split: option.split)

lemma stored_temp: "isTempFile (base_name p) \<Longrightarrow> stored fs p = 0"
  by (simp add: stored_def weight_def split: option.split)

lemma dk_rename_ok:
  assumes "distinct (map fst (dk_files d))" "map_of (dk_files d) tmp = Some f"
    and "isTempFile (base_name tmp)" "\<not> isTempFile (base_name path)"
  shows "distinct (map fst (dk_files (dk_rename tmp path d)))
    \<and> counted (dk_files (dk_rename tmp path d)) = counted (dk_files d) + (cf_size f - old_size d path)"
proof -
  have "path \<noteq> tmp" using assms by auto
  then have "stored (AList.delete tmp (dk_files d)) path = old_size d path"
    using assms by (simp add: old_size_stored stored_delete_other)
  then show ?thesis using assms
    by (simp add: dk_rename_def dk_stat_def distinct_update distinct_delete counted_update
        counted_delete stored_temp weight_def)
qed

lemma dk_write_temp_ok:
  assumes "distinct (map fst (dk_files d))" "isTempFile (base_name tmp)"
  shows "distinct (map fst (dk_files (dk_write tmp data d)))
    \<and> counted (dk_files (dk_write tmp data d)) = counted (dk_files d)
    \<and> map_of (dk_files (dk_write tmp data d)) tmp = Some \<lparr>cf_data = data, cf_mtime = dk_now d\<rparr>"
  using assms
  by (simp add: dk_write_def distinct_update counted_update stored_temp weight_def AList.update_conv')

lemma dk_delete_temp_ok:
  assumes "distinct (map fst (dk_files d))" "isTempFile (base_name tmp)"
  shows "distinct (map fst (dk_files (dk_delete tmp d)))
    \<and> counted (dk_files (dk_delete tmp d)) = counted (dk_files d)"
  using assms by (simp add: dk_delete_def distinct_delete counted_delete stored_temp)

lemma evict_cache_ok: "cache_ok cd \<Longrightarrow> bc_dir (fst cd) \<noteq> '''' \<Longrightarrow> cache_ok (evict ft cd)"
proof -
  assume a: "cache_ok cd" "bc_dir (fst cd) \<noteq> ''''"
  obtain bc d where cd: "cd = (bc, d)" by (cases cd)
  obtain bc' d' where ev: "evict ft (bc, d) = (bc', d')" by (cases "evict ft (bc, d)")
  show ?thesis using evict_ok [OF _ _ ev] a cd ev by (simp add: cache_ok_def)
qed

lemma dk_touch_ok:
  assumes "distinct (map fst (dk_files d))"
  shows "distinct (map fst (dk_files (dk_touch p d))) \<and> counted (dk_files (dk_touch p d)) = counted (dk_files d)"
proof (cases "dk_stat d p")
  case None
  then show ?thesis using assms by (simp add: dk_touch_def)
next
  case (Some f)
  then have "stored (dk_files d) p = weight p (f\<lparr>cf_mtime := dk_now d\<rparr>)"
    by (simp add: stored_def dk_stat_def weight_def cf_size_def)
  then show ?thesis using assms Some
    by (simp add: dk_touch_def distinct_update counted_update)
qed

text \<open>The steps \<open>Put\<close> and \<open>PutListing\<close> share: the temporary file, dropping it, or the rename into
  place with its count.\<close>

lemma temp_steps_ok:
  fixes data :: bytes
  assumes ok: "cache_ok (bc, d)" and t: "isTempFile (base_name tmp)" "\<not> isTempFile (base_name path)"
  defines "d1 \<equiv> dk_write tmp data d"
  shows "cache_ok (bc, d1) \<and> cache_ok (bc, dk_delete tmp d1)
    \<and> (bc_dir bc \<noteq> '''' \<longrightarrow>
        cache_ok (bc\<lparr>bc_size := bc_size bc + (int (length data) - old_size d1 path)\<rparr>, dk_rename tmp path d1))"
proof -
  have w: "distinct (map fst (dk_files d1)) \<and> counted (dk_files d1) = counted (dk_files d)
      \<and> map_of (dk_files d1) tmp = Some \<lparr>cf_data = data, cf_mtime = dk_now d\<rparr>"
    unfolding d1_def using ok t(1) by (intro dk_write_temp_ok) (simp_all add: cache_ok_def)
  then show ?thesis
    using ok dk_rename_ok [OF _ _ t, of d1 "\<lparr>cf_data = data, cf_mtime = dk_now d\<rparr>"]
      dk_delete_temp_ok [OF _ t(1), of d1]
    by (auto simp: cache_ok_def cf_size_def)
qed

lemma cache_ok_mkdir [simp]: "cache_ok (bc, mkdir_all p d) = cache_ok (bc, d)"
  by (simp add: cache_ok_def)

lemma Put_ok:
  assumes "cache_ok cd"
  shows "cache_ok (Put ft rnd l r i data cd)"
proof -
  obtain bc d where cd: "cd = (bc, d)" by (cases cd)
  let ?d = "mkdir_all [blocksSubdir, l, r] d"
  note steps = temp_steps_ok [of bc ?d "temp_path [blocksSubdir, l, r] ''block-'' rnd" "blockPath l r i" data]
  show ?thesis
    using assms cd steps evict_cache_ok
    by (simp add: Put_def writeTemp_def Let_def block_dir_path del: append.simps)
qed

lemma PutListing_ok:
  assumes "cache_ok cd"
  shows "cache_ok (PutListing ft encode rnd l es cd)"
proof -
  obtain bc d where cd: "cd = (bc, d)" by (cases cd)
  let ?d = "mkdir_all [listingsSubdir] d"
  note steps = temp_steps_ok [of bc ?d "temp_path [listingsSubdir] ''listing-'' rnd" "listingPath l"]
  show ?thesis
    using assms cd steps evict_cache_ok
    by (simp add: PutListing_def put_listing_stat_def put_listing_rename_def put_listing_count_def
        writeTemp_def Let_def split: option.split)
qed

lemma Get_ok: "cache_ok cd \<Longrightarrow> cache_ok (fst (Get ft l r i cd))"
  using dk_touch_ok by (auto simp: Get_def Let_def cache_ok_def split: prod.split option.split)

lemma GetListing_ok: "cache_ok cd \<Longrightarrow> cache_ok (fst (GetListing ft decode l cd))"
  using dk_touch_ok by (auto simp: GetListing_def Let_def cache_ok_def split: prod.split option.split)

section \<open>What a lookup can return\<close>

definition holds :: "disk \<Rightarrow> cpath \<Rightarrow> bytes option" where
  "holds d p = map_option cf_data (dk_stat d p)"

lemma evict_loop_mono:
  "evict_loop ft es (bc, d) = (bc', d') \<Longrightarrow> map_of (dk_files d') p = Some f \<Longrightarrow> map_of (dk_files d) p = Some f"
proof (induction ft es "(bc, d)" arbitrary: bc d rule: evict_loop.induct)
  case (2 ft q g es bc d)
  have step: "map_of (dk_files (dk_delete q d)) p = Some f \<Longrightarrow> map_of (dk_files d) p = Some f"
    by (cases "p = q") (simp_all add: dk_delete_def AList.delete_conv')
  show ?case using 2(1)[OF _ _ _ 2(4)] 2(2)[OF _ _ _ 2(4)] 2(3,4) step
    by (cases "bc_size bc \<le> bc_limit bc"; cases "ft_remove ft q") auto
qed simp

lemma evict_mono: "evict ft (bc, d) = (bc', d') \<Longrightarrow> holds d' p = Some v \<Longrightarrow> holds d p = Some v"
  using evict_loop_mono by (fastforce simp: evict_def holds_def dk_stat_def split: if_splits)

lemma holds_touch [simp]: "holds (dk_touch p d) q = holds d q"
  by (auto simp: dk_touch_def holds_def dk_stat_def AList.update_conv' split: option.split)

lemma holds_mkdir [simp]: "holds (mkdir_all p d) q = holds d q"
  by (simp add: holds_def dk_stat_def)

lemma holds_write_other: "q \<noteq> p \<Longrightarrow> holds (dk_write p data d) q = holds d q"
  by (simp add: holds_def dk_stat_def dk_write_def AList.update_conv')

lemma holds_delete: "holds (dk_delete p d) q = (if q = p then None else holds d q)"
  by (simp add: holds_def dk_stat_def dk_delete_def AList.delete_conv')

lemma holds_rename:
  "holds (dk_rename tmp path (dk_write tmp data d)) q
     = (if q = path then Some data else if q = tmp then None else holds d q)"
  by (simp add: holds_def dk_stat_def dk_rename_def dk_write_def AList.update_conv' AList.delete_conv')

lemma temp_not_final: "\<not> isTempFile (base_name q) \<Longrightarrow> q \<noteq> temp_path dir x y"
  using temp_path_temp by metis

lemma temp_steps_holds:
  assumes t: "q \<noteq> tmp" and v: "holds d' q = Some v"
    and r: "d' = d \<or> d' = mkdir_all dir d \<or> d' = dk_delete tmp (dk_write tmp data (mkdir_all dir d))
      \<or> (\<exists>bc bc'. evict ft (bc, dk_rename tmp path (dk_write tmp data (mkdir_all dir d))) = (bc', d'))"
  shows "(q = path \<and> v = data) \<or> holds d q = Some v"
proof -
  have "(q = path \<and> v = data) \<or> holds d q = Some v"
    if "evict ft (bc, dk_rename tmp path (dk_write tmp data (mkdir_all dir d))) = (bc', d')" for bc bc'
    using evict_mono [OF that v] t by (auto simp: holds_rename split: if_splits)
  then show ?thesis using r t v by (auto simp: holds_delete holds_write_other)
qed

lemma Put_holds:
  assumes "Put ft rnd l r i data (bc, d) = (bc', d')" "\<not> isTempFile (base_name q)" "holds d' q = Some v"
  shows "(q = blockPath l r i \<and> v = data) \<or> holds d q = Some v"
proof -
  let ?dir = "[blocksSubdir, l, r]"
  let ?tmp = "temp_path ?dir ''block-'' rnd"
  have "d' = d \<or> d' = mkdir_all ?dir d \<or> d' = dk_delete ?tmp (dk_write ?tmp data (mkdir_all ?dir d))
      \<or> (\<exists>bc bc'. evict ft (bc, dk_rename ?tmp (blockPath l r i) (dk_write ?tmp data (mkdir_all ?dir d))) = (bc', d'))"
    using assms(1)
    by (auto simp: Put_def writeTemp_def Let_def block_dir_path simp del: append.simps split: if_splits)
  then show ?thesis using temp_steps_holds [OF temp_not_final [OF assms(2)] assms(3)] by blast
qed

lemma PutListing_holds:
  assumes "PutListing ft encode rnd l es (bc, d) = (bc', d')" "\<not> isTempFile (base_name q)" "holds d' q = Some v"
  shows "(q = listingPath l \<and> encode es = Some v) \<or> holds d q = Some v"
proof (cases "encode es")
  case None
  then show ?thesis using assms by (auto simp: PutListing_def split: if_splits)
next
  case (Some data)
  let ?dir = "[listingsSubdir]"
  let ?tmp = "temp_path ?dir ''listing-'' rnd"
  have "d' = d \<or> d' = mkdir_all ?dir d \<or> d' = dk_delete ?tmp (dk_write ?tmp data (mkdir_all ?dir d))
      \<or> (\<exists>bc bc'. evict ft (bc, dk_rename ?tmp (listingPath l) (dk_write ?tmp data (mkdir_all ?dir d))) = (bc', d'))"
    using assms(1) Some
    by (auto simp: PutListing_def put_listing_stat_def put_listing_rename_def writeTemp_def Let_def
        split: if_splits)
  then show ?thesis using temp_steps_holds [OF temp_not_final [OF assms(2)] assms(3)] Some by blast
qed

lemma itoa_inj: "itoa i = itoa j \<Longrightarrow> i = j"
proof -
  have hd_digit: "nat_digits n \<noteq> CHR ''-'' # cs" for n cs
    using nat_digits_chars [of "CHR ''-''" n] by auto
  have nat_inj: "nat_digits m = nat_digits n \<Longrightarrow> m = n" for m n
    by (metis option.inject parse_nat_digits)
  assume "itoa i = itoa j"
  then show ?thesis using hd_digit nat_inj [of "nat (- i)" "nat (- j)"] nat_inj [of "nat i" "nat j"]
    by (auto simp: itoa_def split: if_splits dest: sym)
qed

lemma blockPath_inj: "blockPath l r i = blockPath l' r' i' \<longleftrightarrow> l = l' \<and> r = r' \<and> i = i'"
  using itoa_inj by (auto simp: blockPath_def)

text \<open>Both kinds of entry, as stores keyed by what the callers name them with.\<close>

definition block_get :: "faults \<Rightarrow> block_cache \<times> disk \<Rightarrow> string \<times> string \<times> int \<Rightarrow> (block_cache \<times> disk) \<times> bytes option" where
  "block_get ft cd k = (case k of (l, r, i) \<Rightarrow> Get ft l r i cd)"

definition block_put :: "faults \<Rightarrow> string \<Rightarrow> block_cache \<times> disk \<Rightarrow> string \<times> string \<times> int \<Rightarrow> bytes \<Rightarrow> block_cache \<times> disk" where
  "block_put ft rnd cd k data = (case k of (l, r, i) \<Rightarrow> Put ft rnd l r i data cd)"

lemma block_get_hit:
  "snd (block_get ft (bc, d) (l, r, i)) = Some v
     \<longleftrightarrow> bc_dir bc \<noteq> '''' \<and> \<not> ft_read ft (blockPath l r i) \<and> holds d (blockPath l r i) = Some v"
  by (auto simp: block_get_def Get_def Let_def holds_def split: option.split)

lemma block_get_state: "fst (block_get ft (bc, d) k) \<in> {(bc, d)} \<union> range (\<lambda>p. (bc, dk_touch p d))"
  by (auto simp: block_get_def Get_def Let_def split: prod.split option.split)

lemma Put_dir: "bc_dir (fst (Put ft rnd l r i data cd)) = bc_dir (fst cd)"
proof -
  have "bc_dir (fst (evict_loop ft es x)) = bc_dir (fst x)" for es x
    by (induction ft es x rule: evict_loop.induct) auto
  then have "bc_dir (fst (evict ft x)) = bc_dir (fst x)" for x
    by (auto simp: evict_def split: prod.split)
  then show ?thesis
    by (auto simp: Put_def writeTemp_def Let_def split: prod.split)
qed

interpretation disk_blocks: lossy_store "block_get ft" "block_put ft rnd" for ft rnd
proof (unfold_locales, goal_cases)
  case (1 s k v k' w)
  obtain bc d where s: "s = (bc, d)" by (cases s)
  obtain l r i where k: "k = (l, r, i)" by (cases k)
  obtain l' r' i' where k': "k' = (l', r', i')" by (cases k')
  obtain bc' d' where p: "Put ft rnd l r i v (bc, d) = (bc', d')"
    by (cases "Put ft rnd l r i v (bc, d)")
  have dir: "bc_dir bc' = bc_dir bc" using Put_dir [of ft rnd l r i v "(bc, d)"] p by simp
  show ?case
    using 1 Put_holds [OF p blockPath_not_temp] dir p
    by (auto simp: s k k' block_get_hit block_put_def blockPath_inj)
next
  case (2 s k k' w)
  obtain bc d where s: "s = (bc, d)" by (cases s)
  obtain l' r' i' where k': "k' = (l', r', i')" by (cases k')
  show ?case
    using 2 block_get_state [of ft bc d k]
    by (cases "fst (block_get ft (bc, d) k)") (auto simp: s k' block_get_hit)
qed

section \<open>Opening and migrating\<close>

lemma open_walk_ok:
  assumes "\<And>p. ft_walk ft p = None"
  shows "distinct (map fst (dk_files d)) \<Longrightarrow> open_walk ft now es acc d = (d', r) \<Longrightarrow>
     distinct (map fst (dk_files d')) \<and> counted (dk_files d') = counted (dk_files d)
     \<and> r = Inr (acc + counted es)"
proof (induction es arbitrary: acc d)
  case (Cons pf es)
  obtain p f where pf: "pf = (p, f)" by (cases pf)
  show ?case
  proof (cases "isTempFile (base_name p)")
    case True
    then show ?thesis
      using Cons.IH [of "dk_delete p d" acc] Cons.IH [of d acc] Cons.prems dk_delete_temp_ok [OF Cons.prems(1) True]
      by (auto simp: pf assms weight_def split: if_splits)
  next
    case False
    then show ?thesis using Cons.IH [of d "acc + cf_size f"] Cons.prems
      by (simp add: pf assms weight_def)
  qed
qed simp

definition demo_file :: "nanos \<Rightarrow> cfile" where
  "demo_file t = \<lparr>cf_data = [1, 2, 3, 4], cf_mtime = t\<rparr>"

definition demo_disk :: disk where
  "demo_disk = \<lparr>dk_files = [([''blocks'', ''a'', ''r'', ''1''], demo_file 1),
                            ([''blocks'', ''b'', ''r'', ''1''], demo_file 2)],
                dk_dirs = [[''blocks''], [''blocks'', ''a''], [''blocks'', ''a'', ''r''],
                           [''blocks'', ''b''], [''blocks'', ''b'', ''r''], [''listings'']],
                dk_now = 9\<rparr>"

definition demo_cache :: "int \<Rightarrow> block_cache" where
  "demo_cache limit = \<lparr>bc_dir = ''c'', bc_limit = limit, bc_size = 8\<rparr>"

section \<open>Properties\<close>





text \<open>Eviction is least recently used across blocks and listings: a file it removed is no newer
  than any countable file it kept.\<close>

theorem evict_is_lru:
  assumes "\<And>p. \<not> ft_remove ft p" "\<And>p. ft_walk ft p = None"
    and "distinct (map fst (dk_files d))" "evict ft (bc, d) = (bc', d')"
    and "dk_stat d p = Some f" "dk_stat d' p = None"
    and "dk_stat d' q = Some g" "\<not> isTempFile (base_name q)"
  shows "cf_mtime f \<le> cf_mtime g"
  using evict_oldest_first [OF assms(1-4)] assms(5-8) by (simp add: dk_stat_def)

theorem evict_is_lru_witness:
  "cf_mtime (demo_file 1) \<le> cf_mtime (demo_file 2)"
proof (rule evict_is_lru [where ft = no_faults and d = demo_disk and bc = "demo_cache 5"
      and bc' = "fst (evict no_faults (demo_cache 5, demo_disk))"
      and d' = "snd (evict no_faults (demo_cache 5, demo_disk))"
      and p = "[''blocks'', ''a'', ''r'', ''1'']" and q = "[''blocks'', ''b'', ''r'', ''1'']"])
qed (simp_all add: no_faults_def demo_disk_def demo_cache_def demo_file_def evict_def evictable_def
      dk_stat_def isTempFile_def base_name_def suffix_def dk_delete_def cf_size_def)

text \<open>Opening a cache already in the current layout measures exactly the bytes its files hold,
  leaving temporary files out.\<close>

theorem OpenBlockCache_measures:
  assumes "[blocksSubdir] \<in> set (dk_dirs d)" "distinct (map fst (dk_files d))" "0 < limit"
    and "\<And>p. ft_walk ft p = None"
    and "OpenBlockCache ft dir limit d = (d', Inr bc)"
  shows "cache_ok (bc, d') \<and> bc_limit bc = limit \<and> bc_size bc = counted (dk_files d)"
proof -
  let ?d3 = "mkdir_all [listingsSubdir] (mkdir_all [blocksSubdir] d)"
  obtain d4 r where w: "open_walk ft (dk_now ?d3) (dk_files ?d3) 0 ?d3 = (d4, r)"
    by (cases "open_walk ft (dk_now ?d3) (dk_files ?d3) 0 ?d3")
  have r: "distinct (map fst (dk_files d4)) \<and> counted (dk_files d4) = counted (dk_files d)
     \<and> r = Inr (counted (dk_files d))"
    using open_walk_ok [OF assms(4) _ w] assms(2) by simp
  then have "d' = d4 \<and> bc = \<lparr>bc_dir = dir, bc_limit = limit, bc_size = counted (dk_files d)\<rparr>"
    using assms(1,3,5) w by (simp add: OpenBlockCache_def migrateLayout_def Let_def split: if_splits)
  then show ?thesis using r by (simp add: cache_ok_def)
qed

theorem OpenBlockCache_measures_witness:
  "\<exists>bc d'. OpenBlockCache no_faults ''c'' 100 demo_disk = (d', Inr bc) \<and> cache_ok (bc, d') \<and> bc_size bc = 8"
proof -
  have e: "\<exists>bc d'. OpenBlockCache no_faults ''c'' 100 demo_disk = (d', Inr bc)"
    by (simp add: OpenBlockCache_def migrateLayout_def demo_disk_def blocksSubdir_def no_faults_def Let_def
        mkdir_all_def isTempFile_def base_name_def suffix_def)
  then obtain bc d' where o: "OpenBlockCache no_faults ''c'' 100 demo_disk = (d', Inr bc)" by blast
  have "cache_ok (bc, d') \<and> bc_limit bc = 100 \<and> bc_size bc = counted (dk_files demo_disk)"
    by (rule OpenBlockCache_measures [OF _ _ _ _ o]) (simp_all add: demo_disk_def blocksSubdir_def no_faults_def)
  moreover have "counted (dk_files demo_disk) = 8"
    by (simp add: demo_disk_def counted_def weight_def cf_size_def demo_file_def isTempFile_def
        base_name_def suffix_def)
  ultimately show ?thesis using o by auto
qed

lemma migrate_entries_stuck:
  "migrating \<in> set es \<Longrightarrow> snd (migrate_entries ft es d) \<noteq> None"
  by (induction es arbitrary: d) auto

text \<open>A migration cut short (the process stopped between two renames) is never finished: with
  \<open>blocks.migrating\<close> left in the root and no \<open>blocks\<close>, every later \<open>OpenBlockCache\<close> fails.\<close>

theorem interrupted_migration_is_stuck:
  assumes "[blocksSubdir] \<notin> set (dk_dirs d)" "[migrating] \<in> set (dk_dirs d)" "0 < limit"
  shows "\<exists>d' e. OpenBlockCache ft dir limit d = (d', Inl e)"
proof -
  have "[migrating] \<in> set (filter (\<lambda>p. p \<noteq> []) (map fst (dk_files d) @ dk_dirs d))"
    using assms by simp
  then have r: "migrating \<in> set (root_entries d)"
    unfolding root_entries_def by (metis list.sel(1) image_eqI set_map set_remdups set_sort)
  then have "snd (migrateLayout ft d) \<noteq> None"
    using assms(1) migrate_entries_stuck [OF r, of ft "mkdir_all [migrating] d"]
    by (auto simp: migrateLayout_def Let_def split: prod.split option.split)
  then show ?thesis using assms(3)
    by (cases "migrateLayout ft d") (auto simp: OpenBlockCache_def)
qed

definition half_migrated :: disk where
  "half_migrated = \<lparr>dk_files = [([''a'', ''r'', ''1''], demo_file 1)],
                    dk_dirs = [[''a''], [''a'', ''r''], [''blocks.migrating'']], dk_now = 9\<rparr>"

theorem interrupted_migration_is_stuck_witness:
  "\<exists>d' e. OpenBlockCache no_faults ''c'' 100 half_migrated = (d', Inl e)"
  by (rule interrupted_migration_is_stuck)
    (simp_all add: half_migrated_def blocksSubdir_def migrating_def)

definition demo_listing_disk :: disk where
  "demo_listing_disk = \<lparr>dk_files = [(listingPath ''d'', demo_file 1)], dk_dirs = [[''listings'']], dk_now = 9\<rparr>"

text \<open>\<open>PutListing\<close> stats, renames and counts outside one critical section. An eviction by another
  goroutine between the stat and the count subtracts the replaced listing a second time, and
  \<open>c.size\<close> ends up below the bytes on disk; run in one piece the count is exact.\<close>

theorem PutListing_race:
  "\<exists>d1 tmp old bc2 d2 d3 bc3.
     put_listing_stat no_faults ''x'' ''d'' [1, 2] demo_listing_disk = (d1, Some (tmp, old))
     \<and> evict no_faults (\<lparr>bc_dir = ''c'', bc_limit = 3, bc_size = 4\<rparr>, d1) = (bc2, d2)
     \<and> put_listing_rename no_faults ''d'' tmp d2 = (d3, True)
     \<and> put_listing_count [1, 2] old bc2 = bc3
     \<and> cache_ok (\<lparr>bc_dir = ''c'', bc_limit = 3, bc_size = 4\<rparr>, d1)
     \<and> bc_size bc3 = counted (dk_files d3) - 4"
  by (simp add: put_listing_stat_def writeTemp_def put_listing_rename_def put_listing_count_def
      demo_listing_disk_def demo_file_def no_faults_def evict_def evictable_def isTempFile_def base_name_def
      suffix_def listingPath_def listingsSubdir_def blocksSubdir_def temp_path_def dk_write_def dk_stat_def
      dk_rename_def dk_delete_def old_size_def cf_size_def mkdir_all_def Let_def counted_def weight_def
      cache_ok_def strict_prefix_def)

end
