(* ===== verification/Drive_Node.thy ===== *)
theory Drive_Node
  imports Block_Cache
begin

text \<open>
  Nodes of the drive tree and how they are made (internal/drive/drive.go): opening the primary
  share, listing children, decrypting names, unlocking keyrings and resolving attributes on first
  use, and the persisted listing.

  go-proton-api and gopenpgp are not under src/: what they answer is a parameter (\<open>api\<close>, and the
  functions \<open>getKeyRing\<close>, \<open>getName\<close>, \<open>decryptXAttr\<close>). A keyring is an opaque value. \<open>time.Time\<close>
  is nanoseconds since the epoch.
\<close>

section \<open>Links and nodes\<close>

datatype link_type = LinkTypeFolder | LinkTypeFile

datatype link_state = LinkStateDraft | LinkStateActive | LinkStateTrashed | LinkStateDeleted

type_synonym keyring = nat

record revision_meta =
  rv_id :: string
  rv_xattr :: string
  rv_thumbnail :: bool

record link =
  lk_id :: string
  lk_parent :: string
  lk_type :: link_type
  lk_state :: link_state
  lk_name :: string
  lk_hash :: string
  lk_size :: int
  lk_modify :: int
  lk_mime :: string
  lk_file :: "revision_meta option"

record node =
  nd_link :: link
  nd_name :: string
  nd_parentKR :: keyring
  nd_kr :: "keyring option"
  nd_attrsKnown :: bool
  nd_size :: int
  nd_modTime :: nanos

record xattr_common =
  xa_size :: int
  xa_mtime :: string

text \<open>What the crypto library answers, per call.\<close>

record crypto =
  cr_getKeyRing :: "link \<Rightarrow> keyring \<Rightarrow> go_error + keyring"
  cr_getName :: "link \<Rightarrow> keyring \<Rightarrow> go_error + string"
  cr_decryptXAttr :: "keyring \<Rightarrow> string \<Rightarrow> go_error + bytes"
  cr_parseXAttr :: "bytes \<Rightarrow> go_error + xattr_common"
  cr_parseTime :: "string \<Rightarrow> nanos option"

definition isFileLink :: "link \<Rightarrow> bool" where
  "isFileLink l \<longleftrightarrow> lk_type l = LinkTypeFile \<and> lk_file l \<noteq> None"

definition IsDir :: "node \<Rightarrow> bool" where
  "IsDir n \<longleftrightarrow> lk_type (nd_link n) = LinkTypeFolder"

definition unix_time :: "int \<Rightarrow> nanos" where
  "unix_time s = seconds s"

definition newNode :: "link \<Rightarrow> string \<Rightarrow> keyring \<Rightarrow> node" where
  "newNode l name parentKR =
     \<lparr>nd_link = l, nd_name = name, nd_parentKR = parentKR, nd_kr = None, nd_attrsKnown = False,
      nd_size = lk_size l, nd_modTime = unix_time (lk_modify l)\<rparr>"

text \<open>\<open>Keyring\<close>: cached on success, never on failure.\<close>

definition Keyring :: "crypto \<Rightarrow> node \<Rightarrow> node \<times> (go_error + keyring)" where
  "Keyring cr n =
     (case nd_kr n of
        Some kr \<Rightarrow> (n, Inr kr)
      | None \<Rightarrow> (case cr_getKeyRing cr (nd_link n) (nd_parentKR n) of
                   Inl e \<Rightarrow> (n, Inl e)
                 | Inr kr \<Rightarrow> (n\<lparr>nd_kr := Some kr\<rparr>, Inr kr)))"

definition SetPlaintextSize :: "int \<Rightarrow> node \<Rightarrow> node" where
  "SetPlaintextSize sz n = n\<lparr>nd_size := sz, nd_attrsKnown := True\<rparr>"

definition inheritAttrs :: "node \<Rightarrow> node \<Rightarrow> node" where
  "inheritAttrs src n =
     n\<lparr>nd_size := nd_size src, nd_modTime := nd_modTime src, nd_attrsKnown := nd_attrsKnown src\<rparr>"

definition decryptXAttr :: "crypto \<Rightarrow> keyring \<Rightarrow> string \<Rightarrow> go_error + xattr_common" where
  "decryptXAttr cr kr armored =
     (if armored = '''' then Inr \<lparr>xa_size = 0, xa_mtime = ''''\<rparr>
      else (case cr_decryptXAttr cr kr armored of
              Inl e \<Rightarrow> Inl e
            | Inr plain \<Rightarrow> cr_parseXAttr cr plain))"

definition resolveFileAttrs :: "crypto \<Rightarrow> link \<Rightarrow> keyring \<Rightarrow> int \<times> nanos \<times> bool" where
  "resolveFileAttrs cr l kr =
     (let sz = lk_size l; modTime = unix_time (lk_modify l)
      in case (lk_type l, lk_file l) of
           (LinkTypeFile, Some rm) \<Rightarrow>
             (case decryptXAttr cr kr (rv_xattr rm) of
                Inl e \<Rightarrow> (sz, modTime, False)
              | Inr common \<Rightarrow>
                  ((if 0 < xa_size common then xa_size common else sz),
                   (case cr_parseTime cr (xa_mtime common) of Some t \<Rightarrow> t | None \<Rightarrow> modTime),
                   0 < xa_size common))
         | _ \<Rightarrow> (sz, modTime, False))"

definition ResolveAttrs :: "crypto \<Rightarrow> node \<Rightarrow> node" where
  "ResolveAttrs cr n =
     (if nd_attrsKnown n \<or> \<not> isFileLink (nd_link n) then n
      else (case Keyring cr n of
              (n1, Inl e) \<Rightarrow> n1
            | (n1, Inr kr) \<Rightarrow>
                (case resolveFileAttrs cr (nd_link n1) kr of
                   (sz, modTime, resolved) \<Rightarrow>
                     n1\<lparr>nd_size := sz, nd_modTime := modTime, nd_attrsKnown := resolved\<rparr>)))"

section \<open>Opening the primary share\<close>

record share_meta =
  sm_id :: string
  sm_volume :: string
  sm_primary :: bool

record share =
  sh_link :: string
  sh_address :: string
  sh_keyring :: "keyring \<Rightarrow> go_error + keyring"

record address =
  ad_id :: string
  ad_email :: string

record keys =
  ks_merged :: keyring
  ks_addresses :: "address list"
  ks_byAddressID :: "string \<Rightarrow> keyring option"

record api =
  ap_listShares :: "go_error + share_meta list"
  ap_getShare :: "string \<Rightarrow> go_error + share"
  ap_getLink :: "string \<Rightarrow> string \<Rightarrow> go_error + link"
  ap_listChildren :: "string \<Rightarrow> string \<Rightarrow> go_error + link list"

record client =
  cl_addrKR :: keyring
  cl_signKR :: keyring
  cl_signEmail :: string
  cl_addressID :: string
  cl_shareID :: string
  cl_volumeID :: string

definition resolveSigner :: "keys \<Rightarrow> string \<Rightarrow> go_error + (string \<times> keyring)" where
  "resolveSigner ks addressID =
     (case List.find (\<lambda>a. ad_id a = addressID) (ks_addresses ks) of
        None \<Rightarrow> Inl (ErrMsg ''no address found for share's address id'')
      | Some a \<Rightarrow> (case ks_byAddressID ks addressID of
                     None \<Rightarrow> Inl (ErrMsg ''no unlocked keyring for share's address'')
                   | Some kr \<Rightarrow> Inr (ad_email a, kr)))"

definition Open :: "crypto \<Rightarrow> api \<Rightarrow> keys \<Rightarrow> go_error + (client \<times> node)" where
  "Open cr ap ks =
     (case ap_listShares ap of
        Inl e \<Rightarrow> Inl e
      | Inr shares \<Rightarrow>
          (let primary = List.find sm_primary shares;
               shareID = (case primary of Some s \<Rightarrow> sm_id s | None \<Rightarrow> '''');
               volumeID = (case primary of Some s \<Rightarrow> sm_volume s | None \<Rightarrow> '''')
           in if shareID = '''' then Inl (ErrMsg ''no primary drive share found'')
              else case ap_getShare ap shareID of
                Inl e \<Rightarrow> Inl e
              | Inr sh \<Rightarrow>
                  (case resolveSigner ks (sh_address sh) of
                     Inl e \<Rightarrow> Inl e
                   | Inr (signEmail, signKR) \<Rightarrow>
                       (case sh_keyring sh (ks_merged ks) of
                          Inl e \<Rightarrow> Inl e
                        | Inr shareKR \<Rightarrow>
                            (case ap_getLink ap shareID (sh_link sh) of
                               Inl e \<Rightarrow> Inl e
                             | Inr rootLink \<Rightarrow>
                                 (case cr_getKeyRing cr rootLink shareKR of
                                    Inl e \<Rightarrow> Inl e
                                  | Inr rootKR \<Rightarrow>
                                      (case resolveFileAttrs cr rootLink rootKR of
                                         (sz, modTime, _) \<Rightarrow>
                                           Inr (\<lparr>cl_addrKR = ks_merged ks, cl_signKR = signKR,
                                                 cl_signEmail = signEmail, cl_addressID = sh_address sh,
                                                 cl_shareID = shareID, cl_volumeID = volumeID\<rparr>,
                                                \<lparr>nd_link = rootLink, nd_name = ''/'', nd_parentKR = 0,
                                                 nd_kr = Some rootKR, nd_attrsKnown = True,
                                                 nd_size = sz, nd_modTime = modTime\<rparr>))))))))"

section \<open>Listing children\<close>

text \<open>One worker's step of \<open>decryptNames\<close>: fill slot \<open>i\<close>, or leave it empty when the name does not
  decrypt. The channel hands the indices out to the workers, which finish in any order.\<close>

definition decrypt_slot :: "crypto \<Rightarrow> link list \<Rightarrow> keyring \<Rightarrow> node option list \<Rightarrow> nat \<Rightarrow> node option list" where
  "decrypt_slot cr links parentKR nodes i =
     (case cr_getName cr (links ! i) parentKR of
        Inl e \<Rightarrow> nodes
      | Inr name \<Rightarrow> nodes[i := Some (newNode (links ! i) name parentKR)])"

definition compact_nodes :: "node option list \<Rightarrow> node list" where
  "compact_nodes nodes = map the (filter (\<lambda>x. x \<noteq> None) nodes)"

definition decryptNames :: "crypto \<Rightarrow> nat list \<Rightarrow> link list \<Rightarrow> keyring \<Rightarrow> node list" where
  "decryptNames cr order links parentKR =
     compact_nodes (foldl (decrypt_slot cr links parentKR) (replicate (length links) None) order)"

definition Children ::
    "crypto \<Rightarrow> api \<Rightarrow> client \<Rightarrow> nat list \<Rightarrow> node \<Rightarrow> node \<times> (go_error + node list)" where
  "Children cr ap c order parent =
     (case Keyring cr parent of
        (p1, Inl e) \<Rightarrow> (p1, Inl e)
      | (p1, Inr parentKR) \<Rightarrow>
          (case ap_listChildren ap (cl_shareID c) (lk_id (nd_link p1)) of
             Inl e \<Rightarrow> (p1, Inl e)
           | Inr links \<Rightarrow>
               (p1, Inr (decryptNames cr order (filter (\<lambda>l. lk_state l = LinkStateActive) links) parentKR))))"

definition nodeFromLink :: "crypto \<Rightarrow> link \<Rightarrow> node \<Rightarrow> node \<times> (go_error + node)" where
  "nodeFromLink cr l parent =
     (case Keyring cr parent of
        (p1, Inl e) \<Rightarrow> (p1, Inl e)
      | (p1, Inr parentKR) \<Rightarrow>
          (case cr_getName cr l parentKR of
             Inl e \<Rightarrow> (p1, Inl e)
           | Inr name \<Rightarrow> (p1, Inr (newNode l name parentKR))))"

definition fetchNode :: "crypto \<Rightarrow> api \<Rightarrow> client \<Rightarrow> string \<Rightarrow> node \<Rightarrow> node \<times> (go_error + node)" where
  "fetchNode cr ap c linkID parent =
     (case ap_getLink ap (cl_shareID c) linkID of
        Inl e \<Rightarrow> (parent, Inl e)
      | Inr l \<Rightarrow> nodeFromLink cr l parent)"

section \<open>The persisted listing\<close>

text \<open>\<open>encodeLink\<close>/\<open>decodeLink\<close> are \<open>json.Marshal\<close>/\<open>Unmarshal\<close> of a \<open>proton.Link\<close>; a link that does
  not encode or decode is skipped.\<close>

definition listing_entries :: "(link \<Rightarrow> json option) \<Rightarrow> node list \<Rightarrow> ListingEntry list" where
  "listing_entries encodeLink children =
     List.map_filter (\<lambda>n. map_option (\<lambda>raw. \<lparr>le_name = nd_name n, le_link = raw\<rparr>) (encodeLink (nd_link n)))
       children"

definition nodes_of_entries :: "(json \<Rightarrow> link option) \<Rightarrow> keyring \<Rightarrow> ListingEntry list \<Rightarrow> node list" where
  "nodes_of_entries decodeLink parentKR es =
     List.map_filter (\<lambda>e. map_option (\<lambda>l. newNode l (le_name e) parentKR) (decodeLink (le_link e))) es"

definition CacheListing ::
    "faults \<Rightarrow> (ListingEntry list \<Rightarrow> bytes option) \<Rightarrow> (link \<Rightarrow> json option) \<Rightarrow> string \<Rightarrow> node \<Rightarrow> node list
       \<Rightarrow> block_cache \<times> disk \<Rightarrow> block_cache \<times> disk" where
  "CacheListing ft encode encodeLink rnd parent children cd =
     PutListing ft encode rnd (lk_id (nd_link parent)) (listing_entries encodeLink children) cd"

definition CachedChildren ::
    "faults \<Rightarrow> (bytes \<Rightarrow> ListingEntry list option) \<Rightarrow> (json \<Rightarrow> link option) \<Rightarrow> crypto \<Rightarrow> node
       \<Rightarrow> block_cache \<times> disk \<Rightarrow> (block_cache \<times> disk) \<times> node \<times> node list option" where
  "CachedChildren ft decode decodeLink cr parent cd =
     (case GetListing ft decode (lk_id (nd_link parent)) cd of
        (cd1, None) \<Rightarrow> (cd1, parent, None)
      | (cd1, Some es) \<Rightarrow>
          (case Keyring cr parent of
             (p1, Inl e) \<Rightarrow> (cd1, p1, None)
           | (p1, Inr parentKR) \<Rightarrow> (cd1, p1, Some (nodes_of_entries decodeLink parentKR es))))"

section \<open>Lemmas\<close>

lemma Keyring_frame:
  "Keyring cr n = (n', r) \<Longrightarrow>
     nd_link n' = nd_link n \<and> nd_name n' = nd_name n \<and> nd_size n' = nd_size n
     \<and> nd_modTime n' = nd_modTime n \<and> nd_attrsKnown n' = nd_attrsKnown n"
  by (auto simp: Keyring_def split: option.splits sum.splits)

lemma Keyring_cached:
  "Keyring cr n = (n', Inr kr) \<Longrightarrow> Keyring cr' n' = (n', Inr kr)"
  by (auto simp: Keyring_def split: option.splits sum.splits)

lemma Keyring_failure_kept: "Keyring cr n = (n', Inl e) \<Longrightarrow> n' = n"
  by (auto simp: Keyring_def split: option.splits sum.splits)

lemma decrypt_slots_length [simp]:
  "length (foldl (decrypt_slot cr links kr) nodes order) = length nodes"
  by (induction order arbitrary: nodes) (auto simp: decrypt_slot_def split: sum.split)

definition slot_value :: "crypto \<Rightarrow> link list \<Rightarrow> keyring \<Rightarrow> nat \<Rightarrow> node option" where
  "slot_value cr links kr i =
     (case cr_getName cr (links ! i) kr of Inl e \<Rightarrow> None | Inr name \<Rightarrow> Some (newNode (links ! i) name kr))"

lemma decrypt_slots_nth:
  "i < length nodes \<Longrightarrow>
     foldl (decrypt_slot cr links kr) nodes order ! i
     = (if i \<in> set order \<and> slot_value cr links kr i \<noteq> None then slot_value cr links kr i else nodes ! i)"
proof (induction order arbitrary: nodes)
  case (Cons j order)
  let ?n = "decrypt_slot cr links kr nodes j"
  have l: "length ?n = length nodes" by (simp add: decrypt_slot_def split: sum.split)
  have j: "?n ! i = (if i = j \<and> slot_value cr links kr i \<noteq> None then slot_value cr links kr i else nodes ! i)"
    using Cons.prems by (auto simp: decrypt_slot_def slot_value_def split: sum.split)
  show ?case using Cons.IH [of ?n] Cons.prems l j by auto
qed simp

lemma compact_nodes_map: "compact_nodes (map f xs) = List.map_filter f xs"
  by (induction xs) (auto simp: compact_nodes_def List.map_filter_def)

text \<open>The listing \<open>Children\<close> promises: the active links whose names decrypt, in the API's order.\<close>

definition children_spec :: "crypto \<Rightarrow> link list \<Rightarrow> keyring \<Rightarrow> node list" where
  "children_spec cr links kr =
     List.map_filter (\<lambda>l. case cr_getName cr l kr of Inl e \<Rightarrow> None | Inr name \<Rightarrow> Some (newNode l name kr)) links"

lemma map_filter_upt:
  "List.map_filter (\<lambda>i. f (xs ! i)) [0..<length xs] = List.map_filter f xs"
proof -
  have "List.map_filter f (map ((!) xs) [0..<length xs]) = List.map_filter (f \<circ> (!) xs) [0..<length xs]"
    by (induction "[0..<length xs]") (auto simp: List.map_filter_def filter_map comp_def)
  then show ?thesis by (simp add: map_nth comp_def)
qed

lemma decryptNames_spec:
  assumes "set order = {..<length links}"
  shows "decryptNames cr order links kr = children_spec cr links kr"
proof -
  have "foldl (decrypt_slot cr links kr) (replicate (length links) None) order
      = map (slot_value cr links kr) [0..<length links]"
    using assms by (intro nth_equalityI) (auto simp: decrypt_slots_nth)
  then have "decryptNames cr order links kr = List.map_filter (slot_value cr links kr) [0..<length links]"
    by (simp add: decryptNames_def compact_nodes_map)
  then show ?thesis
    using map_filter_upt [of "\<lambda>l. case cr_getName cr l kr of Inl e \<Rightarrow> None | Inr name \<Rightarrow> Some (newNode l name kr)" links]
    by (simp add: children_spec_def slot_value_def [abs_def])
qed

lemma ResolveAttrs_frame:
  "nd_link (ResolveAttrs cr n) = nd_link n \<and> nd_name (ResolveAttrs cr n) = nd_name n"
  using Keyring_frame
  by (auto simp: ResolveAttrs_def split: prod.split sum.split)

lemma ResolveAttrs_known: "nd_attrsKnown n \<Longrightarrow> ResolveAttrs cr n = n"
  by (simp add: ResolveAttrs_def)

text \<open>A listing that fits is read back as it was stored.\<close>

lemma PutListing_stores:
  assumes "bc_dir bc \<noteq> ''''" "encode es = Some data"
    and "bc_size bc + int (length data) \<le> bc_limit bc"
  shows "\<exists>bc' d'. PutListing no_faults encode rnd l es (bc, d) = (bc', d')
     \<and> bc_dir bc' = bc_dir bc \<and> holds d' (listingPath l) = Some data"
proof -
  let ?d = "mkdir_all [listingsSubdir] d"
  let ?tmp = "temp_path [listingsSubdir] ''listing-'' rnd"
  let ?d1 = "dk_write ?tmp data ?d"
  have "0 \<le> old_size ?d1 (listingPath l)"
    by (simp add: old_size_def cf_size_def split: option.split)
  then have fits: "bc_size bc + (int (length data) - old_size ?d1 (listingPath l)) \<le> bc_limit bc"
    using assms(3) by simp
  show ?thesis
    using assms(1,2) fits
    by (simp add: PutListing_def put_listing_stat_def put_listing_rename_def put_listing_count_def
        writeTemp_def no_faults_def Let_def evict_def holds_rename)
qed

lemma GetListing_hit:
  "bc_dir bc \<noteq> '''' \<Longrightarrow> holds d (listingPath l) = Some data \<Longrightarrow> decode data = Some es \<Longrightarrow>
     snd (GetListing no_faults decode l (bc, d)) = Some es"
  by (auto simp: GetListing_def Let_def no_faults_def holds_def)

lemma map_filter_all: "(\<And>x. x \<in> set xs \<Longrightarrow> f x = Some (g x)) \<Longrightarrow> List.map_filter f xs = map g xs"
  by (induction xs) (auto simp: List.map_filter_def)

lemma entries_roundtrip:
  assumes "\<And>n. n \<in> set ns \<Longrightarrow> encodeLink (nd_link n) \<noteq> None"
    and "\<And>l raw. encodeLink l = Some raw \<Longrightarrow> decodeLink raw = Some l"
  shows "nodes_of_entries decodeLink kr (listing_entries encodeLink ns)
     = map (\<lambda>n. newNode (nd_link n) (nd_name n) kr) ns"
proof -
  let ?raw = "\<lambda>n. the (encodeLink (nd_link n))"
  have 1: "listing_entries encodeLink ns = map (\<lambda>n. \<lparr>le_name = nd_name n, le_link = ?raw n\<rparr>) ns"
    unfolding listing_entries_def using assms(1) by (intro map_filter_all) auto
  have "decodeLink (?raw n) = Some (nd_link n)" if "n \<in> set ns" for n
    using assms that by (metis option.exhaust_sel)
  then show ?thesis unfolding 1
    by (induction ns) (auto simp: nodes_of_entries_def List.map_filter_def)
qed

section \<open>Properties\<close>

definition demo_link :: "string \<Rightarrow> link_state \<Rightarrow> link" where
  "demo_link i s = \<lparr>lk_id = i, lk_parent = ''root'', lk_type = LinkTypeFile, lk_state = s, lk_name = ''e'' @ i,
     lk_hash = ''h'', lk_size = 40, lk_modify = 7, lk_mime = ''text/plain'',
     lk_file = Some \<lparr>rv_id = ''r'', rv_xattr = ''x'', rv_thumbnail = False\<rparr>\<rparr>"

definition demo_crypto :: crypto where
  "demo_crypto = \<lparr>cr_getKeyRing = (\<lambda>l kr. if lk_id l = ''b'' then Inl (ErrMsg ''locked'') else Inr 5),
     cr_getName = (\<lambda>l kr. if lk_id l = ''b'' then Inl (ErrMsg ''bad name'') else Inr (tl (lk_name l))),
     cr_decryptXAttr = (\<lambda>kr s. Inr [1]),
     cr_parseXAttr = (\<lambda>b. Inr \<lparr>xa_size = 33, xa_mtime = ''t''\<rparr>),
     cr_parseTime = (\<lambda>s. Some 99)\<rparr>"

definition demo_node :: node where
  "demo_node = newNode (demo_link ''a'' LinkStateActive) ''a'' 3"

definition demo_client :: client where
  "demo_client = \<lparr>cl_addrKR = 1, cl_signKR = 2, cl_signEmail = ''e'', cl_addressID = ''ad'', cl_shareID = ''s'',
     cl_volumeID = ''v''\<rparr>"

definition demo_api :: api where
  "demo_api = \<lparr>ap_listShares = Inr [], ap_getShare = (\<lambda>_. Inl ErrEOF), ap_getLink = (\<lambda>_ _. Inl ErrEOF),
     ap_listChildren = (\<lambda>_ _. Inr [demo_link ''a'' LinkStateActive, demo_link ''x'' LinkStateTrashed,
                                demo_link ''b'' LinkStateActive, demo_link ''c'' LinkStateActive])\<rparr>"

text \<open>C28. A listing is the parent's active links whose names decrypt, in the API's order, however the
  decrypting goroutines are scheduled; a name that fails only loses its own entry.\<close>

theorem Children_any_schedule:
  assumes "Keyring cr parent = (p1, Inr kr)" "ap_listChildren ap (cl_shareID c) (lk_id (nd_link p1)) = Inr links"
    and "set order = {..<length (filter (\<lambda>l. lk_state l = LinkStateActive) links)}"
  shows "Children cr ap c order parent
     = (p1, Inr (children_spec cr (filter (\<lambda>l. lk_state l = LinkStateActive) links) kr))"
  using assms by (simp add: Children_def decryptNames_spec)

theorem Children_any_schedule_witness:
  "\<exists>p1 ns. Children demo_crypto demo_api demo_client [2, 0, 1] demo_node = (p1, Inr ns)
     \<and> map nd_name ns = [''a'', ''c'']"
proof -
  let ?links = "[demo_link ''a'' LinkStateActive, demo_link ''x'' LinkStateTrashed,
                 demo_link ''b'' LinkStateActive, demo_link ''c'' LinkStateActive]"
  have k: "Keyring demo_crypto demo_node = (demo_node\<lparr>nd_kr := Some 5\<rparr>, Inr 5)"
    by (simp add: Keyring_def demo_crypto_def demo_node_def newNode_def demo_link_def)
  have "Children demo_crypto demo_api demo_client [2, 0, 1] demo_node
     = (demo_node\<lparr>nd_kr := Some 5\<rparr>,
        Inr (children_spec demo_crypto (filter (\<lambda>l. lk_state l = LinkStateActive) ?links) 5))"
    by (rule Children_any_schedule [OF k]) (auto simp: demo_api_def demo_link_def lessThan_def)
  then show ?thesis
    by (simp add: children_spec_def List.map_filter_def demo_crypto_def demo_link_def newNode_def)
qed

text \<open>A listing persisted by \<open>CacheListing\<close> and small enough to fit is what a cold start reads:
  the same links under the same names, each node unresolved as in a fresh listing.\<close>

theorem listing_roundtrip:
  assumes "bc_dir bc \<noteq> ''''" "encode (listing_entries encodeLink ns) = Some data"
    and "bc_size bc + int (length data) \<le> bc_limit bc"
    and "decode data = Some (listing_entries encodeLink ns)"
    and "\<And>n. n \<in> set ns \<Longrightarrow> encodeLink (nd_link n) \<noteq> None"
    and "\<And>l raw. encodeLink l = Some raw \<Longrightarrow> decodeLink raw = Some l"
    and "Keyring cr parent = (p1, Inr kr)"
  shows "snd (snd (CachedChildren no_faults decode decodeLink cr parent
            (CacheListing no_faults encode encodeLink rnd parent ns (bc, d))))
     = Some (map (\<lambda>n. newNode (nd_link n) (nd_name n) kr) ns)"
proof -
  obtain bc' d' where p: "CacheListing no_faults encode encodeLink rnd parent ns (bc, d) = (bc', d')"
    "bc_dir bc' \<noteq> ''''" "holds d' (listingPath (lk_id (nd_link parent))) = Some data"
    using PutListing_stores [where encode = encode and es = "listing_entries encodeLink ns", OF assms(1,2,3),
        of rnd "lk_id (nd_link parent)" d] assms(1)
    by (auto simp: CacheListing_def)
  have "snd (GetListing no_faults decode (lk_id (nd_link parent)) (bc', d'))
      = Some (listing_entries encodeLink ns)"
    using p(2,3) assms(4) by (rule GetListing_hit)
  moreover have "nodes_of_entries decodeLink kr (listing_entries encodeLink ns)
      = map (\<lambda>n. newNode (nd_link n) (nd_name n) kr) ns"
    using assms(5,6) by (rule entries_roundtrip)
  ultimately show ?thesis using p(1) assms(7)
    by (cases "GetListing no_faults decode (lk_id (nd_link parent)) (bc', d')")
      (simp add: CachedChildren_def)
qed

theorem listing_roundtrip_witness:
  "\<exists>ns. snd (snd (CachedChildren no_faults
          (\<lambda>_. Some (listing_entries (\<lambda>l. if l = nd_link demo_node then Some JNull else None) [demo_node]))
          (\<lambda>_. Some (nd_link demo_node)) demo_crypto demo_node
          (CacheListing no_faults (\<lambda>_. Some [1, 2])
             (\<lambda>l. if l = nd_link demo_node then Some JNull else None) ''x'' demo_node [demo_node]
             (demo_cache 100, demo_disk)))) = Some ns \<and> map nd_name ns = [''a'']"
proof -
  have k: "Keyring demo_crypto demo_node = (demo_node\<lparr>nd_kr := Some 5\<rparr>, Inr 5)"
    by (simp add: Keyring_def demo_crypto_def demo_node_def newNode_def demo_link_def)
  have "snd (snd (CachedChildren no_faults
          (\<lambda>_. Some (listing_entries (\<lambda>l. if l = nd_link demo_node then Some JNull else None) [demo_node]))
          (\<lambda>_. Some (nd_link demo_node)) demo_crypto demo_node
          (CacheListing no_faults (\<lambda>_. Some [1, 2])
             (\<lambda>l. if l = nd_link demo_node then Some JNull else None) ''x'' demo_node [demo_node]
             (demo_cache 100, demo_disk)))) = Some (map (\<lambda>n. newNode (nd_link n) (nd_name n) 5) [demo_node])"
    by (rule listing_roundtrip [OF _ _ _ _ _ _ k]) (auto simp: demo_cache_def split: if_splits)
  then show ?thesis by (simp add: demo_node_def newNode_def)
qed

text \<open>A keyring is cached only on success: after a failure the node is unchanged and the next
  call asks again; after a success every later call gives the same keyring without asking.\<close>

theorem Keyring_caching:
  "case Keyring cr n of
     (n', Inl e) \<Rightarrow> n' = n \<and> nd_kr n = None
   | (n', Inr kr) \<Rightarrow> nd_kr n' = Some kr \<and> (\<forall>cr'. Keyring cr' n' = (n', Inr kr))"
  by (auto simp: Keyring_def split: option.split sum.split)

end
