(* ===== verification/Node_Keys.thy ===== *)
theory Node_Keys
  imports Drive_Node
begin

text \<open>
  Node keys and passphrases (internal/drive/crypto.go). gopenpgp is a parameter: \<open>pgp\<close> holds the
  operations the code calls, each of which may fail. \<open>pgp_laws\<close> states what the library documents
  of them (decrypting what was encrypted, verifying what was signed), and under it the keys a new
  node is created with unlock, and a moved node's passphrase is readable from its new parent.
\<close>

record pgp =
  pg_random :: "go_error + bytes"
  pg_base64 :: "bytes \<Rightarrow> bytes"
  pg_genkey :: "bytes \<Rightarrow> go_error + string"
  pg_encrypt :: "keyring \<Rightarrow> bytes \<Rightarrow> go_error + string"
  pg_sign :: "keyring \<Rightarrow> bytes \<Rightarrow> go_error + string"
  pg_decrypt :: "keyring \<Rightarrow> string \<Rightarrow> go_error + bytes"
  pg_verify :: "keyring \<Rightarrow> bytes \<Rightarrow> string \<Rightarrow> go_error option"
  pg_unlock :: "string \<Rightarrow> bytes \<Rightarrow> go_error + keyring"
  pg_split :: "string \<Rightarrow> go_error + (bytes \<times> bytes)"
  pg_armor :: "bytes \<times> bytes \<Rightarrow> go_error + string"
  pg_session :: "keyring \<Rightarrow> bytes \<Rightarrow> go_error + bytes"
  pg_wrap :: "keyring \<Rightarrow> bytes \<Rightarrow> go_error + bytes"

definition generatePassphrase :: "pgp \<Rightarrow> go_error + bytes" where
  "generatePassphrase pg = and_then (pg_random pg) (\<lambda>token. Inr (pg_base64 pg token))"

definition encryptWithSignature :: "pgp \<Rightarrow> keyring \<Rightarrow> keyring \<Rightarrow> bytes \<Rightarrow> go_error + (string \<times> string)" where
  "encryptWithSignature pg kr signKR b =
     and_then (pg_encrypt pg kr b) (\<lambda>enc. and_then (pg_sign pg signKR b) (\<lambda>sig. Inr (enc, sig)))"

definition generateNodeKeys :: "pgp \<Rightarrow> keyring \<Rightarrow> keyring \<Rightarrow> go_error + (string \<times> string \<times> string)" where
  "generateNodeKeys pg parentKR signKR =
     and_then (generatePassphrase pg) (\<lambda>passphrase.
     and_then (pg_genkey pg passphrase) (\<lambda>key.
     and_then (encryptWithSignature pg parentKR signKR passphrase) (\<lambda>(encPassphrase, sig).
     Inr (key, encPassphrase, sig))))"

definition unlockNodeKR ::
    "pgp \<Rightarrow> keyring \<Rightarrow> keyring \<Rightarrow> string \<Rightarrow> string \<Rightarrow> string \<Rightarrow> go_error + keyring" where
  "unlockNodeKR pg parentKR signKR nodeKey nodePassphrase nodePassphraseSig =
     and_then (pg_decrypt pg parentKR nodePassphrase) (\<lambda>dec.
       case pg_verify pg signKR dec nodePassphraseSig of
         Some e \<Rightarrow> Inl e
       | None \<Rightarrow> pg_unlock pg nodeKey dec)"

text \<open>\<open>NewPGPSplitMessageFromArmored\<close> cuts a message in its key packet and its data packet.\<close>

definition reencryptPassphrase :: "pgp \<Rightarrow> keyring \<Rightarrow> keyring \<Rightarrow> string \<Rightarrow> go_error + string" where
  "reencryptPassphrase pg oldParentKR newParentKR passphrase =
     and_then (pg_split pg passphrase) (\<lambda>(keyPacket, dataPacket).
     and_then (pg_session pg oldParentKR keyPacket) (\<lambda>sessionKey.
     and_then (pg_wrap pg newParentKR sessionKey) (\<lambda>newKeyPacket.
     pg_armor pg (newKeyPacket, dataPacket))))"

text \<open>The documented behaviour of the library.\<close>

definition pgp_laws :: "pgp \<Rightarrow> bool" where
  "pgp_laws pg \<longleftrightarrow>
     (\<forall>kr b m. pg_encrypt pg kr b = Inr m \<longrightarrow> pg_decrypt pg kr m = Inr b)
     \<and> (\<forall>kr b s. pg_sign pg kr b = Inr s \<longrightarrow> pg_verify pg kr b s = None)
     \<and> (\<forall>p k. pg_genkey pg p = Inr k \<longrightarrow> (\<exists>kr. pg_unlock pg k p = Inr kr))
     \<and> (\<forall>kr k w. pg_wrap pg kr k = Inr w \<longrightarrow> pg_session pg kr w = Inr k)
     \<and> (\<forall>kp dp m. pg_armor pg (kp, dp) = Inr m \<longrightarrow> pg_split pg m = Inr (kp, dp))"

text \<open>Two armored messages carry the same content for two keyrings: the same session key, the same
  data packet.\<close>

definition same_secret :: "pgp \<Rightarrow> keyring \<Rightarrow> string \<Rightarrow> keyring \<Rightarrow> string \<Rightarrow> bool" where
  "same_secret pg kr m kr' m' \<longleftrightarrow>
     (\<exists>kp dp kp' k. pg_split pg m = Inr (kp, dp) \<and> pg_split pg m' = Inr (kp', dp)
        \<and> pg_session pg kr kp = Inr k \<and> pg_session pg kr' kp' = Inr k)"

text \<open>The keys generated for a new node unlock with the same parent and signer, and a passphrase
  re-encrypted for a move carries the same secret for the new parent, its data packet (and so its
  signature) untouched.\<close>

theorem node_keys_roundtrip:
  assumes "pgp_laws pg"
  shows "(generateNodeKeys pg parentKR signKR = Inr (key, enc, sig) \<longrightarrow>
            (\<exists>kr. unlockNodeKR pg parentKR signKR key enc sig = Inr kr))
    \<and> (reencryptPassphrase pg oldKR newKR m = Inr m' \<longrightarrow> same_secret pg oldKR m newKR m')"
proof
  show "generateNodeKeys pg parentKR signKR = Inr (key, enc, sig) \<longrightarrow>
            (\<exists>kr. unlockNodeKR pg parentKR signKR key enc sig = Inr kr)"
    using assms by (auto simp: generateNodeKeys_def encryptWithSignature_def unlockNodeKR_def pgp_laws_def
        and_then_Inr)
  show "reencryptPassphrase pg oldKR newKR m = Inr m' \<longrightarrow> same_secret pg oldKR m newKR m'"
    using assms by (fastforce simp: reencryptPassphrase_def same_secret_def pgp_laws_def and_then_Inr)
qed

definition demo_pgp :: pgp where
  "demo_pgp = \<lparr>pg_random = Inr [1, 2], pg_base64 = (\<lambda>b. b), pg_genkey = (\<lambda>p. Inr ''key''),
     pg_encrypt = (\<lambda>kr b. Inr (replicate (length b) (CHR ''e''))),
     pg_sign = (\<lambda>kr b. Inr ''sig''), pg_decrypt = (\<lambda>kr m. Inr (replicate (length m) 1)),
     pg_verify = (\<lambda>kr b s. None), pg_unlock = (\<lambda>k p. Inr 4),
     pg_split = (\<lambda>m. Inr ([], [])), pg_armor = (\<lambda>x. if x = ([], []) then Inr ''m'' else Inl ErrEOF),
     pg_session = (\<lambda>kr kp. Inr []), pg_wrap = (\<lambda>kr k. if k = [] then Inr [] else Inl ErrEOF)\<rparr>"

definition demo_pgp1 :: pgp where
  "demo_pgp1 = demo_pgp\<lparr>pg_encrypt := (\<lambda>kr b. if b = [1, 2] then Inr ''enc'' else Inl ErrEOF),
     pg_decrypt := (\<lambda>kr m. Inr [1, 2])\<rparr>"

theorem node_keys_roundtrip_witness:
  "(\<exists>kr. unlockNodeKR demo_pgp1 1 2 ''key'' ''enc'' ''sig'' = Inr kr) \<and> same_secret demo_pgp1 1 ''x'' 3 ''m''"
proof -
  have l: "pgp_laws demo_pgp1"
    by (auto simp: pgp_laws_def demo_pgp1_def demo_pgp_def split: if_splits)
  have g: "generateNodeKeys demo_pgp1 1 2 = Inr (''key'', ''enc'', ''sig'')"
    by (simp add: generateNodeKeys_def generatePassphrase_def encryptWithSignature_def demo_pgp1_def demo_pgp_def)
  have r: "reencryptPassphrase demo_pgp1 1 3 ''x'' = Inr ''m''"
    by (simp add: reencryptPassphrase_def demo_pgp1_def demo_pgp_def)
  show ?thesis using node_keys_roundtrip [OF l, of 1 2 "''key''" "''enc''" "''sig''" 1 3 "''x''" "''m''"] g r
    by simp
qed

end
