(* ===== verification/Http_Retry.thy ===== *)
theory Http_Retry
  imports Api_Errors "HOL-Library.List_Lexorder" "HOL-Library.Char_ord"
begin

text \<open>
  The hand-rolled HTTP layer (internal/drive/http.go): raw GETs with their retry loop, the
  download slot held around each attempt (\<open>acquireDownload\<close>, internal/drive/drive.go), the JSON
  PUT, and the one retry after a 401.

  The state \<open>http_st\<close> carries the clock, the shared rate-limit window, the caller's context (when
  it ends and with which error) and, as functions of the number of calls made so far, what the
  outside answers: the reply to each GET and PUT, the outcome of each \<open>GetUser\<close>, the jitter drawn
  for each wait, and how long each queued caller waits for a slot. \<open>ht_log\<close> is the trace the
  properties read. Functions are polymorphic in the record's extension, so an open file
  (theory \<open>Drive_File\<close>) runs them on its own larger state.
\<close>

section \<open>Requests, replies and the state\<close>

record raw_request =
  rq_url :: string
  rq_headers :: "(string \<times> string) list"

text \<open>
  One GET as the network answers it: building the request fails; the transport fails after some
  time; or a response arrives, with its status, its \<open>Retry-After\<close> header, what the JSON decoder
  leaves in the zero \<open>proton.APIError\<close>, and the body with the error that ended reading it.
\<close>

datatype raw_reply =
    BadRequest go_error
  | TransportFails nanos go_error
  | Reply nanos int string api_error bytes "go_error option"

datatype put_reply =
    PutMarshalFails go_error
  | PutTransportFails nanos go_error
  | PutReply nanos int "api_error option"

datatype http_event =
    EvAcquired
  | EvReleased
  | EvGet raw_request
  | EvPut raw_request
  | EvSleep nanos nat
  | EvGetUser
  | EvWindow nanos

record http_st =
  ht_now :: nanos
  ht_until :: nanos
  ht_ctx_end :: "nanos option"
  ht_ctx_err :: go_error
  ht_tokens :: "string \<times> string"
  ht_reply :: "nat \<Rightarrow> raw_request \<Rightarrow> raw_reply"
  ht_sent :: nat
  ht_put_reply :: "nat \<Rightarrow> put_reply"
  ht_puts :: nat
  ht_get_user :: "nat \<Rightarrow> go_error + (string \<times> string)"
  ht_users :: nat
  ht_jitter :: "nat \<Rightarrow> nanos"
  ht_waits :: nat
  ht_slots :: "nat option"
  ht_slot_wait :: "nat \<Rightarrow> nanos"
  ht_acquires :: nat
  ht_held :: nat
  ht_log :: "http_event list"

text \<open>What the HTTP layer is given: the API base URL, the application version header and the
  HTTP-date parser of \<open>net/http\<close>.\<close>

record http_env =
  en_api_url :: string
  en_app_version :: string
  en_parse_time :: "string \<Rightarrow> nanos option"
  en_status_text :: "int \<Rightarrow> string"

definition log_ev :: "http_event \<Rightarrow> 'a http_st_scheme \<Rightarrow> 'a http_st_scheme" where
  "log_ev e st = st\<lparr>ht_log := ht_log st @ [e]\<rparr>"

definition ctx_done :: "'a http_st_scheme \<Rightarrow> bool" where
  "ctx_done st = (case ht_ctx_end st of None \<Rightarrow> False | Some t \<Rightarrow> t \<le> ht_now st)"

section \<open>Download slots\<close>

text \<open>
  \<open>SetMaxDownloads\<close>: \<open>None\<close> is the nil channel. \<open>acquireDownload\<close> gives the error, or the function
  that gives the slot back. A caller that queues waits \<open>ht_slot_wait\<close>; the context may end first.
\<close>

type_synonym 'a acquireFunc =
  "'a http_st_scheme \<Rightarrow> 'a http_st_scheme \<times> (go_error + ('a http_st_scheme \<Rightarrow> 'a http_st_scheme))"

definition SetMaxDownloads :: "int \<Rightarrow> 'a http_st_scheme \<Rightarrow> 'a http_st_scheme" where
  "SetMaxDownloads n st = (if n \<le> 0 then st\<lparr>ht_slots := None\<rparr> else st\<lparr>ht_slots := Some (nat n)\<rparr>)"

definition releaseDownload :: "'a http_st_scheme \<Rightarrow> 'a http_st_scheme" where
  "releaseDownload st = log_ev EvReleased (st\<lparr>ht_held := ht_held st - 1\<rparr>)"

definition acquireDownload :: "'a acquireFunc" where
  "acquireDownload st =
     (case ht_slots st of
        None \<Rightarrow> (st, Inr (\<lambda>s. s))
      | Some n \<Rightarrow>
          (let wait = max 0 (ht_slot_wait st (ht_acquires st));
               st1 = st\<lparr>ht_acquires := Suc (ht_acquires st)\<rparr>
           in case ht_ctx_end st of
                Some t \<Rightarrow>
                  if t < ht_now st + wait
                  then (st1\<lparr>ht_now := max t (ht_now st)\<rparr>, Inl (ErrWrap2 ErrNoDownloadSlot (ht_ctx_err st)))
                  else (log_ev EvAcquired (st1\<lparr>ht_now := ht_now st + wait, ht_held := Suc (ht_held st)\<rparr>),
                        Inr releaseDownload)
              | None \<Rightarrow> (log_ev EvAcquired (st1\<lparr>ht_now := ht_now st + wait, ht_held := Suc (ht_held st)\<rparr>),
                        Inr releaseDownload)))"

section \<open>One GET\<close>

definition max_duration :: nanos where
  "max_duration = 9223372036854775807"

text \<open>\<open>time.Until\<close>, whose subtraction saturates.\<close>

definition time_until :: "nanos \<Rightarrow> nanos \<Rightarrow> nanos" where
  "time_until t now = max (- max_duration - 1) (min max_duration (t - now))"

definition retryAfter :: "http_env \<Rightarrow> nanos \<Rightarrow> string \<Rightarrow> nanos" where
  "retryAfter en now v =
     (let date = (case en_parse_time en v of Some t \<Rightarrow> time_until t now | None \<Rightarrow> 0)
      in case atoi v of
           Some secs \<Rightarrow> if 0 < secs then wrap64 (secs * 1000000000) else date
         | None \<Rightarrow> date)"

definition get_request :: "http_env \<Rightarrow> string \<times> string \<Rightarrow> string \<Rightarrow> string \<Rightarrow> raw_request" where
  "get_request en tokens url token =
     \<lparr> rq_url = (if take 1 url = ''/'' then en_api_url en @ url else url),
       rq_headers = [(''x-pm-uid'', fst tokens), (''Authorization'', ''Bearer '' @ snd tokens),
                     (''x-pm-appversion'', en_app_version en)]
                    @ (if token \<noteq> '''' then [(''pm-storage-token'', token)] else []) \<rparr>"

definition getRawOnce ::
    "http_env \<Rightarrow> string \<Rightarrow> string \<Rightarrow> 'a http_st_scheme
       \<Rightarrow> 'a http_st_scheme \<times> bytes \<times> int \<times> nanos \<times> go_error option" where
  "getRawOnce en url token st =
     (let rq = get_request en (ht_tokens st) url token;
          reply = ht_reply st (ht_sent st) rq;
          st1 = log_ev (EvGet rq) (st\<lparr>ht_sent := Suc (ht_sent st)\<rparr>)
      in case reply of
           BadRequest e \<Rightarrow> (st\<lparr>ht_sent := Suc (ht_sent st)\<rparr>, [], 0, 0, Some e)
         | TransportFails d e \<Rightarrow> (st1\<lparr>ht_now := ht_now st + max 0 d\<rparr>, [], 0, 0, Some e)
         | Reply d status ra a body rerr \<Rightarrow>
             (let st2 = st1\<lparr>ht_now := ht_now st + max 0 d\<rparr>
              in if 200 \<le> status \<and> status < 300 then (st2, body, status, 0, rerr)
                 else (st2, [], status, retryAfter en (ht_now st2) ra,
                       Some (ErrApiPtr (a\<lparr>ae_status := status,
                               ae_message := (if ae_message a = '''' then en_status_text en status
                                              else ae_message a)\<rparr>)))))"

section \<open>The retry loop\<close>

definition getRawAttempts :: nat where "getRawAttempts = 4"
definition maxRateLimitWait :: nanos where "maxRateLimitWait = minutes 1"
definition rateLimitJitterRange :: nanos where "rateLimitJitterRange = seconds 10"
definition rateLimitDefaultWait :: nanos where "rateLimitDefaultWait = seconds 10"
definition transportRetryBase :: nanos where "transportRetryBase = 100000000"

definition isRateStatus :: "int \<Rightarrow> bool" where
  "isRateStatus status \<longleftrightarrow> status = statusTooMany \<or> status = statusUnavailable"

text \<open>\<open>rand.Int64N(int64(rateLimitJitterRange))\<close> is the draw reduced to the range.\<close>

definition rateLimitJitter :: "'a http_st_scheme \<Rightarrow> nanos" where
  "rateLimitJitter st = ht_jitter st (ht_waits st) mod rateLimitJitterRange"

text \<open>The wait after attempt number \<open>attempt\<close>. The sum with the jitter is an \<open>int64\<close> sum.\<close>

definition retry_wait :: "nat \<Rightarrow> bool \<Rightarrow> nanos \<Rightarrow> nanos \<Rightarrow> nanos" where
  "retry_wait attempt limited ra jitter =
     (if limited
      then min (wrap64 ((if 0 < ra then ra else rateLimitDefaultWait) + jitter)) maxRateLimitWait
      else transportRetryBase * 2 ^ (attempt - 1))"

definition noteWindow ::
    "int \<Rightarrow> go_error option \<Rightarrow> nanos \<Rightarrow> 'a http_st_scheme \<Rightarrow> 'a http_st_scheme" where
  "noteWindow status err ra st =
     (if isRateStatus status
      then log_ev (EvWindow (rate_limit_wait err ra))
             (st\<lparr>ht_until := noteRateLimitStatus status err ra (ht_now st) (ht_until st)\<rparr>)
      else st)"

definition sleep :: "nanos \<Rightarrow> 'a http_st_scheme \<Rightarrow> 'a http_st_scheme \<times> bool" where
  "sleep wait st =
     (let st1 = log_ev (EvSleep wait (ht_held st)) (st\<lparr>ht_waits := Suc (ht_waits st)\<rparr>);
          wake = ht_now st + max 0 wait
      in case ht_ctx_end st of
           Some t \<Rightarrow> if t \<le> wake then (st1\<lparr>ht_now := max t (ht_now st)\<rparr>, True)
                     else (st1\<lparr>ht_now := wake\<rparr>, False)
         | None \<Rightarrow> (st1\<lparr>ht_now := wake\<rparr>, False))"

text \<open>One turn of the loop: \<open>Inr\<close> is a return, \<open>Inl\<close> the state to go round with again.\<close>

definition getRawAttempt ::
    "http_env \<Rightarrow> string \<Rightarrow> string \<Rightarrow> nat \<Rightarrow> 'a acquireFunc option \<Rightarrow> 'a http_st_scheme
       \<Rightarrow> 'a http_st_scheme + ('a http_st_scheme \<times> bytes \<times> int \<times> go_error option)" where
  "getRawAttempt en url token attempt acquire st =
     (let (st0, slot) = (case acquire of None \<Rightarrow> (st, Inr (\<lambda>s. s)) | Some acq \<Rightarrow> acq st)
      in case slot of
           Inl e \<Rightarrow> Inr (st0, [], 0, Some e)
         | Inr release \<Rightarrow>
             (let (st1, body, status, ra, err) = getRawOnce en url token st0;
                  st2 = release st1;
                  apiErr = (case err of None \<Rightarrow> None | Some e \<Rightarrow> asAPIError e);
                  transportErr = (err \<noteq> None \<and> apiErr = None);
                  rateLimited = isRateStatus status
              in if err \<noteq> None \<and> ctx_done st2 then Inr (st2, [], status, err)
                 else if \<not> transportErr \<and> \<not> rateLimited then Inr (st2, body, status, err)
                 else if attempt = getRawAttempts then
                   (if transportErr then Inr (st2, [], status, err)
                    else Inr (noteWindow status (map_option ErrApiPtr apiErr) ra st2, [], status,
                              Some (ErrWrap2 ErrRateLimited
                                (case apiErr of Some a \<Rightarrow> ErrApiVal a | None \<Rightarrow> ErrMsg ''nil''))))
                 else (let (st3, ended) = sleep (retry_wait attempt rateLimited ra (rateLimitJitter st2)) st2
                       in if ended
                          then Inr ((if rateLimited then noteWindow status (map_option ErrApiPtr apiErr) ra st3
                                     else st3), [], status, Some (ht_ctx_err st3))
                          else Inl st3)))"

text \<open>\<open>for attempt := 1; ; attempt++\<close>: the loop body returns at attempt \<open>getRawAttempts\<close>, so that
  many turns are enough; \<open>None\<close> would be a loop still going.\<close>

fun getRaw_turns ::
    "http_env \<Rightarrow> string \<Rightarrow> string \<Rightarrow> 'a acquireFunc option \<Rightarrow> nat \<Rightarrow> nat \<Rightarrow> 'a http_st_scheme
       \<Rightarrow> ('a http_st_scheme \<times> bytes \<times> int \<times> go_error option) option" where
  "getRaw_turns en url token acquire 0 attempt st = None"
| "getRaw_turns en url token acquire (Suc n) attempt st =
     (case getRawAttempt en url token attempt acquire st of
        Inr r \<Rightarrow> Some r
      | Inl st' \<Rightarrow> getRaw_turns en url token acquire n (Suc attempt) st')"

definition getRawRetrying ::
    "http_env \<Rightarrow> string \<Rightarrow> string \<Rightarrow> 'a acquireFunc option \<Rightarrow> 'a http_st_scheme
       \<Rightarrow> ('a http_st_scheme \<times> bytes \<times> int \<times> go_error option) option" where
  "getRawRetrying en url token acquire st = getRaw_turns en url token acquire getRawAttempts 1 st"

definition GetUser :: "'a http_st_scheme \<Rightarrow> 'a http_st_scheme \<times> go_error option" where
  "GetUser st =
     (let st1 = log_ev EvGetUser (st\<lparr>ht_users := Suc (ht_users st)\<rparr>)
      in case ht_get_user st (ht_users st) of
           Inl e \<Rightarrow> (st1, Some e)
         | Inr tokens \<Rightarrow> (st1\<lparr>ht_tokens := tokens\<rparr>, None))"

definition getRawSlotted ::
    "http_env \<Rightarrow> string \<Rightarrow> string \<Rightarrow> 'a acquireFunc option \<Rightarrow> 'a http_st_scheme
       \<Rightarrow> ('a http_st_scheme \<times> bytes \<times> go_error option) option" where
  "getRawSlotted en url token acquire st =
     (case getRawRetrying en url token acquire st of
        None \<Rightarrow> None
      | Some (st1, body, status, err) \<Rightarrow>
          if status \<noteq> statusUnauthorized then Some (st1, body, err)
          else (case GetUser st1 of
                  (st2, Some e) \<Rightarrow> Some (st2, [], err)
                | (st2, None) \<Rightarrow>
                    (case getRawRetrying en url token acquire st2 of
                       None \<Rightarrow> None
                     | Some (st3, body', status', err') \<Rightarrow> Some (st3, body', err'))))"

definition getRaw ::
    "http_env \<Rightarrow> string \<Rightarrow> string \<Rightarrow> 'a http_st_scheme \<Rightarrow> ('a http_st_scheme \<times> bytes \<times> go_error option) option" where
  "getRaw en url token st = getRawSlotted en url token None st"

section \<open>What a call leaves alone\<close>

text \<open>Everything but the slots' own bookkeeping and the clock; \<open>net_log\<close> drops the slot events.\<close>

definition net_log :: "'a http_st_scheme \<Rightarrow> http_event list" where
  "net_log st = filter (\<lambda>e. e \<noteq> EvAcquired \<and> e \<noteq> EvReleased) (ht_log st)"

definition same_http :: "'a http_st_scheme \<Rightarrow> 'a http_st_scheme \<Rightarrow> bool" where
  "same_http st st' \<longleftrightarrow>
     ht_until st' = ht_until st \<and> ht_ctx_end st' = ht_ctx_end st \<and> ht_ctx_err st' = ht_ctx_err st
     \<and> ht_reply st' = ht_reply st \<and> ht_tokens st' = ht_tokens st
     \<and> ht_sent st' = ht_sent st \<and> ht_get_user st' = ht_get_user st
     \<and> ht_users st' = ht_users st \<and> net_log st' = net_log st"

text \<open>
  What one or more turns of the loop may do: at most \<open>n\<close> more requests, slots given back, every
  wait slept without holding a new slot and for at most a minute.
\<close>

definition sleeps_ok :: "nat \<Rightarrow> http_event list \<Rightarrow> bool" where
  "sleeps_ok held evs \<longleftrightarrow>
     list_all (\<lambda>e. case e of EvSleep w h \<Rightarrow> h = held \<and> w \<le> maxRateLimitWait | _ \<Rightarrow> True) evs"

definition turns_ok :: "nat \<Rightarrow> 'a http_st_scheme \<Rightarrow> 'a http_st_scheme \<Rightarrow> bool" where
  "turns_ok n st st' \<longleftrightarrow>
     ht_held st' = ht_held st \<and> ht_sent st' \<le> ht_sent st + n \<and> ht_reply st' = ht_reply st
     \<and> ht_tokens st' = ht_tokens st
     \<and> ht_ctx_end st' = ht_ctx_end st \<and> ht_get_user st' = ht_get_user st \<and> ht_users st' = ht_users st
     \<and> (\<exists>evs. net_log st' = net_log st @ evs \<and> sleeps_ok (ht_held st) evs)"

text \<open>The window a call leaves: unchanged, or opened by a 429/503 for at most the cap.\<close>

definition window_ok :: "nanos \<Rightarrow> 'b http_st_scheme \<Rightarrow> int \<Rightarrow> go_error option \<Rightarrow> bool" where
  "window_ok until st' status err \<longleftrightarrow>
     ht_until st' = until
     \<or> (isRateStatus status \<and> err \<noteq> None \<and> ht_until st' \<le> ht_now st' + maxRateLimitBackoff)"

definition attempt_ok ::
    "nat \<Rightarrow> 'a http_st_scheme \<Rightarrow> 'a http_st_scheme + ('a http_st_scheme \<times> bytes \<times> int \<times> go_error option)
       \<Rightarrow> bool" where
  "attempt_ok attempt st r \<longleftrightarrow>
     (case r of
        Inl st' \<Rightarrow> turns_ok 1 st st' \<and> ht_until st' = ht_until st \<and> attempt \<noteq> getRawAttempts
      | Inr (st', b, s, e) \<Rightarrow> turns_ok 1 st st' \<and> window_ok (ht_until st) st' s e)"

lemma sleeps_ok_append [simp]: "sleeps_ok h (xs @ ys) \<longleftrightarrow> sleeps_ok h xs \<and> sleeps_ok h ys"
  by (simp add: sleeps_ok_def)

lemma turns_ok_trans: "turns_ok m a b \<Longrightarrow> turns_ok n b c \<Longrightarrow> turns_ok (m + n) a c"
  by (auto simp: turns_ok_def)

lemma turns_ok_mono: "turns_ok m a b \<Longrightarrow> m \<le> n \<Longrightarrow> turns_ok n a b"
  by (auto simp: turns_ok_def)

lemma wrap64_le: "wrap64 x \<le> 9223372036854775807"
  using wrap64_upper [of x] by simp

lemma retry_wait_cap: "attempt < getRawAttempts \<Longrightarrow> retry_wait attempt limited ra j \<le> maxRateLimitWait"
proof -
  assume "attempt < getRawAttempts"
  then have "attempt - 1 \<in> {0, 1, 2}" by (auto simp: getRawAttempts_def)
  then have "(2::int) ^ (attempt - 1) \<le> 4" by auto
  then show ?thesis by (simp add: retry_wait_def transportRetryBase_def maxRateLimitWait_def)
qed

lemma jitter_bounds: "0 \<le> rateLimitJitter st" "rateLimitJitter st < rateLimitJitterRange"
  by (simp_all add: rateLimitJitter_def rateLimitJitterRange_def)

section \<open>The slot contract and the loop under it\<close>

text \<open>
  What the loop needs of an \<open>acquireFunc\<close>: acquiring and releasing touch nothing of the HTTP
  state but slots and clock; a failed acquire holds nothing; the release undoes the acquire.
\<close>

locale slot_source =
  fixes acquire :: "'a http_st_scheme \<Rightarrow> 'a http_st_scheme \<times> (go_error + ('a http_st_scheme \<Rightarrow> 'a http_st_scheme))"
  assumes acquire_same: "acquire st = (st', r) \<Longrightarrow> same_http st st'"
    and acquire_failed: "acquire st = (st', Inl e) \<Longrightarrow> ht_held st' = ht_held st"
    and release_same: "acquire st = (st', Inr release) \<Longrightarrow> same_http s (release s)"
    and release_held: "acquire st = (st', Inr release) \<Longrightarrow> ht_held s = ht_held st'
           \<Longrightarrow> ht_held (release s) = ht_held st"
    and acquire_open: "ht_ctx_end st = None \<Longrightarrow> \<exists>st' release. acquire st = (st', Inr release)"
begin

lemma getRawOnce_ok:
  "getRawOnce en url token st = (st', b, s, ra, e) \<Longrightarrow>
     ht_held st' = ht_held st \<and> ht_sent st' = Suc (ht_sent st) \<and> ht_reply st' = ht_reply st
     \<and> ht_tokens st' = ht_tokens st \<and> ht_until st' = ht_until st
     \<and> ht_ctx_end st' = ht_ctx_end st \<and> ht_get_user st' = ht_get_user st \<and> ht_users st' = ht_users st
     \<and> (\<exists>evs. net_log st' = net_log st @ evs \<and> sleeps_ok h evs)"
  by (auto simp: getRawOnce_def log_ev_def net_log_def sleeps_ok_def Let_def
           split: raw_reply.splits if_splits)

lemma attempt_once:
  assumes acq: "acquire st = (st0, Inr release)"
    and once: "getRawOnce en url token st0 = (st1, b, s, ra, e)"
  shows "turns_ok 1 st (release st1) \<and> ht_until (release st1) = ht_until st
    \<and> ht_sent (release st1) = Suc (ht_sent st)"
proof -
  note o = getRawOnce_ok [OF once, of "ht_held st"]
  have h: "ht_held (release st1) = ht_held st"
    using release_held [OF acq] o by simp
  show ?thesis
    using acquire_same [OF acq] release_same [OF acq, of st1] o h
    by (simp add: same_http_def turns_ok_def)
qed

lemma sleep_ok:
  "sleep w st = (st', b) \<Longrightarrow> w \<le> maxRateLimitWait \<Longrightarrow> turns_ok 0 st st' \<and> ht_until st' = ht_until st
     \<and> ht_sent st' = ht_sent st"
  by (auto simp: sleep_def turns_ok_def log_ev_def net_log_def sleeps_ok_def Let_def
           split: option.splits if_splits)

lemma noteWindow_ok:
  "turns_ok 0 st (noteWindow s e ra st)" "ht_sent (noteWindow s e ra st) = ht_sent st"
  by (auto simp: noteWindow_def turns_ok_def log_ev_def net_log_def sleeps_ok_def)

lemma noteWindow_until [simp]:
  "ht_until (noteWindow s e ra st)
     = (if isRateStatus s then ht_now st + rate_limit_wait e ra else ht_until st)"
  "ht_now (noteWindow s e ra st) = ht_now st"
  by (auto simp: noteWindow_def log_ev_def noteRateLimitStatus_def isRateStatus_def)

lemma same_turns: "same_http st st' \<Longrightarrow> ht_held st' = ht_held st \<Longrightarrow> turns_ok n st st'"
  by (simp add: same_http_def turns_ok_def sleeps_ok_def)

lemma getRawAttempt_ok:
  assumes le: "attempt \<le> getRawAttempts"
  shows "attempt_ok attempt st (getRawAttempt en url token attempt (Some acquire) st)"
proof -
  obtain st0 slot where acq: "acquire st = (st0, slot)" by (cases "acquire st")
  show ?thesis
  proof (cases slot)
    case (Inl e)
    then have "turns_ok 1 st st0" "ht_until st0 = ht_until st"
      using acquire_same [OF acq] acquire_failed [of st st0 e] acq same_turns [of st st0 1]
      by (simp_all add: same_http_def)
    then show ?thesis using acq Inl
      by (simp add: getRawAttempt_def attempt_ok_def window_ok_def)
  next
    case (Inr release)
    obtain st1 b s ra e where once: "getRawOnce en url token st0 = (st1, b, s, ra, e)"
      by (cases "getRawOnce en url token st0") auto
    note r = attempt_once [OF acq [unfolded Inr] once]
    let ?st2 = "release st1"
    let ?w = "retry_wait attempt (isRateStatus s) ra (rateLimitJitter ?st2)"
    obtain st3 ended where sl: "sleep ?w ?st2 = (st3, ended)" by (cases "sleep ?w ?st2")
    have s3: "attempt \<noteq> getRawAttempts \<Longrightarrow> turns_ok 1 st st3 \<and> ht_until st3 = ht_until st"
      using sleep_ok [OF sl retry_wait_cap] le r turns_ok_trans [of 1 st ?st2 0 st3] by auto
    have note2: "turns_ok 1 st (noteWindow x y z ?st2)" for x y z
      using turns_ok_trans [OF conjunct1 [OF r] noteWindow_ok(1)] by simp
    have note3: "attempt \<noteq> getRawAttempts \<Longrightarrow> turns_ok 1 st (noteWindow x y z st3)" for x y z
      using turns_ok_trans [of 1 st st3 0, OF _ noteWindow_ok(1)] s3 by simp
    show ?thesis
      using r s3 note2 note3 sl acq Inr once
      by (auto simp: getRawAttempt_def attempt_ok_def Let_def window_ok_def rate_limit_wait_cap)
  qed
qed

lemma getRaw_turns_ok:
  assumes "attempt + n = Suc getRawAttempts" "getRaw_turns en url token (Some acquire) n attempt st = Some (st', b, s, e)"
  shows "turns_ok n st st' \<and> window_ok (ht_until st) st' s e"
  using assms
proof (induction n arbitrary: attempt st)
  case (Suc n)
  have a: "attempt_ok attempt st (getRawAttempt en url token attempt (Some acquire) st)"
    using Suc.prems(1) by (intro getRawAttempt_ok) simp
  show ?case
  proof (cases "getRawAttempt en url token attempt (Some acquire) st")
    case (Inl st1)
    then have "turns_ok n st1 st' \<and> window_ok (ht_until st1) st' s e"
      using Suc.prems by (intro Suc.IH) auto
    then show ?thesis using a Inl turns_ok_trans [of 1 st st1 n st'] by (simp add: attempt_ok_def)
  next
    case (Inr r)
    then show ?thesis using a Suc.prems(2) turns_ok_mono [of 1 st st' "Suc n"]
      by (simp add: attempt_ok_def)
  qed
qed simp

lemma getRaw_turns_total:
  "attempt + n = Suc getRawAttempts \<Longrightarrow> 0 < n \<Longrightarrow>
     getRaw_turns en url token (Some acquire) n attempt st \<noteq> None"
proof (induction n arbitrary: attempt st)
  case (Suc n)
  have a: "attempt_ok attempt st (getRawAttempt en url token attempt (Some acquire) st)"
    using Suc.prems(1) by (intro getRawAttempt_ok) simp
  show ?case
  proof (cases "getRawAttempt en url token attempt (Some acquire) st")
    case (Inl st1)
    then have "0 < n" using a Suc.prems by (auto simp: attempt_ok_def)
    then show ?thesis using Suc Inl by simp
  qed simp
qed simp

lemma getRawRetrying_ok:
  "\<exists>st' b s e. getRawRetrying en url token (Some acquire) st = Some (st', b, s, e)
     \<and> turns_ok getRawAttempts st st' \<and> window_ok (ht_until st) st' s e"
proof -
  have "getRaw_turns en url token (Some acquire) getRawAttempts 1 st \<noteq> None"
    by (rule getRaw_turns_total) (simp_all add: getRawAttempts_def)
  then obtain st' b s e where
    "getRaw_turns en url token (Some acquire) getRawAttempts 1 st = Some (st', b, s, e)" by auto
  then show ?thesis using getRaw_turns_ok [of 1 getRawAttempts]
    by (simp add: getRawRetrying_def)
qed

lemma getRawSlotted_ok:
  "\<exists>st' b e. getRawSlotted en url token (Some acquire) st = Some (st', b, e)
     \<and> ht_held st' = ht_held st \<and> ht_sent st' \<le> ht_sent st + 2 * getRawAttempts
     \<and> ht_users st' \<le> ht_users st + 1
     \<and> (\<exists>evs. net_log st' = net_log st @ evs \<and> sleeps_ok (ht_held st) evs)"
proof -
  obtain s1 b1 x1 e1 where 1: "getRawRetrying en url token (Some acquire) st = Some (s1, b1, x1, e1)"
    and t1: "turns_ok getRawAttempts st s1"
    using getRawRetrying_ok by blast
  obtain s2 ue where u: "GetUser s1 = (s2, ue)" by (cases "GetUser s1")
  then have u2: "ht_held s2 = ht_held s1 \<and> ht_sent s2 = ht_sent s1 \<and> ht_users s2 = Suc (ht_users s1)
      \<and> net_log s2 = net_log s1 @ [EvGetUser]"
    by (auto simp: GetUser_def log_ev_def net_log_def Let_def split: sum.splits)
  obtain s3 b3 x3 e3 where 3: "getRawRetrying en url token (Some acquire) s2 = Some (s3, b3, x3, e3)"
    and t3: "turns_ok getRawAttempts s2 s3"
    using getRawRetrying_ok by blast
  have g: "sleeps_ok h [EvGetUser]" for h by (simp add: sleeps_ok_def)
  from t1 obtain v1 where v1: "net_log s1 = net_log st @ v1" "sleeps_ok (ht_held st) v1"
    by (auto simp: turns_ok_def)
  from t3 obtain v3 where v3: "net_log s3 = net_log s2 @ v3" "sleeps_ok (ht_held s2) v3"
    by (auto simp: turns_ok_def)
  show ?thesis
  proof (cases "x1 = statusUnauthorized")
    case False
    then show ?thesis using 1 t1 by (auto simp: getRawSlotted_def turns_ok_def)
  next
    case True
    show ?thesis
    proof (cases ue)
      case None
      have "net_log s3 = net_log st @ (v1 @ [EvGetUser] @ v3)" using v1 v3 u2 by simp
      moreover have "sleeps_ok (ht_held st) (v1 @ [EvGetUser] @ v3)"
        using v1 v3 u2 t1 g [of "ht_held st"] by (simp add: turns_ok_def del: append_Cons)
      ultimately have "\<exists>evs. net_log s3 = net_log st @ evs \<and> sleeps_ok (ht_held st) evs" by blast
      then show ?thesis using 1 3 u None True t1 t3 u2
        by (simp add: getRawSlotted_def turns_ok_def)
    next
      case (Some _)
      have "\<exists>evs. net_log s2 = net_log st @ evs \<and> sleeps_ok (ht_held st) evs"
        using v1 u2 g by (intro exI [of _ "v1 @ [EvGetUser]"]) simp
      then show ?thesis using 1 u Some True t1 u2
        by (simp add: getRawSlotted_def turns_ok_def)
    qed
  qed
qed

end

section \<open>The loop against its specification\<close>

text \<open>
  What a caller whose context never ends is promised: the first reply, among the next four, that
  is neither a transport error nor a 429/503 is the outcome; failing that, the last reply's error,
  a 429/503 joined with \<open>ErrRateLimited\<close>.
\<close>

definition reply_outcome :: "http_env \<Rightarrow> raw_reply \<Rightarrow> bytes \<times> int \<times> go_error option" where
  "reply_outcome en r =
     (case r of
        BadRequest e \<Rightarrow> ([], 0, Some e)
      | TransportFails d e \<Rightarrow> ([], 0, Some e)
      | Reply d status ra a body rerr \<Rightarrow>
          if 200 \<le> status \<and> status < 300 then (body, status, rerr)
          else ([], status, Some (ErrApiPtr (a\<lparr>ae_status := status,
                  ae_message := (if ae_message a = '''' then en_status_text en status else ae_message a)\<rparr>))))"

definition transport_failed :: "go_error option \<Rightarrow> bool" where
  "transport_failed err = (case err of None \<Rightarrow> False | Some e \<Rightarrow> asAPIError e = None)"

fun retry_spec ::
    "http_env \<Rightarrow> (nat \<Rightarrow> raw_reply) \<Rightarrow> nat \<Rightarrow> nat \<Rightarrow> bytes \<times> int \<times> go_error option" where
  "retry_spec en reply i left =
     (let (b, s, e) = reply_outcome en (reply i)
      in if \<not> transport_failed e \<and> \<not> isRateStatus s then (b, s, e)
         else (case left of
                 Suc k \<Rightarrow> retry_spec en reply (Suc i) k
               | 0 \<Rightarrow> if transport_failed e then ([], s, e)
                      else ([], s, Some (ErrWrap2 ErrRateLimited
                             (case e of Some x \<Rightarrow> (case asAPIError x of Some a \<Rightarrow> ErrApiVal a
                                                  | None \<Rightarrow> ErrMsg ''nil'')
                              | None \<Rightarrow> ErrMsg ''nil'')))))"

declare retry_spec.simps [simp del]

lemma getRawOnce_outcome:
  assumes "getRawOnce en url token st = (st', b, s, ra, e)"
  shows "reply_outcome en (ht_reply st (ht_sent st) (get_request en (ht_tokens st) url token)) = (b, s, e)"
  using assms by (auto simp: getRawOnce_def reply_outcome_def Let_def split: raw_reply.splits if_splits)

abbreviation answers ::
    "http_env \<Rightarrow> string \<Rightarrow> string \<Rightarrow> 'b http_st_scheme \<Rightarrow> nat \<Rightarrow> raw_reply" where
  "answers en url token st \<equiv> (\<lambda>i. ht_reply st i (get_request en (ht_tokens st) url token))"

context slot_source
begin

lemma getRawAttempt_spec:
  assumes open_ctx: "ht_ctx_end st = None" and le: "attempt \<le> getRawAttempts"
  shows "(case getRawAttempt en url token attempt (Some acquire) st of
     Inl st' \<Rightarrow> ht_ctx_end st' = None \<and> ht_reply st' = ht_reply st \<and> ht_tokens st' = ht_tokens st \<and> ht_sent st' = Suc (ht_sent st)
        \<and> attempt \<noteq> getRawAttempts
        \<and> (\<exists>k. getRawAttempts - attempt = Suc k \<and>
           retry_spec en (answers en url token st) (ht_sent st) (getRawAttempts - attempt)
           = retry_spec en (answers en url token st) (Suc (ht_sent st)) k)
   | Inr (st', r) \<Rightarrow> r = retry_spec en (answers en url token st) (ht_sent st) (getRawAttempts - attempt))"
proof -
  obtain st0 release where acq: "acquire st = (st0, Inr release)"
    using acquire_open [OF open_ctx] by blast
  obtain st1 b s ra e where once: "getRawOnce en url token st0 = (st1, b, s, ra, e)"
    by (cases "getRawOnce en url token st0") auto
  let ?st2 = "release st1"
  have same: "ht_reply st0 = ht_reply st \<and> ht_sent st0 = ht_sent st \<and> ht_tokens st0 = ht_tokens st"
    using acquire_same [OF acq] by (simp add: same_http_def)
  have t: "turns_ok 1 st ?st2 \<and> ht_sent ?st2 = Suc (ht_sent st)"
    using attempt_once [OF acq once] by blast
  then have open2: "ht_ctx_end ?st2 = None" "ht_reply ?st2 = ht_reply st" "ht_tokens ?st2 = ht_tokens st"
    using open_ctx by (auto simp: turns_ok_def)
  then have nd: "\<not> ctx_done ?st2" by (simp add: ctx_done_def)
  have out: "reply_outcome en (answers en url token st (ht_sent st)) = (b, s, e)"
    using getRawOnce_outcome [OF once] same by simp
  let ?w = "retry_wait attempt (isRateStatus s) ra (rateLimitJitter ?st2)"
  obtain st3 where sl: "sleep ?w ?st2 = (st3, False)" "ht_ctx_end st3 = None"
      "ht_reply st3 = ht_reply st" "ht_tokens st3 = ht_tokens st" "ht_sent st3 = Suc (ht_sent st)"
    using open2 t by (auto simp: sleep_def log_ev_def Let_def)
  have tr: "transport_failed e \<longleftrightarrow> (e \<noteq> None \<and> (case e of None \<Rightarrow> None | Some x \<Rightarrow> asAPIError x) = None)"
    by (auto simp: transport_failed_def split: option.splits)
  show ?thesis
  proof (cases "attempt = getRawAttempts")
    case True
    then show ?thesis using acq once nd out tr t
      by (subst retry_spec.simps)
        (auto simp: getRawAttempt_def Let_def split: option.splits prod.splits)
  next
    case False
    then obtain k where k: "getRawAttempts - attempt = Suc k" using le
      by (metis Suc_diff_Suc le_neq_implies_less)
    have rs: "retry_spec en (answers en url token st) (ht_sent st) (Suc k) =
        (if \<not> transport_failed e \<and> \<not> isRateStatus s then (b, s, e)
         else retry_spec en (answers en url token st) (Suc (ht_sent st)) k)"
      using out by (subst retry_spec.simps) simp
    show ?thesis
      using False acq once nd sl k
      by (auto simp: getRawAttempt_def Let_def rs tr)
  qed
qed

lemma getRaw_turns_spec:
  "ht_ctx_end st = None \<Longrightarrow> attempt + n = Suc getRawAttempts \<Longrightarrow> 0 < n \<Longrightarrow>
     \<exists>st'. getRaw_turns en url token (Some acquire) n attempt st
       = Some (st', retry_spec en (answers en url token st) (ht_sent st) (getRawAttempts - attempt))"
proof (induction n arbitrary: attempt st)
  case (Suc n)
  have a: "attempt \<le> getRawAttempts" using Suc.prems by simp
  note sp = getRawAttempt_spec [OF Suc.prems(1) a, of en url token]
  show ?case
  proof (cases "getRawAttempt en url token attempt (Some acquire) st")
    case (Inl st1)
    with sp have "getRawAttempts - Suc attempt < getRawAttempts - attempt" by auto
    then have n: "0 < n" using Suc.prems by simp
    have "\<exists>st'. getRaw_turns en url token (Some acquire) n (Suc attempt) st1
       = Some (st', retry_spec en (answers en url token st1) (ht_sent st1) (getRawAttempts - Suc attempt))"
      using Suc.prems n Inl sp by (intro Suc.IH) auto
    moreover have "getRawAttempts - attempt = Suc (getRawAttempts - Suc attempt)"
      using Inl sp a by auto
    ultimately show ?thesis using Inl sp by auto
  next
    case (Inr r)
    then show ?thesis using sp by (cases r) auto
  qed
qed simp

lemma getRawRetrying_spec:
  "ht_ctx_end st = None \<Longrightarrow>
     \<exists>st'. getRawRetrying en url token (Some acquire) st
       = Some (st', retry_spec en (answers en url token st) (ht_sent st) (getRawAttempts - 1))"
  using getRaw_turns_spec [of st 1 getRawAttempts en url token]
  by (simp add: getRawRetrying_def getRawAttempts_def)

end

section \<open>Where a body comes from, and what the state's extension keeps\<close>

definition full_url :: "http_env \<Rightarrow> string \<Rightarrow> string" where
  "full_url en url = (if take 1 url = ''/'' then en_api_url en @ url else url)"

text \<open>\<open>body\<close> is a complete 2xx answer to a request for \<open>url\<close>.\<close>

definition served :: "http_env \<Rightarrow> (nat \<Rightarrow> raw_request \<Rightarrow> raw_reply) \<Rightarrow> string \<Rightarrow> bytes \<Rightarrow> bool" where
  "served en reply url body \<longleftrightarrow>
     (\<exists>n rq d s ra a. rq_url rq = full_url en url \<and> reply n rq = Reply d s ra a body None
        \<and> 200 \<le> s \<and> s < 300)"

lemma getRawOnce_served:
  assumes "getRawOnce en url token st = (st', b, s, ra, None)"
  shows "served en (ht_reply st) url b \<and> s \<noteq> statusUnauthorized"
proof -
  let ?rq = "get_request en (ht_tokens st) url token"
  have u: "rq_url ?rq = full_url en url" by (simp add: get_request_def full_url_def)
  obtain d ra' a where "ht_reply st (ht_sent st) ?rq = Reply d s ra' a b None" "200 \<le> s" "s < 300"
    using assms by (auto simp: getRawOnce_def Let_def split: raw_reply.splits if_splits)
  then show ?thesis using u unfolding served_def by fastforce
qed

context slot_source
begin

lemma getRawAttempt_served:
  "getRawAttempt en url token attempt (Some acquire) st = Inr (st', b, s, None) \<Longrightarrow>
     served en (ht_reply st) url b \<and> s \<noteq> statusUnauthorized"
  using getRawOnce_served acquire_same
  by (fastforce simp: getRawAttempt_def Let_def same_http_def split: prod.splits sum.splits if_splits)

lemma getRaw_turns_served:
  "attempt + n = Suc getRawAttempts \<Longrightarrow>
     getRaw_turns en url token (Some acquire) n attempt st = Some (st', b, s, None) \<Longrightarrow>
     served en (ht_reply st) url b \<and> s \<noteq> statusUnauthorized"
proof (induction n arbitrary: attempt st)
  case (Suc n)
  show ?case
  proof (cases "getRawAttempt en url token attempt (Some acquire) st")
    case (Inl st1)
    have "attempt_ok attempt st (getRawAttempt en url token attempt (Some acquire) st)"
      using Suc.prems(1) by (intro getRawAttempt_ok) simp
    then have "ht_reply st1 = ht_reply st" using Inl by (simp add: attempt_ok_def turns_ok_def)
    then show ?thesis using Suc.IH [of "Suc attempt" st1] Suc.prems Inl by simp
  next
    case (Inr r)
    then show ?thesis using Suc.prems(2) getRawAttempt_served by simp
  qed
qed simp

lemma getRawSlotted_served:
  assumes "getRawSlotted en url token (Some acquire) st = Some (st', b, None)"
  shows "served en (ht_reply st) url b"
proof -
  obtain s1 b1 x1 e1 where 1: "getRawRetrying en url token (Some acquire) st = Some (s1, b1, x1, e1)"
    and t1: "turns_ok getRawAttempts st s1"
    using getRawRetrying_ok by blast
  have served: "getRawRetrying en url token (Some acquire) s = Some (s', b', x', None) \<Longrightarrow>
      served en (ht_reply s) url b' \<and> x' \<noteq> statusUnauthorized" for s s' b' x'
    using getRaw_turns_served [of 1 getRawAttempts] by (simp add: getRawRetrying_def)
  obtain s2 u where u: "GetUser s1 = (s2, u)" by (cases "GetUser s1")
  have "ht_reply s2 = ht_reply st"
    using u t1 by (auto simp: GetUser_def log_ev_def Let_def turns_ok_def split: sum.splits)
  then show ?thesis
    using assms 1 u served [of st] served [of s2]
    by (auto simp: getRawSlotted_def split: if_splits option.splits)
qed

lemma getRawSlotted_reply:
  assumes "getRawSlotted en url token (Some acquire) st = Some (st', b, e)"
  shows "ht_reply st' = ht_reply st"
proof -
  have ret: "getRawRetrying en url token (Some acquire) s = Some (s', r) \<Longrightarrow> ht_reply s' = ht_reply s" for s s' r
    using getRawRetrying_ok [of en url token s] by (auto simp: turns_ok_def)
  have u: "GetUser s = (s', x) \<Longrightarrow> ht_reply s' = ht_reply s" for s s' x
    by (auto simp: GetUser_def log_ev_def Let_def split: sum.splits)
  show ?thesis
    using assms by (auto simp: getRawSlotted_def dest!: ret u split: option.splits prod.splits if_splits)
qed

end

text \<open>A caller whose state is larger than the HTTP state: whatever \<open>view\<close> of its own part the
  slots keep, the whole call keeps.\<close>

locale framed_slots = slot_source acquire
  for acquire :: "'a http_st_scheme \<Rightarrow> 'a http_st_scheme \<times> (go_error + ('a http_st_scheme \<Rightarrow> 'a http_st_scheme))" +
  fixes view :: "'a http_st_scheme \<Rightarrow> 'x"
  assumes view_more: "http_st.more s = http_st.more s' \<Longrightarrow> view s = view s'"
    and acquire_view: "acquire st = (st', r) \<Longrightarrow> view st' = view st"
    and release_view: "acquire st = (st', Inr release) \<Longrightarrow> view (release s) = view s"
begin

lemma getRawOnce_more:
  "getRawOnce en url token st = (st', b, s, ra, e) \<Longrightarrow> http_st.more st' = http_st.more st"
  by (auto simp: getRawOnce_def log_ev_def Let_def split: raw_reply.splits if_splits)

lemma noteWindow_more [simp]: "http_st.more (noteWindow s e ra st) = http_st.more st"
  by (simp add: noteWindow_def log_ev_def)

lemma sleep_more: "http_st.more (fst (sleep w st)) = http_st.more st"
  by (simp add: sleep_def log_ev_def Let_def split: option.split)

lemma GetUser_more: "http_st.more (fst (GetUser st)) = http_st.more st"
  by (simp add: GetUser_def log_ev_def Let_def split: sum.split)

lemma getRawAttempt_view:
  "view (case getRawAttempt en url token attempt (Some acquire) st of
     Inl st' \<Rightarrow> st' | Inr (st', _) \<Rightarrow> st') = view st"
proof -
  obtain st0 slot where acq: "acquire st = (st0, slot)" by (cases "acquire st")
  show ?thesis
  proof (cases slot)
    case (Inl e)
    then show ?thesis using acq acquire_view [OF acq] by (simp add: getRawAttempt_def)
  next
    case (Inr release)
    obtain st1 b s ra e where once: "getRawOnce en url token st0 = (st1, b, s, ra, e)"
      by (cases "getRawOnce en url token st0") auto
    have r: "view (release st1) = view st"
      using acquire_view [OF acq] release_view [OF acq [unfolded Inr]] view_more [OF getRawOnce_more [OF once]] by simp
    let ?w = "retry_wait attempt (isRateStatus s) ra (rateLimitJitter (release st1))"
    obtain st3 ended where sl: "sleep ?w (release st1) = (st3, ended)"
      by (cases "sleep ?w (release st1)")
    then have v3: "view st3 = view (release st1)"
      using view_more [of st3 "release st1"] sleep_more [of ?w "release st1"] by simp
    have vn: "view (noteWindow x y z s') = view s'" for x y z s'
      by (rule view_more) simp
    show ?thesis
      using acq Inr once r sl v3 vn by (cases "isRateStatus s") (simp_all add: getRawAttempt_def Let_def)
  qed
qed

lemma getRaw_turns_view:
  "getRaw_turns en url token (Some acquire) n attempt st = Some (st', r) \<Longrightarrow>
     view st' = view st"
proof (induction n arbitrary: attempt st)
  case (Suc n)
  show ?case using Suc getRawAttempt_view [of en url token attempt st]
    by (cases "getRawAttempt en url token attempt (Some acquire) st") auto
qed simp

lemma getRawSlotted_view:
  assumes "getRawSlotted en url token (Some acquire) st = Some (st', b, e)"
  shows "view st' = view st"
proof -
  have ret: "getRawRetrying en url token (Some acquire) s = Some (s', r) \<Longrightarrow>
      view s' = view s" for s s' r
    using getRaw_turns_view by (simp add: getRawRetrying_def)
  obtain s1 b1 x1 e1 where 1: "getRawRetrying en url token (Some acquire) st = Some (s1, b1, x1, e1)"
    using getRawRetrying_ok by blast
  show ?thesis
    using assms 1 ret [OF 1] view_more [OF GetUser_more [of s1]] ret [of "fst (GetUser s1)"]
    by (cases "GetUser s1") (auto simp: getRawSlotted_def split: if_splits option.splits)
qed

end

section \<open>The contract holds of the download slots, and of no slots\<close>

definition noSlot :: "'a acquireFunc" where
  "noSlot st = (st, Inr (\<lambda>s. s))"

lemma same_http_refl [simp]: "same_http s s"
  by (simp add: same_http_def)

lemma same_http_releaseDownload: "same_http s (releaseDownload s)"
  by (simp add: same_http_def releaseDownload_def log_ev_def net_log_def)

lemma acquireDownload_cases:
  "acquireDownload st = (st', r) \<Longrightarrow>
     same_http st st' \<and>
     (case r of Inl e \<Rightarrow> ht_held st' = ht_held st \<and> ht_ctx_end st \<noteq> None
      | Inr release \<Rightarrow> (release = (\<lambda>s. s) \<and> ht_held st' = ht_held st)
                     \<or> (release = releaseDownload \<and> ht_held st' = Suc (ht_held st)))"
  by (auto simp: acquireDownload_def Let_def log_ev_def same_http_def net_log_def
           split: option.splits if_splits)

interpretation download_slots: slot_source acquireDownload
proof (unfold_locales, goal_cases)
  case (1 st st' r)
  then show ?case using acquireDownload_cases by blast
next
  case (2 st st' e)
  then show ?case using acquireDownload_cases [OF 2] by simp
next
  case (3 st st' release s)
  then show ?case using acquireDownload_cases [OF 3] by (auto simp: same_http_releaseDownload)
next
  case (4 st st' release s)
  then show ?case using acquireDownload_cases [OF 4(1)] by (auto simp: releaseDownload_def log_ev_def)
next
  case (5 st)
  then show ?case using acquireDownload_cases [of st]
    by (cases "acquireDownload st"; cases "snd (acquireDownload st)") fastforce+
qed

interpretation free_slots: slot_source noSlot
  by unfold_locales (auto simp: noSlot_def)

lemma getRaw_turns_noSlot:
  "getRaw_turns en url token None n attempt st = getRaw_turns en url token (Some noSlot) n attempt st"
  by (induction n arbitrary: attempt st) (auto simp: getRawAttempt_def noSlot_def split: sum.splits)

lemma getRawRetrying_noSlot:
  "getRawRetrying en url token None = getRawRetrying en url token (Some noSlot)"
  by (rule ext) (simp add: getRawRetrying_def getRaw_turns_noSlot)

lemma getRaw_noSlot: "getRaw en url token st = getRawSlotted en url token (Some noSlot) st"
  unfolding getRaw_def getRawSlotted_def getRawRetrying_noSlot ..

interpretation free_slots_framed: framed_slots noSlot http_st.more
  by unfold_locales (auto simp: noSlot_def)

section \<open>The JSON PUT\<close>

text \<open>
  A marshalled body's top-level fields, as \<open>json.Unmarshal\<close> into a map of raw messages gives them:
  key, raw text, and the value when it is a JSON string. \<open>None\<close> is a payload that is no object.
\<close>

type_synonym payload = "(string \<times> string \<times> string option) list option"

definition field_length :: "string \<times> string \<times> string option \<Rightarrow> string" where
  "field_length f =
     (case f of (k, raw, str) \<Rightarrow>
        k @ ''='' @ itoa (int (case str of Some s \<Rightarrow> length s | None \<Rightarrow> length raw)))"

definition payloadFieldLengths :: "payload \<Rightarrow> string" where
  "payloadFieldLengths p =
     (case p of None \<Rightarrow> ''''
      | Some fs \<Rightarrow> join_with '' '' (map field_length (sort_key fst fs)))"

definition put_request :: "http_env \<Rightarrow> string \<times> string \<Rightarrow> string \<Rightarrow> raw_request" where
  "put_request en tokens path =
     \<lparr> rq_url = en_api_url en @ path,
       rq_headers = [(''x-pm-uid'', fst tokens), (''Authorization'', ''Bearer '' @ snd tokens),
                     (''x-pm-appversion'', en_app_version en),
                     (''Accept'', ''application/vnd.protonmail.v1+json''),
                     (''Content-Type'', ''application/json'')] \<rparr>"

definition putJSONOnce ::
    "http_env \<Rightarrow> string \<Rightarrow> payload \<Rightarrow> 'a http_st_scheme \<Rightarrow> 'a http_st_scheme \<times> int \<times> go_error option" where
  "putJSONOnce en path payload st =
     (let st0 = st\<lparr>ht_puts := Suc (ht_puts st)\<rparr>;
          st1 = log_ev (EvPut (put_request en (ht_tokens st) path)) st0
      in case ht_put_reply st (ht_puts st) of
           PutMarshalFails e \<Rightarrow> (st0, 0, Some e)
         | PutTransportFails d e \<Rightarrow> (st1\<lparr>ht_now := ht_now st + max 0 d\<rparr>, 0, Some e)
         | PutReply d status decoded \<Rightarrow>
             (let st2 = st1\<lparr>ht_now := ht_now st + max 0 d\<rparr>
              in if 200 \<le> status \<and> status < 300 then (st2, status, None)
                 else (case decoded of
                         None \<Rightarrow> (st2, status, Some (ErrMsg (''PUT '' @ path @ '': unexpected status ''
                                    @ itoa status @ '' (payload keys: '' @ payloadFieldLengths payload @ '')'')))
                       | Some a \<Rightarrow> (st2, status,
                           Some (ErrWrap ('' (payload keys: '' @ payloadFieldLengths payload @ '')'')
                                   (ErrApiVal (a\<lparr>ae_status := status\<rparr>)))))))"

definition putJSON ::
    "http_env \<Rightarrow> string \<Rightarrow> payload \<Rightarrow> 'a http_st_scheme \<Rightarrow> 'a http_st_scheme \<times> go_error option" where
  "putJSON en path payload st =
     (let (st1, status, err) = putJSONOnce en path payload st
      in if status \<noteq> statusUnauthorized then (st1, err)
         else (case GetUser st1 of
                 (st2, Some e) \<Rightarrow> (st2, err)
               | (st2, None) \<Rightarrow> (let (st3, status', err') = putJSONOnce en path payload st2 in (st3, err'))))"

lemma putJSONOnce_frame:
  "putJSONOnce en path p st = (st', s, e) \<Longrightarrow>
     ht_puts st' = Suc (ht_puts st) \<and> ht_put_reply st' = ht_put_reply st
     \<and> ht_get_user st' = ht_get_user st \<and> ht_users st' = ht_users st \<and> ht_until st' = ht_until st
     \<and> ht_sent st' = ht_sent st"
  by (auto simp: putJSONOnce_def Let_def log_ev_def split: put_reply.splits if_splits option.splits)

lemma putJSONOnce_ok:
  "putJSONOnce en path p st = (st', s, e) \<Longrightarrow>
     (e = None) = (\<exists>d x a. ht_put_reply st (ht_puts st) = PutReply d x a \<and> 200 \<le> x \<and> x < 300)
     \<and> (e = None \<longrightarrow> s \<noteq> statusUnauthorized)"
  by (auto simp: putJSONOnce_def Let_def log_ev_def split: put_reply.splits if_splits option.splits)

lemma GetUser_frame:
  "GetUser st = (st', r) \<Longrightarrow> ht_puts st' = ht_puts st \<and> ht_put_reply st' = ht_put_reply st
     \<and> ht_until st' = ht_until st \<and> ht_sent st' = ht_sent st"
  by (auto simp: GetUser_def Let_def log_ev_def split: sum.splits)

section \<open>Properties\<close>

text \<open>C14. A raw GET under the download slots always returns, after at most eight requests and one
  \<open>GetUser\<close>; it gives back every slot it takes, and every wait it makes is made while holding no
  slot of its own and is at most a minute long.\<close>

theorem getRawSlotted_bounded:
  "\<exists>st' body err.
     getRawSlotted en url token (Some acquireDownload) st = Some (st', body, err)
     \<and> ht_held st' = ht_held st
     \<and> ht_sent st' \<le> ht_sent st + 8 \<and> ht_users st' \<le> ht_users st + 1
     \<and> (\<exists>evs. net_log st' = net_log st @ evs \<and> sleeps_ok (ht_held st) evs)"
  using download_slots.getRawSlotted_ok [of en url token st] by (simp add: getRawAttempts_def)

text \<open>The shared rate-limit window moves only when the call fails with a 429/503 as its last
  status, and then never more than five minutes past the clock.\<close>

theorem getRawRetrying_window:
  "\<exists>st' body status err.
     getRawRetrying en url token (Some acquireDownload) st = Some (st', body, status, err)
     \<and> (ht_until st' = ht_until st
         \<or> (isRateStatus status \<and> err \<noteq> None \<and> ht_until st' \<le> ht_now st' + minutes 5))"
proof -
  obtain st' b s e where
    "getRawRetrying en url token (Some acquireDownload) st = Some (st', b, s, e)"
    "window_ok (ht_until st) st' s e"
    using download_slots.getRawRetrying_ok [of en url token st] by blast
  then show ?thesis by (auto simp: window_ok_def maxRateLimitBackoff_def)
qed

text \<open>C24. For a caller whose context does not end the retry loop computes its specification: the
  first of the next four replies that is neither a transport error nor a 429/503, else the last
  reply's failure (a 429/503 joined with \<open>ErrRateLimited\<close>).\<close>

theorem getRawRetrying_meets_spec:
  "ht_ctx_end st = None \<Longrightarrow>
     \<exists>st'. getRawRetrying en url token None st
       = Some (st', retry_spec en (answers en url token st) (ht_sent st) 3)"
  using free_slots.getRawRetrying_spec [of st en url token]
  by (simp add: getRawRetrying_noSlot getRawAttempts_def)

definition demo_env :: http_env where
  "demo_env = \<lparr>en_api_url = ''https://a'', en_app_version = ''v'', en_parse_time = (\<lambda>_. None),
               en_status_text = (\<lambda>_. ''status'')\<rparr>"

definition demo_http :: http_st where
  "demo_http = \<lparr>ht_now = 0, ht_until = 0, ht_ctx_end = None, ht_ctx_err = ErrCanceled,
     ht_tokens = (''u'', ''t''),
     ht_reply = (\<lambda>n rq. if n = 0 then TransportFails 5 (ErrNet ''reset'')
                     else if n = 1 then Reply 5 429 ''7'' (\<lparr>ae_status = 0, ae_code = 0, ae_message = '''',
                            ae_details = JNull\<rparr>) [] None
                     else Reply 5 200 '''' (\<lparr>ae_status = 0, ae_code = 0, ae_message = '''',
                            ae_details = JNull\<rparr>) [1, 2, 3] None),
     ht_sent = 0, ht_put_reply = (\<lambda>_. PutReply 1 200 None), ht_puts = 0,
     ht_get_user = (\<lambda>_. Inr (''u'', ''t2'')), ht_users = 0, ht_jitter = (\<lambda>_. 0), ht_waits = 0,
     ht_slots = None, ht_slot_wait = (\<lambda>_. 0), ht_acquires = 0, ht_held = 0, ht_log = []\<rparr>"

theorem getRawRetrying_meets_spec_witness:
  "\<exists>st'. getRawRetrying demo_env ''https://s'' ''tok'' None demo_http = Some (st', [1, 2, 3], 200, None)"
proof -
  have "retry_spec demo_env (answers demo_env ''https://s'' ''tok'' demo_http) (ht_sent demo_http) 3 = ([1, 2, 3], 200, None)"
    by (simp add: retry_spec.simps numeral_3_eq_3 reply_outcome_def demo_http_def
          transport_failed_def asAPIError_def isRateStatus_def)
  moreover have "ht_ctx_end demo_http = None" by (simp add: demo_http_def)
  ultimately show ?thesis
    using getRawRetrying_meets_spec [of demo_http demo_env "''https://s''" "''tok''"] by simp
qed

text \<open>A usable \<open>Retry-After\<close> up to an hour is waited out up to a minute, never less; but a value
  near the largest \<open>time.Duration\<close> makes the sum with the jitter wrap, so the wait that
  \<open>maxRateLimitWait\<close> should cap is negative and the loop does not wait at all.\<close>

theorem retry_wait_bounds:
  "(\<forall>j. 0 \<le> j \<longrightarrow> j < rateLimitJitterRange \<longrightarrow> 0 < ra \<longrightarrow> ra \<le> minutes 60 \<longrightarrow>
       min ra (minutes 1) \<le> retry_wait a True ra j \<and> retry_wait a True ra j \<le> minutes 1)
   \<and> retry_wait a True (retryAfter en now ''9223372036'') (seconds 5) < 0"
proof -
  have "min ra (minutes 1) \<le> retry_wait a True ra j \<and> retry_wait a True ra j \<le> minutes 1"
    if "0 \<le> j" "j < rateLimitJitterRange" "0 < ra" "ra \<le> minutes 60" for j
  proof -
    have "wrap64 (ra + j) = ra + j"
      using that by (intro wrap64_id) (simp_all add: rateLimitJitterRange_def)
    then show ?thesis using that by (simp add: retry_wait_def maxRateLimitWait_def)
  qed
  moreover have "atoi ''9223372036'' = Some 9223372036"
    by (simp add: atoi_def digit_val_def Let_def)
  then have "retryAfter en now ''9223372036'' = 9223372036000000000"
    by (simp add: retryAfter_def Let_def wrap64_def)
  ultimately show ?thesis
    by (simp add: retry_wait_def wrap64_def maxRateLimitWait_def)
qed

theorem retry_wait_bounds_witness:
  "min (seconds 7) (minutes 1) \<le> retry_wait 2 True (seconds 7) (seconds 3)"
  using retry_wait_bounds [of "seconds 7" 2 demo_env 0] by (simp add: rateLimitJitterRange_def)

text \<open>A PUT is sent once, and once more only after a 401 and a \<open>GetUser\<close> that succeeds; it never
  touches the rate-limit window, and it reports success only on a 2xx answer.\<close>

theorem putJSON_once_or_twice:
  "case putJSON en path p st of (st', err) \<Rightarrow>
     (ht_puts st' = ht_puts st + 1 \<or> ht_puts st' = ht_puts st + 2)
     \<and> ht_until st' = ht_until st \<and> ht_sent st' = ht_sent st
     \<and> (err = None) = (\<exists>d s a. ht_put_reply st (ht_puts st' - 1) = PutReply d s a \<and> 200 \<le> s \<and> s < 300)"
proof -
  obtain s1 x1 e1 where 1: "putJSONOnce en path p st = (s1, x1, e1)" by (cases "putJSONOnce en path p st")
  obtain s2 u where 2: "GetUser s1 = (s2, u)" by (cases "GetUser s1")
  obtain s3 x3 e3 where 3: "putJSONOnce en path p s2 = (s3, x3, e3)" by (cases "putJSONOnce en path p s2")
  note f = putJSONOnce_frame [OF 1] putJSONOnce_ok [OF 1] GetUser_frame [OF 2]
    putJSONOnce_frame [OF 3] putJSONOnce_ok [OF 3]
  show ?thesis
  proof (cases "x1 = statusUnauthorized \<and> u = None")
    case True
    then show ?thesis using f 1 2 3 by (simp add: putJSON_def)
  next
    case False
    then have "putJSON en path p st = (s1, e1) \<or> (x1 = statusUnauthorized \<and> putJSON en path p st = (s2, e1))"
      using 1 2 by (auto simp: putJSON_def Let_def split: option.splits)
    then show ?thesis using f by auto
  qed
qed

end
