(* ===== verification/Activity.thy ===== *)
theory Activity
  imports Block_Cache
begin

text \<open>
  Transfers in flight (internal/drive/activity.go): the shared counter, the map of current
  transfers and each transfer's byte count. A \<open>*Transfer\<close> is its identifier; identifier 0 is a
  transfer that was never registered (the zero value \<open>ensureTransfer\<close> hands out after \<open>Close\<close>), so
  counting into it is visible to nobody.
\<close>

record transfer =
  tr_id :: nat
  tr_path :: string
  tr_action :: string
  tr_total :: int
  tr_started :: nanos

record activity =
  ac_next :: nat
  ac_count :: int
  ac_current :: "transfer list"
  ac_bytes :: "nat \<Rightarrow> int"

definition begin_transfer :: "string \<Rightarrow> string \<Rightarrow> int \<Rightarrow> nanos \<Rightarrow> activity \<Rightarrow> activity \<times> nat" where
  "begin_transfer path action nbytes now a =
     (let i = Suc (ac_next a);
          t = \<lparr>tr_id = i, tr_path = path, tr_action = action, tr_total = nbytes, tr_started = now\<rparr>
      in (a\<lparr>ac_next := i, ac_count := ac_count a + 1, ac_current := ac_current a @ [t]\<rparr>, i))"

definition end_transfer :: "nat \<Rightarrow> activity \<Rightarrow> activity" where
  "end_transfer i a =
     a\<lparr>ac_current := filter (\<lambda>t. tr_id t \<noteq> i) (ac_current a), ac_count := ac_count a - 1\<rparr>"

definition add_bytes :: "nat \<Rightarrow> int \<Rightarrow> activity \<Rightarrow> activity" where
  "add_bytes i n a = a\<lparr>ac_bytes := (ac_bytes a)(i := ac_bytes a i + n)\<rparr>"

definition Transfers :: "activity \<Rightarrow> int" where
  "Transfers a = ac_count a"

definition CurrentTransfers :: "activity \<Rightarrow> transfer list" where
  "CurrentTransfers a = ac_current a"

definition CacheDir :: "(block_cache \<times> disk) option \<Rightarrow> string" where
  "CacheDir cache = (case cache of None \<Rightarrow> '''' | Some (bc, d) \<Rightarrow> bc_dir bc)"

definition ResetCacheSize :: "(block_cache \<times> disk) option \<Rightarrow> (block_cache \<times> disk) option" where
  "ResetCacheSize cache = map_option (\<lambda>(bc, d). (bc\<lparr>bc_size := 0\<rparr>, d)) cache"

text \<open>The counter is the number of registered transfers; identifiers are fresh.\<close>

definition activity_ok :: "activity \<Rightarrow> bool" where
  "activity_ok a \<longleftrightarrow> ac_count a = int (length (ac_current a)) \<and> distinct (map tr_id (ac_current a))
     \<and> (\<forall>t\<in>set (ac_current a). 0 < tr_id t \<and> tr_id t \<le> ac_next a)"

definition registered :: "nat \<Rightarrow> activity \<Rightarrow> bool" where
  "registered i a \<longleftrightarrow> i \<in> tr_id ` set (ac_current a)"

lemma begin_transfer_ok [inv_intros]:
  "activity_ok a \<Longrightarrow> begin_transfer p k n now a = (a', i) \<Longrightarrow>
     activity_ok a' \<and> registered i a' \<and> \<not> registered i a \<and> ac_bytes a' = ac_bytes a"
  by (fastforce simp: activity_ok_def begin_transfer_def registered_def Let_def)

lemma length_filter_one:
  "distinct (map f xs) \<Longrightarrow> i \<in> f ` set xs \<Longrightarrow> length xs = Suc (length (filter (\<lambda>x. f x \<noteq> i) xs))"
proof (induction xs)
  case (Cons x xs)
  show ?case
  proof (cases "f x = i")
    case True
    then have "filter (\<lambda>x. f x \<noteq> i) xs = xs"
      using Cons.prems(1) by (intro filter_True) (auto simp: rev_image_eqI)
    then show ?thesis using True by simp
  next
    case False
    then show ?thesis using Cons by auto
  qed
qed simp

lemma end_transfer_ok [inv_intros]:
  "activity_ok a \<Longrightarrow> registered i a \<Longrightarrow> activity_ok (end_transfer i a) \<and> \<not> registered i (end_transfer i a)"
  using length_filter_one [of tr_id "ac_current a" i]
  by (auto simp: activity_ok_def end_transfer_def registered_def distinct_map_filter)

lemma add_bytes_ok [inv_intros]: "activity_ok (add_bytes i n a) = activity_ok a"
  by (simp add: activity_ok_def add_bytes_def)

lemma registered_add [simp]: "registered j (add_bytes i n a) = registered j a"
  by (simp add: registered_def add_bytes_def)

end
