(* ===== verification/Drive_File.thy ===== *)
theory Drive_File
  imports Drive_Node Http_Retry Activity
begin

text \<open>
  Open files (internal/drive/file.go): block arithmetic, the four-block memory cache, the way a
  block is found (memory, another goroutine's download, disk, network with one storage-token
  refresh), the read loop, and thumbnails.

  \<open>file_st\<close> extends the HTTP state with the \<open>File\<close> and what it shares: the client's disk cache and
  transfers. Another goroutine that holds the claim on a block is \<open>fl_other\<close>: what waiting for it
  yields. The claims themselves, with several goroutines, are in theory \<open>Singleflight\<close>. Decryption
  with the session key is the parameter \<open>fl_decrypt\<close>; the revision's block list, an API answer, is
  \<open>fl_revisions\<close>, one per call.
\<close>

section \<open>Blocks and offsets\<close>

definition blockSize :: int where "blockSize = 4194304"
definition maxCachedBlocks :: nat where "maxCachedBlocks = 4"

text \<open>Offsets are checked to be non-negative before, where Go's division and \<open>div\<close> agree.\<close>

definition blockIndexForOffset :: "int \<Rightarrow> int" where
  "blockIndexForOffset off = off div blockSize + 1"

definition blockByteOffset :: "int \<Rightarrow> int" where
  "blockByteOffset idx = (idx - 1) * blockSize"

definition cacheOnDisk :: "int \<Rightarrow> int \<Rightarrow> bool" where
  "cacheOnDisk sz largeFile \<longleftrightarrow> largeFile \<le> 0 \<or> sz \<le> largeFile"

lemma in_block_offset:
  "off - blockByteOffset (blockIndexForOffset off) = off mod blockSize"
  by (simp add: blockByteOffset_def blockIndexForOffset_def minus_div_mult_eq_mod)

section \<open>The memory cache\<close>

type_synonym mem_cache = "(int \<times> bytes) list \<times> int list"

definition cachePut :: "int \<Rightarrow> bytes \<Rightarrow> mem_cache \<Rightarrow> mem_cache" where
  "cachePut idx data m =
     (case m of (cache, lru) \<Rightarrow>
        if map_of cache idx \<noteq> None then m
        else let (cache1, lru1) = (if maxCachedBlocks \<le> length lru
                                   then (AList.delete (hd lru) cache, tl lru) else (cache, lru))
             in (AList.update idx data cache1, lru1 @ [idx]))"

definition mem_get :: "mem_cache \<Rightarrow> int \<Rightarrow> mem_cache \<times> bytes option" where
  "mem_get m idx = (m, map_of (fst m) idx)"

definition mem_put :: "mem_cache \<Rightarrow> int \<Rightarrow> bytes \<Rightarrow> mem_cache" where
  "mem_put m idx data = cachePut idx data m"

text \<open>The list of indices is the order of insertion of exactly the cached blocks, at most four.\<close>

definition mem_ok :: "mem_cache \<Rightarrow> bool" where
  "mem_ok m \<longleftrightarrow> distinct (snd m) \<and> set (snd m) = dom (map_of (fst m)) \<and> length (snd m) \<le> maxCachedBlocks"

lemma cachePut_ok [inv_intros]: "mem_ok m \<Longrightarrow> mem_ok (cachePut idx data m)"
proof -
  assume ok: "mem_ok m"
  obtain cache lru where m: "m = (cache, lru)" by (cases m)
  show ?thesis
  proof (cases "map_of cache idx \<noteq> None \<or> \<not> maxCachedBlocks \<le> length lru")
    case True
    then show ?thesis using ok m
      by (auto simp: mem_ok_def cachePut_def AList.update_conv')
  next
    case False
    then obtain o1 lru1 where lru: "lru = o1 # lru1"
      by (cases lru) (auto simp: maxCachedBlocks_def)
    show ?thesis using ok m False lru
      by (auto simp: mem_ok_def cachePut_def AList.update_conv' AList.delete_conv' domIff)
  qed
qed

interpretation memory_blocks: lossy_store mem_get mem_put
proof (unfold_locales, goal_cases)
  case (1 s k v k' w)
  then show ?case
    by (cases s)
      (auto simp: mem_get_def mem_put_def cachePut_def AList.update_conv' AList.delete_conv'
            split: if_splits)
next
  case (2 s k k' w)
  then show ?case by (simp add: mem_get_def)
qed

section \<open>The open file\<close>

record block =
  bk_url :: string
  bk_token :: string

datatype other_fetch =
    WaitCtxEnded
  | Published "go_error option" "bytes option"

record file_st = http_st +
  fl_blocks :: "(int \<times> block) list"
  fl_size :: int
  fl_link :: string
  fl_rev :: string
  fl_path :: string
  fl_mem :: mem_cache
  fl_other :: "int \<Rightarrow> other_fetch option"
  fl_transfer :: "nat option"
  fl_closed :: bool
  fl_failed :: bool
  fl_act :: activity
  fl_disk :: "(block_cache \<times> disk) option"
  fl_faults :: faults
  fl_rnd :: string
  fl_large :: int
  fl_revisions :: "nat \<Rightarrow> go_error + (int \<times> block) list"
  fl_rev_calls :: nat
  fl_decrypt :: "bytes \<Rightarrow> go_error + bytes"

definition ensureTransfer :: "file_st \<Rightarrow> file_st \<times> nat" where
  "ensureTransfer f =
     (if fl_closed f then (f, 0)
      else (case fl_transfer f of
              Some t \<Rightarrow> (f, t)
            | None \<Rightarrow>
                (case begin_transfer (fl_path f) ''download'' (fl_size f) (ht_now f) (fl_act f) of
                   (a, t) \<Rightarrow> (f\<lparr>fl_act := a, fl_transfer := Some t\<rparr>, t))))"

definition BytesTransferred :: "file_st \<Rightarrow> int" where
  "BytesTransferred f = (case fl_transfer f of None \<Rightarrow> 0 | Some t \<Rightarrow> ac_bytes (fl_act f) t)"

definition Close :: "file_st \<Rightarrow> file_st \<times> go_error option" where
  "Close f =
     (let f1 = f\<lparr>fl_transfer := None, fl_closed := True\<rparr>
      in case fl_transfer f of
           None \<Rightarrow> (f1, None)
         | Some t \<Rightarrow>
             (f1\<lparr>fl_act := end_transfer t (fl_act f)\<rparr>,
              (if fl_failed f then Some (ErrMsg ''a block download failed'') else None)))"

text \<open>\<open>fl_revisions\<close> lists the blocks as the API does; a later entry of the same index replaces an
  earlier one in the map the code builds.\<close>

definition revisionBlocks :: "file_st \<Rightarrow> file_st \<times> (go_error + (int \<times> block) list)" where
  "revisionBlocks f =
     (f\<lparr>fl_rev_calls := Suc (fl_rev_calls f)\<rparr>,
      (case fl_revisions f (fl_rev_calls f) of Inl e \<Rightarrow> Inl e | Inr bs \<Rightarrow> Inr (rev bs)))"

definition refreshBlock :: "int \<Rightarrow> file_st \<Rightarrow> file_st \<times> (go_error + block)" where
  "refreshBlock idx f =
     (case revisionBlocks f of
        (f1, Inl e) \<Rightarrow> (f1, Inl e)
      | (f1, Inr blocks) \<Rightarrow>
          (f1\<lparr>fl_blocks := blocks\<rparr>,
           (case map_of blocks idx of None \<Rightarrow> Inl (ErrMsg ''block not found'') | Some b \<Rightarrow> Inr b)))"

text \<open>The closure \<open>downloadBlock\<close> passes as \<open>acquire\<close>: a slot, then the tracked transfer.\<close>

definition transfer_slot ::
    "file_st \<Rightarrow> file_st \<times> (go_error + (file_st \<Rightarrow> file_st))" where
  "transfer_slot f =
     (case acquireDownload f of
        (f1, Inl e) \<Rightarrow> (f1, Inl e)
      | (f1, Inr release) \<Rightarrow> (fst (ensureTransfer f1), Inr release))"

text \<open>\<open>getRawSlotted\<close> always returns (\<open>getRawSlotted_bounded\<close>), so the \<open>None\<close> case does not arise.\<close>

definition downloadBlock :: "http_env \<Rightarrow> block \<Rightarrow> file_st \<Rightarrow> file_st \<times> (go_error + bytes)" where
  "downloadBlock en b f =
     (case getRawSlotted en (bk_url b) (bk_token b) (Some transfer_slot) f of
        None \<Rightarrow> (f, Inl ErrEOF)
      | Some (f1, body, Some e) \<Rightarrow> (f1, Inl e)
      | Some (f1, body, None) \<Rightarrow> (f1, Inr body))"

definition cache_block :: "int \<Rightarrow> bytes \<Rightarrow> file_st \<Rightarrow> file_st" where
  "cache_block idx data f = f\<lparr>fl_mem := cachePut idx data (fl_mem f)\<rparr>"

definition useDisk :: "file_st \<Rightarrow> bool" where
  "useDisk f \<longleftrightarrow> fl_disk f \<noteq> None \<and> cacheOnDisk (fl_size f) (fl_large f)"

definition disk_get :: "int \<Rightarrow> file_st \<Rightarrow> file_st \<times> bytes option" where
  "disk_get idx f =
     (case fl_disk f of
        None \<Rightarrow> (f, None)
      | Some cd \<Rightarrow> (case block_get (fl_faults f) cd (fl_link f, fl_rev f, idx) of
                      (cd1, r) \<Rightarrow> (f\<lparr>fl_disk := Some cd1\<rparr>, r)))"

definition disk_put :: "int \<Rightarrow> bytes \<Rightarrow> file_st \<Rightarrow> file_st" where
  "disk_put idx data f =
     (case fl_disk f of
        None \<Rightarrow> f
      | Some cd \<Rightarrow> f\<lparr>fl_disk := Some (block_put (fl_faults f) (fl_rnd f) cd (fl_link f, fl_rev f, idx) data)\<rparr>)"

text \<open>The download with its one retry after a rejected storage token.\<close>

definition download_refreshing :: "http_env \<Rightarrow> int \<Rightarrow> block \<Rightarrow> file_st \<Rightarrow> file_st \<times> (go_error + bytes)" where
  "download_refreshing en idx b f =
     (case downloadBlock en b f of
        (f1, Inr c) \<Rightarrow> (f1, Inr c)
      | (f1, Inl e) \<Rightarrow>
          if storageTokenRejected e
          then (case refreshBlock idx f1 of
                  (f2, Inl e') \<Rightarrow> (f2, Inl e')
                | (f2, Inr b') \<Rightarrow> downloadBlock en b' f2)
          else (f1, Inl e))"

definition decrypt_and_cache :: "int \<Rightarrow> bytes \<Rightarrow> file_st \<Rightarrow> file_st \<times> (go_error + bytes)" where
  "decrypt_and_cache idx ciphertext f =
     (case ensureTransfer f of
        (f1, t) \<Rightarrow>
          (case fl_decrypt f1 ciphertext of
             Inl e \<Rightarrow> (f1\<lparr>fl_failed := True\<rparr>, Inl e)
           | Inr data \<Rightarrow>
               (let f2 = f1\<lparr>fl_act := add_bytes t (int (length data)) (fl_act f1)\<rparr>;
                    f3 = (if useDisk f2 then disk_put idx data f2 else f2)
                in (cache_block idx data f3, Inr data))))"

definition fetchAndCacheBlock :: "http_env \<Rightarrow> int \<Rightarrow> file_st \<Rightarrow> file_st \<times> (go_error + bytes)" where
  "fetchAndCacheBlock en idx f =
     (case (if useDisk f then disk_get idx f else (f, None)) of
        (f1, Some data) \<Rightarrow> (cache_block idx data f1, Inr data)
      | (f1, None) \<Rightarrow>
          (case map_of (fl_blocks f1) idx of
             None \<Rightarrow> (f1, Inl (ErrMsg ''block not found''))
           | Some b \<Rightarrow>
               (case download_refreshing en idx b f1 of
                  (f2, Inl e) \<Rightarrow>
                    if errors_is e ErrNoDownloadSlot then (f2, Inl e)
                    else (f2\<lparr>fl_failed := True\<rparr>, Inl e)
                | (f2, Inr ciphertext) \<Rightarrow> decrypt_and_cache idx ciphertext f2)))"

definition getBlock :: "http_env \<Rightarrow> int \<Rightarrow> file_st \<Rightarrow> file_st \<times> (go_error + bytes)" where
  "getBlock en idx f =
     (case map_of (fst (fl_mem f)) idx of
        Some data \<Rightarrow> (f, Inr data)
      | None \<Rightarrow>
          (case fl_other f idx of
             Some WaitCtxEnded \<Rightarrow> (f, Inl (ht_ctx_err f))
           | Some (Published (Some e) _) \<Rightarrow> (f, Inl e)
           | Some (Published None (Some data)) \<Rightarrow> (f, Inr data)
           | Some (Published None None) \<Rightarrow> (f, Inl (ErrMsg ''block fetch result missing from cache''))
           | None \<Rightarrow> fetchAndCacheBlock en idx f))"

section \<open>Reading\<close>

text \<open>\<open>got\<close> is \<open>p[:n]\<close>. \<open>Inl\<close> is a return from inside the loop, \<open>Inr\<close> its end or a \<open>break\<close>.\<close>

function read_loop :: "http_env \<Rightarrow> nat \<Rightarrow> int \<Rightarrow> file_st \<Rightarrow> bytes \<Rightarrow> file_st \<times> (go_error + bytes)" where
  "read_loop en want off f got =
     (if want \<le> length got then (f, Inr got)
      else let curOff = off + int (length got)
           in if fl_size f \<le> curOff then (f, Inr got)
              else (case getBlock en (blockIndexForOffset curOff) f of
                      (f1, Inl e) \<Rightarrow> if got \<noteq> [] then (f1, Inr got) else (f1, Inl e)
                    | (f1, Inr data) \<Rightarrow>
                        (let inBlockOff = curOff - blockByteOffset (blockIndexForOffset curOff)
                         in if int (length data) \<le> inBlockOff
                            then (if got = [] then (f1, Inl ErrEOF) else (f1, Inr got))
                            else read_loop en want off f1
                                   (got @ take (want - length got) (drop (nat inBlockOff) data)))))"
  by pat_completeness auto
termination
proof (relation "measure (\<lambda>(en, want, off, f, got). want - length got)", goal_cases)
  case (2 en want off f got curOff x y data)
  have "0 \<le> off + int (length got) - blockByteOffset (blockIndexForOffset (off + int (length got)))"
    by (simp add: in_block_offset blockSize_def)
  then show ?case using 2 by (auto simp: min_def)
qed simp

declare read_loop.simps [simp del]

definition ReadAt :: "http_env \<Rightarrow> nat \<Rightarrow> int \<Rightarrow> file_st \<Rightarrow> file_st \<times> bytes \<times> go_error option" where
  "ReadAt en want off f =
     (if off < 0 then (f, [], Some (ErrMsg ''negative offset''))
      else if fl_size f \<le> off then (f, [], Some ErrEOF)
      else (case read_loop en want off f [] of
              (f1, Inl e) \<Rightarrow> (f1, [], Some e)
            | (f1, Inr got) \<Rightarrow> (f1, got, if length got < want then Some ErrEOF else None)))"

section \<open>Opening, and the size from the last block\<close>

definition correctSizeFromBlocks :: "http_env \<Rightarrow> file_st \<Rightarrow> file_st \<times> int \<times> go_error option" where
  "correctSizeFromBlocks en f =
     (if fl_blocks f = [] then (f, 0, None)
      else let lastIdx = foldl max 0 (map fst (fl_blocks f))
           in (case getBlock en lastIdx f of
                 (f1, Inl e) \<Rightarrow> (f1, fl_size f, Some e)
               | (f1, Inr data) \<Rightarrow> (f1, blockByteOffset lastIdx + int (length data), None)))"

text \<open>\<open>OpenFile\<close>: \<open>f0\<close> carries the client's shared parts; \<open>session\<close> is \<open>Link.GetSessionKey\<close>, giving
  the decryption with that key.\<close>

definition OpenFile ::
    "http_env \<Rightarrow> crypto \<Rightarrow> (link \<Rightarrow> keyring \<Rightarrow> go_error + (bytes \<Rightarrow> go_error + bytes)) \<Rightarrow> file_st
       \<Rightarrow> node \<Rightarrow> string \<Rightarrow> node \<times> (go_error + file_st)" where
  "OpenFile en cr session f0 n path =
     (case lk_file (nd_link n) of
        None \<Rightarrow> (n, Inl (ErrMsg ''node is not a file''))
      | Some rm \<Rightarrow>
          if lk_type (nd_link n) \<noteq> LinkTypeFile then (n, Inl (ErrMsg ''node is not a file''))
          else (case Keyring cr n of
                  (n1, Inl e) \<Rightarrow> (n1, Inl e)
                | (n1, Inr kr) \<Rightarrow>
                    (case session (nd_link n1) kr of
                       Inl e \<Rightarrow> (n1, Inl e)
                     | Inr decrypt \<Rightarrow>
                         (let n2 = ResolveAttrs cr n1
                          in case revisionBlocks f0 of
                               (f1, Inl e) \<Rightarrow> (n2, Inl e)
                             | (f1, Inr blocks) \<Rightarrow>
                                 (let f2 = f1\<lparr>fl_blocks := blocks, fl_size := nd_size n2, fl_link := lk_id (nd_link n2),
                                              fl_rev := rv_id rm,
                                              fl_path := (if path = '''' then nd_name n else path),
                                              fl_mem := ([], []), fl_other := (\<lambda>_. None), fl_transfer := None,
                                              fl_closed := False, fl_failed := False, fl_decrypt := decrypt\<rparr>
                                  in if \<not> nd_attrsKnown n2 \<and> blocks \<noteq> []
                                     then (case correctSizeFromBlocks en f2 of
                                             (f3, computed, None) \<Rightarrow>
                                               (SetPlaintextSize computed n2, Inr (f3\<lparr>fl_size := computed\<rparr>))
                                           | (f3, computed, Some e) \<Rightarrow> (n2, Inr f3))
                                     else (n2, Inr f2))))))"

section \<open>Thumbnails\<close>

definition HasThumbnail :: "node \<Rightarrow> bool" where
  "HasThumbnail n \<longleftrightarrow>
     (case lk_file (nd_link n) of None \<Rightarrow> False
      | Some rm \<Rightarrow> lk_type (nd_link n) = LinkTypeFile \<and> rv_thumbnail rm)"

text \<open>\<open>parse\<close> is \<open>json.Unmarshal\<close> into the two fields the response is read for.\<close>

definition thumbnailURL ::
    "http_env \<Rightarrow> (bytes \<Rightarrow> go_error + (string \<times> string)) \<Rightarrow> string \<Rightarrow> string \<Rightarrow> string \<Rightarrow> 'a http_st_scheme
       \<Rightarrow> 'a http_st_scheme \<times> (go_error + (string \<times> string))" where
  "thumbnailURL en parse shareID linkID revID st =
     (case getRaw en (''/drive/shares/'' @ shareID @ ''/files/'' @ linkID @ ''/revisions/'' @ revID
                      @ ''/thumbnail?Type='' @ itoa 1) '''' st of
        None \<Rightarrow> (st, Inl ErrEOF)
      | Some (st1, body, Some e) \<Rightarrow> (st1, Inl e)
      | Some (st1, body, None) \<Rightarrow>
          (case parse body of
             Inl e \<Rightarrow> (st1, Inl (ErrWrap (''thumbnail response for revision '' @ revID @ '': '') e))
           | Inr (url, token) \<Rightarrow>
               if url = '''' then (st1, Inl (ErrMsg (''no thumbnail url for revision '' @ revID)))
               else (st1, Inr (url, token))))"

definition with_timeout :: "nanos \<Rightarrow> 'a http_st_scheme \<Rightarrow> 'a http_st_scheme" where
  "with_timeout d st =
     (if d \<le> 0 then st
      else case ht_ctx_end st of
             Some t \<Rightarrow> if t \<le> ht_now st + d then st
                       else st\<lparr>ht_ctx_end := Some (ht_now st + d), ht_ctx_err := ErrDeadline\<rparr>
           | None \<Rightarrow> st\<lparr>ht_ctx_end := Some (ht_now st + d), ht_ctx_err := ErrDeadline\<rparr>)"

definition Thumbnail ::
    "http_env \<Rightarrow> crypto \<Rightarrow> (link \<Rightarrow> keyring \<Rightarrow> go_error + (bytes \<Rightarrow> go_error + bytes))
       \<Rightarrow> (bytes \<Rightarrow> go_error + (string \<times> string)) \<Rightarrow> string \<Rightarrow> nanos \<Rightarrow> node \<Rightarrow> 'a http_st_scheme
       \<Rightarrow> 'a http_st_scheme \<times> node \<times> (go_error + bytes)" where
  "Thumbnail en cr session parse shareID metaTimeout n st =
     (case lk_file (nd_link n) of
        None \<Rightarrow> (st, n, Inl (ErrMsg ''revision has no thumbnail''))
      | Some rm \<Rightarrow>
          if \<not> HasThumbnail n then (st, n, Inl (ErrMsg ''revision has no thumbnail''))
          else let st0 = with_timeout metaTimeout st
               in case Keyring cr n of
                    (n1, Inl e) \<Rightarrow> (st0, n1, Inl e)
                  | (n1, Inr kr) \<Rightarrow>
                      (case session (nd_link n1) kr of
                         Inl e \<Rightarrow> (st0, n1, Inl e)
                       | Inr decrypt \<Rightarrow>
                           (case thumbnailURL en parse shareID (lk_id (nd_link n1)) (rv_id rm) st0 of
                              (st1, Inl e) \<Rightarrow> (st1, n1, Inl e)
                            | (st1, Inr (url, token)) \<Rightarrow>
                                (case getRaw en url token st1 of
                                   None \<Rightarrow> (st1, n1, Inl ErrEOF)
                                 | Some (st2, body, Some e) \<Rightarrow> (st2, n1, Inl e)
                                 | Some (st2, body, None) \<Rightarrow> (st2, n1, decrypt body)))))"

section \<open>The download slots of an open file\<close>

text \<open>What neither the HTTP layer nor a slot touches.\<close>

definition file_view where
  "file_view f = ((fl_blocks f, fl_size f, fl_link f, fl_rev f, fl_mem f, fl_other f, fl_closed f, fl_failed f),
     (fl_disk f, fl_faults f, fl_rnd f, fl_large f, fl_revisions f, fl_rev_calls f, fl_decrypt f))"

lemma ensureTransfer_facts:
  "file_view (fst (ensureTransfer f)) = file_view f" "same_http f (fst (ensureTransfer f))"
  "ht_held (fst (ensureTransfer f)) = ht_held f"
  by (auto simp: ensureTransfer_def file_view_def same_http_def net_log_def split: option.split prod.split)

lemma same_http_trans: "same_http a b \<Longrightarrow> same_http b c \<Longrightarrow> same_http a c"
  by (simp add: same_http_def)

lemma transfer_slot_cases:
  assumes "transfer_slot f = (f', r)"
  shows "same_http f f' \<and> file_view f' = file_view f \<and>
     (case r of Inl e \<Rightarrow> ht_held f' = ht_held f \<and> ht_ctx_end f \<noteq> None
      | Inr release \<Rightarrow> (release = (\<lambda>s. s) \<and> ht_held f' = ht_held f)
                     \<or> (release = releaseDownload \<and> ht_held f' = Suc (ht_held f)))"
proof -
  obtain f1 r1 where acq: "acquireDownload f = (f1, r1)" by (cases "acquireDownload f")
  have v: "file_view f1 = file_view f"
    using acq by (auto simp: acquireDownload_def file_view_def log_ev_def Let_def split: option.splits if_splits)
  show ?thesis
    using assms acq v acquireDownload_cases [OF acq] ensureTransfer_facts [of f1]
      same_http_trans [of f f1 "fst (ensureTransfer f1)"]
    by (cases r1) (auto simp: transfer_slot_def)
qed

lemma file_view_release: "file_view (releaseDownload f) = file_view f"
  by (simp add: file_view_def releaseDownload_def log_ev_def)

lemma file_view_more:
  assumes "http_st.more f = http_st.more (f' :: file_st)"
  shows "file_view f = file_view f'"
proof -
  show ?thesis using assms
    by (cases f; cases f') (simp add: file_view_def)
qed

interpretation transfer_slots: framed_slots transfer_slot file_view
proof (unfold_locales, goal_cases)
  case (1 st st' r)
  then show ?case using transfer_slot_cases by blast
next
  case (2 st st' e)
  then show ?case using transfer_slot_cases [OF 2] by simp
next
  case (3 st st' release s)
  then show ?case using transfer_slot_cases [OF 3] by (auto simp: same_http_releaseDownload)
next
  case (4 st st' release s)
  then show ?case using transfer_slot_cases [OF 4(1)] by (auto simp: releaseDownload_def log_ev_def)
next
  case (5 st)
  then show ?case using transfer_slot_cases [of st]
    by (cases "transfer_slot st"; cases "snd (transfer_slot st)") fastforce+
next
  case (6 s s')
  then show ?case by (rule file_view_more)
next
  case (7 st st' r)
  then show ?case using transfer_slot_cases by blast
next
  case (8 st st' release s)
  then show ?case using transfer_slot_cases [OF 8] by (auto simp: file_view_release)
qed

section \<open>What the caches and the network may hold\<close>

text \<open>The plaintext of block \<open>idx\<close> of a file with content \<open>content\<close>.\<close>

definition chunk :: "bytes \<Rightarrow> int \<Rightarrow> bytes" where
  "chunk content idx = take (nat blockSize) (drop (nat (blockByteOffset idx)) content)"

text \<open>
  The environment is honest: whatever any block list (the current one or one a refresh will fetch)
  serves for index \<open>idx\<close> decrypts to that block or fails, and so does what another goroutine
  publishes. \<open>truth\<close> is the true content of every block of the drive, for the disk cache.
\<close>

definition honest_blocks :: "http_env \<Rightarrow> bytes \<Rightarrow> file_st \<Rightarrow> (int \<times> block) list \<Rightarrow> bool" where
  "honest_blocks en content f bs \<longleftrightarrow>
     (\<forall>idx b body p. map_of bs idx = Some b \<longrightarrow> served en (ht_reply f) (bk_url b) body \<longrightarrow>
        fl_decrypt f body = Inr p \<longrightarrow> p = chunk content idx)"

definition disk_sound ::
    "faults \<Rightarrow> (string \<times> string \<times> int \<Rightarrow> bytes option) \<Rightarrow> (block_cache \<times> disk) option \<Rightarrow> bool" where
  "disk_sound ft truth cache =
     (case cache of None \<Rightarrow> True | Some cd \<Rightarrow> disk_blocks.sound ft truth cd)"

lemma disk_sound_Some [simp]: "disk_sound ft truth (Some cd) = disk_blocks.sound ft truth cd"
  by (simp add: disk_sound_def)

definition honest :: "http_env \<Rightarrow> (string \<times> string \<times> int \<Rightarrow> bytes option) \<Rightarrow> bytes \<Rightarrow> file_st \<Rightarrow> bool" where
  "honest en truth content f \<longleftrightarrow>
     honest_blocks en content f (fl_blocks f)
     \<and> (\<forall>n bs. fl_revisions f n = Inr bs \<longrightarrow> honest_blocks en content f (rev bs))
     \<and> (\<forall>idx p. fl_other f idx = Some (Published None (Some p)) \<longrightarrow> p = chunk content idx)
     \<and> (\<forall>idx. truth (fl_link f, fl_rev f, idx) = Some (chunk content idx))
     \<and> memory_blocks.sound (\<lambda>idx. Some (chunk content idx)) (fl_mem f)
     \<and> disk_sound (fl_faults f) truth (fl_disk f)"

text \<open>\<open>keeps\<close>: what every step of a block fetch preserves besides honesty.\<close>

definition keeps :: "file_st \<Rightarrow> file_st \<Rightarrow> bool" where
  "keeps f f' \<longleftrightarrow> fl_size f' = fl_size f \<and> ht_reply f' = ht_reply f \<and> fl_other f' = fl_other f
     \<and> fl_link f' = fl_link f \<and> fl_rev f' = fl_rev f \<and> fl_decrypt f' = fl_decrypt f
     \<and> fl_revisions f' = fl_revisions f \<and> fl_faults f' = fl_faults f \<and> ht_held f' = ht_held f"

lemma keeps_refl [simp]: "keeps f f"
  by (simp add: keeps_def)

lemma keeps_trans: "keeps a b \<Longrightarrow> keeps b c \<Longrightarrow> keeps a c"
  by (simp add: keeps_def)

lemma honest_cong:
  "file_view f' = file_view f \<Longrightarrow> ht_reply f' = ht_reply f \<Longrightarrow> honest en truth content f' = honest en truth content f"
  by (simp add: file_view_def honest_def honest_blocks_def split: option.split)

lemma keeps_view:
  "file_view f' = file_view f \<Longrightarrow> ht_reply f' = ht_reply f \<Longrightarrow> ht_held f' = ht_held f \<Longrightarrow> keeps f f'"
  by (simp add: file_view_def keeps_def)

lemma honest_cache_block:
  "honest en truth content f \<Longrightarrow> p = chunk content idx \<Longrightarrow> honest en truth content (cache_block idx p f)"
  using memory_blocks.sound_put [of "\<lambda>i. Some (chunk content i)" "fl_mem f" idx p]
  by (simp add: honest_def honest_blocks_def cache_block_def mem_put_def)

lemma keeps_cache_block [simp]: "keeps f (cache_block idx p f)"
  by (simp add: keeps_def cache_block_def)

lemma downloadBlock_view:
  assumes "downloadBlock en b f = (f', r)"
  shows "file_view f' = file_view f \<and> ht_reply f' = ht_reply f \<and> ht_held f' = ht_held f
    \<and> (\<forall>body. r = Inr body \<longrightarrow> served en (ht_reply f) (bk_url b) body)"
proof -
  obtain f1 body e where g: "getRawSlotted en (bk_url b) (bk_token b) (Some transfer_slot) f = Some (f1, body, e)"
    and h: "ht_held f1 = ht_held f"
    using transfer_slots.getRawSlotted_ok by blast
  have "ht_reply f1 = ht_reply f"
    using transfer_slots.getRawSlotted_reply [OF g] .
  moreover have "file_view f1 = file_view f"
    using transfer_slots.getRawSlotted_view [OF g] .
  moreover have "e = None \<Longrightarrow> served en (ht_reply f) (bk_url b) body"
    using transfer_slots.getRawSlotted_served g by blast
  moreover have "f' = f1 \<and> (r = (case e of None \<Rightarrow> Inr body | Some x \<Rightarrow> Inl x))"
    using assms g by (simp add: downloadBlock_def split: option.splits)
  ultimately show ?thesis using h by (auto split: option.splits)
qed

lemma download_refreshing_ok:
  assumes hon: "honest en truth content f" and b: "map_of (fl_blocks f) idx = Some b"
    and d: "download_refreshing en idx b f = (f', r)"
  shows "honest en truth content f' \<and> keeps f f'
    \<and> (\<forall>c p. r = Inr c \<longrightarrow> fl_decrypt f c = Inr p \<longrightarrow> p = chunk content idx)"
proof -
  obtain f1 r1 where d1: "downloadBlock en b f = (f1, r1)" by (cases "downloadBlock en b f")
  note v1 = downloadBlock_view [OF d1]
  have h1: "honest en truth content f1" "keeps f f1"
    using v1 hon honest_cong [of f1 f] keeps_view [of f1 f] by simp_all
  show ?thesis
  proof (cases r1)
    case (Inr c)
    then have "f' = f1 \<and> r = Inr c" using d d1 by (simp add: download_refreshing_def)
    moreover have "honest_blocks en content f (fl_blocks f)" using hon by (simp add: honest_def)
    moreover have "served en (ht_reply f) (bk_url b) c" using v1 Inr by simp
    ultimately show ?thesis using h1 b unfolding honest_blocks_def by auto
  next
    case (Inl e)
    show ?thesis
    proof (cases "storageTokenRejected e")
      case False
      then show ?thesis using d d1 Inl h1 by (auto simp: download_refreshing_def)
    next
      case True
      obtain f2 r2 where r2: "refreshBlock idx f1 = (f2, r2)" by (cases "refreshBlock idx f1")
      have h2: "honest en truth content f2 \<and> keeps f1 f2
          \<and> (\<forall>b'. r2 = Inr b' \<longrightarrow> map_of (fl_blocks f2) idx = Some b')"
        using r2 h1(1)
        by (auto simp: refreshBlock_def revisionBlocks_def honest_def honest_blocks_def keeps_def
            split: sum.splits option.splits)
      show ?thesis
      proof (cases r2)
        case (Inl e')
        then show ?thesis using True d d1 \<open>r1 = Inl e\<close> r2 h2 h1 keeps_trans
          by (auto simp: download_refreshing_def)
      next
        case (Inr b')
        have d3: "downloadBlock en b' f2 = (f', r)"
          using True d d1 \<open>r1 = Inl e\<close> r2 Inr by (simp add: download_refreshing_def)
        note v3 = downloadBlock_view [OF d3]
        have h3: "honest en truth content f'" "keeps f f'"
          using v3 h2 h1 honest_cong [of f' f2] keeps_view [of f' f2] keeps_trans by blast+
        have dec: "fl_decrypt f2 = fl_decrypt f"
          using h1 h2 by (simp add: keeps_def)
        have "honest_blocks en content f2 (fl_blocks f2)" "map_of (fl_blocks f2) idx = Some b'"
          using h2 Inr by (auto simp: honest_def)
        then show ?thesis using h3 v3 dec unfolding honest_blocks_def by metis
      qed
    qed
  qed
qed

lemma disk_get_ok:
  assumes "honest en truth content f" "disk_get idx f = (f', r)"
  shows "honest en truth content f' \<and> keeps f f' \<and> fl_blocks f' = fl_blocks f
    \<and> (\<forall>p. r = Some p \<longrightarrow> p = chunk content idx)"
proof (cases "fl_disk f")
  case None
  then show ?thesis using assms by (simp add: disk_get_def)
next
  case (Some cd)
  let ?k = "(fl_link f, fl_rev f, idx)"
  have sd: "disk_blocks.sound (fl_faults f) truth cd" and tr: "truth ?k = Some (chunk content idx)"
    using assms(1) Some by (simp_all add: honest_def)
  obtain cd1 where g: "block_get (fl_faults f) cd ?k = (cd1, r)" "f' = f\<lparr>fl_disk := Some cd1\<rparr>"
    using assms(2) Some by (auto simp: disk_get_def split: prod.splits)
  have "disk_blocks.sound (fl_faults f) truth cd1"
    using disk_blocks.sound_get [OF sd, of ?k] g(1) by simp
  moreover have "r = Some p \<Longrightarrow> p = chunk content idx" for p
    using disk_blocks.sound_hit [OF sd, of ?k p] g(1) tr by simp
  ultimately show ?thesis using assms(1) g(2)
    by (simp add: honest_def honest_blocks_def keeps_def)
qed

lemma disk_put_ok:
  assumes "honest en truth content f" "p = chunk content idx"
  shows "honest en truth content (disk_put idx p f) \<and> keeps f (disk_put idx p f)"
proof (cases "fl_disk f")
  case None
  then show ?thesis using assms by (simp add: disk_put_def)
next
  case (Some cd)
  have "disk_blocks.sound (fl_faults f) truth (block_put (fl_faults f) (fl_rnd f) cd (fl_link f, fl_rev f, idx) p)"
    using assms Some by (intro disk_blocks.sound_put) (simp_all add: honest_def)
  then show ?thesis using assms Some
    by (simp add: disk_put_def honest_def honest_blocks_def keeps_def)
qed

lemma honest_irrelevant [simp]:
  "honest en truth content (f\<lparr>fl_failed := x\<rparr>) = honest en truth content f"
  "honest en truth content (f\<lparr>fl_act := a\<rparr>) = honest en truth content f"
  "keeps f (f\<lparr>fl_failed := x\<rparr>)" "keeps f (f\<lparr>fl_act := a\<rparr>)"
  by (simp_all add: honest_def honest_blocks_def keeps_def)

lemma ensureTransfer_ok:
  "honest en truth content f \<Longrightarrow> ensureTransfer f = (f', t) \<Longrightarrow> honest en truth content f' \<and> keeps f f'"
  using ensureTransfer_facts [of f] honest_cong [of f' f] keeps_view [of f' f]
  by (simp add: same_http_def)

lemma decrypt_and_cache_ok:
  assumes hon: "honest en truth content f"
    and dec: "\<And>p. fl_decrypt f c = Inr p \<Longrightarrow> p = chunk content idx"
    and d: "decrypt_and_cache idx c f = (f', r)"
  shows "honest en truth content f' \<and> keeps f f' \<and> (\<forall>p. r = Inr p \<longrightarrow> p = chunk content idx)"
proof -
  obtain f1 t where e: "ensureTransfer f = (f1, t)" by (cases "ensureTransfer f")
  note h1 = ensureTransfer_ok [OF hon e]
  then have d1: "fl_decrypt f1 = fl_decrypt f" by (simp add: keeps_def)
  show ?thesis
  proof (cases "fl_decrypt f1 c")
    case (Inl x)
    then show ?thesis using d e h1 keeps_trans [OF conjunct2 [OF h1]]
      by (auto simp: decrypt_and_cache_def)
  next
    case (Inr p)
    then have p: "p = chunk content idx" using dec d1 by simp
    let ?f2 = "f1\<lparr>fl_act := add_bytes t (int (length p)) (fl_act f1)\<rparr>"
    have h2: "honest en truth content ?f2" "keeps f ?f2"
      using h1 keeps_trans [OF conjunct2 [OF h1]] by simp_all
    let ?f3 = "if useDisk ?f2 then disk_put idx p ?f2 else ?f2"
    have h3: "honest en truth content ?f3" "keeps f ?f3"
      using h2 disk_put_ok [OF h2(1) p] keeps_trans [OF h2(2)] by simp_all
    have "f' = cache_block idx p ?f3 \<and> r = Inr p"
      using d e Inr by (simp add: decrypt_and_cache_def Let_def)
    then show ?thesis
      using honest_cache_block [OF h3(1) p] keeps_trans [OF h3(2) keeps_cache_block] p by simp
  qed
qed

lemma fetchAndCacheBlock_ok:
  assumes hon: "honest en truth content f" and d: "fetchAndCacheBlock en idx f = (f', r)"
  shows "honest en truth content f' \<and> keeps f f' \<and> (\<forall>p. r = Inr p \<longrightarrow> p = chunk content idx)"
proof -
  obtain f1 g where g: "(if useDisk f then disk_get idx f else (f, None)) = (f1, g)"
    by (cases "if useDisk f then disk_get idx f else (f, None)")
  have h1: "honest en truth content f1 \<and> keeps f f1 \<and> (\<forall>p. g = Some p \<longrightarrow> p = chunk content idx)"
    using g hon disk_get_ok [OF hon, of idx f1 g] by (auto split: if_splits)
  show ?thesis
  proof (cases g)
    case (Some p)
    then have "f' = cache_block idx p f1 \<and> r = Inr p" using d g by (simp add: fetchAndCacheBlock_def)
    then show ?thesis using h1 Some honest_cache_block [of en truth content f1 p idx]
        keeps_trans [of f f1, OF _ keeps_cache_block] by auto
  next
    case None
    show ?thesis
    proof (cases "map_of (fl_blocks f1) idx")
      case N: None
      then show ?thesis using d g None h1 by (auto simp: fetchAndCacheBlock_def)
    next
      case (Some b)
      obtain f2 r2 where d2: "download_refreshing en idx b f1 = (f2, r2)"
        by (cases "download_refreshing en idx b f1")
      have h2: "honest en truth content f2 \<and> keeps f1 f2
          \<and> (\<forall>c p. r2 = Inr c \<longrightarrow> fl_decrypt f1 c = Inr p \<longrightarrow> p = chunk content idx)"
        using download_refreshing_ok [OF _ Some d2] h1 by blast
      have k: "keeps f f2" using h1 h2 keeps_trans by blast
      show ?thesis
      proof (cases r2)
        case (Inl e)
        then show ?thesis using d g None Some d2 h2 k keeps_trans [OF k]
          by (auto simp: fetchAndCacheBlock_def split: if_splits)
      next
        case (Inr c)
        then have dc: "decrypt_and_cache idx c f2 = (f', r)"
          using d g None Some d2 by (simp add: fetchAndCacheBlock_def)
        have "\<And>p. fl_decrypt f2 c = Inr p \<Longrightarrow> p = chunk content idx"
          using h2 Inr by (simp add: keeps_def)
        then show ?thesis using decrypt_and_cache_ok [OF _ _ dc] h2 k keeps_trans by blast
      qed
    qed
  qed
qed

lemma getBlock_ok:
  assumes hon: "honest en truth content f" and d: "getBlock en idx f = (f', r)"
  shows "honest en truth content f' \<and> keeps f f' \<and> (\<forall>p. r = Inr p \<longrightarrow> p = chunk content idx)"
proof (cases "map_of (fst (fl_mem f)) idx")
  case (Some p)
  then have "p = chunk content idx"
    using hon memory_blocks.sound_hit [of "\<lambda>i. Some (chunk content i)" "fl_mem f" idx p]
    by (simp add: honest_def mem_get_def)
  then show ?thesis using d Some hon by (auto simp: getBlock_def)
next
  case None
  show ?thesis
  proof (cases "fl_other f idx")
    case N: None
    then show ?thesis using d None fetchAndCacheBlock_ok [OF hon] by (simp add: getBlock_def)
  next
    case (Some oth)
    then show ?thesis using d None hon
      by (auto simp: getBlock_def honest_def split: other_fetch.splits option.splits)
  qed
qed

section \<open>What a read returns\<close>

lemma chunk_at:
  assumes "0 \<le> off"
  shows "drop (nat (off - blockByteOffset (blockIndexForOffset off))) (chunk content (blockIndexForOffset off))
     = take (nat (blockSize - off mod blockSize)) (drop (nat off) content)"
proof -
  let ?q = "off div blockSize * blockSize"
  let ?m = "off mod blockSize"
  have m: "0 \<le> ?m" "?m < blockSize" and q: "0 \<le> ?q"
    using assms by (simp_all add: blockSize_def)
  have start: "blockByteOffset (blockIndexForOffset off) = ?q"
    by (simp add: blockByteOffset_def blockIndexForOffset_def)
  have s: "nat ?m + nat ?q = nat off"
    using m q by (simp add: nat_add_distrib [symmetric])
  have d: "nat blockSize - nat ?m = nat (blockSize - ?m)" using m by simp
  have "drop (nat ?m) (chunk content (blockIndexForOffset off))
      = take (nat blockSize - nat ?m) (drop (nat ?m + nat ?q) content)"
    by (simp add: chunk_def start drop_take)
  then show ?thesis unfolding in_block_offset s d .
qed

lemma take_self: "ys = take m zs \<Longrightarrow> ys = take (length ys) zs"
  by (cases "m \<le> length zs") auto

lemma take_take_drop_step:
  "xs = take a (drop (off + length got) content) \<Longrightarrow> got = take (length got) (drop off content) \<Longrightarrow>
     got @ take k xs = take (length got + min k a) (drop off content)"
  by (metis add.commute append_take_drop_id drop_drop length_append min.commute take_add take_take)

text \<open>Every intermediate buffer is what the content has from the offset on.\<close>

definition got_ok :: "bytes \<Rightarrow> int \<Rightarrow> bytes \<Rightarrow> bool" where
  "got_ok content off got \<longleftrightarrow> got = take (length got) (drop (nat off) content)"

lemma got_ok_step:
  assumes "got_ok content off got" "0 \<le> off"
  shows "got_ok content off (got @ take k (drop (nat (off + int (length got)
             - blockByteOffset (blockIndexForOffset (off + int (length got)))))
           (chunk content (blockIndexForOffset (off + int (length got))))))"
proof -
  let ?c = "off + int (length got)"
  let ?x = "nat (blockSize - ?c mod blockSize)"
  have n: "nat ?c = nat off + length got" using assms(2) by simp
  have "drop (nat (?c - blockByteOffset (blockIndexForOffset ?c))) (chunk content (blockIndexForOffset ?c))
      = take ?x (drop (nat off + length got) content)"
    using chunk_at [of ?c content] assms(2) n by simp
  then have "got @ take k (drop (nat (?c - blockByteOffset (blockIndexForOffset ?c)))
      (chunk content (blockIndexForOffset ?c))) = take (length got + min k ?x) (drop (nat off) content)"
    by (rule take_take_drop_step) (use assms(1) in \<open>simp add: got_ok_def\<close>)
  then show ?thesis unfolding got_ok_def by (rule take_self)
qed

lemma read_loop_ok:
  "honest en truth content f \<Longrightarrow> 0 \<le> off \<Longrightarrow> length got \<le> want \<Longrightarrow> got_ok content off got \<Longrightarrow>
   read_loop en want off f got = (f', r) \<Longrightarrow>
     honest en truth content f' \<and> keeps f f'
     \<and> (\<forall>xs. r = Inr xs \<longrightarrow> got_ok content off xs \<and> length xs \<le> want)"
proof (induction en want off f got arbitrary: f' r rule: read_loop.induct)
  case (1 en want off f got)
  let ?c = "off + int (length got)"
  let ?i = "blockIndexForOffset ?c"
  let ?o = "?c - blockByteOffset ?i"
  obtain f1 g where g: "getBlock en ?i f = (f1, g)" by (cases "getBlock en ?i f")
  note h = getBlock_ok [OF 1(2) g]
  consider (stop) "want \<le> length got \<or> fl_size f \<le> ?c" | (err) e where
      "\<not> (want \<le> length got \<or> fl_size f \<le> ?c)" "g = Inl e"
    | (short) data where "\<not> (want \<le> length got \<or> fl_size f \<le> ?c)" "g = Inr data" "int (length data) \<le> ?o"
    | (more) data where "\<not> (want \<le> length got \<or> fl_size f \<le> ?c)" "g = Inr data" "\<not> int (length data) \<le> ?o"
    by (cases g) blast+
  then show ?case
  proof cases
    case stop
    then show ?thesis using 1(2-6) by (auto simp: read_loop.simps [of en want off f got] Let_def split: if_splits)
  next
    case err
    then show ?thesis using 1(2-6) g h
      by (auto simp: read_loop.simps [of en want off f got] Let_def split: if_splits)
  next
    case short
    then show ?thesis using 1(2-6) g h
      by (auto simp: read_loop.simps [of en want off f got] Let_def split: if_splits)
  next
    case more
    let ?got = "got @ take (want - length got) (drop (nat ?o) data)"
    have step: "read_loop en want off f1 ?got = (f', r)"
      using 1(6) more g by (simp add: read_loop.simps [of en want off f got] Let_def)
    have data: "data = chunk content ?i" using h more by simp
    have ok: "got_ok content off ?got"
      using got_ok_step [OF 1(5) 1(3), of "want - length got"] data by simp
    have len: "length ?got \<le> want" using 1(4) by simp
    have "honest en truth content f' \<and> keeps f1 f'
        \<and> (\<forall>xs. r = Inr xs \<longrightarrow> got_ok content off xs \<and> length xs \<le> want)"
      using 1(1)[OF _ refl _ g [symmetric] _ refl _ _ 1(3) len ok step] more h by auto
    then show ?thesis using h keeps_trans by blast
  qed
qed

text \<open>With every block of the file obtainable the loop runs to the end of the request or of the file.\<close>

definition blocks_available :: "http_env \<Rightarrow> file_st \<Rightarrow> bool" where
  "blocks_available en f \<longleftrightarrow>
     (\<forall>f1 idx. keeps f f1 \<longrightarrow> 1 \<le> idx \<longrightarrow> blockByteOffset idx < fl_size f \<longrightarrow>
        (\<exists>f2 p. getBlock en idx f1 = (f2, Inr p)))"

lemma chunk_reaches:
  assumes "0 \<le> c" "c < int (length content)"
  shows "c - blockByteOffset (blockIndexForOffset c) < int (length (chunk content (blockIndexForOffset c)))"
proof -
  have m: "0 \<le> c mod blockSize" "c mod blockSize < blockSize" by (simp_all add: blockSize_def)
  have s: "blockByteOffset (blockIndexForOffset c) = c - c mod blockSize"
    using in_block_offset [of c] by simp
  have "0 \<le> c - c mod blockSize" using assms(1) by (simp add: zmod_le_nonneg_dividend)
  then show ?thesis using assms m by (auto simp: chunk_def s min_def)
qed

lemma block_in_file:
  assumes "0 \<le> c" "c < n"
  shows "1 \<le> blockIndexForOffset c" "blockByteOffset (blockIndexForOffset c) < n"
proof -
  show "1 \<le> blockIndexForOffset c"
    using assms(1) by (simp add: blockIndexForOffset_def blockSize_def pos_imp_zdiv_nonneg_iff)
  have "0 \<le> c mod blockSize" by (simp add: blockSize_def)
  then show "blockByteOffset (blockIndexForOffset c) < n"
    using in_block_offset [of c] assms(2) by linarith
qed

lemma blocks_available_keeps: "blocks_available en f \<Longrightarrow> keeps f f' \<Longrightarrow> blocks_available en f'"
  unfolding blocks_available_def using keeps_trans [of f f'] by (simp add: keeps_def)

lemma read_loop_complete:
  "honest en truth content f \<Longrightarrow> 0 \<le> off \<Longrightarrow> length got \<le> want \<Longrightarrow> got_ok content off got \<Longrightarrow>
   fl_size f = int (length content) \<Longrightarrow> blocks_available en f \<Longrightarrow>
     \<exists>f' xs. read_loop en want off f got = (f', Inr xs)
       \<and> (length xs = want \<or> fl_size f \<le> off + int (length xs))"
proof (induction en want off f got rule: read_loop.induct)
  case (1 en want off f got)
  let ?c = "off + int (length got)"
  let ?i = "blockIndexForOffset ?c"
  let ?o = "?c - blockByteOffset ?i"
  show ?case
  proof (cases "want \<le> length got \<or> fl_size f \<le> ?c")
    case True
    then show ?thesis using 1(4) by (auto simp: read_loop.simps [of en want off f got] Let_def)
  next
    case False
    have c: "0 \<le> ?c" "?c < int (length content)" using False 1(3,6) by auto
    obtain f1 data where g: "getBlock en ?i f = (f1, Inr data)"
      using 1(7) block_in_file [OF c] 1(6) keeps_refl unfolding blocks_available_def by metis
    note h = getBlock_ok [OF 1(2) g]
    have data: "data = chunk content ?i" using h by simp
    then have more: "\<not> int (length data) \<le> ?o" using chunk_reaches [OF c] by simp
    let ?got = "got @ take (want - length got) (drop (nat ?o) data)"
    have ok: "got_ok content off ?got"
      using got_ok_step [OF 1(5) 1(3), of "want - length got"] data by simp
    have len: "length ?got \<le> want" using 1(4) by simp
    have size1: "fl_size f1 = fl_size f" using h by (simp add: keeps_def)
    have av: "blocks_available en f1" using blocks_available_keeps 1(7) h by blast
    have "\<exists>f' xs. read_loop en want off f1 ?got = (f', Inr xs)
       \<and> (length xs = want \<or> fl_size f1 \<le> off + int (length xs))"
      using 1(1)[OF _ refl _ g [symmetric] refl refl more _ 1(3) len ok _ av] False h size1 1(6) by auto
    then show ?thesis using False more g size1
      by (simp add: read_loop.simps [of en want off f got] Let_def)
  qed
qed

section \<open>Properties\<close>

text \<open>C6. Reading is faithful: with an honest environment (the network and the other readers serve this
  file's blocks, the disk cache holds true blocks) \<open>ReadAt\<close> returns the file's bytes from the
  offset on, never others, at most as many as asked, all of them when it reports no error; and the
  caches stay true.\<close>

theorem ReadAt_faithful:
  assumes "honest en truth content f" "ReadAt en want off f = (f', xs, err)"
  shows "xs = take (length xs) (drop (nat off) content) \<and> length xs \<le> want
    \<and> (err = None \<longrightarrow> length xs = want) \<and> honest en truth content f'"
proof (cases "off < 0 \<or> fl_size f \<le> off")
  case True
  then show ?thesis using assms by (auto simp: ReadAt_def split: if_splits)
next
  case False
  obtain f1 r where l: "read_loop en want off f [] = (f1, r)" by (cases "read_loop en want off f []")
  have "honest en truth content f1 \<and> keeps f f1
     \<and> (\<forall>xs. r = Inr xs \<longrightarrow> got_ok content off xs \<and> length xs \<le> want)"
    using read_loop_ok [OF assms(1) _ _ _ l] False by (simp add: got_ok_def)
  then show ?thesis using assms(2) l False
    by (cases r) (auto simp: ReadAt_def got_ok_def split: if_splits)
qed


definition demo_content :: bytes where "demo_content = [10, 20, 30, 40, 50]"

definition demo_activity :: activity where
  "demo_activity = \<lparr>ac_next = 0, ac_count = 0, ac_current = [], ac_bytes = (\<lambda>_. 0)\<rparr>"

definition demo_fetch :: "bytes \<Rightarrow> (int \<Rightarrow> other_fetch option) \<Rightarrow> mem_cache \<Rightarrow> file_st" where
  "demo_fetch content other mem = http_st.extend demo_http
     (file_st.fields [] (int (length content)) ''l'' ''r'' ''p'' mem other None False False demo_activity None
        no_faults ''x'' 0 (\<lambda>_. Inl ErrEOF) 0 (\<lambda>_. Inl ErrEOF))"

definition demo_open :: file_st where
  "demo_open = demo_fetch demo_content (\<lambda>i. Some (Published None (Some (chunk demo_content i)))) ([], [])"

lemma demo_fetch_simps [simp]:
  "fl_size (demo_fetch content other mem) = int (length content)" "fl_other (demo_fetch content other mem) = other"
  "fl_mem (demo_fetch content other mem) = mem" "fl_blocks (demo_fetch content other mem) = []"
  "fl_disk (demo_fetch content other mem) = None" "fl_revisions (demo_fetch content other mem) = (\<lambda>_. Inl ErrEOF)"
  by (simp_all add: demo_fetch_def file_st.defs http_st.defs demo_http_def)

lemma demo_honest:
  assumes "\<And>i p. other i = Some (Published None (Some p)) \<Longrightarrow> p = chunk content i"
    and "\<And>i p. map_of (fst mem) i = Some p \<Longrightarrow> p = chunk content i"
  shows "honest en (\<lambda>(l, r, i). Some (chunk content i)) content (demo_fetch content other mem)"
  using assms by (auto simp: honest_def honest_blocks_def disk_sound_def memory_blocks.sound_def mem_get_def)

lemma demo_open_ok:
  "honest en (\<lambda>(l, r, i). Some (chunk demo_content i)) demo_content demo_open"
  unfolding demo_open_def by (rule demo_honest) auto

lemma demo_open_available: "blocks_available en demo_open"
  using getBlock_ok
  by (auto simp: blocks_available_def demo_open_def keeps_def getBlock_def split: option.split)


theorem ReadAt_faithful_witness:
  "\<exists>f' xs err. ReadAt demo_env 9 2 demo_open = (f', xs, err) \<and> xs = take (length xs) [30, 40, 50]"
proof -
  obtain f' xs err where r: "ReadAt demo_env 9 2 demo_open = (f', xs, err)"
    by (cases "ReadAt demo_env 9 2 demo_open")
  show ?thesis using ReadAt_faithful [OF demo_open_ok r] r by (simp add: demo_content_def)
qed

definition two_blocks :: bytes where "two_blocks = replicate 4194314 7"

definition demo_broken :: file_st where
  "demo_broken = demo_fetch two_blocks (\<lambda>i. if i = 2 then Some (Published (Some (ErrNet ''reset'')) None) else None)
     ([(1, replicate 4194304 7)], [1])"

text \<open>A download that fails once some bytes are in the buffer is reported as \<open>io.EOF\<close>: the caller
  gets a short read in the middle of the file that looks like its end, and the error is lost.\<close>

theorem ReadAt_hides_failure:
  "honest en (\<lambda>(l, r, i). Some (chunk two_blocks i)) two_blocks demo_broken
   \<and> snd (getBlock en 2 demo_broken) = Inl (ErrNet ''reset'')
   \<and> (\<exists>f'. ReadAt en 12 4194302 demo_broken = (f', [7, 7], Some ErrEOF))
   \<and> 4194302 + 2 < fl_size demo_broken"
proof -
  have h: "honest en (\<lambda>(l, r, i). Some (chunk two_blocks i)) two_blocks demo_broken"
    unfolding demo_broken_def
    by (rule demo_honest)
      (auto simp: chunk_def two_blocks_def blockSize_def blockByteOffset_def split: if_splits)
  have b2: "getBlock en 2 demo_broken = (demo_broken, Inl (ErrNet ''reset''))"
    by (simp add: getBlock_def demo_broken_def)
  have b1: "getBlock en 1 demo_broken = (demo_broken, Inr (replicate 4194304 7))"
    by (simp add: getBlock_def demo_broken_def)
  have sz: "fl_size demo_broken = 4194314" by (simp add: demo_broken_def two_blocks_def)
  have two: "replicate 2 (7 :: 8 word) = [7, 7]" by (simp add: numeral_2_eq_2)
  have l2: "read_loop en 12 4194302 demo_broken [7, 7] = (demo_broken, Inr [7, 7])"
    using b2 sz by (simp add: read_loop.simps [of en 12 _ demo_broken] blockIndexForOffset_def blockSize_def)
  have "read_loop en 12 4194302 demo_broken [] = read_loop en 12 4194302 demo_broken [7, 7]"
    using b1 sz two
    by (simp add: read_loop.simps [of en 12 _ demo_broken "[]"] blockIndexForOffset_def blockByteOffset_def
        blockSize_def)
  then show ?thesis using h b2 sz l2 by (simp add: ReadAt_def)
qed

text \<open>The size computed when the attributes cannot be resolved is the content's length, as soon as
  the block list reaches the last block.\<close>

theorem correctSizeFromBlocks_exact:
  assumes "honest en truth content f" "fl_blocks f \<noteq> []"
    and "foldl max 0 (map fst (fl_blocks f)) = k" "1 \<le> k"
    and "blockByteOffset k < int (length content)" "int (length content) \<le> blockByteOffset k + blockSize"
    and "correctSizeFromBlocks en f = (f', n, None)"
  shows "n = int (length content)"
proof -
  obtain f1 r where g: "getBlock en k f = (f1, r)" by (cases "getBlock en k f")
  then obtain data where r: "r = Inr data" "n = blockByteOffset k + int (length data)"
    using assms(2,3,7) by (cases r) (auto simp: correctSizeFromBlocks_def)
  then have "data = chunk content k" using getBlock_ok [OF assms(1) g] by simp
  moreover have "0 \<le> blockByteOffset k" using assms(4) by (simp add: blockByteOffset_def blockSize_def)
  ultimately show ?thesis using r assms(5,6) by (auto simp: chunk_def min_def)
qed

definition demo_unsized :: file_st where
  "demo_unsized = demo_open\<lparr>fl_blocks := [(1, \<lparr>bk_url = ''u'', bk_token = ''t''\<rparr>)], fl_size := 99,
     fl_decrypt := (\<lambda>_. Inl ErrEOF)\<rparr>"

theorem correctSizeFromBlocks_exact_witness:
  "\<exists>f'. correctSizeFromBlocks demo_env demo_unsized = (f', 5, None)"
proof -
  have h: "honest demo_env (\<lambda>(l, r, i). Some (chunk demo_content i)) demo_content demo_unsized"
    by (auto simp: honest_def honest_blocks_def disk_sound_def memory_blocks.sound_def mem_get_def
        demo_unsized_def demo_open_def)
  have b: "fl_blocks demo_unsized \<noteq> []" "foldl max 0 (map fst (fl_blocks demo_unsized)) = 1"
    by (simp_all add: demo_unsized_def)
  have "getBlock demo_env 1 demo_unsized = (demo_unsized, Inr (chunk demo_content 1))"
    by (simp add: getBlock_def demo_unsized_def demo_open_def)
  then obtain n where c: "correctSizeFromBlocks demo_env demo_unsized = (demo_unsized, n, None)"
    using b by (simp add: correctSizeFromBlocks_def)
  have "n = int (length demo_content)"
    by (rule correctSizeFromBlocks_exact [OF h b(1) b(2) _ _ _ c])
      (simp_all add: blockByteOffset_def blockSize_def demo_content_def)
  then show ?thesis using c by (simp add: demo_content_def)
qed

definition transfer_ok :: "file_st \<Rightarrow> bool" where
  "transfer_ok f \<longleftrightarrow> activity_ok (fl_act f) \<and> (\<forall>t. fl_transfer f = Some t \<longrightarrow> registered t (fl_act f))"

text \<open>A closed file never shows in the tray again: \<open>Close\<close> takes its transfer out of the current
  ones exactly once, and a fetch that runs on counts into a transfer nobody sees.\<close>

theorem Close_unregisters:
  assumes "transfer_ok f" "Close f = (f', err)"
  shows "transfer_ok f' \<and> fl_transfer f' = None
     \<and> (\<forall>t. fl_transfer f = Some t \<longrightarrow> \<not> registered t (fl_act f'))
     \<and> ensureTransfer f' = (f', 0) \<and> fst (Close f') = f'"
proof (cases "fl_transfer f")
  case None
  then have "f' = f\<lparr>fl_transfer := None, fl_closed := True\<rparr>" using assms(2) by (simp add: Close_def Let_def)
  then show ?thesis using assms(1) None by (simp add: transfer_ok_def ensureTransfer_def Close_def)
next
  case (Some t)
  then have f': "f' = f\<lparr>fl_transfer := None, fl_closed := True, fl_act := end_transfer t (fl_act f)\<rparr>"
    using assms(2) by (auto simp: Close_def Let_def)
  have "activity_ok (end_transfer t (fl_act f)) \<and> \<not> registered t (end_transfer t (fl_act f))"
    using end_transfer_ok assms(1) Some by (simp add: transfer_ok_def)
  then show ?thesis using Some f' by (simp add: transfer_ok_def ensureTransfer_def Close_def)
qed

theorem Close_unregisters_witness:
  "\<exists>f'. fst (Close (fst (ensureTransfer demo_open))) = f' \<and> ac_current (fl_act f') = []
     \<and> ensureTransfer f' = (f', 0)"
proof -
  let ?f = "fst (ensureTransfer demo_open)"
  have o: "?f = demo_open\<lparr>fl_act := fst (begin_transfer ''p'' ''download'' 5 0 demo_activity), fl_transfer := Some 1\<rparr>"
    by (simp add: ensureTransfer_def demo_open_def demo_fetch_def file_st.defs http_st.defs demo_http_def
        begin_transfer_def demo_activity_def demo_content_def)
  have t: "transfer_ok ?f"
    by (simp add: o transfer_ok_def activity_ok_def registered_def begin_transfer_def demo_activity_def)
  show ?thesis using Close_unregisters [OF t] o
    by (cases "Close ?f") (auto simp: Close_def begin_transfer_def end_transfer_def demo_activity_def Let_def)
qed

end
