(* ===== verification/Drive_Write.thy ===== *)
theory Drive_Write
  imports Node_Keys Http_Retry Drive_File
begin

text \<open>
  Writes to the drive (internal/drive/write.go): creating folders and files, moving, trashing, and
  the upload of a file or a revision in blocks.

  The Proton API and the crypto library are parameters: \<open>write_api\<close> answers each call. \<open>ws_log\<close>
  records the calls that reached the server. \<open>ws_ctx_calls\<close> is how many calls the caller's context
  still lets through: a request made with a context that has ended fails and reaches nothing
  (net/http), which matters to the cleanup of a failed upload.
\<close>

section \<open>The API\<close>

record folder_req =
  fr_parent :: string
  fr_signer :: string
  fr_key :: string
  fr_passphrase :: string
  fr_passphraseSig :: string
  fr_name :: string
  fr_hash :: string
  fr_hashKey :: string

record file_req =
  fq_parent :: string
  fq_signer :: string
  fq_key :: string
  fq_passphrase :: string
  fq_passphraseSig :: string
  fq_mime :: string
  fq_keyPacket :: string
  fq_name :: string
  fq_hash :: string

record move_req =
  mv_name :: string
  mv_hash :: string
  mv_parent :: string
  mv_passphrase :: string
  mv_signer :: string

datatype api_call =
    ACreateFolder folder_req
  | ACreateFile file_req
  | ACreateRevision string
  | ARequestBlock string string nat int bytes
  | AUploadBlock string bytes
  | ACommit string string bytes int "int list" nanos
  | ADeleteChildren string string
  | ADeleteRevision string string
  | AMove string move_req
  | ATrash string string
  | AGetLink string

text \<open>Names and hashes as the library's request helpers make them (\<open>SetName\<close>, \<open>SetHash\<close>,
  \<open>GetHashKey\<close>, \<open>SetNodeHashKey\<close>, \<open>SetContentKeyPacketAndSignature\<close>), and the answers.\<close>

record write_api =
  wa_setName :: "string \<Rightarrow> keyring \<Rightarrow> keyring \<Rightarrow> go_error + string"
  wa_hashKey :: "link \<Rightarrow> keyring \<Rightarrow> go_error + string"
  wa_setHash :: "string \<Rightarrow> string \<Rightarrow> go_error + string"
  wa_nodeHashKey :: "keyring \<Rightarrow> go_error + string"
  wa_contentKey :: "keyring \<Rightarrow> go_error + (string \<times> (bytes \<Rightarrow> go_error + bytes))"
  wa_sessionKey :: "link \<Rightarrow> keyring \<Rightarrow> go_error + (bytes \<Rightarrow> go_error + bytes)"
  wa_signBlock :: "bytes \<Rightarrow> keyring \<Rightarrow> go_error + string"
  wa_signManifest :: "bytes \<Rightarrow> go_error + string"
  wa_xattr :: "keyring \<Rightarrow> go_error option"
  wa_sha256 :: "bytes \<Rightarrow> bytes"
  wa_mime :: "string \<Rightarrow> string"
  wa_createFolder :: "folder_req \<Rightarrow> go_error + string"
  wa_createFile :: "file_req \<Rightarrow> go_error + (string \<times> string)"
  wa_createRevision :: "string \<Rightarrow> go_error + string"
  wa_requestBlock :: "nat \<Rightarrow> go_error + (string \<times> string) list"
  wa_uploadBlock :: "string \<Rightarrow> bytes \<Rightarrow> go_error option"
  wa_commit :: "go_error option"
  wa_deleteChildren :: "string \<Rightarrow> go_error option"
  wa_deleteRevision :: "string \<Rightarrow> go_error option"
  wa_move :: "go_error option"
  wa_trash :: "go_error option"
  wa_getLink :: "string \<Rightarrow> go_error + link"

record write_st =
  ws_log :: "api_call list"
  ws_act :: activity
  ws_now :: nanos
  ws_ctx_calls :: "nat option"

definition call :: "api_call \<Rightarrow> (go_error + 'a) \<Rightarrow> write_st \<Rightarrow> write_st \<times> (go_error + 'a)" where
  "call c answer st =
     (case ws_ctx_calls st of
        Some 0 \<Rightarrow> (st, Inl ErrDeadline)
      | Some (Suc n) \<Rightarrow> (st\<lparr>ws_log := ws_log st @ [c], ws_ctx_calls := Some n\<rparr>, answer)
      | None \<Rightarrow> (st\<lparr>ws_log := ws_log st @ [c]\<rparr>, answer))"

definition as_result :: "go_error option \<Rightarrow> go_error + unit" where
  "as_result e = (case e of None \<Rightarrow> Inr () | Some x \<Rightarrow> Inl x)"

definition fetch_node ::
    "write_api \<Rightarrow> crypto \<Rightarrow> string \<Rightarrow> node \<Rightarrow> write_st \<Rightarrow> write_st \<times> (go_error + node)" where
  "fetch_node wa cr linkID parent st =
     (case call (AGetLink linkID) (wa_getLink wa linkID) st of
        (st1, Inl e) \<Rightarrow> (st1, Inl e)
      | (st1, Inr l) \<Rightarrow> (st1, snd (nodeFromLink cr l parent)))"

section \<open>Folders, moves, trash\<close>

definition folder_request ::
    "write_api \<Rightarrow> crypto \<Rightarrow> pgp \<Rightarrow> client \<Rightarrow> node \<Rightarrow> string \<Rightarrow> go_error + folder_req" where
  "folder_request wa cr pg c parent name =
     and_then (snd (Keyring cr parent)) (\<lambda>parentKR.
     and_then (generateNodeKeys pg parentKR (cl_signKR c)) (\<lambda>(nodeKey, nodePassphrase, sig).
     and_then (wa_setName wa name (cl_signKR c) parentKR) (\<lambda>encName.
     and_then (wa_hashKey wa (nd_link parent) parentKR) (\<lambda>parentHashKey.
     and_then (wa_setHash wa name parentHashKey) (\<lambda>hash.
     and_then (unlockNodeKR pg parentKR (cl_signKR c) nodeKey nodePassphrase sig) (\<lambda>folderKR.
     and_then (wa_nodeHashKey wa folderKR) (\<lambda>hashKey.
     Inr \<lparr>fr_parent = lk_id (nd_link parent), fr_signer = cl_signEmail c, fr_key = nodeKey,
          fr_passphrase = nodePassphrase, fr_passphraseSig = sig, fr_name = encName, fr_hash = hash,
          fr_hashKey = hashKey\<rparr>)))))))"

definition CreateDir ::
    "write_api \<Rightarrow> crypto \<Rightarrow> pgp \<Rightarrow> client \<Rightarrow> node \<Rightarrow> string \<Rightarrow> write_st \<Rightarrow> write_st \<times> (go_error + node)" where
  "CreateDir wa cr pg c parent name st =
     (case folder_request wa cr pg c parent name of
        Inl e \<Rightarrow> (st, Inl e)
      | Inr req \<Rightarrow>
          (case call (ACreateFolder req) (wa_createFolder wa req) st of
             (st1, Inl e) \<Rightarrow> (st1, Inl e)
           | (st1, Inr linkID) \<Rightarrow> fetch_node wa cr linkID parent st1))"

definition move_request ::
    "write_api \<Rightarrow> crypto \<Rightarrow> pgp \<Rightarrow> client \<Rightarrow> string \<Rightarrow> node \<Rightarrow> node \<Rightarrow> string \<Rightarrow> go_error + (move_req \<times> keyring)" where
  "move_request wa cr pg c passphrase oldParent newParent newName =
     and_then (snd (Keyring cr oldParent)) (\<lambda>oldParentKR.
     and_then (snd (Keyring cr newParent)) (\<lambda>newParentKR.
     and_then (wa_setName wa newName (cl_signKR c) newParentKR) (\<lambda>encName.
     and_then (wa_hashKey wa (nd_link newParent) newParentKR) (\<lambda>newParentHashKey.
     and_then (wa_setHash wa newName newParentHashKey) (\<lambda>hash.
     and_then (reencryptPassphrase pg oldParentKR newParentKR passphrase) (\<lambda>nodePassphrase.
     Inr (\<lparr>mv_name = encName, mv_hash = hash, mv_parent = lk_id (nd_link newParent),
           mv_passphrase = nodePassphrase, mv_signer = cl_signEmail c\<rparr>, newParentKR)))))))"

text \<open>\<open>Move\<close>; \<open>passphrase\<close> is the link's \<open>NodePassphrase\<close>. The PUT is \<open>putJSON\<close> (theory
  \<open>Http_Retry\<close>); here it is one call with its final outcome.\<close>

definition Move ::
    "write_api \<Rightarrow> crypto \<Rightarrow> pgp \<Rightarrow> client \<Rightarrow> string \<Rightarrow> node \<Rightarrow> node \<Rightarrow> node \<Rightarrow> string \<Rightarrow> write_st
       \<Rightarrow> write_st \<times> (go_error + node)" where
  "Move wa cr pg c passphrase n oldParent newParent newName st =
     (case move_request wa cr pg c passphrase oldParent newParent newName of
        Inl e \<Rightarrow> (st, Inl e)
      | Inr (req, newParentKR) \<Rightarrow>
          (case call (AMove (lk_id (nd_link n)) req) (as_result (wa_move wa)) st of
             (st1, Inl e) \<Rightarrow> (st1, Inl e)
           | (st1, Inr _) \<Rightarrow>
               (let l = (nd_link n)\<lparr>lk_name := mv_name req, lk_hash := mv_hash req, lk_parent := mv_parent req\<rparr>
                in (st1, Inr (inheritAttrs n (newNode l newName newParentKR))))))"

definition Trash :: "write_api \<Rightarrow> node \<Rightarrow> node \<Rightarrow> write_st \<Rightarrow> write_st \<times> (go_error + unit)" where
  "Trash wa parent n st =
     call (ATrash (lk_id (nd_link parent)) (lk_id (nd_link n))) (as_result (wa_trash wa)) st"

section \<open>Uploading\<close>

definition mimeTypeFor :: "write_api \<Rightarrow> string \<Rightarrow> string" where
  "mimeTypeFor wa name =
     (let t = wa_mime wa (path_ext name) in if t \<noteq> '''' then t else ''application/octet-stream'')"

definition blockManifest :: "bytes list \<Rightarrow> bytes" where
  "blockManifest hashes = foldl (\<lambda>out h. out @ h) [] hashes"

text \<open>The identifiers and keys an upload works with: link, revision, node keyring, and encryption
  under the session key.\<close>

type_synonym started = "string \<times> string \<times> keyring \<times> (bytes \<Rightarrow> go_error + bytes)"

definition file_request ::
    "write_api \<Rightarrow> crypto \<Rightarrow> pgp \<Rightarrow> client \<Rightarrow> node \<Rightarrow> string
       \<Rightarrow> go_error + (file_req \<times> keyring \<times> (bytes \<Rightarrow> go_error + bytes))" where
  "file_request wa cr pg c parent name =
     and_then (snd (Keyring cr parent)) (\<lambda>parentKR.
     and_then (generateNodeKeys pg parentKR (cl_signKR c)) (\<lambda>(nodeKey, nodePassphrase, sig).
     and_then (unlockNodeKR pg parentKR (cl_signKR c) nodeKey nodePassphrase sig) (\<lambda>nodeKR.
     and_then (wa_contentKey wa nodeKR) (\<lambda>(keyPacket, encrypt).
     and_then (wa_setName wa name (cl_signKR c) parentKR) (\<lambda>encName.
     and_then (wa_hashKey wa (nd_link parent) parentKR) (\<lambda>parentHashKey.
     and_then (wa_setHash wa name parentHashKey) (\<lambda>hash.
     Inr (\<lparr>fq_parent = lk_id (nd_link parent), fq_signer = cl_signEmail c, fq_key = nodeKey,
           fq_passphrase = nodePassphrase, fq_passphraseSig = sig, fq_mime = mimeTypeFor wa name,
           fq_keyPacket = keyPacket, fq_name = encName, fq_hash = hash\<rparr>, nodeKR, encrypt))))))))"

definition createFile ::
    "write_api \<Rightarrow> crypto \<Rightarrow> pgp \<Rightarrow> client \<Rightarrow> node \<Rightarrow> string \<Rightarrow> write_st \<Rightarrow> write_st \<times> (go_error + started)" where
  "createFile wa cr pg c parent name st =
     (case file_request wa cr pg c parent name of
        Inl e \<Rightarrow> (st, Inl e)
      | Inr (req, nodeKR, encrypt) \<Rightarrow>
          (case call (ACreateFile req) (wa_createFile wa req) st of
             (st1, Inl e) \<Rightarrow> (st1, Inl e)
           | (st1, Inr (linkID, revID)) \<Rightarrow> (st1, Inr (linkID, revID, nodeKR, encrypt))))"

definition startRevision ::
    "write_api \<Rightarrow> crypto \<Rightarrow> pgp \<Rightarrow> client \<Rightarrow> node \<Rightarrow> string \<Rightarrow> node option \<Rightarrow> write_st
       \<Rightarrow> write_st \<times> (go_error + started)" where
  "startRevision wa cr pg c parent name existing st =
     (case existing of
        None \<Rightarrow> createFile wa cr pg c parent name st
      | Some ex \<Rightarrow>
          (case Keyring cr ex of
             (_, Inl e) \<Rightarrow> (st, Inl e)
           | (_, Inr existingKR) \<Rightarrow>
               (case wa_sessionKey wa (nd_link ex) existingKR of
                  Inl e \<Rightarrow> (st, Inl e)
                | Inr encrypt \<Rightarrow>
                    (case call (ACreateRevision (lk_id (nd_link ex))) (wa_createRevision wa (lk_id (nd_link ex))) st of
                       (st1, Inl e) \<Rightarrow> (st1, Inl e)
                     | (st1, Inr revID) \<Rightarrow> (st1, Inr (lk_id (nd_link ex), revID, existingKR, encrypt))))))"

definition uploadBlock ::
    "write_api \<Rightarrow> started \<Rightarrow> nat \<Rightarrow> bytes \<Rightarrow> write_st \<Rightarrow> write_st \<times> (go_error + bytes)" where
  "uploadBlock wa up index piece st =
     (case up of (linkID, revisionID, nodeKR, encrypt) \<Rightarrow>
        (case and_then (encrypt piece) (\<lambda>enc. and_then (wa_signBlock wa piece nodeKR) (\<lambda>_. Inr enc)) of
           Inl e \<Rightarrow> (st, Inl e)
         | Inr enc \<Rightarrow>
             (let digest = wa_sha256 wa enc
              in case call (ARequestBlock linkID revisionID index (int (length enc)) digest) (wa_requestBlock wa index) st of
                   (st1, Inl e) \<Rightarrow> (st1, Inl e)
                 | (st1, Inr [(url, token)]) \<Rightarrow>
                     (case call (AUploadBlock url enc) (as_result (wa_uploadBlock wa url enc)) st1 of
                        (st2, Inl e) \<Rightarrow> (st2, Inl e)
                      | (st2, Inr _) \<Rightarrow> (st2, Inr digest))
                 | (st1, Inr _) \<Rightarrow> (st1, Inl (ErrMsg ''unexpected number of block upload links'')))))"

text \<open>A reader: its bytes, and the error that ends it instead of \<open>io.EOF\<close>. \<open>io.ReadFull\<close> into a
  buffer of one block.\<close>

record reader =
  rd_data :: bytes
  rd_err :: "go_error option"

definition blockBytes :: nat where "blockBytes = nat blockSize"

definition read_full :: "reader \<Rightarrow> bytes \<times> go_error option" where
  "read_full r =
     (take blockBytes (rd_data r),
      if blockBytes \<le> length (rd_data r) then None
      else (case rd_err r of Some e \<Rightarrow> Some e
            | None \<Rightarrow> if rd_data r = [] then Some ErrEOF else Some ErrUnexpectedEOF))"

definition read_rest :: "reader \<Rightarrow> reader" where
  "read_rest r = r\<lparr>rd_data := drop blockBytes (rd_data r)\<rparr>"

lemma blockBytes_pos [simp]: "0 < blockBytes"
  by (simp add: blockBytes_def blockSize_def)

lemma blockBytes_ne [simp]: "blockBytes \<noteq> 0"
  using blockBytes_pos by simp

function upload_loop ::
    "write_api \<Rightarrow> started \<Rightarrow> nat \<Rightarrow> reader \<Rightarrow> nat \<Rightarrow> int list \<Rightarrow> bytes list \<Rightarrow> write_st
       \<Rightarrow> write_st \<times> (go_error + (int list \<times> bytes list))" where
  "upload_loop wa up t r index blockSizes hashes st =
     (case read_full r of
        (piece, readErr) \<Rightarrow>
          (case (if piece = [] then (st, Inr [])
                 else uploadBlock wa up index piece st) of
             (st1, Inl e) \<Rightarrow> (st1, Inl e)
           | (st1, Inr hash) \<Rightarrow>
               (let more = (piece \<noteq> []);
                    sizes' = (if more then blockSizes @ [int (length piece)] else blockSizes);
                    hashes' = (if more then hashes @ [hash] else hashes);
                    st2 = (if more then st1\<lparr>ws_act := add_bytes t (int (length piece)) (ws_act st1)\<rparr> else st1)
                in case readErr of
                     Some e \<Rightarrow> if errors_is e ErrEOF \<or> errors_is e ErrUnexpectedEOF then (st2, Inr (sizes', hashes'))
                               else (st2, Inl e)
                   | None \<Rightarrow> upload_loop wa up t (read_rest r) (if more then Suc index else index) sizes' hashes' st2)))"
  by pat_completeness auto
termination
  by (relation "measure (\<lambda>(wa, up, t, r, i, s, h, st). length (rd_data r))")
    (auto simp: read_full_def read_rest_def split: if_splits option.splits intro: diff_less dest: less_le_trans [OF blockBytes_pos])

declare upload_loop.simps [simp del]

definition uploadBlocks ::
    "write_api \<Rightarrow> started \<Rightarrow> nat \<Rightarrow> reader \<Rightarrow> write_st \<Rightarrow> write_st \<times> (go_error + (int list \<times> bytes list))" where
  "uploadBlocks wa up t r st = upload_loop wa up t r 1 [] [] st"

definition commitRevision ::
    "write_api \<Rightarrow> started \<Rightarrow> int list \<Rightarrow> bytes list \<Rightarrow> int \<Rightarrow> nanos \<Rightarrow> write_st \<Rightarrow> write_st \<times> (go_error + unit)" where
  "commitRevision wa up blockSizes hashes sz modTime st =
     (case up of (linkID, revisionID, nodeKR, encrypt) \<Rightarrow>
        (let manifest = blockManifest hashes
         in case wa_signManifest wa manifest of
              Inl e \<Rightarrow> (st, Inl e)
            | Inr sig \<Rightarrow>
                (case wa_xattr wa nodeKR of
                   Some e \<Rightarrow> (st, Inl e)
                 | None \<Rightarrow> call (ACommit linkID revisionID manifest sz blockSizes modTime)
                             (as_result (wa_commit wa)) st)))"

definition cleanupFailedUpload ::
    "write_api \<Rightarrow> node \<Rightarrow> string \<Rightarrow> string \<Rightarrow> bool \<Rightarrow> write_st \<Rightarrow> write_st" where
  "cleanupFailedUpload wa parent linkID revisionID newFile st =
     (if newFile
      then fst (call (ADeleteChildren (lk_id (nd_link parent)) linkID) (as_result (wa_deleteChildren wa linkID)) st)
      else fst (call (ADeleteRevision linkID revisionID) (as_result (wa_deleteRevision wa revisionID)) st))"

text \<open>\<open>Upload\<close>. \<open>Inr None\<close> is the nil node with a nil error: committed, but not read back.\<close>

definition upload_body ::
    "write_api \<Rightarrow> crypto \<Rightarrow> pgp \<Rightarrow> client \<Rightarrow> node \<Rightarrow> string \<Rightarrow> node option \<Rightarrow> reader \<Rightarrow> int \<Rightarrow> nanos \<Rightarrow> nat
       \<Rightarrow> write_st \<Rightarrow> write_st \<times> (go_error + node option)" where
  "upload_body wa cr pg c parent name existing r sz modTime t st =
     (case startRevision wa cr pg c parent name existing st of
        (st1, Inl e) \<Rightarrow> (st1, Inl e)
      | (st1, Inr up) \<Rightarrow>
          (case up of (linkID, revisionID, nodeKR, encrypt) \<Rightarrow>
             (case uploadBlocks wa up t r st1 of
                (st2, Inl e) \<Rightarrow> (cleanupFailedUpload wa parent linkID revisionID (existing = None) st2, Inl e)
              | (st2, Inr (blockSizes, hashes)) \<Rightarrow>
                  (case commitRevision wa up blockSizes hashes sz modTime st2 of
                     (st3, Inl e) \<Rightarrow> (cleanupFailedUpload wa parent linkID revisionID (existing = None) st3, Inl e)
                   | (st3, Inr _) \<Rightarrow>
                       (case fetch_node wa cr linkID parent st3 of
                          (st4, Inl e) \<Rightarrow> (st4, Inr None)
                        | (st4, Inr n) \<Rightarrow> (st4, Inr (Some n)))))))"

definition Upload ::
    "write_api \<Rightarrow> crypto \<Rightarrow> pgp \<Rightarrow> client \<Rightarrow> node \<Rightarrow> string \<Rightarrow> node option \<Rightarrow> reader \<Rightarrow> int \<Rightarrow> nanos
       \<Rightarrow> write_st \<Rightarrow> write_st \<times> (go_error + node option)" where
  "Upload wa cr pg c parent name existing r sz modTime st =
     (case begin_transfer name ''upload'' sz (ws_now st) (ws_act st) of
        (a, t) \<Rightarrow>
          (case upload_body wa cr pg c parent name existing r sz modTime t (st\<lparr>ws_act := a\<rparr>) of
             (st1, res) \<Rightarrow> (st1\<lparr>ws_act := end_transfer t (ws_act st1)\<rparr>, res)))"

section \<open>What an upload sends\<close>

function pieces :: "bytes \<Rightarrow> bytes list" where
  "pieces xs = (if xs = [] then [] else take blockBytes xs # pieces (drop blockBytes xs))"
  by pat_completeness auto
termination
  by (relation "measure length") auto

declare pieces.simps [simp del]

lemma concat_pieces: "concat (pieces xs) = xs"
  by (induction xs rule: pieces.induct) (subst pieces.simps, simp)

definition payloads :: "api_call list \<Rightarrow> bytes list" where
  "payloads evs = List.map_filter (\<lambda>c. case c of AUploadBlock u b \<Rightarrow> Some b | _ \<Rightarrow> None) evs"

definition indices :: "api_call list \<Rightarrow> nat list" where
  "indices evs = List.map_filter (\<lambda>c. case c of ARequestBlock l r i n h \<Rightarrow> Some i | _ \<Rightarrow> None) evs"

definition commits :: "api_call list \<Rightarrow> api_call list" where
  "commits evs = filter (\<lambda>c. case c of ACommit l r m s b t \<Rightarrow> True | _ \<Rightarrow> False) evs"

lemma log_views [simp]:
  "payloads [] = []" "payloads (a @ b) = payloads a @ payloads b"
  "indices [] = []" "indices (a @ b) = indices a @ indices b"
  "commits [] = []" "commits (a @ b) = commits a @ commits b"
  "payloads [AUploadBlock u x] = [x]" "payloads [ARequestBlock l r i n h] = []"
  "indices [AUploadBlock u x] = []" "indices [ARequestBlock l r i n h] = [i]"
  "commits [AUploadBlock u x] = []" "commits [ARequestBlock l r i n h] = []"
  by (simp_all add: payloads_def indices_def commits_def List.map_filter_def)

text \<open>Only calls made while the context lasts are in the log, and the transfers are not theirs.\<close>

lemma call_Inr:
  "call c answer st = (st', Inr x) \<Longrightarrow>
     answer = Inr x \<and> ws_log st' = ws_log st @ [c] \<and> ws_act st' = ws_act st \<and> ws_now st' = ws_now st"
  by (auto simp: call_def split: option.splits nat.splits)

lemma call_frame:
  "call c answer st = (st', res) \<Longrightarrow> ws_act st' = ws_act st \<and> ws_now st' = ws_now st
     \<and> (ws_log st' = ws_log st \<or> ws_log st' = ws_log st @ [c])"
  by (auto simp: call_def split: option.splits nat.splits)

lemma uploadBlock_Inr:
  assumes "uploadBlock wa (l, rv, kr, encrypt) index p st = (st', Inr h)"
  shows "\<exists>enc url. encrypt p = Inr enc \<and> h = wa_sha256 wa enc \<and> ws_act st' = ws_act st
     \<and> ws_log st' = ws_log st @ [ARequestBlock l rv index (int (length enc)) h, AUploadBlock url enc]"
  using assms
  by (auto simp: uploadBlock_def Let_def dest!: call_Inr
           split: sum.splits prod.splits list.splits simp: and_then_Inr)

lemma uploadBlock_frame:
  "uploadBlock wa up index p st = (st', res) \<Longrightarrow>
     ws_act st' = ws_act st \<and> (\<exists>evs. ws_log st' = ws_log st @ evs \<and> commits evs = [])"
  by (fastforce simp: uploadBlock_def Let_def commits_def dest!: call_frame
           split: sum.splits prod.splits list.splits)

definition same_transfers :: "write_st \<Rightarrow> write_st \<Rightarrow> bool" where
  "same_transfers st st' \<longleftrightarrow> ac_current (ws_act st') = ac_current (ws_act st)
     \<and> ac_count (ws_act st') = ac_count (ws_act st) \<and> ac_next (ws_act st') = ac_next (ws_act st)"

lemma same_transfers_trans: "same_transfers a b \<Longrightarrow> same_transfers b c \<Longrightarrow> same_transfers a c"
  by (simp add: same_transfers_def)

lemma pieces_full: "blockBytes \<le> length xs \<Longrightarrow> pieces xs = take blockBytes xs # pieces (drop blockBytes xs)"
  by (subst pieces.simps) auto

lemma pieces_short: "\<not> blockBytes \<le> length xs \<Longrightarrow> pieces xs = (if xs = [] then [] else [xs])"
  by (subst pieces.simps) (simp add: pieces.simps [of "[]"])

text \<open>One turn of the loop, with the buffer's content named.\<close>

definition loop_turn :: "write_api \<Rightarrow> started \<Rightarrow> nat \<Rightarrow> nat \<Rightarrow> bytes \<Rightarrow> write_st \<Rightarrow> write_st \<times> (go_error + bytes)" where
  "loop_turn wa up t index p st =
     (case (if p = [] then (st, Inr []) else uploadBlock wa up index p st) of
        (st1, Inl e) \<Rightarrow> (st1, Inl e)
      | (st1, Inr h) \<Rightarrow>
          ((if p \<noteq> [] then st1\<lparr>ws_act := add_bytes t (int (length p)) (ws_act st1)\<rparr> else st1), Inr h))"

lemma upload_loop_full:
  assumes "blockBytes \<le> length (rd_data r)"
  shows "upload_loop wa up t r index sizes hashes st =
     (case loop_turn wa up t index (take blockBytes (rd_data r)) st of
        (st1, Inl e) \<Rightarrow> (st1, Inl e)
      | (st1, Inr h) \<Rightarrow> upload_loop wa up t (read_rest r) (Suc index)
                         (sizes @ [int blockBytes]) (hashes @ [h]) st1)"
proof -
  have ne: "take blockBytes (rd_data r) \<noteq> []" using assms by auto
  have l: "length (take blockBytes (rd_data r)) = blockBytes" using assms by simp
  show ?thesis
    by (subst upload_loop.simps)
      (use assms ne l in \<open>simp add: read_full_def loop_turn_def Let_def split: prod.split sum.split\<close>)
qed

lemma upload_loop_last:
  assumes "\<not> blockBytes \<le> length (rd_data r)"
  shows "upload_loop wa up t r index sizes hashes st =
     (case loop_turn wa up t index (rd_data r) st of
        (st1, Inl e) \<Rightarrow> (st1, Inl e)
      | (st1, Inr h) \<Rightarrow>
          (case rd_err r of
             Some e \<Rightarrow> if errors_is e ErrEOF \<or> errors_is e ErrUnexpectedEOF
                       then (st1, Inr (sizes @ map (int \<circ> length) (pieces (rd_data r)),
                                       hashes @ (if rd_data r = [] then [] else [h])))
                       else (st1, Inl e)
           | None \<Rightarrow> (st1, Inr (sizes @ map (int \<circ> length) (pieces (rd_data r)),
                               hashes @ (if rd_data r = [] then [] else [h])))))"
  by (subst upload_loop.simps)
    (use assms in \<open>auto simp: read_full_def loop_turn_def Let_def pieces_short errors_is_def
       split: prod.split sum.split option.split\<close>)

lemma loop_turn_frame:
  "loop_turn wa up t index p st = (st', res) \<Longrightarrow>
     same_transfers st st' \<and> (\<exists>evs. ws_log st' = ws_log st @ evs \<and> commits evs = [])"
  by (fastforce simp: loop_turn_def same_transfers_def add_bytes_def dest: uploadBlock_frame
      split: prod.splits sum.splits if_splits)

lemma loop_turn_Inr:
  assumes "loop_turn wa (l, rv, kr, encrypt) t index p st = (st', Inr h)" "p \<noteq> []"
  shows "\<exists>enc evs. encrypt p = Inr enc \<and> h = wa_sha256 wa enc \<and> ws_log st' = ws_log st @ evs
     \<and> payloads evs = [enc] \<and> indices evs = [index] \<and> commits evs = []"
proof -
  obtain st1 where u: "uploadBlock wa (l, rv, kr, encrypt) index p st = (st1, Inr h)"
    and log: "ws_log st' = ws_log st1"
    using assms by (auto simp: loop_turn_def split: prod.splits sum.splits)
  obtain enc url where e: "encrypt p = Inr enc" "h = wa_sha256 wa enc"
    "ws_log st1 = ws_log st @ [ARequestBlock l rv index (int (length enc)) h, AUploadBlock url enc]"
    using uploadBlock_Inr [OF u] by blast
  have "payloads [ARequestBlock l rv index (int (length enc)) h, AUploadBlock url enc] = [enc]"
    "indices [ARequestBlock l rv index (int (length enc)) h, AUploadBlock url enc] = [index]"
    "commits [ARequestBlock l rv index (int (length enc)) h, AUploadBlock url enc] = []"
    by (simp_all add: payloads_def indices_def commits_def List.map_filter_def)
  then show ?thesis using e log by auto
qed

lemma upload_loop_frame:
  "upload_loop wa up t r index sizes hashes st = (st', res) \<Longrightarrow>
     same_transfers st st' \<and> (\<exists>evs. ws_log st' = ws_log st @ evs \<and> commits evs = [])"
proof (induction "length (rd_data r)" arbitrary: r index sizes hashes st rule: less_induct)
  case less
  show ?case
  proof (cases "blockBytes \<le> length (rd_data r)")
    case True
    obtain st1 res1 where l: "loop_turn wa up t index (take blockBytes (rd_data r)) st = (st1, res1)"
      by (cases "loop_turn wa up t index (take blockBytes (rd_data r)) st")
    note f = loop_turn_frame [OF l]
    show ?thesis
    proof (cases res1)
      case (Inl e)
      then show ?thesis using less.prems l f by (simp add: upload_loop_full [OF True])
    next
      case (Inr h)
      have step: "upload_loop wa up t (read_rest r) (Suc index) (sizes @ [int blockBytes]) (hashes @ [h]) st1 = (st', res)"
        using less.prems l Inr by (simp add: upload_loop_full [OF True])
      have "length (rd_data (read_rest r)) < length (rd_data r)"
        using True blockBytes_pos by (auto simp: read_rest_def intro: diff_less)
      then have "same_transfers st1 st' \<and> (\<exists>evs. ws_log st' = ws_log st1 @ evs \<and> commits evs = [])"
        using less.hyps step by blast
      then show ?thesis using f same_transfers_trans by fastforce
    qed
  next
    case False
    then show ?thesis using less.prems loop_turn_frame [of wa up t index "rd_data r" st]
      by (auto simp: upload_loop_last split: prod.splits sum.splits option.splits if_splits)
  qed
qed

text \<open>A finished loop has sent every piece of the data once, in order, under consecutive indices.\<close>

lemma upload_loop_Inr:
  "upload_loop wa (l, rv, kr, encrypt) t r index sizes hashes st = (st', Inr (sizes', hashes')) \<Longrightarrow>
     \<exists>evs encs. ws_log st' = ws_log st @ evs \<and> list_all2 (\<lambda>p e. encrypt p = Inr e) (pieces (rd_data r)) encs
       \<and> payloads evs = encs \<and> indices evs = [index..<index + length encs] \<and> commits evs = []
       \<and> sizes' = sizes @ map (int \<circ> length) (pieces (rd_data r)) \<and> hashes' = hashes @ map (wa_sha256 wa) encs"
proof (induction "length (rd_data r)" arbitrary: r index sizes hashes st rule: less_induct)
  case less
  let ?up = "(l, rv, kr, encrypt)"
  show ?case
  proof (cases "blockBytes \<le> length (rd_data r)")
    case True
    let ?p = "take blockBytes (rd_data r)"
    have ne: "?p \<noteq> []" using True by auto
    obtain st1 h where lt: "loop_turn wa ?up t index ?p st = (st1, Inr h)"
      and step: "upload_loop wa ?up t (read_rest r) (Suc index) (sizes @ [int blockBytes]) (hashes @ [h]) st1
                 = (st', Inr (sizes', hashes'))"
      using less.prems by (auto simp: upload_loop_full [OF True] split: prod.splits sum.splits)
    obtain enc evs1 where 1: "encrypt ?p = Inr enc" "h = wa_sha256 wa enc" "ws_log st1 = ws_log st @ evs1"
        "payloads evs1 = [enc]" "indices evs1 = [index]" "commits evs1 = []"
      using loop_turn_Inr [OF lt ne] by blast
    have "length (rd_data (read_rest r)) < length (rd_data r)"
      using True blockBytes_pos by (auto simp: read_rest_def intro: diff_less)
    then obtain evs2 encs where 2: "ws_log st' = ws_log st1 @ evs2"
        "list_all2 (\<lambda>p e. encrypt p = Inr e) (pieces (rd_data (read_rest r))) encs" "payloads evs2 = encs"
        "indices evs2 = [Suc index..<Suc index + length encs]" "commits evs2 = []"
        "sizes' = (sizes @ [int blockBytes]) @ map (int \<circ> length) (pieces (rd_data (read_rest r)))"
        "hashes' = (hashes @ [h]) @ map (wa_sha256 wa) encs"
      using less.hyps [OF _ step] by blast
    have p: "pieces (rd_data r) = ?p # pieces (rd_data (read_rest r))"
      using pieces_full [OF True] by (simp add: read_rest_def)
    have len: "length ?p = blockBytes" using True by simp
    show ?thesis
    proof (intro exI [of _ "evs1 @ evs2"] exI [of _ "enc # encs"] conjI)
      show "indices (evs1 @ evs2) = [index..<index + length (enc # encs)]"
        using 1(5) 2(4) upt_conv_Cons [of index "index + length (enc # encs)"] by (simp del: upt_Suc)
    qed (use 1 2 p len in auto)
  next
    case False
    show ?thesis
    proof (cases "rd_data r = []")
      case True
      then have "loop_turn wa ?up t index (rd_data r) st = (st, Inr [])" by (simp add: loop_turn_def)
      then have "st' = st \<and> sizes' = sizes \<and> hashes' = hashes"
        using less.prems True False
        by (auto simp: upload_loop_last pieces_short split: option.splits if_splits)
      then show ?thesis using True False by (intro exI [of _ "[]"]) (simp add: pieces_short)
    next
      case ne: False
      obtain st1 h where lt: "loop_turn wa ?up t index (rd_data r) st = (st1, Inr h)"
        and res: "st' = st1" "sizes' = sizes @ map (int \<circ> length) (pieces (rd_data r))" "hashes' = hashes @ [h]"
        using less.prems ne
        by (auto simp: upload_loop_last [OF False] split: prod.splits sum.splits option.splits if_splits)
      obtain enc evs1 where 1: "encrypt (rd_data r) = Inr enc" "h = wa_sha256 wa enc" "ws_log st1 = ws_log st @ evs1"
        "payloads evs1 = [enc]" "indices evs1 = [index]" "commits evs1 = []"
        using loop_turn_Inr [OF lt ne] by blast
      show ?thesis
        using 1 res ne by (intro exI [of _ evs1] exI [of _ "[enc]"]) (simp add: pieces_short [OF False])
    qed
  qed
qed

section \<open>Whole uploads\<close>

lemma startRevision_frame:
  "startRevision wa cr pg c parent name existing st = (st', res) \<Longrightarrow>
     ws_act st' = ws_act st \<and> (\<exists>evs. ws_log st' = ws_log st @ evs \<and> commits evs = [] \<and> payloads evs = [] \<and> indices evs = [])"
proof -
  have v: "commits [ACreateRevision x] = []" "payloads [ACreateRevision x] = []" "indices [ACreateRevision x] = []"
    "commits [ACreateFile q] = []" "payloads [ACreateFile q] = []" "indices [ACreateFile q] = []" for x q
    by (simp_all add: commits_def payloads_def indices_def List.map_filter_def)
  assume "startRevision wa cr pg c parent name existing st = (st', res)"
  then show ?thesis
    by (auto simp: startRevision_def createFile_def dest!: call_frame
        split: option.splits prod.splits sum.splits intro: exI [of _ "[]"] v)
qed

lemma startRevision_act:
  "snd (startRevision wa cr pg c parent name existing (st\<lparr>ws_act := a\<rparr>))
     = snd (startRevision wa cr pg c parent name existing st)"
  by (auto simp: startRevision_def createFile_def call_def
      split: option.splits prod.splits sum.splits nat.splits)

lemma commitRevision_Inr:
  assumes "commitRevision wa (l, rv, kr, encrypt) sizes hashes sz m st = (st', Inr u)"
  shows "ws_act st' = ws_act st \<and> ws_log st' = ws_log st @ [ACommit l rv (blockManifest hashes) sz sizes m]"
  using assms by (auto simp: commitRevision_def Let_def dest!: call_Inr split: sum.splits option.splits)

lemma commitRevision_frame:
  "commitRevision wa up sizes hashes sz m st = (st', res) \<Longrightarrow>
     ws_act st' = ws_act st \<and> (\<exists>evs. ws_log st' = ws_log st @ evs)"
  by (fastforce simp: commitRevision_def Let_def dest!: call_frame split: prod.splits sum.splits option.splits)

lemma blockManifest_concat: "blockManifest hashes = concat hashes"
proof -
  have "foldl (\<lambda>out h. out @ h) acc hashes = acc @ concat hashes" for acc
    by (induction hashes arbitrary: acc) auto
  then show ?thesis by (simp add: blockManifest_def)
qed

lemma cleanup_frame: "ws_act (cleanupFailedUpload wa parent l rv nf st) = ws_act st"
  by (auto simp: cleanupFailedUpload_def call_def split: option.split nat.split)

lemma fetch_node_frame:
  "fetch_node wa cr l parent st = (st', res) \<Longrightarrow> ws_act st' = ws_act st
     \<and> (ws_log st' = ws_log st \<or> ws_log st' = ws_log st @ [AGetLink l])"
  by (auto simp: fetch_node_def dest!: call_frame split: prod.splits sum.splits)

lemma upload_body_transfers:
  assumes "upload_body wa cr pg c parent name existing r sz m t st = (st', res)"
  shows "same_transfers st st'"
proof -
  obtain st1 r1 where 1: "startRevision wa cr pg c parent name existing st = (st1, r1)"
    by (cases "startRevision wa cr pg c parent name existing st")
  have a1: "same_transfers st st1" using startRevision_frame [OF 1] by (simp add: same_transfers_def)
  show ?thesis
  proof (cases r1)
    case (Inl e)
    then show ?thesis using assms 1 a1 by (simp add: upload_body_def)
  next
    case (Inr up)
    obtain l rv kr encrypt where up: "up = (l, rv, kr, encrypt)" by (cases up) auto
    obtain st2 r2 where 2: "uploadBlocks wa up t r st1 = (st2, r2)" by (cases "uploadBlocks wa up t r st1")
    have a2: "same_transfers st st2"
      using upload_loop_frame 2 a1 same_transfers_trans unfolding uploadBlocks_def by blast
    show ?thesis
    proof (cases r2)
      case (Inl e)
      then show ?thesis using assms 1 2 Inr up a2 cleanup_frame
        by (auto simp: upload_body_def same_transfers_def)
    next
      case ok: (Inr sh)
      obtain sizes hashes where sh: "sh = (sizes, hashes)" by (cases sh)
      obtain st3 r3 where 3: "commitRevision wa up sizes hashes sz m st2 = (st3, r3)"
        by (cases "commitRevision wa up sizes hashes sz m st2")
      have a3: "same_transfers st st3"
        using commitRevision_frame [OF 3] a2 by (simp add: same_transfers_def)
      obtain st4 r4 where 4: "fetch_node wa cr l parent st3 = (st4, r4)" by (cases "fetch_node wa cr l parent st3")
      show ?thesis using assms 1 2 3 4 Inr up ok sh a3 cleanup_frame fetch_node_frame [OF 4]
        by (auto simp: upload_body_def same_transfers_def split: sum.splits)
    qed
  qed
qed

lemma call_ctx: "call x y s = (s', z) \<Longrightarrow> ws_ctx_calls s = None \<Longrightarrow> ws_ctx_calls s' = None"
  by (auto simp: call_def)

lemma loop_turn_ctx:
  "loop_turn wa up t i p s = (s', z) \<Longrightarrow> ws_ctx_calls s = None \<Longrightarrow> ws_ctx_calls s' = None"
  by (auto simp: loop_turn_def uploadBlock_def Let_def dest!: call_ctx
      split: prod.splits sum.splits if_splits list.splits)

lemma upload_loop_ctx:
  "upload_loop wa up t r i ss hs s = (s', z) \<Longrightarrow> ws_ctx_calls s = None \<Longrightarrow> ws_ctx_calls s' = None"
proof (induction "length (rd_data r)" arbitrary: r i ss hs s rule: less_induct)
  case less
  show ?case
  proof (cases "blockBytes \<le> length (rd_data r)")
    case True
    then have "length (rd_data (read_rest r)) < length (rd_data r)"
      using blockBytes_pos by (auto simp: read_rest_def intro: diff_less)
    then show ?thesis using less loop_turn_ctx
      by (auto simp: upload_loop_full [OF True] split: prod.splits sum.splits)
  next
    case False
    then show ?thesis using less.prems loop_turn_ctx
      by (auto simp: upload_loop_last split: prod.splits sum.splits option.splits if_splits)
  qed
qed

lemma startRevision_ctx:
  "startRevision wa cr pg c parent name existing s = (s', z) \<Longrightarrow> ws_ctx_calls s = None \<Longrightarrow> ws_ctx_calls s' = None"
  by (auto simp: startRevision_def createFile_def dest!: call_ctx
      split: prod.splits sum.splits option.splits)

lemma startRevision_set_act:
  "startRevision wa cr pg c parent name existing (st\<lparr>ws_act := a\<rparr>)
     = (case startRevision wa cr pg c parent name existing st of (s, x) \<Rightarrow> (s\<lparr>ws_act := a\<rparr>, x))"
  by (auto simp: startRevision_def createFile_def call_def
      split: option.splits prod.splits sum.splits nat.splits)

section \<open>Properties\<close>

text \<open>C1. A successful upload sent all of the data: the blocks the server received are the encryptions,
  in order and numbered from 1, of pieces that put together are the reader's bytes; the one commit
  carries their sizes and, as manifest, the concatenation of their digests in that order.\<close>

theorem Upload_sends_all:
  assumes "Upload wa cr pg c parent name existing r sz m st = (st', Inr res)"
  shows "\<exists>up evs encs. snd (startRevision wa cr pg c parent name existing st) = Inr up
     \<and> ws_log st' = ws_log st @ evs
     \<and> list_all2 (\<lambda>p e. (snd (snd (snd up))) p = Inr e) (pieces (rd_data r)) encs
     \<and> concat (pieces (rd_data r)) = rd_data r
     \<and> payloads evs = encs \<and> indices evs = [1..<1 + length encs]
     \<and> commits evs = [ACommit (fst up) (fst (snd up)) (concat (map (wa_sha256 wa) encs)) sz
                        (map (int \<circ> length) (pieces (rd_data r))) m]"
proof -
  obtain a t where b: "begin_transfer name ''upload'' sz (ws_now st) (ws_act st) = (a, t)"
    by (cases "begin_transfer name ''upload'' sz (ws_now st) (ws_act st)")
  let ?st = "st\<lparr>ws_act := a\<rparr>"
  obtain st0 where body: "upload_body wa cr pg c parent name existing r sz m t ?st = (st0, Inr res)"
    and log0: "ws_log st' = ws_log st0"
    using assms b by (auto simp: Upload_def split: prod.splits)
  obtain st1 up st2 sizes hashes st3 u where
    1: "startRevision wa cr pg c parent name existing ?st = (st1, Inr up)"
    and 2: "uploadBlocks wa up t r st1 = (st2, Inr (sizes, hashes))"
    and 3: "commitRevision wa up sizes hashes sz m st2 = (st3, Inr u)"
    and 4: "st0 = fst (fetch_node wa cr (fst up) parent st3)"
    using body by (fastforce simp: upload_body_def split: prod.splits sum.splits)
  obtain l rv kr encrypt where up: "up = (l, rv, kr, encrypt)" by (cases up) auto
  obtain e1 where e1: "ws_log st1 = ws_log st @ e1" "commits e1 = []" "payloads e1 = []" "indices e1 = []"
    using startRevision_frame [OF 1] by auto
  obtain e2 encs where e2: "ws_log st2 = ws_log st1 @ e2"
      "list_all2 (\<lambda>p e. encrypt p = Inr e) (pieces (rd_data r)) encs"
      "payloads e2 = encs" "indices e2 = [1..<1 + length encs]" "commits e2 = []"
      "sizes = map (int \<circ> length) (pieces (rd_data r))" "hashes = map (wa_sha256 wa) encs"
    using upload_loop_Inr [of wa l rv kr encrypt t r 1 "[]" "[]" st1 st2 sizes hashes] 2 up
    by (auto simp: uploadBlocks_def)
  let ?c = "ACommit l rv (concat (map (wa_sha256 wa) encs)) sz sizes m"
  have e3: "ws_log st3 = ws_log st2 @ [?c]"
    using commitRevision_Inr [OF 3 [unfolded up]] e2(7) by (simp add: blockManifest_concat)
  obtain e4 where e4: "ws_log st0 = ws_log st3 @ e4" "e4 = [] \<or> e4 = [AGetLink l]"
    using 4 up fetch_node_frame [of wa cr l parent st3] by (cases "fetch_node wa cr l parent st3") auto
  have v: "commits [?c] = [?c]" "payloads [?c] = []" "indices [?c] = []"
    "commits e4 = []" "payloads e4 = []" "indices e4 = []"
    using e4(2) by (auto simp: commits_def payloads_def indices_def List.map_filter_def)
  show ?thesis
  proof (intro exI [of _ up] exI [of _ "e1 @ e2 @ [?c] @ e4"] exI [of _ encs] conjI)
    show "snd (startRevision wa cr pg c parent name existing st) = Inr up"
      using startRevision_act [where st = st and a = a and wa = wa and cr = cr and pg = pg and c = c
          and parent = parent and name = name and existing = existing] 1 by simp
    show "ws_log st' = ws_log st @ e1 @ e2 @ [?c] @ e4" using log0 e1 e2 e3 e4 by simp
    show "payloads (e1 @ e2 @ [?c] @ e4) = encs"
      unfolding log_views(2) using e1 e2 v by simp
    show "indices (e1 @ e2 @ [?c] @ e4) = [1..<1 + length encs]"
      unfolding log_views(4) using e1 e2 v by simp
    show "commits (e1 @ e2 @ [?c] @ e4) = [ACommit (fst up) (fst (snd up)) (concat (map (wa_sha256 wa) encs)) sz
                        (map (int \<circ> length) (pieces (rd_data r))) m]"
      unfolding log_views(6) using e1 e2 v up by simp
  qed (use e2 up concat_pieces in auto)
qed

text \<open>Whatever happens, an upload leaves the in-flight transfers as it found them.\<close>

theorem Upload_ends_transfer:
  assumes "activity_ok (ws_act st)"
  shows "case Upload wa cr pg c parent name existing r sz m st of (st', res) \<Rightarrow>
     ac_current (ws_act st') = ac_current (ws_act st) \<and> ac_count (ws_act st') = ac_count (ws_act st)"
proof -
  obtain a t where b: "begin_transfer name ''upload'' sz (ws_now st) (ws_act st) = (a, t)"
    by (cases "begin_transfer name ''upload'' sz (ws_now st) (ws_act st)")
  obtain st1 res where body: "upload_body wa cr pg c parent name existing r sz m t (st\<lparr>ws_act := a\<rparr>) = (st1, res)"
    by (cases "upload_body wa cr pg c parent name existing r sz m t (st\<lparr>ws_act := a\<rparr>)")
  have s: "ac_current (ws_act st1) = ac_current a" "ac_count (ws_act st1) = ac_count a"
    using upload_body_transfers [OF body] by (simp_all add: same_transfers_def)
  have "\<forall>x\<in>set (ac_current (ws_act st)). tr_id x \<noteq> Suc (ac_next (ws_act st))"
    using assms by (auto simp: activity_ok_def)
  then have "filter (\<lambda>x. tr_id x \<noteq> t) (ac_current a) = ac_current (ws_act st)" "ac_count a = ac_count (ws_act st) + 1"
    using b by (auto simp: begin_transfer_def Let_def)
  then show ?thesis using b body s by (simp add: Upload_def end_transfer_def)
qed

definition demo_wapi :: write_api where
  "demo_wapi = \<lparr>wa_setName = (\<lambda>_ _ _. Inr ''en''), wa_hashKey = (\<lambda>_ _. Inr ''hk''), wa_setHash = (\<lambda>_ _. Inr ''h''),
     wa_nodeHashKey = (\<lambda>_. Inr ''nhk''), wa_contentKey = (\<lambda>_. Inr (''kp'', \<lambda>b. Inr (rev b))),
     wa_sessionKey = (\<lambda>_ _. Inr (\<lambda>b. Inr (rev b))), wa_signBlock = (\<lambda>_ _. Inr ''s''),
     wa_signManifest = (\<lambda>_. Inr ''ms''), wa_xattr = (\<lambda>_. None), wa_sha256 = take 1, wa_mime = (\<lambda>_. ''''),
     wa_createFolder = (\<lambda>_. Inr ''id''), wa_createFile = (\<lambda>_. Inr (''id'', ''rev'')),
     wa_createRevision = (\<lambda>_. Inr ''rev''), wa_requestBlock = (\<lambda>_. Inr [(''url'', ''tok'')]),
     wa_uploadBlock = (\<lambda>_ _. None), wa_commit = None, wa_deleteChildren = (\<lambda>_. None),
     wa_deleteRevision = (\<lambda>_. None), wa_move = None, wa_trash = None, wa_getLink = (\<lambda>_. Inl ErrEOF)\<rparr>"

definition demo_wst :: "nat option \<Rightarrow> write_st" where
  "demo_wst n = \<lparr>ws_log = [], ws_act = demo_activity, ws_now = 0, ws_ctx_calls = n\<rparr>"

definition demo_reader :: reader where
  "demo_reader = \<lparr>rd_data = [1, 2, 3], rd_err = None\<rparr>"

lemma demo_short: "\<not> blockBytes \<le> length (rd_data demo_reader)"
  by (simp add: demo_reader_def blockBytes_def blockSize_def)

lemma demo_start:
  "startRevision demo_wapi demo_crypto demo_pgp1 demo_client demo_node ''n'' (Some demo_node) (demo_wst k) =
     (case call (ACreateRevision ''a'') (Inr ''rev'') (demo_wst k) of
        (st1, Inl e) \<Rightarrow> (st1, Inl e)
      | (st1, Inr rv) \<Rightarrow> (st1, Inr (''a'', rv, 5, \<lambda>b. Inr (rev b))))"
  by (simp add: startRevision_def Keyring_def demo_node_def demo_crypto_def newNode_def demo_link_def demo_wapi_def)

theorem Upload_sends_all_witness:
  "\<exists>st' res encs. Upload demo_wapi demo_crypto demo_pgp1 demo_client demo_node ''n'' (Some demo_node) demo_reader 3 7
       (demo_wst None) = (st', Inr res)
     \<and> payloads (ws_log st') = encs \<and> list_all2 (\<lambda>p e. e = rev p) (pieces [1, 2, 3]) encs"
proof -
  have ok: "\<exists>st' res. Upload demo_wapi demo_crypto demo_pgp1 demo_client demo_node ''n'' (Some demo_node) demo_reader 3 7
       (demo_wst None) = (st', Inr res)"
    using demo_short
    by (auto simp: Upload_def upload_body_def uploadBlocks_def upload_loop_last loop_turn_def demo_start
        startRevision_def Keyring_def demo_node_def demo_crypto_def newNode_def demo_link_def
        begin_transfer_def Let_def call_def demo_wst_def demo_wapi_def demo_reader_def uploadBlock_def
        as_result_def commitRevision_def fetch_node_def)
  then obtain st' res where u: "Upload demo_wapi demo_crypto demo_pgp1 demo_client demo_node ''n'' (Some demo_node)
      demo_reader 3 7 (demo_wst None) = (st', Inr res)" by blast
  obtain up evs encs where *: "snd (startRevision demo_wapi demo_crypto demo_pgp1 demo_client demo_node ''n''
        (Some demo_node) (demo_wst None)) = Inr up" "ws_log st' = ws_log (demo_wst None) @ evs"
      "list_all2 (\<lambda>p e. (snd (snd (snd up))) p = Inr e) (pieces (rd_data demo_reader)) encs" "payloads evs = encs"
    using Upload_sends_all [OF u] by blast
  have "up = (''a'', ''rev'', 5, \<lambda>b. Inr (rev b))"
    using *(1) unfolding demo_start by (auto simp: call_def demo_wst_def)
  then have "list_all2 (\<lambda>p e. e = rev p) (pieces [1, 2, 3]) encs"
    using *(3) by (auto simp: demo_reader_def elim: list_all2_mono)
  then show ?thesis using u * by (auto simp: demo_wst_def)
qed

theorem Upload_ends_transfer_witness:
  "ac_current (ws_act (fst (Upload demo_wapi demo_crypto demo_pgp1 demo_client demo_node ''n'' None demo_reader 3 7
       (demo_wst (Some 0))))) = []"
proof -
  have "activity_ok (ws_act (demo_wst (Some 0)))"
    by (simp add: demo_wst_def demo_activity_def activity_ok_def)
  from Upload_ends_transfer [OF this, of demo_wapi demo_crypto demo_pgp1 demo_client demo_node "''n''" None demo_reader 3 7]
  show ?thesis by (simp add: demo_wst_def demo_activity_def split: prod.splits)
qed



text \<open>The clean-up uses the upload's own context. When that context's end is what failed the upload
  (the upload timeout), no clean-up reaches the server and the draft stays behind.\<close>

theorem Upload_timeout_leaves_draft:
  "case Upload demo_wapi demo_crypto demo_pgp1 demo_client demo_node ''n'' (Some demo_node) demo_reader 3 7
       (demo_wst (Some 2)) of (st', res) \<Rightarrow>
     res = Inl ErrDeadline \<and> ws_log st' = [ACreateRevision ''a'', ARequestBlock ''a'' ''rev'' 1 3 [3]]"
  using demo_short
  by (auto simp: Upload_def upload_body_def uploadBlocks_def upload_loop_last loop_turn_def demo_start
      startRevision_def Keyring_def demo_node_def demo_crypto_def newNode_def demo_link_def
      begin_transfer_def Let_def call_def demo_wst_def demo_wapi_def demo_reader_def uploadBlock_def
      cleanupFailedUpload_def numeral_2_eq_2)

end
