(* ===== verification/Drive_Events.thy ===== *)
theory Drive_Events
  imports Drive_Node
begin

text \<open>
  The poll loop for remote changes (internal/drive/events.go). Each \<open>tick\<close> of the ticker is what the
  loop meets on it: whether the mount is paused, what \<open>GetLatestVolumeEventID\<close> answers, and the
  event pages \<open>GetVolumeEvent\<close> serves after a given event. The context's end is the end of the list
  of ticks. The inner loop goes on while the server has pages; \<open>fuel\<close> bounds it and running out is
  visible (\<open>None\<close>).
\<close>

record vevent =
  ve_type :: nat
  ve_link :: string
  ve_parent :: string
  ve_folder :: bool

record page =
  pg_id :: string
  pg_events :: "vevent list"
  pg_refresh :: bool

record event =
  ev_type :: nat
  ev_link :: string
  ev_parent :: string
  ev_isDir :: bool
  ev_refresh :: bool

record tick =
  tk_paused :: bool
  tk_latest :: "go_error + string"
  tk_get :: "string \<Rightarrow> go_error + page"

definition unrecoverableAuth :: "go_error \<Rightarrow> bool \<Rightarrow> bool" where
  "unrecoverableAuth e has_callback \<longleftrightarrow> has_callback \<and> isUnrecoverableAuth e"

definition to_event :: "vevent \<Rightarrow> event" where
  "to_event v = \<lparr>ev_type = ve_type v, ev_link = ve_link v, ev_parent = ve_parent v,
                 ev_isDir = ve_folder v, ev_refresh = False\<rparr>"

definition refresh_event :: event where
  "refresh_event = \<lparr>ev_type = 0, ev_link = '''', ev_parent = '''', ev_isDir = False, ev_refresh = True\<rparr>"

text \<open>The inner loop: the last event seen, the events handed to \<open>fn\<close>, and whether the session is
  lost for good.\<close>

fun poll_pages :: "bool \<Rightarrow> (string \<Rightarrow> go_error + page) \<Rightarrow> nat \<Rightarrow> string \<Rightarrow> event list \<Rightarrow> (string \<times> event list \<times> bool) option" where
  "poll_pages cb get 0 seen out = None"
| "poll_pages cb get (Suc n) seen out =
     (case get seen of
        Inl e \<Rightarrow> Some (seen, out, unrecoverableAuth e cb)
      | Inr pg \<Rightarrow>
          (let out' = out @ map to_event (pg_events pg) @ (if pg_refresh pg then [refresh_event] else [])
           in if pg_events pg = [] then Some (pg_id pg, out', False)
              else poll_pages cb get n (pg_id pg) out'))"

definition poll_tick :: "bool \<Rightarrow> nat \<Rightarrow> tick \<Rightarrow> string \<Rightarrow> event list \<Rightarrow> (string \<times> event list \<times> bool) option" where
  "poll_tick cb fuel tk seen out =
     (if tk_paused tk then Some (seen, out, False)
      else if seen = '''' then
        (case tk_latest tk of
           Inl e \<Rightarrow> Some ('''', out, unrecoverableAuth e cb)
         | Inr latest \<Rightarrow> poll_pages cb (tk_get tk) fuel latest out)
      else poll_pages cb (tk_get tk) fuel seen out)"

fun poll_ticks :: "bool \<Rightarrow> nat \<Rightarrow> tick list \<Rightarrow> string \<Rightarrow> event list \<Rightarrow> (string \<times> event list \<times> bool) option" where
  "poll_ticks cb fuel [] seen out = Some (seen, out, False)"
| "poll_ticks cb fuel (tk # tks) seen out =
     (case poll_tick cb fuel tk seen out of
        None \<Rightarrow> None
      | Some (seen', out', stop) \<Rightarrow>
          if stop then Some (seen', out', True) else poll_ticks cb fuel tks seen' out')"

definition Events :: "bool \<Rightarrow> nat \<Rightarrow> (go_error + string) \<Rightarrow> tick list \<Rightarrow> (string \<times> event list \<times> bool) option" where
  "Events cb fuel first tks =
     (case first of
        Inl e \<Rightarrow> if unrecoverableAuth e cb then Some ('''', [], True) else poll_ticks cb fuel tks '''' []
      | Inr seen \<Rightarrow> poll_ticks cb fuel tks seen [])"

section \<open>Against a server that keeps a log\<close>

text \<open>
  The server's log: event number \<open>i\<close> has identifier \<open>ids i\<close> and carries \<open>evs i\<close>, at least one change.
  A call asking for what follows number \<open>i\<close> gets number \<open>i+1\<close>, or nothing new, or an error; the
  server knows at most \<open>n\<close> of them.
\<close>

definition log_server :: "(nat \<Rightarrow> string) \<Rightarrow> (nat \<Rightarrow> vevent list) \<Rightarrow> nat \<Rightarrow> (string \<Rightarrow> go_error + page) \<Rightarrow> bool" where
  "log_server ids evs n get \<longleftrightarrow>
     (\<forall>i. (\<exists>e. get (ids i) = Inl e)
        \<or> (\<exists>r. get (ids i) = Inr \<lparr>pg_id = ids i, pg_events = [], pg_refresh = r\<rparr>)
        \<or> (i < n \<and> (\<exists>r. get (ids i) = Inr \<lparr>pg_id = ids (Suc i), pg_events = evs (Suc i), pg_refresh = r\<rparr>)))"

definition changes :: "event list \<Rightarrow> event list" where
  "changes out = filter (\<lambda>e. \<not> ev_refresh e) out"

definition log_slice :: "(nat \<Rightarrow> vevent list) \<Rightarrow> nat \<Rightarrow> nat \<Rightarrow> event list" where
  "log_slice evs i j = map to_event (concat (map evs [Suc i..<Suc j]))"

lemma changes_append [simp]: "changes (xs @ ys) = changes xs @ changes ys"
  by (simp add: changes_def)

lemma changes_to_event [simp]: "changes (map to_event vs) = map to_event vs"
  by (auto simp: changes_def to_event_def filter_map comp_def)

lemma changes_refresh [simp]: "changes (if r then [refresh_event] else []) = []"
  by (simp add: changes_def refresh_event_def)

lemma log_slice_step: "i \<le> j \<Longrightarrow> log_slice evs i (Suc j) = log_slice evs i j @ map to_event (evs (Suc j))"
  by (simp add: log_slice_def)

lemma poll_pages_log:
  assumes srv: "log_server ids evs n get" and ne: "\<And>i. evs i \<noteq> []"
  shows "start \<le> i \<Longrightarrow> i \<le> n \<Longrightarrow> n - i < fuel \<Longrightarrow> changes out = log_slice evs start i \<Longrightarrow>
     \<exists>j out' stop. poll_pages cb get fuel (ids i) out = Some (ids j, out', stop)
       \<and> i \<le> j \<and> j \<le> n \<and> changes out' = log_slice evs start j"
proof (induction fuel arbitrary: i out)
  case (Suc fuel)
  consider (err) e where "get (ids i) = Inl e"
    | (quiet) r where "get (ids i) = Inr \<lparr>pg_id = ids i, pg_events = [], pg_refresh = r\<rparr>"
    | (more) r where "i < n" "get (ids i) = Inr \<lparr>pg_id = ids (Suc i), pg_events = evs (Suc i), pg_refresh = r\<rparr>"
    using srv unfolding log_server_def by blast
  then show ?case
  proof cases
    case err
    then show ?thesis using Suc.prems by auto
  next
    case quiet
    then show ?thesis using Suc.prems by auto
  next
    case more
    let ?out = "out @ map to_event (evs (Suc i)) @ (if r then [refresh_event] else [])"
    have "changes ?out = log_slice evs start (Suc i)"
      using Suc.prems by (simp only: changes_append changes_to_event changes_refresh log_slice_step append_Nil2)
    then have "\<exists>j out' stop. poll_pages cb get fuel (ids (Suc i)) ?out = Some (ids j, out', stop)
       \<and> Suc i \<le> j \<and> j \<le> n \<and> changes out' = log_slice evs start j"
      using Suc.prems more(1) by (intro Suc.IH) linarith+
    then obtain j out' stop where "poll_pages cb get fuel (ids (Suc i)) ?out = Some (ids j, out', stop)"
       "Suc i \<le> j" "j \<le> n" "changes out' = log_slice evs start j" by blast
    then show ?thesis using more ne by (auto simp: Let_def)
  qed
qed simp

text \<open>C27. Polling loses and repeats nothing: against a server with an event log, whatever ticks are
  paused or fail, the changes handed out are exactly the log entries between the starting point and
  the last event seen, in order, and every tick ends.\<close>

theorem Events_no_loss:
  assumes "\<And>tk. tk \<in> set tks \<Longrightarrow> log_server ids evs n (tk_get tk)" "\<And>i. evs i \<noteq> []" "\<And>i. ids i \<noteq> ''''"
    and "start \<le> n"
  shows "\<exists>j out stop. Events cb (Suc n) (Inr (ids start)) tks = Some (ids j, out, stop)
     \<and> start \<le> j \<and> j \<le> n \<and> changes out = log_slice evs start j"
proof -
  have "\<exists>j out' stop. poll_ticks cb (Suc n) tks (ids i) out = Some (ids j, out', stop)
     \<and> start \<le> j \<and> j \<le> n \<and> changes out' = log_slice evs start j"
    if "start \<le> i" "i \<le> n" "changes out = log_slice evs start i" for i out
    using assms(1) that
  proof (induction tks arbitrary: i out)
    case (Cons tk tks)
    have "\<exists>j out' stop. poll_pages cb (tk_get tk) (Suc n) (ids i) out = Some (ids j, out', stop)
        \<and> i \<le> j \<and> j \<le> n \<and> changes out' = log_slice evs start j"
      by (rule poll_pages_log) (use Cons.prems assms(2) in auto)
    then have "\<exists>j out' stop. poll_tick cb (Suc n) tk (ids i) out = Some (ids j, out', stop)
        \<and> start \<le> j \<and> j \<le> n \<and> changes out' = log_slice evs start j"
      using Cons.prems assms(3) le_trans [of start i]
      by (cases "tk_paused tk") (fastforce simp: poll_tick_def simp del: poll_pages.simps)+
    then obtain j out' stop where "poll_tick cb (Suc n) tk (ids i) out = Some (ids j, out', stop)"
        "start \<le> j" "j \<le> n" "changes out' = log_slice evs start j" by blast
    then show ?case using Cons by (cases stop) auto
  qed auto
  then show ?thesis using assms(4) by (simp add: Events_def log_slice_def changes_def)
qed

definition demo_vevent :: "nat \<Rightarrow> vevent" where
  "demo_vevent i = \<lparr>ve_type = i, ve_link = ''l'', ve_parent = ''p'', ve_folder = False\<rparr>"

definition demo_tick :: tick where
  "demo_tick = \<lparr>tk_paused = False, tk_latest = Inl ErrEOF,
     tk_get = (\<lambda>s. if s = ''i'' then Inr \<lparr>pg_id = ''ii'', pg_events = [demo_vevent 1], pg_refresh = True\<rparr>
                   else Inl ErrEOF)\<rparr>"

theorem Events_no_loss_witness:
  "\<exists>j out stop. Events True 2 (Inr ''i'') [demo_tick] = Some (replicate (Suc j) (CHR ''i''), out, stop)
     \<and> changes out = log_slice (\<lambda>i. [demo_vevent i]) 0 j \<and> j \<le> 1"
proof -
  have "log_server (\<lambda>i. replicate (Suc i) (CHR ''i'')) (\<lambda>i. [demo_vevent i]) 1 (tk_get demo_tick)"
    by (auto simp: log_server_def demo_tick_def)
  then have "\<exists>j out stop. Events True (Suc 1) (Inr (replicate (Suc 0) (CHR ''i''))) [demo_tick]
       = Some (replicate (Suc j) (CHR ''i''), out, stop)
     \<and> 0 \<le> j \<and> j \<le> 1 \<and> changes out = log_slice (\<lambda>i. [demo_vevent i]) 0 j"
    by (intro Events_no_loss) auto
  then show ?thesis by (auto simp: numeral_2_eq_2)
qed

end
