(* ===== verification/Singleflight.thy ===== *)
theory Singleflight
  imports Drive_File
begin

text \<open>
  Concurrent \<open>getBlock\<close> calls on one open file (internal/drive/file.go: \<open>getBlock\<close>, \<open>cachedBlock\<close>,
  \<open>claimBlock\<close>, \<open>releaseBlock\<close>). Goroutine \<open>t\<close> asks for block \<open>wants t\<close>; each step of the relation is
  one critical section or channel operation of the code, so every interleaving is a path. The
  block's own fetch (\<open>fetchAndCacheBlock\<close>) is one step with an arbitrary outcome; \<open>sf_downloads\<close>
  counts the successful ones.
\<close>

datatype phase =
    Start
  | Missed
  | Fetching nat
  | Fetched nat "go_error + bytes"
  | Waiting nat
  | Woken "go_error option"
  | Done "go_error + bytes"

record flight =
  sf_mem :: mem_cache
  sf_inflight :: "int \<Rightarrow> nat option"
  sf_result :: "nat \<Rightarrow> go_error option option"
  sf_next :: nat
  sf_phase :: "nat \<Rightarrow> phase"
  sf_downloads :: "int \<Rightarrow> nat"

definition set_phase :: "nat \<Rightarrow> phase \<Rightarrow> flight \<Rightarrow> flight" where
  "set_phase t p s = s\<lparr>sf_phase := (sf_phase s)(t := p)\<rparr>"

definition cachedBlock :: "int \<Rightarrow> flight \<Rightarrow> bytes option" where
  "cachedBlock idx s = map_of (fst (sf_mem s)) idx"

text \<open>\<open>claimBlock\<close>: \<open>LoadOrStore\<close> of a fresh record; \<open>True\<close> for the winner.\<close>

definition claimBlock :: "int \<Rightarrow> flight \<Rightarrow> flight \<times> nat \<times> bool" where
  "claimBlock idx s =
     (case sf_inflight s idx of
        None \<Rightarrow> (s\<lparr>sf_inflight := (sf_inflight s)(idx \<mapsto> sf_next s), sf_next := Suc (sf_next s)\<rparr>, sf_next s, True)
      | Some n \<Rightarrow> (s, n, False))"

definition releaseBlock :: "int \<Rightarrow> nat \<Rightarrow> go_error option \<Rightarrow> flight \<Rightarrow> flight" where
  "releaseBlock idx n err s =
     s\<lparr>sf_inflight := (sf_inflight s)(idx := None), sf_result := (sf_result s)(n \<mapsto> err)\<rparr>"

definition err_of :: "go_error + bytes \<Rightarrow> go_error option" where
  "err_of r = (case r of Inl e \<Rightarrow> Some e | Inr d \<Rightarrow> None)"

inductive flight_step :: "(nat \<Rightarrow> int) \<Rightarrow> flight \<Rightarrow> flight \<Rightarrow> bool" for wants where
  hit: "sf_phase s t = Start \<Longrightarrow> cachedBlock (wants t) s = Some d \<Longrightarrow>
     flight_step wants s (set_phase t (Done (Inr d)) s)"
| miss: "sf_phase s t = Start \<Longrightarrow> cachedBlock (wants t) s = None \<Longrightarrow>
     flight_step wants s (set_phase t Missed s)"
| claim: "sf_phase s t = Missed \<Longrightarrow> claimBlock (wants t) s = (s', n, won) \<Longrightarrow>
     flight_step wants s (set_phase t (if won then Fetching n else Waiting n) s')"
| fetch_ok: "sf_phase s t = Fetching n \<Longrightarrow>
     flight_step wants s (set_phase t (Fetched n (Inr d))
       (s\<lparr>sf_mem := cachePut (wants t) d (sf_mem s),
          sf_downloads := (sf_downloads s)(wants t := Suc (sf_downloads s (wants t)))\<rparr>))"
| fetch_failed: "sf_phase s t = Fetching n \<Longrightarrow>
     flight_step wants s (set_phase t (Fetched n (Inl e)) s)"
| release: "sf_phase s t = Fetched n r \<Longrightarrow>
     flight_step wants s (set_phase t (Done r) (releaseBlock (wants t) n (err_of r) s))"
| wake: "sf_phase s t = Waiting n \<Longrightarrow> sf_result s n = Some err \<Longrightarrow>
     flight_step wants s (set_phase t (Woken err) s)"
| give_up: "sf_phase s t = Waiting n \<Longrightarrow>
     flight_step wants s (set_phase t (Done (Inl e)) s)"
| woken_failed: "sf_phase s t = Woken (Some e) \<Longrightarrow>
     flight_step wants s (set_phase t (Done (Inl e)) s)"
| woken: "sf_phase s t = Woken None \<Longrightarrow>
     flight_step wants s (set_phase t (Done (case cachedBlock (wants t) s of
         Some d \<Rightarrow> Inr d | None \<Rightarrow> Inl (ErrMsg ''block fetch result missing from cache''))) s)"

definition flight_init :: "flight \<Rightarrow> bool" where
  "flight_init s \<longleftrightarrow> sf_mem s = ([], []) \<and> (\<forall>i. sf_inflight s i = None) \<and> (\<forall>n. sf_result s n = None)
     \<and> (\<forall>t. sf_phase s t = Start) \<and> (\<forall>i. sf_downloads s i = 0)"

definition flight_reach :: "(nat \<Rightarrow> int) \<Rightarrow> flight \<Rightarrow> flight \<Rightarrow> bool" where
  "flight_reach wants = (flight_step wants)\<^sup>*\<^sup>*"

text \<open>A goroutine that holds the claim recorded as \<open>n\<close>.\<close>

definition holds_claim :: "flight \<Rightarrow> nat \<Rightarrow> nat \<Rightarrow> bool" where
  "holds_claim s t n \<longleftrightarrow> sf_phase s t = Fetching n \<or> (\<exists>r. sf_phase s t = Fetched n r)"

text \<open>
  The invariant: the claim on a block is held by one goroutine that wants it, and whoever waits
  waits on a record that is still held or already published.
\<close>

definition flight_ok :: "(nat \<Rightarrow> int) \<Rightarrow> flight \<Rightarrow> bool" where
  "flight_ok wants s \<longleftrightarrow>
     mem_ok (sf_mem s)
     \<and> (\<forall>t n. holds_claim s t n \<longrightarrow> sf_inflight s (wants t) = Some n)
     \<and> (\<forall>i n. sf_inflight s i = Some n \<longrightarrow> n < sf_next s \<and> (\<exists>t. holds_claim s t n \<and> wants t = i))
     \<and> (\<forall>i j n. sf_inflight s i = Some n \<longrightarrow> sf_inflight s j = Some n \<longrightarrow> i = j)
     \<and> (\<forall>t t' n. holds_claim s t n \<longrightarrow> holds_claim s t' n \<longrightarrow> t = t')
     \<and> (\<forall>t n. sf_phase s t = Waiting n \<longrightarrow> sf_result s n \<noteq> None \<or> (\<exists>t'. holds_claim s t' n))"

lemma holds_claim_set [simp]:
  "holds_claim (set_phase t p s) t' n \<longleftrightarrow>
     (if t' = t then p = Fetching n \<or> (\<exists>r. p = Fetched n r) else holds_claim s t' n)"
  by (auto simp: holds_claim_def set_phase_def)

lemma set_phase_fields [simp]:
  "sf_mem (set_phase t p s) = sf_mem s" "sf_inflight (set_phase t p s) = sf_inflight s"
  "sf_result (set_phase t p s) = sf_result s" "sf_next (set_phase t p s) = sf_next s"
  "sf_downloads (set_phase t p s) = sf_downloads s"
  "sf_phase (set_phase t p s) t' = (if t' = t then p else sf_phase s t')"
  by (auto simp: set_phase_def)

text \<open>A goroutine that is not holding a claim and does not take one leaves the invariant alone.\<close>

lemma flight_ok_plain:
  assumes "flight_ok wants s" "\<And>n. \<not> holds_claim s t n"
    and "\<And>n. p \<noteq> Fetching n" "\<And>n r. p \<noteq> Fetched n r"
    and "\<And>n. p = Waiting n \<Longrightarrow> sf_result s n \<noteq> None \<or> (\<exists>t'. holds_claim s t' n)"
  shows "flight_ok wants (set_phase t p s)"
  using assms unfolding flight_ok_def by (auto split: if_splits) metis+

lemma flight_ok_same:
  assumes "flight_ok wants s" "holds_claim s' = holds_claim s"
    and "sf_inflight s' = sf_inflight s" "sf_result s' = sf_result s" "sf_next s' = sf_next s"
    and "mem_ok (sf_mem s')" "\<And>t n. sf_phase s' t = Waiting n \<Longrightarrow> sf_phase s t = Waiting n"
  shows "flight_ok wants s'"
proof -
  have w: "\<forall>t n. sf_phase s' t = Waiting n \<longrightarrow> sf_phase s t = Waiting n" using assms(7) by blast
  show ?thesis using assms(1,6) w unfolding flight_ok_def assms(2-5) by blast
qed

lemma holds_claim_unique: "holds_claim s t n \<Longrightarrow> holds_claim s t m \<Longrightarrow> m = n"
  by (auto simp: holds_claim_def)

lemma flight_step_ok:
  "flight_step wants s s' \<Longrightarrow> flight_ok wants s \<Longrightarrow> flight_ok wants s'"
proof (induction rule: flight_step.induct)
  case (hit s t d)
  then show ?case by (intro flight_ok_plain) (auto simp: holds_claim_def)
next
  case (miss s t)
  then show ?case by (intro flight_ok_plain) (auto simp: holds_claim_def)
next
  case (claim s t s' n won)
  show ?case
  proof (cases won)
    case True
    then have s': "s' = s\<lparr>sf_inflight := (sf_inflight s)(wants t \<mapsto> sf_next s), sf_next := Suc (sf_next s)\<rparr>"
      and n: "n = sf_next s" and free: "sf_inflight s (wants t) = None"
      using claim by (auto simp: claimBlock_def split: option.splits)
    have hc: "holds_claim s' = holds_claim s" by (simp add: s' holds_claim_def fun_eq_iff)
    have nt: "\<not> holds_claim s t m" for m using claim by (simp add: holds_claim_def)
    have lt: "holds_claim s u m \<Longrightarrow> m < sf_next s" for u m using claim(3) unfolding flight_ok_def by blast
    have other: "holds_claim s u m \<Longrightarrow> wants u \<noteq> wants t" for u m
      using claim(3) free unfolding flight_ok_def by (metis option.distinct(1))
    note ok = claim(3) [unfolded flight_ok_def]
    show ?thesis
      unfolding flight_ok_def using True n s' hc nt lt other ok free
      by (intro conjI allI impI)
        (auto split: if_splits dest: less_not_refl2, (metis less_SucI nt)+)
  next
    case False
    then have "s' = s" "sf_inflight s (wants t) = Some n"
      using claim by (auto simp: claimBlock_def split: option.splits)
    moreover have "\<exists>t'. holds_claim s t' n" using claim(3) calculation unfolding flight_ok_def by blast
    moreover have "\<not> holds_claim s t m" for m using claim by (simp add: holds_claim_def)
    ultimately show ?thesis using claim False
      by simp (rule flight_ok_plain, simp_all)
  qed
next
  case (fetch_ok s t n d)
  then show ?case
    by (intro flight_ok_same [OF fetch_ok(2)])
      (auto simp: holds_claim_def set_phase_def fun_eq_iff flight_ok_def intro: cachePut_ok split: if_splits)
next
  case (fetch_failed s t n e)
  then show ?case
    by (intro flight_ok_same [OF fetch_failed(2)])
      (auto simp: holds_claim_def set_phase_def fun_eq_iff flight_ok_def split: if_splits)
next
  case (release s t n r)
  note ok = release(2) [unfolded flight_ok_def]
  let ?s' = "set_phase t (Done r) (releaseBlock (wants t) n (err_of r) s)"
  have t: "holds_claim s t n" using release by (simp add: holds_claim_def)
  have hold: "holds_claim ?s' u m \<longleftrightarrow> u \<noteq> t \<and> holds_claim s u m" for u m
    by (simp add: holds_claim_def releaseBlock_def)
  have inf: "sf_inflight ?s' i = (if i = wants t then None else sf_inflight s i)" for i
    by (simp add: releaseBlock_def)
  have other: "wants u \<noteq> wants t" if "holds_claim s u m" "u \<noteq> t" for u m
  proof
    assume "wants u = wants t"
    then have "m = n" using ok t that by (metis option.inject)
    then show False using ok t that by blast
  qed
  have res: "sf_result ?s' m = (if m = n then Some (err_of r) else sf_result s m)" for m
    by (simp add: releaseBlock_def)
  show ?case
    unfolding flight_ok_def hold inf res
  proof (intro conjI allI impI, goal_cases)
    case 1
    then show ?case using ok by (simp add: releaseBlock_def)
  next
    case (2 u m)
    then show ?case using ok other [of u m] by simp
  next
    case (3 i m)
    then show ?case using ok by (simp add: releaseBlock_def split: if_splits)
  next
    case (4 i m)
    then show ?case using ok by (metis option.distinct(1))
  next
    case (5 i j m)
    then show ?case using ok by (metis option.distinct(1))
  next
    case (6 u u' m)
    then show ?case using ok by blast
  next
    case (7 u m)
    then have "sf_phase s u = Waiting m" by (simp add: releaseBlock_def split: if_splits)
    then show ?case using ok t by (metis holds_claim_unique option.distinct(1))
  qed
next
  case (wake s t n err)
  then show ?case by (intro flight_ok_plain) (auto simp: holds_claim_def)
next
  case (give_up s t n e)
  then show ?case by (intro flight_ok_plain) (auto simp: holds_claim_def)
next
  case (woken_failed s t e)
  then show ?case by (intro flight_ok_plain) (auto simp: holds_claim_def)
next
  case (woken s t)
  then show ?case by (intro flight_ok_plain) (auto simp: holds_claim_def)
qed

lemma flight_init_ok: "flight_init s \<Longrightarrow> flight_ok wants s"
  by (simp add: flight_init_def flight_ok_def mem_ok_def holds_claim_def)

interpretation flight_runs: kept_invariant "flight_step wants" "flight_ok wants" for wants
  by unfold_locales (rule flight_step_ok)

lemmas flight_reach_ok = flight_runs.along [folded flight_reach_def]

lemma reach_step: "flight_step wants s s1 \<Longrightarrow> flight_reach wants s1 s2 \<Longrightarrow> flight_reach wants s s2"
  unfolding flight_reach_def by (rule converse_rtranclp_into_rtranclp)

lemma reach_refl: "flight_reach wants s s"
  by (simp add: flight_reach_def)

section \<open>Properties\<close>


definition flight0 :: flight where
  "flight0 = \<lparr>sf_mem = ([], []), sf_inflight = (\<lambda>_. None), sf_result = (\<lambda>_. None), sf_next = 0,
              sf_phase = (\<lambda>_. Start), sf_downloads = (\<lambda>_. 0)\<rparr>"

lemma flight0_init: "flight_init flight0"
  by (simp add: flight0_def flight_init_def)


text \<open>
  A whole fetch by goroutine \<open>t\<close> alone, from a miss to the publication, as one path.
\<close>

definition after_fetch :: "(nat \<Rightarrow> int) \<Rightarrow> nat \<Rightarrow> bytes \<Rightarrow> flight \<Rightarrow> flight" where
  "after_fetch wants t d s =
     s\<lparr>sf_mem := cachePut (wants t) d (sf_mem s), sf_result := (sf_result s)(sf_next s \<mapsto> None),
       sf_next := Suc (sf_next s), sf_phase := (sf_phase s)(t := Done (Inr d)),
       sf_downloads := (sf_downloads s)(wants t := Suc (sf_downloads s (wants t)))\<rparr>"

lemma fetch_path:
  assumes "sf_phase s t = Missed" "sf_inflight s (wants t) = None"
  shows "flight_reach wants s (after_fetch wants t d s)"
proof -
  let ?n = "sf_next s"
  let ?s1 = "set_phase t (Fetching ?n) (s\<lparr>sf_inflight := (sf_inflight s)(wants t \<mapsto> ?n), sf_next := Suc ?n\<rparr>)"
  let ?s2 = "set_phase t (Fetched ?n (Inr d)) (?s1\<lparr>sf_mem := cachePut (wants t) d (sf_mem ?s1),
          sf_downloads := (sf_downloads ?s1)(wants t := Suc (sf_downloads ?s1 (wants t)))\<rparr>)"
  let ?s3 = "set_phase t (Done (Inr d)) (releaseBlock (wants t) ?n (err_of (Inr d)) ?s2)"
  have 1: "flight_step wants s ?s1"
    using flight_step.claim [of s t wants "s\<lparr>sf_inflight := (sf_inflight s)(wants t \<mapsto> ?n), sf_next := Suc ?n\<rparr>" ?n True]
      assms by (simp add: claimBlock_def)
  have 2: "flight_step wants ?s1 ?s2"
    by (rule flight_step.fetch_ok) simp
  have 3: "flight_step wants ?s2 ?s3"
    by (rule flight_step.release) simp
  have "?s3 = after_fetch wants t d s"
    using assms(2) by (simp add: after_fetch_def set_phase_def releaseBlock_def err_of_def fun_upd_idem)
  then show ?thesis using reach_step [OF 1 reach_step [OF 2 reach_step [OF 3 reach_refl]]] by simp
qed

lemma miss_path: "sf_phase s t = Start \<Longrightarrow> cachedBlock (wants t) s = None \<Longrightarrow>
    flight_reach wants (set_phase t Missed s) s' \<Longrightarrow> flight_reach wants s s'"
  using reach_step [OF flight_step.miss] by blast

lemma flight_reach_trans: "flight_reach wants a b \<Longrightarrow> flight_reach wants b c \<Longrightarrow> flight_reach wants a c"
  by (simp add: flight_reach_def)

lemma after_fetch_fields [simp]:
  "sf_inflight (after_fetch wants t d s) = sf_inflight s"
  "sf_phase (after_fetch wants t d s) u = (if u = t then Done (Inr d) else sf_phase s u)"
  by (simp_all add: after_fetch_def)

lemma fetches_path:
  "distinct ts \<Longrightarrow> (\<And>t. t \<in> set ts \<Longrightarrow> sf_phase s t = Missed \<and> sf_inflight s (wants t) = None) \<Longrightarrow>
     flight_reach wants s (foldl (\<lambda>s t. after_fetch wants t d s) s ts)"
proof (induction ts arbitrary: s)
  case (Cons t ts)
  have 1: "flight_reach wants s (after_fetch wants t d s)"
    using Cons.prems by (intro fetch_path) auto
  have 2: "flight_reach wants (after_fetch wants t d s)
      (foldl (\<lambda>s t. after_fetch wants t d s) (after_fetch wants t d s) ts)"
    using Cons.prems by (intro Cons.IH) auto
  show ?case using flight_reach_trans [OF 1 2] by simp
qed (simp add: reach_refl)

text \<open>A block can be downloaded twice although the first download succeeded and is still cached:
  a goroutine that missed the cache before the first fetch was published claims the block after.\<close>

theorem double_download:
  "\<exists>s'. flight_reach (\<lambda>_. 7) flight0 s' \<and> sf_downloads s' 7 = 2"
proof -
  let ?w = "\<lambda>_::nat. 7::int"
  let ?s = "set_phase 1 Missed (set_phase 0 Missed flight0)"
  let ?s1 = "after_fetch ?w 0 [1] ?s"
  have "flight_reach ?w ?s ?s1"
    by (rule fetch_path) (simp_all add: flight0_def)
  moreover have "flight_reach ?w ?s1 (after_fetch ?w 1 [1] ?s1)"
    by (rule fetch_path) (simp_all add: flight0_def after_fetch_def set_phase_def)
  ultimately have "flight_reach ?w ?s (after_fetch ?w 1 [1] ?s1)"
    by (rule flight_reach_trans)
  then have "flight_reach ?w flight0 (after_fetch ?w 1 [1] ?s1)"
    by (intro miss_path [of flight0 0] miss_path [of "set_phase 0 Missed flight0" 1])
      (simp_all add: flight0_def cachedBlock_def)
  moreover have "sf_downloads (after_fetch ?w 1 [1] ?s1) 7 = 2"
    by (simp add: after_fetch_def flight0_def set_phase_def)
  ultimately show ?thesis by blast
qed

fun all_missed :: "nat \<Rightarrow> flight" where
  "all_missed 0 = flight0"
| "all_missed (Suc n) = set_phase n Missed (all_missed n)"

lemma all_missed_path:
  "flight_reach wants flight0 (all_missed n) \<and> sf_mem (all_missed n) = ([], [])
     \<and> (\<forall>t\<ge>n. sf_phase (all_missed n) t = Start)"
proof (induction n)
  case 0
  then show ?case by (simp add: reach_refl flight0_def)
next
  case (Suc n)
  have "flight_step wants (all_missed n) (all_missed (Suc n))"
    unfolding all_missed.simps by (rule flight_step.miss) (use Suc in \<open>simp_all add: cachedBlock_def\<close>)
  then show ?case using Suc reach_step [OF _ reach_refl] flight_reach_trans by (auto simp: Suc_le_eq)
qed

text \<open>A waiter can be told that its block is missing although the fetch it waited for succeeded:
  four other blocks fetched before it wakes push its block out of the four-block cache.\<close>

theorem waiter_finds_block_evicted:
  "\<exists>s'. flight_reach (\<lambda>t. if t \<le> 1 then 1 else int t) flight0 s'
     \<and> sf_result s' 0 = Some None
     \<and> sf_phase s' 1 = Done (Inl (ErrMsg ''block fetch result missing from cache''))"
proof -
  let ?w = "\<lambda>t::nat. if t \<le> 1 then 1 else int t"
  let ?m = "\<lambda>t s. set_phase t Missed s"
  let ?a = "?m 5 (?m 4 (?m 3 (?m 2 (?m 1 (?m 0 flight0)))))"
  let ?b = "set_phase 0 (Fetching 0) (?a\<lparr>sf_inflight := (sf_inflight ?a)(1 \<mapsto> 0), sf_next := 1\<rparr>)"
  let ?c = "set_phase 1 (Waiting 0) ?b"
  let ?d = "set_phase 0 (Fetched 0 (Inr [1])) (?c\<lparr>sf_mem := cachePut 1 [1] (sf_mem ?c),
              sf_downloads := (sf_downloads ?c)(1 := 1)\<rparr>)"
  let ?e = "set_phase 0 (Done (Inr [1])) (releaseBlock 1 0 None ?d)"
  let ?f = "\<lambda>t s. after_fetch ?w t [9] s"
  let ?g = "?f 5 (?f 4 (?f 3 (?f 2 ?e)))"
  let ?h = "set_phase 1 (Woken None) ?g"
  let ?z = "set_phase 1 (Done (Inl (ErrMsg ''block fetch result missing from cache''))) ?h"
  have ab: "flight_step ?w ?a ?b"
    using flight_step.claim [of ?a 0 ?w "?a\<lparr>sf_inflight := (sf_inflight ?a)(1 \<mapsto> 0), sf_next := 1\<rparr>" 0 True]
    by (simp add: claimBlock_def flight0_def)
  have bc: "flight_step ?w ?b ?c"
    using flight_step.claim [of ?b 1 ?w ?b 0 False] by (simp add: claimBlock_def)
  have cd: "flight_step ?w ?c ?d"
    using flight_step.fetch_ok [of ?c 0 0 ?w "[1]"] by (simp add: flight0_def)
  have de: "flight_step ?w ?d ?e"
    using flight_step.release [of ?d 0 0 "Inr [1]" ?w] by (simp add: err_of_def)
  have gh: "flight_step ?w ?g ?h"
    by (rule flight_step.wake [where n = 0])
      (simp_all add: after_fetch_def set_phase_def releaseBlock_def flight0_def)
  have mem: "cachedBlock 1 ?h = None"
    by (simp add: cachedBlock_def after_fetch_def set_phase_def releaseBlock_def flight0_def cachePut_def
        maxCachedBlocks_def)
  have hz: "flight_step ?w ?h ?z"
    using flight_step.woken [of ?h 1 ?w] mem by simp
  have "flight_reach ?w ?e (foldl (\<lambda>s t. after_fetch ?w t [9] s) ?e [2, 3, 4, 5])"
    by (rule fetches_path) (auto simp: releaseBlock_def flight0_def)
  then have eg: "flight_reach ?w ?e ?g" by simp
  have az: "flight_reach ?w ?a ?z"
    using reach_step [OF ab reach_step [OF bc reach_step [OF cd reach_step [OF de
        flight_reach_trans [OF eg reach_step [OF gh reach_step [OF hz reach_refl]]]]]]] .
  have a6: "?a = all_missed 6" by (simp add: eval_nat_numeral)
  have "flight_reach ?w flight0 ?a" unfolding a6 using all_missed_path [of ?w 6] by (rule conjunct1)
  then have "flight_reach ?w flight0 ?z" using az by (rule flight_reach_trans)
  moreover have "sf_result ?z 0 = Some None"
    by (simp add: after_fetch_def set_phase_def releaseBlock_def flight0_def)
  moreover have "sf_phase ?z 1 = Done (Inl (ErrMsg ''block fetch result missing from cache''))" by simp
  ultimately show ?thesis by blast
qed

end
