(* ===== verification/Mount_State.thy ===== *)
theory Mount_State
  imports Drive_Node Activity Http_Retry
begin

text \<open>
  The mount's own policy and bookkeeping (internal/fusefs/fusefs.go): option defaults, the
  exclusion and upload-delay rules, the upload semaphore and progress counters, the ring of
  finished transfers, the published status, the watchdog's thresholds and the errno mapping of a
  failed open. Matching a glob (\<open>filepath.Match\<close>), compiling a regular expression and parsing a
  duration are the standard library's: parameters collected in \<open>patterns\<close>.
\<close>

section \<open>Options\<close>

record options =
  op_ttl :: nanos
  op_poll :: nanos
  op_opTimeout :: nanos
  op_metaTimeout :: nanos
  op_maxUploads :: int
  op_exclude :: "string list"
  op_uploadDelay :: nanos
  op_uploadDelays :: "string list"
  op_denyReaders :: "string list"

definition defaultOpTimeout :: nanos where "defaultOpTimeout = seconds 60"

definition defaultMetaTimeout :: nanos where "defaultMetaTimeout = seconds 10"

definition failedLoadCooldown :: nanos where "failedLoadCooldown = seconds 5"

definition defaultMaxUploads :: int where "defaultMaxUploads = 5"

text \<open>The defaults \<open>Mount\<close> fills in before anything else runs.\<close>

definition mount_defaults :: "options \<Rightarrow> options" where
  "mount_defaults opts =
     opts\<lparr>op_ttl := (if op_ttl opts \<le> 0 then seconds 30 else op_ttl opts),
       op_poll := (if op_poll opts \<le> 0 then seconds 10 else op_poll opts),
       op_opTimeout := (if op_opTimeout opts \<le> 0 then defaultOpTimeout else op_opTimeout opts),
       op_metaTimeout := (if op_metaTimeout opts \<le> 0 then defaultMetaTimeout else op_metaTimeout opts),
       op_maxUploads := (if op_maxUploads opts \<le> 0 then defaultMaxUploads else op_maxUploads opts)\<rparr>"

section \<open>Excluded names and upload delays\<close>

record patterns =
  pt_glob :: "string \<Rightarrow> string \<Rightarrow> bool"
  pt_compile :: "string \<Rightarrow> (string \<Rightarrow> bool) option"
  pt_duration :: "string \<Rightarrow> nanos option"

definition matcher_of :: "patterns \<Rightarrow> string \<Rightarrow> (string \<Rightarrow> bool) option" where
  "matcher_of pt p = (if prefix ''re:'' p then pt_compile pt (drop 3 p) else Some (pt_glob pt p))"

definition parseExcludes :: "patterns \<Rightarrow> string list \<Rightarrow> (string \<Rightarrow> bool) list" where
  "parseExcludes pt ps = List.map_filter (matcher_of pt) ps"

definition excluded :: "(string \<Rightarrow> bool) list \<Rightarrow> string \<Rightarrow> bool" where
  "excluded ms name \<longleftrightarrow> list_ex (\<lambda>m. m name) ms"

type_synonym delayRule = "(string \<Rightarrow> bool) \<times> nanos"

definition parse_delay_rule :: "patterns \<Rightarrow> string \<Rightarrow> delayRule option" where
  "parse_delay_rule pt r =
     (case cut_last (CHR ''='') r of
        None \<Rightarrow> None
      | Some (pat, dur) \<Rightarrow>
          if pat = [] then None
          else (case pt_duration pt dur of
                  None \<Rightarrow> None
                | Some delay \<Rightarrow>
                    (case parseExcludes pt [pat] of [] \<Rightarrow> None | m # ms \<Rightarrow> Some (m, delay))))"

definition parseDelayRules :: "patterns \<Rightarrow> string list \<Rightarrow> delayRule list" where
  "parseDelayRules pt rules = List.map_filter (parse_delay_rule pt) rules"

definition delayFor :: "delayRule list \<Rightarrow> nanos \<Rightarrow> string \<Rightarrow> nanos" where
  "delayFor rules uploadDelay name =
     (case List.find (\<lambda>(m, d). m name) rules of Some (m, d) \<Rightarrow> d | None \<Rightarrow> uploadDelay)"

lemma map_filter_Cons:
  "List.map_filter f (x # xs) = (case f x of None \<Rightarrow> List.map_filter f xs | Some y \<Rightarrow> y # List.map_filter f xs)"
  by (simp add: List.map_filter_def split: option.split)

lemma map_filter_append: "List.map_filter f (xs @ ys) = List.map_filter f xs @ List.map_filter f ys"
  by (simp add: List.map_filter_def)

text \<open>A rule splits at its last equals sign, so a pattern may hold one itself.\<close>

lemma parse_delay_rule_last_eq:
  assumes "CHR ''='' \<notin> set dur" "pat \<noteq> []" "pt_duration pt dur = Some d" "matcher_of pt pat = Some m"
  shows "parse_delay_rule pt (pat @ CHR ''='' # dur) = Some (m, d)"
  using assms by (simp add: parse_delay_rule_def cut_last_append parseExcludes_def List.map_filter_def)

lemma delayFor_first_match:
  assumes "\<forall>r\<in>set before. \<not> fst r name" "m name"
  shows "delayFor (before @ (m, d) # after) dflt name = d"
  using assms by (induction before) (auto simp: delayFor_def)

section \<open>The upload semaphore\<close>

text \<open>A buffered channel: its capacity and how many slots are taken; \<open>None\<close> is the nil semaphore
  that lets everything through.\<close>

type_synonym sem = "(nat \<times> nat) option"

definition newSem :: "int \<Rightarrow> sem" where
  "newSem n = (if n \<le> 0 then None else Some (nat n, 0))"

text \<open>\<open>acquire\<close> as its two ready branches: a slot, when one is free, or the context's end.\<close>

definition sem_free :: "sem \<Rightarrow> bool" where
  "sem_free s = (case s of None \<Rightarrow> True | Some (cap, used) \<Rightarrow> used < cap)"

definition sem_acquire :: "sem \<Rightarrow> sem" where
  "sem_acquire s = map_option (\<lambda>(cap, used). (cap, Suc used)) s"

definition sem_release :: "sem \<Rightarrow> sem" where
  "sem_release s = map_option (\<lambda>(cap, used). (cap, used - 1)) s"

lemma sem_release_acquire [simp]: "sem_release (sem_acquire s) = s"
  by (cases s) (auto simp: sem_release_def sem_acquire_def)

section \<open>Progress counters\<close>

record counters =
  cn_queued :: int
  cn_done :: int
  cn_failed :: int
  cn_drainedAt :: nanos

definition counterResetIdle :: nanos where "counterResetIdle = seconds 30"

definition uploadCounters :: "nanos \<Rightarrow> counters \<Rightarrow> counters \<times> int \<times> int \<times> int" where
  "uploadCounters now c =
     (let q = cn_queued c; d = cn_done c; f = cn_failed c
      in if q = 0 \<or> d + f < q then (c\<lparr>cn_drainedAt := 0\<rparr>, q, d, f)
         else if cn_drainedAt c = 0 then (c\<lparr>cn_drainedAt := now\<rparr>, q, d, f)
         else if now - cn_drainedAt c < counterResetIdle then (c, q, d, f)
         else (c\<lparr>cn_queued := cn_queued c - q, cn_done := cn_done c - d, cn_failed := cn_failed c - f,
                cn_drainedAt := 0\<rparr>, 0, 0, 0))"

text \<open>What stays true however uploads and the publisher interleave: as many finished as were queued
  at most, and counters never negative.\<close>

definition counters_ok :: "nat \<Rightarrow> counters \<Rightarrow> bool" where
  "counters_ok running c \<longleftrightarrow>
     0 \<le> cn_done c \<and> 0 \<le> cn_failed c \<and> cn_queued c = cn_done c + cn_failed c + int running"

lemma uploadCounters_ok: "counters_ok n c \<Longrightarrow> counters_ok n (fst (uploadCounters now c))"
  by (auto simp: uploadCounters_def counters_ok_def Let_def)

lemma uploadCounters_reset_only_idle:
  "counters_ok n c \<Longrightarrow> snd (uploadCounters now c) \<noteq> (cn_queued c, cn_done c, cn_failed c) \<Longrightarrow>
     n = 0 \<and> cn_drainedAt c \<noteq> 0 \<and> cn_drainedAt c + counterResetIdle \<le> now"
  by (auto simp: uploadCounters_def counters_ok_def Let_def split: if_splits)

section \<open>Finished transfers and the status snapshot\<close>

record recentTransfer =
  rt_path :: string
  rt_action :: string
  rt_status :: string
  rt_bytes :: int
  rt_finished :: nanos
  rt_err :: string

definition recentCap :: nat where "recentCap = 50"

definition recordFinished :: "recentTransfer \<Rightarrow> recentTransfer list \<Rightarrow> recentTransfer list" where
  "recordFinished rt recent = take_last recentCap (recent @ [rt])"

definition recentTransfers :: "recentTransfer list \<Rightarrow> recentTransfer list" where
  "recentTransfers recent = rev recent"

lemma recordFinished_fold:
  "foldl (\<lambda>r t. recordFinished t r) (take_last recentCap r) ts = take_last recentCap (r @ ts)"
proof (induction ts arbitrary: r)
  case (Cons t ts)
  have "recordFinished t (take_last recentCap r) = take_last recentCap (r @ [t])"
    by (simp add: recordFinished_def take_last_snoc recentCap_def)
  then show ?case using Cons.IH [of "r @ [t]"] by simp
qed simp

record status =
  ss_mountpoint :: string
  ss_version :: string
  ss_pid :: int
  ss_transfers :: int
  ss_paused :: bool
  ss_updated :: int
  ss_queued :: int
  ss_done :: int
  ss_failed :: int
  ss_current :: "(string \<times> string \<times> int \<times> int \<times> int) list"
  ss_recent :: "(string \<times> string \<times> string \<times> int \<times> int \<times> string) list"

definition unix_seconds :: "nanos \<Rightarrow> int" where
  "unix_seconds t = t div seconds 1"

definition buildStatus ::
    "nanos \<Rightarrow> string \<Rightarrow> string \<Rightarrow> int \<Rightarrow> bool \<Rightarrow> activity \<Rightarrow> recentTransfer list \<Rightarrow> counters \<Rightarrow> counters \<times> status" where
  "buildStatus now mountpoint version pid paused act recent c =
     (let (c', queued, finished, failed) = uploadCounters now c
      in (c', \<lparr>ss_mountpoint = mountpoint, ss_version = version, ss_pid = pid, ss_transfers = Transfers act,
               ss_paused = paused, ss_updated = 0, ss_queued = queued, ss_done = finished, ss_failed = failed,
               ss_current = map (\<lambda>t. (tr_path t, tr_action t, ac_bytes act (tr_id t), tr_total t,
                                       unix_seconds (tr_started t))) (CurrentTransfers act),
               ss_recent = map (\<lambda>t. (rt_path t, rt_action t, rt_status t, rt_bytes t, unix_seconds (rt_finished t), rt_err t))
                             (recentTransfers recent)\<rparr>))"

text \<open>The publisher writes only what changed since the last write; \<open>Updated\<close> is left out of the
  comparison.\<close>

definition publish_tick :: "nanos \<Rightarrow> status \<Rightarrow> status \<Rightarrow> status \<times> status option" where
  "publish_tick now prev current =
     (if current \<noteq> prev then (current, Some (current\<lparr>ss_updated := unix_seconds now\<rparr>)) else (prev, None))"

section \<open>Mount table, watchdog and errno mapping\<close>

definition isMounted :: "string option \<Rightarrow> string \<Rightarrow> bool" where
  "isMounted procMounts target =
     (case procMounts of
        None \<Rightarrow> False
      | Some dat \<Rightarrow>
          list_ex (\<lambda>line. 2 \<le> length (fields_of line) \<and> fields_of line ! 1 = target)
            (split_on (char_of (10::nat)) dat))"

text \<open>The kernel writes a space in a mount path as an escape, so a field never holds one and a
  mountpoint with a space in its path is never found.\<close>

lemma isMounted_space: "c \<in> set target \<Longrightarrow> is_space c \<Longrightarrow> \<not> isMounted mounts target"
  using fields_of_parts [of target]
  by (auto simp: isMounted_def list_ex_iff split: option.splits) (metis fields_of_parts nth_mem Suc_le_eq numeral_2_eq_2)

definition fusermountBinary :: "(string \<Rightarrow> bool) \<Rightarrow> string" where
  "fusermountBinary onPath = (if onPath ''fusermount3'' then ''fusermount3'' else ''fusermount'')"

definition displayPath :: "string \<Rightarrow> string" where
  "displayPath p = (if p = [] then ''/'' else p)"

definition metaOps :: "string set" where
  "metaOps = {''readdir'', ''mkdir'', ''remove'', ''rename''}"

definition staleThreshold :: "string \<Rightarrow> nanos \<Rightarrow> nanos \<Rightarrow> nanos" where
  "staleThreshold op opTimeout metaTimeout = (if op \<in> metaOps then 2 * metaTimeout else 2 * opTimeout)"

record inflightOp =
  io_op :: string
  io_path :: string
  io_started :: nanos

text \<open>\<open>track\<close> registers an operation under a fresh key and hands back its removal.\<close>

definition track :: "string \<Rightarrow> string \<Rightarrow> nanos \<Rightarrow> (nat \<times> inflightOp) list \<times> nat \<Rightarrow> ((nat \<times> inflightOp) list \<times> nat) \<times> nat" where
  "track op path now s =
     (case s of (ops, k) \<Rightarrow> (((k, \<lparr>io_op = op, io_path = path, io_started = now\<rparr>) # ops, Suc k), k))"

definition untrack :: "nat \<Rightarrow> (nat \<times> inflightOp) list \<times> nat \<Rightarrow> (nat \<times> inflightOp) list \<times> nat" where
  "untrack key s = (case s of (ops, k) \<Rightarrow> (filter (\<lambda>(j, e). j \<noteq> key) ops, k))"

definition logStuckOps :: "nanos \<Rightarrow> nanos \<Rightarrow> nanos \<Rightarrow> (nat \<times> inflightOp) list \<Rightarrow> inflightOp list" where
  "logStuckOps now opTimeout metaTimeout ops =
     filter (\<lambda>e. staleThreshold (io_op e) opTimeout metaTimeout < now - io_started e) (map snd ops)"

text \<open>The errno of a failed open, and whether the parent's listing is expired with it.\<close>

definition openErrno :: "go_error \<Rightarrow> bool \<Rightarrow> errno \<times> bool" where
  "openErrno err timed_out =
     (if isNotFound err then (ENOENT, True) else if timed_out then (ETIMEDOUT, False) else (EIO, False))"

definition uploadTimeout :: "int \<Rightarrow> nanos \<Rightarrow> nanos" where
  "uploadTimeout nbytes base =
     (if nbytes \<le> 0 then base
      else let perByte = wrap64 ((nbytes div (256 * 1024)) * seconds 1)
           in if base < perByte then perByte else base)"

lemma uploadTimeout_at_least_base: "base \<le> uploadTimeout n base"
  by (simp add: uploadTimeout_def Let_def)

text \<open>The FNV-1a hash that makes an inode number out of a link identifier.\<close>

definition inodeNum :: "string \<Rightarrow> 64 word" where
  "inodeNum linkID =
     foldl (\<lambda>h c. xor h (of_nat (of_char c)) * 0x100000001b3) 0xcbf29ce484222325 linkID"

definition parentsToInvalidate :: "string \<Rightarrow> string \<Rightarrow> string list" where
  "parentsToInvalidate newParent oldParent =
     (if newParent \<noteq> [] then [newParent] else [])
     @ (if oldParent \<noteq> [] \<and> oldParent \<noteq> newParent then [oldParent] else [])"

lemma parentsToInvalidate_set:
  "set (parentsToInvalidate n o') = {n, o'} - {[]} \<and> distinct (parentsToInvalidate n o')"
  by (auto simp: parentsToInvalidate_def)

text \<open>Trash folders are top-level directories whose name starts with \<open>.Trash\<close>.\<close>

definition inTrash :: "string \<Rightarrow> bool" where
  "inTrash rel =
     prefix ''.Trash'' (case cut_at slash rel of None \<Rightarrow> rel | Some (a, b) \<Rightarrow> a)"

end
