(* ===== verification/Dir_Listing.thy ===== *)
theory Dir_Listing
  imports Mount_State
begin

text \<open>
  A directory's cached listing (internal/fusefs/fusefs.go, \<open>dirNode\<close>): expiry, the one fetch in
  flight everybody waits on, the stale-over-blocking rule, the handlers' patches and the coalesced
  writes of the listing to disk. Each definition is one critical section of the code (a stretch under
  \<open>d.mu\<close>), so that \<open>Listing_Steps\<close> can interleave them; \<open>load\<close> and \<open>finishLoad\<close> compose them in program
  order. A zero \<open>time.Time\<close> is \<open>None\<close>, a nil slice is \<open>None\<close>, a channel is the number of the fetch
  that closes it.
\<close>

section \<open>State\<close>

record dir =
  dn_node :: node
  dn_ttl :: nanos
  dn_children :: "node list option"
  dn_expires :: "nanos option"
  dn_gen :: nat
  dn_loading :: "nat option"
  dn_fetches :: nat
  dn_loadErrno :: errno
  dn_persistedGen :: nat
  dn_timer :: bool
  dn_notifying :: bool
  dn_lastWarned :: nanos

text \<open>A \<open>dirNode\<close> as \<open>makeChild\<close> and \<open>Mount\<close> build it.\<close>

definition new_dir :: "node \<Rightarrow> nanos \<Rightarrow> dir" where
  "new_dir n ttl =
     \<lparr>dn_node = n, dn_ttl = ttl, dn_children = None, dn_expires = None, dn_gen = 0, dn_loading = None,
      dn_fetches = 0, dn_loadErrno = OK, dn_persistedGen = 0, dn_timer = False, dn_notifying = False,
      dn_lastWarned = 0\<rparr>"

definition dir_setNode :: "node \<Rightarrow> dir \<Rightarrow> dir" where
  "dir_setNode n d = d\<lparr>dn_node := n\<rparr>"

definition linkID :: "dir \<Rightarrow> string" where
  "linkID d = lk_id (nd_link (dn_node d))"

definition listing :: "dir \<Rightarrow> node list option" where
  "listing d = dn_children d"

definition expire :: "dir \<Rightarrow> dir" where
  "expire d = d\<lparr>dn_expires := None\<rparr>"

text \<open>\<open>invalidate\<close> also names the entries a background pass notifies the kernel about, unless one is
  already running.\<close>

definition invalidate :: "dir \<Rightarrow> dir \<times> string list option" where
  "invalidate d =
     (let d1 = expire d
      in if dn_notifying d1 then (d1, None)
         else (d1\<lparr>dn_notifying := True\<rparr>, Some (map nd_name (case dn_children d1 of None \<Rightarrow> [] | Some cs \<Rightarrow> cs))))"

definition notifyEntries :: "dir \<Rightarrow> dir" where
  "notifyEntries d = d\<lparr>dn_notifying := False\<rparr>"

section \<open>Serving stale\<close>

datatype staleDecision = ServeStale | FailRateLimited | FailRefresh

definition decideStale :: "bool \<Rightarrow> bool \<Rightarrow> bool \<Rightarrow> staleDecision" where
  "decideStale hasCached refreshFailed limited =
     (if hasCached \<and> (refreshFailed \<or> limited) then ServeStale
      else if limited then FailRateLimited else FailRefresh)"

definition logOncePerMinute :: "nanos \<Rightarrow> dir \<Rightarrow> dir \<times> bool" where
  "logOncePerMinute now d =
     (if dn_lastWarned d \<noteq> 0 \<and> now - dn_lastWarned d < minutes 1 then (d, False)
      else (d\<lparr>dn_lastWarned := now\<rparr>, True))"

definition fresh :: "nanos \<Rightarrow> dir \<Rightarrow> bool" where
  "fresh now d \<longleftrightarrow> dn_children d \<noteq> None \<and> (case dn_expires d of None \<Rightarrow> False | Some e \<Rightarrow> now < e)"

definition loadResult :: "nanos \<Rightarrow> dir \<Rightarrow> dir \<times> node list option \<times> errno" where
  "loadResult now d =
     (if fresh now d then (d, dn_children d, OK)
      else if decideStale (dn_children d \<noteq> None) (dn_loadErrno d \<noteq> OK) False = ServeStale
           then (fst (logOncePerMinute now d), dn_children d, OK)
           else (d, None, dn_loadErrno d))"

section \<open>One fetch at a time\<close>

datatype begin_load = Cached "node list" | Own nat | WaitFor nat

definition open_fetch :: "dir \<Rightarrow> dir" where
  "open_fetch d = d\<lparr>dn_loading := Some (dn_fetches d), dn_fetches := Suc (dn_fetches d)\<rparr>"

definition beginLoad :: "nanos \<Rightarrow> dir \<Rightarrow> dir \<times> begin_load" where
  "beginLoad now d =
     (if fresh now d then (d, Cached (the (dn_children d)))
      else case dn_loading d of
             Some k \<Rightarrow> (d, WaitFor k)
           | None \<Rightarrow> (open_fetch d, Own (dn_fetches d)))"

text \<open>The cold start: the check before the disk is read, and what is published after, unless a real
  fetch got there first.\<close>

definition disk_cold :: "dir \<Rightarrow> bool" where
  "disk_cold d \<longleftrightarrow> dn_children d = None \<and> dn_loading d = None"

definition disk_publish :: "node list \<Rightarrow> dir \<Rightarrow> dir \<times> nat option" where
  "disk_publish cs d =
     (if disk_cold d
      then (open_fetch (d\<lparr>dn_children := Some cs, dn_expires := None\<rparr>), Some (dn_fetches d))
      else (d, None))"

definition serveFromDiskCache :: "node list option \<Rightarrow> dir \<Rightarrow> dir \<times> nat option \<times> node list option" where
  "serveFromDiskCache disk d =
     (if \<not> disk_cold d then (d, None, None)
      else case disk of
             None \<Rightarrow> (d, None, None)
           | Some cs \<Rightarrow> (case disk_publish cs d of (d', k) \<Rightarrow> (d', k, Some cs)))"

text \<open>What \<open>load\<close> does up to the point where it waits: it returns a listing or an errno, or it waits
  for fetch \<open>k\<close>; the second component is the fetch it started.\<close>

datatype load_next = Return "node list option" errno | Await nat

definition load_begin :: "nanos \<Rightarrow> bool \<Rightarrow> node list option \<Rightarrow> dir \<Rightarrow> dir \<times> nat option \<times> load_next" where
  "load_begin now limited disk d =
     (case serveFromDiskCache disk d of
        (d1, k, Some cs) \<Rightarrow> (d1, k, Return (Some cs) OK)
      | (d1, k, None) \<Rightarrow>
          if limited then
            (if decideStale (dn_children d1 \<noteq> None) False True = ServeStale
             then (fst (logOncePerMinute now d1), None, Return (dn_children d1) OK)
             else (d1, None, Return None ETIMEDOUT))
          else case beginLoad now d1 of
                 (d2, Cached cs) \<Rightarrow> (d2, None, Return (Some cs) OK)
               | (d2, Own j) \<Rightarrow> (d2, Some j, Await j)
               | (d2, WaitFor j) \<Rightarrow> (d2, None, Await j))"

definition shouldPublish :: "bool \<Rightarrow> nat \<Rightarrow> nat \<Rightarrow> bool" where
  "shouldPublish hadChildren startGen curGen \<longleftrightarrow> \<not> hadChildren \<or> startGen = curGen"

definition publish :: "nanos \<Rightarrow> node list option \<Rightarrow> nat \<Rightarrow> dir \<Rightarrow> dir" where
  "publish now children startGen d =
     (let d1 = d\<lparr>dn_loading := None\<rparr>
      in case children of
           Some cs \<Rightarrow>
             (if shouldPublish (dn_children d1 \<noteq> None) startGen (dn_gen d1) then d1\<lparr>dn_children := Some cs\<rparr> else d1)
               \<lparr>dn_expires := Some (now + dn_ttl d1)\<rparr>
         | None \<Rightarrow> d1\<lparr>dn_expires := Some (now + min (dn_ttl d1) failedLoadCooldown)\<rparr>)"

text \<open>The errno of a failed fetch; an unauthorized one is only logged differently.\<close>

definition fetch_errno :: "bool \<Rightarrow> go_error \<Rightarrow> errno" where
  "fetch_errno timed_out err = (if timed_out then ETIMEDOUT else EIO)"

definition finish_publish :: "nanos \<Rightarrow> bool \<Rightarrow> nat \<Rightarrow> go_error + node list \<Rightarrow> dir \<Rightarrow> dir" where
  "finish_publish now timed_out startGen res d =
     (case res of
        Inl err \<Rightarrow> publish now None startGen ((fst (logOncePerMinute now d))\<lparr>dn_loadErrno := fetch_errno timed_out err\<rparr>)
      | Inr cs \<Rightarrow> publish now (Some cs) startGen (d\<lparr>dn_loadErrno := OK\<rparr>))"

section \<open>Persisting\<close>

text \<open>\<open>save\<close> is \<open>cacheListing\<close> (or the client's \<open>CacheListing\<close>) on the cache state it changes.\<close>

definition persistListing ::
    "(node \<Rightarrow> node list \<Rightarrow> 's \<Rightarrow> 's) \<Rightarrow> node \<Rightarrow> node list \<Rightarrow> nat \<Rightarrow> dir \<times> 's \<Rightarrow> dir \<times> 's" where
  "persistListing save n children gen ds =
     (case ds of (d, s) \<Rightarrow>
        if gen < dn_persistedGen d then (d, s)
        else (d\<lparr>dn_persistedGen := gen\<rparr>, save n children s))"

definition listingPersistDelay :: nanos where "listingPersistDelay = seconds 2"

definition schedulePersist :: "dir \<Rightarrow> dir" where
  "schedulePersist d = d\<lparr>dn_timer := True\<rparr>"

definition nil_list :: "'a list option \<Rightarrow> 'a list" where
  "nil_list xs = (case xs of None \<Rightarrow> [] | Some ys \<Rightarrow> ys)"

definition flushListing :: "(node \<Rightarrow> node list \<Rightarrow> 's \<Rightarrow> 's) \<Rightarrow> dir \<times> 's \<Rightarrow> dir \<times> 's" where
  "flushListing save ds =
     (case ds of (d, s) \<Rightarrow>
        if \<not> dn_timer d then (d, s)
        else persistListing save (dn_node d) (nil_list (dn_children d)) (dn_gen d) (d\<lparr>dn_timer := False\<rparr>, s))"

definition discardListing :: "dir \<Rightarrow> dir" where
  "discardListing d = d\<lparr>dn_timer := False\<rparr>"

section \<open>Patches\<close>

fun upsertNode :: "node list \<Rightarrow> node \<Rightarrow> node list" where
  "upsertNode [] n = [n]"
| "upsertNode (ch # cs) n =
     (if lk_id (nd_link ch) \<noteq> lk_id (nd_link n) \<and> nd_name ch \<noteq> nd_name n then ch # upsertNode cs n
      else n # cs)"

fun removeNode :: "node list \<Rightarrow> string \<Rightarrow> node option \<times> node list" where
  "removeNode [] name = (None, [])"
| "removeNode (ch # cs) name =
     (if nd_name ch \<noteq> name then (case removeNode cs name of (r, cs') \<Rightarrow> (r, ch # cs'))
      else (Some ch, cs))"

text \<open>The patches of \<open>upsertChild\<close> and \<open>removeChild\<close>; the entry removed is handed back for the caller
  to forget its parent.\<close>

definition upsertChild :: "node \<Rightarrow> dir \<Rightarrow> dir" where
  "upsertChild n d =
     schedulePersist (d\<lparr>dn_children := Some (upsertNode (nil_list (dn_children d)) n), dn_gen := Suc (dn_gen d)\<rparr>)"

definition removeChild :: "string \<Rightarrow> dir \<Rightarrow> dir \<times> node option" where
  "removeChild name d =
     (schedulePersist (d\<lparr>dn_children := map_option (\<lambda>cs. snd (removeNode cs name)) (dn_children d),
        dn_gen := Suc (dn_gen d)\<rparr>),
      fst (removeNode (nil_list (dn_children d)) name))"

section \<open>The whole fetch and the whole load, in program order\<close>

text \<open>One schedule of the goroutines: a fetch, whoever started it, runs to its end while its waiter
  waits, and a fetch behind a cold start served from disk runs right after. \<open>Listing_Steps\<close> has all the
  others.\<close>

record 's load_env =
  le_now :: nanos
  le_limited :: bool
  le_disk :: "node list option"
  le_fetch :: "node \<Rightarrow> go_error + node list"
  le_timedOut :: bool
  le_save :: "node \<Rightarrow> node list \<Rightarrow> 's \<Rightarrow> 's"

text \<open>\<open>finishLoad\<close>; the last component is the parent of every entry fetched (\<open>setParent\<close>).\<close>

definition finishLoad :: "'s load_env \<Rightarrow> dir \<times> 's \<Rightarrow> dir \<times> 's \<times> (string \<times> string) list" where
  "finishLoad le ds =
     (case ds of (d, s) \<Rightarrow>
        (let n = dn_node d; startGen = dn_gen d; res = le_fetch le n;
             d1 = finish_publish (le_now le) (le_timedOut le) startGen res d
         in case res of
              Inl e \<Rightarrow> (d1, s, [])
            | Inr cs \<Rightarrow>
                (case persistListing (le_save le) n cs startGen (d1, s) of
                   (d2, s2) \<Rightarrow> (d2, s2, map (\<lambda>ch. (lk_id (nd_link ch), lk_id (nd_link n))) cs))))"

definition load ::
    "'s load_env \<Rightarrow> dir \<times> 's \<Rightarrow> dir \<times> 's \<times> (string \<times> string) list \<times> node list option \<times> errno" where
  "load le ds =
     (case ds of (d, s) \<Rightarrow>
        (case load_begin (le_now le) (le_limited le) (le_disk le) d of
           (d1, None, Return cs e) \<Rightarrow> (d1, s, [], cs, e)
         | (d1, Some k, Return cs e) \<Rightarrow>
             (case finishLoad le (d1, s) of (d2, s2, ps) \<Rightarrow> (d2, s2, ps, cs, e))
         | (d1, k, Await j) \<Rightarrow>
             (case finishLoad le (d1, s) of
                (d2, s2, ps) \<Rightarrow> (case loadResult (le_now le) d2 of (d3, cs, e) \<Rightarrow> (d3, s2, ps, cs, e)))))"

text \<open>\<open>findChild\<close>, whose comment promises to refetch once when the name is missing, only loads.\<close>

definition findChild ::
    "'s load_env \<Rightarrow> string \<Rightarrow> dir \<times> 's \<Rightarrow> dir \<times> 's \<times> (string \<times> string) list \<times> node option \<times> errno" where
  "findChild le name ds =
     (case load le ds of
        (d, s, ps, cs, e) \<Rightarrow>
          if e \<noteq> OK then (d, s, ps, None, e)
          else (case List.find (\<lambda>ch. nd_name ch = name) (nil_list cs) of
                  Some ch \<Rightarrow> (d, s, ps, Some ch, OK)
                | None \<Rightarrow> (d, s, ps, None, ENOENT)))"

section \<open>Lemmas\<close>

lemma nil_list_simps [simp]: "nil_list None = []" "nil_list (Some xs) = xs"
  by (simp_all add: nil_list_def)

lemma logOncePerMinute_frame [frame_simps]:
  "dn_children (fst (logOncePerMinute now d)) = dn_children d"
  "dn_expires (fst (logOncePerMinute now d)) = dn_expires d"
  "dn_gen (fst (logOncePerMinute now d)) = dn_gen d"
  "dn_loading (fst (logOncePerMinute now d)) = dn_loading d"
  "dn_fetches (fst (logOncePerMinute now d)) = dn_fetches d"
  "dn_loadErrno (fst (logOncePerMinute now d)) = dn_loadErrno d"
  "dn_persistedGen (fst (logOncePerMinute now d)) = dn_persistedGen d"
  "dn_timer (fst (logOncePerMinute now d)) = dn_timer d"
  "dn_ttl (fst (logOncePerMinute now d)) = dn_ttl d"
  "dn_node (fst (logOncePerMinute now d)) = dn_node d"
  by (simp_all add: logOncePerMinute_def)

lemma publish_frame [frame_simps]:
  "dn_gen (publish now cs g d) = dn_gen d"
  "dn_loading (publish now cs g d) = None"
  "dn_fetches (publish now cs g d) = dn_fetches d"
  "dn_loadErrno (publish now cs g d) = dn_loadErrno d"
  "dn_persistedGen (publish now cs g d) = dn_persistedGen d"
  "dn_timer (publish now cs g d) = dn_timer d"
  "dn_ttl (publish now cs g d) = dn_ttl d"
  "dn_node (publish now cs g d) = dn_node d"
  by (simp_all add: publish_def Let_def split: option.split)

lemma publish_children:
  "dn_children (publish now res g d)
   = (case res of None \<Rightarrow> dn_children d
      | Some cs \<Rightarrow> if dn_children d = None \<or> g = dn_gen d then Some cs else dn_children d)"
  by (cases "dn_children d") (auto simp: publish_def shouldPublish_def Let_def split: option.split)

lemma finish_publish_frame [frame_simps]:
  "dn_gen (finish_publish now t g res d) = dn_gen d"
  "dn_loading (finish_publish now t g res d) = None"
  "dn_fetches (finish_publish now t g res d) = dn_fetches d"
  "dn_persistedGen (finish_publish now t g res d) = dn_persistedGen d"
  "dn_timer (finish_publish now t g res d) = dn_timer d"
  "dn_ttl (finish_publish now t g res d) = dn_ttl d"
  "dn_node (finish_publish now t g res d) = dn_node d"
  by (simp_all add: finish_publish_def frame_simps split: sum.split)

lemma finish_publish_children:
  "dn_children (finish_publish now t g res d)
   = (case res of Inl e \<Rightarrow> dn_children d
      | Inr cs \<Rightarrow> if dn_children d = None \<or> g = dn_gen d then Some cs else dn_children d)"
  by (cases res) (simp_all add: finish_publish_def publish_children frame_simps)

lemma expire_frame [frame_simps]:
  "dn_children (expire d) = dn_children d" "dn_gen (expire d) = dn_gen d"
  "dn_loading (expire d) = dn_loading d" "dn_fetches (expire d) = dn_fetches d"
  "dn_loadErrno (expire d) = dn_loadErrno d" "dn_persistedGen (expire d) = dn_persistedGen d"
  "dn_node (expire d) = dn_node d" "dn_timer (expire d) = dn_timer d" "dn_ttl (expire d) = dn_ttl d"
  by (simp_all add: expire_def)

lemma open_fetch_frame [frame_simps]:
  "dn_children (open_fetch d) = dn_children d" "dn_gen (open_fetch d) = dn_gen d"
  "dn_loading (open_fetch d) = Some (dn_fetches d)" "dn_fetches (open_fetch d) = Suc (dn_fetches d)"
  "dn_persistedGen (open_fetch d) = dn_persistedGen d" "dn_expires (open_fetch d) = dn_expires d"
  "dn_node (open_fetch d) = dn_node d" "dn_timer (open_fetch d) = dn_timer d" "dn_ttl (open_fetch d) = dn_ttl d"
  "dn_loadErrno (open_fetch d) = dn_loadErrno d"
  by (simp_all add: open_fetch_def)

lemma upsertChild_frame [frame_simps]:
  "dn_children (upsertChild n d) = Some (upsertNode (nil_list (dn_children d)) n)"
  "dn_gen (upsertChild n d) = Suc (dn_gen d)" "dn_loading (upsertChild n d) = dn_loading d"
  "dn_fetches (upsertChild n d) = dn_fetches d" "dn_persistedGen (upsertChild n d) = dn_persistedGen d"
  "dn_node (upsertChild n d) = dn_node d" "dn_timer (upsertChild n d)" "dn_ttl (upsertChild n d) = dn_ttl d"
  "dn_expires (upsertChild n d) = dn_expires d" "dn_loadErrno (upsertChild n d) = dn_loadErrno d"
  by (simp_all add: upsertChild_def schedulePersist_def)

lemma removeChild_frame [frame_simps]:
  "dn_children (fst (removeChild nm d)) = map_option (\<lambda>cs. snd (removeNode cs nm)) (dn_children d)"
  "dn_gen (fst (removeChild nm d)) = Suc (dn_gen d)" "dn_loading (fst (removeChild nm d)) = dn_loading d"
  "dn_fetches (fst (removeChild nm d)) = dn_fetches d"
  "dn_persistedGen (fst (removeChild nm d)) = dn_persistedGen d"
  "dn_node (fst (removeChild nm d)) = dn_node d" "dn_timer (fst (removeChild nm d))"
  "dn_ttl (fst (removeChild nm d)) = dn_ttl d" "dn_expires (fst (removeChild nm d)) = dn_expires d"
  by (simp_all add: removeChild_def schedulePersist_def)

text \<open>\<open>upsertNode\<close> and \<open>removeNode\<close> on a listing whose names and links are distinct.\<close>

lemma upsertNode_mem: "n \<in> set (upsertNode cs n)"
  by (induction cs n rule: upsertNode.induct) auto

lemma upsertNode_fresh:
  "\<forall>c\<in>set cs. nd_name c \<noteq> nd_name n \<and> lk_id (nd_link c) \<noteq> lk_id (nd_link n) \<Longrightarrow> upsertNode cs n = cs @ [n]"
  by (induction cs n rule: upsertNode.induct) auto

lemma upsertNode_subset: "set (upsertNode cs n) \<subseteq> insert n (set cs)"
  by (induction cs n rule: upsertNode.induct) auto

lemma upsertNode_other:
  "c \<in> set cs \<Longrightarrow> nd_name c \<noteq> nd_name n \<Longrightarrow> lk_id (nd_link c) \<noteq> lk_id (nd_link n) \<Longrightarrow> c \<in> set (upsertNode cs n)"
  by (induction cs n rule: upsertNode.induct) auto

lemma removeNode_filter:
  "distinct (map nd_name cs) \<Longrightarrow> snd (removeNode cs nm) = filter (\<lambda>c. nd_name c \<noteq> nm) cs"
proof (induction cs)
  case (Cons c cs)
  have "filter (\<lambda>x. nd_name x \<noteq> nm) cs = cs" if "nd_name c = nm"
    using Cons.prems that by (intro filter_True) (auto simp: image_iff)
  then show ?case using Cons by (simp add: case_prod_beta)
qed simp

lemma removeNode_subset: "set (snd (removeNode cs nm)) \<subseteq> set cs"
  by (induction cs) (auto split: prod.splits)

lemma removeNode_found:
  "fst (removeNode cs nm) = List.find (\<lambda>c. nd_name c = nm) cs"
  by (induction cs) (auto split: prod.splits)

section \<open>Properties\<close>

lemma load_fetch:
  assumes "\<not> fresh (le_now le) d" "\<not> le_limited le" "\<not> (disk_cold d \<and> le_disk le \<noteq> None)"
  shows "\<exists>d0. dn_children d0 = dn_children d \<and> dn_gen d0 = dn_gen d \<and> dn_node d0 = dn_node d \<and> dn_ttl d0 = dn_ttl d
     \<and> load le (d, s) = (case finishLoad le (d0, s) of
         (d2, s2, ps) \<Rightarrow> (case loadResult (le_now le) d2 of (d3, cs, e) \<Rightarrow> (d3, s2, ps, cs, e)))"
proof -
  have sv: "serveFromDiskCache (le_disk le) d = (d, None, None)"
    using assms(3) by (auto simp: serveFromDiskCache_def split: option.split)
  show ?thesis
  proof (cases "dn_loading d")
    case None
    then show ?thesis using assms(1,2) sv
      by (intro exI [of _ "open_fetch d"]) (simp add: load_def load_begin_def beginLoad_def frame_simps split: prod.split)
  next
    case (Some k)
    then show ?thesis using assms(1,2) sv
      by (intro exI [of _ d]) (simp add: load_def load_begin_def beginLoad_def split: prod.split)
  qed
qed

lemma finishLoad_fst:
  assumes "finishLoad le (d, s) = (d2, s2, ps)"
  shows "dn_children d2 = dn_children (finish_publish (le_now le) (le_timedOut le) (dn_gen d) (le_fetch le (dn_node d)) d)"
    "dn_expires d2 = dn_expires (finish_publish (le_now le) (le_timedOut le) (dn_gen d) (le_fetch le (dn_node d)) d)"
    "dn_loadErrno d2 = dn_loadErrno (finish_publish (le_now le) (le_timedOut le) (dn_gen d) (le_fetch le (dn_node d)) d)"
  using assms
  by (auto simp: finishLoad_def persistListing_def Let_def split: sum.splits prod.splits if_splits)

text \<open>What \<open>load\<close> answers, in full: the persisted listing on a cold start; the listing it has, however
  old, while Proton is rate limiting or when the refresh fails; the fresh one when the refresh works;
  and an errno only when there is nothing to show at all.\<close>

theorem load_serves_stale:
  "0 < dn_ttl d \<Longrightarrow>
   (case load le (d, s) of (d', s', ps, cs, e) \<Rightarrow> (cs, e)) =
     (if disk_cold d \<and> le_disk le \<noteq> None then (le_disk le, OK)
      else if le_limited le then (if dn_children d = None then (None, ETIMEDOUT) else (dn_children d, OK))
      else if fresh (le_now le) d then (dn_children d, OK)
      else (case le_fetch le (dn_node d) of
              Inr cs \<Rightarrow> (Some cs, OK)
            | Inl err \<Rightarrow> if dn_children d = None then (None, fetch_errno (le_timedOut le) err)
                        else (dn_children d, OK)))"
proof -
  assume ttl: "0 < dn_ttl d"
  show ?thesis
  proof (cases "disk_cold d \<and> le_disk le \<noteq> None")
    case True
    then obtain cs where "le_disk le = Some cs" by blast
    then show ?thesis using True
      by (simp add: load_def load_begin_def serveFromDiskCache_def disk_publish_def split: prod.split)
  next
    case nd: False
    then have sv: "serveFromDiskCache (le_disk le) d = (d, None, None)"
      by (auto simp: serveFromDiskCache_def split: option.split)
    show ?thesis
    proof (cases "le_limited le \<or> fresh (le_now le) d")
      case True
      then show ?thesis using sv nd
        by (auto simp: load_def load_begin_def beginLoad_def decideStale_def fresh_def)
    next
      case False
      obtain d0 where d0: "dn_children d0 = dn_children d" "dn_gen d0 = dn_gen d" "dn_node d0 = dn_node d"
          "dn_ttl d0 = dn_ttl d"
        and l: "load le (d, s) = (case finishLoad le (d0, s) of
          (d2, s2, ps) \<Rightarrow> (case loadResult (le_now le) d2 of (d3, cs, e) \<Rightarrow> (d3, s2, ps, cs, e)))"
        using load_fetch [of le d s] False nd by blast
      obtain d2 s2 ps where f: "finishLoad le (d0, s) = (d2, s2, ps)" by (metis prod_cases3)
      note g = finishLoad_fst [OF f]
      show ?thesis using False nd l f g d0 ttl
        by (cases "le_fetch le (dn_node d)"; cases "dn_children d")
          (auto simp: loadResult_def fresh_def finish_publish_def publish_def shouldPublish_def decideStale_def
            fetch_errno_def failedLoadCooldown_def Let_def frame_simps split: prod.split)
    qed
  qed
qed

theorem load_serves_stale_witness:
  "snd (snd (snd (load \<lparr>le_now = 9, le_limited = False, le_disk = None, le_fetch = (\<lambda>n. Inl ErrEOF), le_timedOut = True,
       le_save = (\<lambda>n cs s. s)\<rparr> ((new_dir demo_node 30)\<lparr>dn_children := Some [demo_node]\<rparr>, ())))) = (Some [demo_node], OK)"
  using load_serves_stale [of "(new_dir demo_node 30)\<lparr>dn_children := Some [demo_node]\<rparr>"
    "\<lparr>le_now = 9, le_limited = False, le_disk = None, le_fetch = (\<lambda>n. Inl ErrEOF), le_timedOut = True,
       le_save = (\<lambda>n cs s. s)\<rparr>" "()"]
  by (simp add: new_dir_def disk_cold_def fresh_def case_prod_beta)

end
