(* ===== verification/Listing_Steps.thy ===== *)
theory Listing_Steps
  imports Dir_Listing
begin

text \<open>
  One directory under every interleaving of its callers, its fetches, the handlers' patches, the
  persist timer and the event loop (internal/fusefs/fusefs.go). A step is one critical section of
  \<open>Dir_Listing\<close>; times are whatever the clock says at that step. \<open>ls_log\<close> (every patch so far),
  \<open>ls_results\<close> (every listing that arrived, with the generation its fetch began at) and \<open>ls_saved\<close>
  (every listing written to disk, with its generation) are history, read by no step.
\<close>

section \<open>State and steps\<close>

datatype patch = Upsert node | Remove string

definition patch_dir :: "patch \<Rightarrow> dir \<Rightarrow> dir" where
  "patch_dir p d = (case p of Upsert n \<Rightarrow> upsertChild n d | Remove nm \<Rightarrow> fst (removeChild nm d))"

definition patch_list :: "patch \<Rightarrow> node list \<Rightarrow> node list" where
  "patch_list p cs = (case p of Upsert n \<Rightarrow> upsertNode cs n | Remove nm \<Rightarrow> snd (removeNode cs nm))"

datatype fetch_phase =
    NoFetch
  | Spawned
  | Fetching node nat
  | Persisting node "node list" nat
  | Finished

datatype caller = Idle | Waits nat | Answered "node list option" errno

record lstate =
  ls_dir :: dir
  ls_fetch :: "nat \<Rightarrow> fetch_phase"
  ls_caller :: "nat \<Rightarrow> caller"
  ls_log :: "patch list"
  ls_results :: "(nat \<times> node list) list"
  ls_saved :: "(node list \<times> nat) list"

definition record_save :: "nat \<Rightarrow> node \<Rightarrow> node list \<Rightarrow> (node list \<times> nat) list \<Rightarrow> (node list \<times> nat) list" where
  "record_save g n cs saved = saved @ [(cs, g)]"

definition spawn :: "nat option \<Rightarrow> (nat \<Rightarrow> fetch_phase) \<Rightarrow> nat \<Rightarrow> fetch_phase" where
  "spawn k f = (case k of None \<Rightarrow> f | Some j \<Rightarrow> f(j := Spawned))"

definition answer :: "load_next \<Rightarrow> caller" where
  "answer r = (case r of Return cs e \<Rightarrow> Answered cs e | Await j \<Rightarrow> Waits j)"

text \<open>A listing read from disk and published counts as one that arrived at the current generation.\<close>

definition disk_results :: "node list option \<Rightarrow> dir \<Rightarrow> (nat \<times> node list) list" where
  "disk_results disk d =
     (case disk of Some cs \<Rightarrow> if disk_cold d then [(dn_gen d, cs)] else [] | None \<Rightarrow> [])"

inductive listing_step :: "lstate \<Rightarrow> lstate \<Rightarrow> bool" where
  call: "ls_caller s c = Idle \<Longrightarrow> load_begin now limited disk (ls_dir s) = (d, k, r) \<Longrightarrow>
    listing_step s (s\<lparr>ls_dir := d, ls_fetch := spawn k (ls_fetch s), ls_caller := (ls_caller s)(c := answer r),
                     ls_results := ls_results s @ disk_results disk (ls_dir s)\<rparr>)"
| wake: "ls_caller s c = Waits k \<Longrightarrow> dn_loading (ls_dir s) \<noteq> Some k \<Longrightarrow>
    loadResult now (ls_dir s) = (d, cs, e) \<Longrightarrow>
    listing_step s (s\<lparr>ls_dir := d, ls_caller := (ls_caller s)(c := Answered cs e)\<rparr>)"
| cancel: "ls_caller s c = Waits k \<Longrightarrow>
    listing_step s (s\<lparr>ls_caller := (ls_caller s)(c := Answered None EINTR)\<rparr>)"
| leave: "ls_caller s c = Answered cs e \<Longrightarrow> listing_step s (s\<lparr>ls_caller := (ls_caller s)(c := Idle)\<rparr>)"
| fetch_start: "ls_fetch s k = Spawned \<Longrightarrow>
    listing_step s (s\<lparr>ls_fetch := (ls_fetch s)(k := Fetching (dn_node (ls_dir s)) (dn_gen (ls_dir s)))\<rparr>)"
| fetch_fail: "ls_fetch s k = Fetching n g \<Longrightarrow>
    listing_step s (s\<lparr>ls_dir := finish_publish now t g (Inl err) (ls_dir s), ls_fetch := (ls_fetch s)(k := Finished)\<rparr>)"
| fetch_done: "ls_fetch s k = Fetching n g \<Longrightarrow>
    listing_step s (s\<lparr>ls_dir := finish_publish now t g (Inr cs) (ls_dir s),
                     ls_fetch := (ls_fetch s)(k := Persisting n cs g), ls_results := ls_results s @ [(g, cs)]\<rparr>)"
| fetch_persist: "ls_fetch s k = Persisting n cs g \<Longrightarrow>
    persistListing (record_save g) n cs g (ls_dir s, ls_saved s) = (d, saved) \<Longrightarrow>
    listing_step s (s\<lparr>ls_dir := d, ls_saved := saved, ls_fetch := (ls_fetch s)(k := Finished)\<rparr>)"
| local_patch: "listing_step s (s\<lparr>ls_dir := patch_dir p (ls_dir s), ls_log := ls_log s @ [p]\<rparr>)"
| flush: "flushListing (record_save (dn_gen (ls_dir s))) (ls_dir s, ls_saved s) = (d, saved) \<Longrightarrow>
    listing_step s (s\<lparr>ls_dir := d, ls_saved := saved\<rparr>)"
| discard: "listing_step s (s\<lparr>ls_dir := discardListing (ls_dir s)\<rparr>)"
| expired: "listing_step s (s\<lparr>ls_dir := expire (ls_dir s)\<rparr>)"
| event: "invalidate (ls_dir s) = (d, names) \<Longrightarrow> listing_step s (s\<lparr>ls_dir := d\<rparr>)"
| notified: "listing_step s (s\<lparr>ls_dir := notifyEntries (ls_dir s)\<rparr>)"
| renamed: "listing_step s (s\<lparr>ls_dir := dir_setNode n (ls_dir s)\<rparr>)"

definition listing_init :: "lstate \<Rightarrow> bool" where
  "listing_init s \<longleftrightarrow>
     (\<exists>n ttl. ls_dir s = new_dir n ttl) \<and> (\<forall>k. ls_fetch s k = NoFetch) \<and> (\<forall>c. ls_caller s c = Idle)
     \<and> ls_log s = [] \<and> ls_results s = [] \<and> ls_saved s = []"

definition listing_reach :: "lstate \<Rightarrow> lstate \<Rightarrow> bool" where
  "listing_reach = listing_step\<^sup>*\<^sup>*"

section \<open>The invariant\<close>

definition running :: "fetch_phase \<Rightarrow> bool" where
  "running f \<longleftrightarrow> f = Spawned \<or> (\<exists>n g. f = Fetching n g)"

text \<open>The cached listing is one that arrived, or the empty one of a directory patched before it was
  ever listed, with every later patch applied; only removals made before anything was listed, while
  the fetch ran, can be missing.\<close>

definition is_remove :: "patch \<Rightarrow> bool" where
  "is_remove p = (case p of Upsert n \<Rightarrow> False | Remove nm \<Rightarrow> True)"

definition patched_from :: "patch list \<Rightarrow> (nat \<times> node list) list \<Rightarrow> node list \<Rightarrow> bool" where
  "patched_from ps results cs \<longleftrightarrow>
     (\<exists>g h base. ((g, base) \<in> set results \<or> base = [] \<and> g = h) \<and> g \<le> h \<and> h \<le> length ps
        \<and> list_all is_remove (take (h - g) (drop g ps))
        \<and> cs = foldl (\<lambda>cs p. patch_list p cs) base (drop h ps))"

definition singleflight_ok :: "lstate \<Rightarrow> bool" where
  "singleflight_ok s \<longleftrightarrow>
     (\<forall>k. running (ls_fetch s k) \<longleftrightarrow> dn_loading (ls_dir s) = Some k)
     \<and> (\<forall>k. dn_loading (ls_dir s) = Some k \<longrightarrow> k < dn_fetches (ls_dir s))
     \<and> (\<forall>k. dn_fetches (ls_dir s) \<le> k \<longrightarrow> ls_fetch s k = NoFetch)
     \<and> (\<forall>c k. ls_caller s c = Waits k \<longrightarrow> k < dn_fetches (ls_dir s))"

definition gens_ok :: "lstate \<Rightarrow> bool" where
  "gens_ok s \<longleftrightarrow>
     dn_gen (ls_dir s) = length (ls_log s)
     \<and> (\<forall>k n g. ls_fetch s k = Fetching n g \<longrightarrow> g \<le> length (ls_log s))
     \<and> (\<forall>k n cs g. ls_fetch s k = Persisting n cs g \<longrightarrow> g \<le> length (ls_log s))
     \<and> dn_persistedGen (ls_dir s) \<le> length (ls_log s)
     \<and> sorted (map snd (ls_saved s))
     \<and> (\<forall>(cs, g)\<in>set (ls_saved s). g \<le> dn_persistedGen (ls_dir s))"

definition children_ok :: "lstate \<Rightarrow> bool" where
  "children_ok s \<longleftrightarrow>
     (case dn_children (ls_dir s) of
        None \<Rightarrow> list_all is_remove (ls_log s)
      | Some cs \<Rightarrow> patched_from (ls_log s) (ls_results s) cs)"

definition listing_ok :: "lstate \<Rightarrow> bool" where
  "listing_ok s \<longleftrightarrow> singleflight_ok s \<and> gens_ok s \<and> children_ok s"

lemmas listing_ok_defs = singleflight_ok_def gens_ok_def children_ok_def

lemma listing_init_ok: "listing_init s \<Longrightarrow> listing_ok s"
  by (auto simp: listing_ok_def listing_ok_defs listing_init_def new_dir_def running_def)

section \<open>What one call of \<open>load\<close> can do to the directory\<close>

lemma logOncePerMinute_upd: "\<exists>w. fst (logOncePerMinute now d) = d\<lparr>dn_lastWarned := w\<rparr>"
proof (cases "dn_lastWarned d \<noteq> 0 \<and> now - dn_lastWarned d < minutes 1")
  case True
  then have "fst (logOncePerMinute now d) = d\<lparr>dn_lastWarned := dn_lastWarned d\<rparr>" by (simp add: logOncePerMinute_def)
  then show ?thesis ..
next
  case False
  then have "fst (logOncePerMinute now d) = d\<lparr>dn_lastWarned := now\<rparr>" by (auto simp: logOncePerMinute_def)
  then show ?thesis ..
qed

lemma same_or_warned:
  "d' = d \<or> d' = fst (logOncePerMinute now d) \<Longrightarrow> \<exists>w. d' = d\<lparr>dn_lastWarned := w\<rparr>"
proof (elim disjE)
  assume "d' = d"
  then have "d' = d\<lparr>dn_lastWarned := dn_lastWarned d\<rparr>" by simp
  then show ?thesis ..
qed (simp add: logOncePerMinute_upd)

lemma beginLoad_cases:
  "beginLoad now d = (d', b) \<Longrightarrow>
     (\<exists>cs. d' = d \<and> b = Cached cs)
     \<or> (dn_loading d = None \<and> d' = open_fetch d \<and> b = Own (dn_fetches d))
     \<or> (\<exists>j. dn_loading d = Some j \<and> d' = d \<and> b = WaitFor j)"
  by (auto simp: beginLoad_def split: if_splits option.splits)

lemma load_begin_cases:
  assumes "load_begin now limited disk d = (d', k, r)"
  obtains
    (disk) cs where "disk = Some cs" "disk_cold d" "d' = open_fetch (d\<lparr>dn_children := Some cs, dn_expires := None\<rparr>)"
      "k = Some (dn_fetches d)" "r = Return (Some cs) OK"
  | (own) "\<not> (disk_cold d \<and> disk \<noteq> None)" "dn_loading d = None" "d' = open_fetch d" "k = Some (dn_fetches d)"
      "r = Await (dn_fetches d)"
  | (wait) j where "\<not> (disk_cold d \<and> disk \<noteq> None)" "dn_loading d = Some j" "d' = d" "k = None" "r = Await j"
  | (return) w cs e where "\<not> (disk_cold d \<and> disk \<noteq> None)" "d' = d\<lparr>dn_lastWarned := w\<rparr>" "k = None"
      "r = Return cs e"
proof (cases "disk_cold d \<and> disk \<noteq> None")
  case True
  then show ?thesis using assms disk
    by (auto simp: load_begin_def serveFromDiskCache_def disk_publish_def)
next
  case False
  then have sv: "serveFromDiskCache disk d = (d, None, None)"
    by (auto simp: serveFromDiskCache_def split: option.split)
  show ?thesis
  proof (cases limited)
    case True
    then have *: "(d' = d \<or> d' = fst (logOncePerMinute now d)) \<and> k = None \<and> (\<exists>cs e. r = Return cs e)"
      using assms sv by (auto simp: load_begin_def split: if_splits)
    then have "\<exists>w. d' = d\<lparr>dn_lastWarned := w\<rparr>" using same_or_warned by blast
    then show ?thesis using * False return by blast
  next
    case nl: False
    obtain d2 b where bl: "beginLoad now d = (d2, b)" by fastforce
    have lb: "(d', k, r) = (case b of Cached cs \<Rightarrow> (d2, None, Return (Some cs) OK)
        | Own j \<Rightarrow> (d2, Some j, Await j) | WaitFor j \<Rightarrow> (d2, None, Await j))"
      using assms sv nl bl by (simp add: load_begin_def split: begin_load.splits)
    from beginLoad_cases [OF bl] show ?thesis
    proof (elim disjE conjE exE)
      fix cs assume *: "d2 = d" "b = Cached cs"
      then have "d' = d \<or> d' = fst (logOncePerMinute now d)" using lb by simp
      then obtain w where w: "d' = d\<lparr>dn_lastWarned := w\<rparr>" using same_or_warned by blast
      have kr: "k = None" "r = Return (Some cs) OK" using lb * by simp_all
      show ?thesis by (rule return [OF False w kr])
    next
      assume "dn_loading d = None" "d2 = open_fetch d" "b = Own (dn_fetches d)"
      then show ?thesis using lb False own by simp
    next
      fix j assume "dn_loading d = Some j" "d2 = d" "b = WaitFor j"
      then show ?thesis using lb False wait by simp
    qed
  qed
qed

section \<open>Every step keeps the invariant\<close>

lemma is_remove_simps [simp]: "is_remove (Remove nm)" "\<not> is_remove (Upsert n)"
  by (simp_all add: is_remove_def)

lemma patched_from_results: "patched_from ps rs cs \<Longrightarrow> set rs \<subseteq> set rs' \<Longrightarrow> patched_from ps rs' cs"
  unfolding patched_from_def by blast

lemma patched_from_new: "(length ps, cs) \<in> set rs \<Longrightarrow> patched_from ps rs cs"
  unfolding patched_from_def by (rule exI [of _ "length ps"], rule exI [of _ "length ps"], rule exI [of _ cs]) simp

lemma patched_from_cold:
  assumes "(g, cs) \<in> set rs" "g \<le> length ps" "list_all is_remove ps"
  shows "patched_from ps rs cs"
proof -
  have "list_all is_remove (drop g ps)" using assms(3) by (auto simp: list_all_iff dest: in_set_dropD)
  then show ?thesis using assms(1,2) unfolding patched_from_def
    by (intro exI [of _ g] exI [of _ "length ps"] exI [of _ cs]) simp
qed

lemma patched_from_patch:
  assumes "patched_from ps rs cs"
  shows "patched_from (ps @ [p]) rs (patch_list p cs)"
proof -
  obtain g h base where *: "(g, base) \<in> set rs \<or> base = [] \<and> g = h" "g \<le> h" "h \<le> length ps"
    "list_all is_remove (take (h - g) (drop g ps))" "cs = foldl (\<lambda>cs p. patch_list p cs) base (drop h ps)"
    using assms unfolding patched_from_def by blast
  have "take (h - g) (drop g (ps @ [p])) = take (h - g) (drop g ps)" using *(2,3) by simp
  then show ?thesis using * unfolding patched_from_def
    by (intro exI [of _ g] exI [of _ h] exI [of _ base]) simp
qed

lemma patched_from_first:
  "patched_from (ps @ [p]) rs (patch_list p [])"
  unfolding patched_from_def
  by (intro exI [of _ "length ps"] exI [of _ "length ps"] exI [of _ "[]"]) simp

lemma patch_dir_frame [frame_simps]:
  "dn_gen (patch_dir p d) = Suc (dn_gen d)" "dn_loading (patch_dir p d) = dn_loading d"
  "dn_fetches (patch_dir p d) = dn_fetches d" "dn_persistedGen (patch_dir p d) = dn_persistedGen d"
  by (simp_all add: patch_dir_def frame_simps split: patch.split)

lemma patch_dir_children:
  "dn_children (patch_dir p d)
   = (case dn_children d of
        Some cs \<Rightarrow> Some (patch_list p cs)
      | None \<Rightarrow> if is_remove p then None else Some (patch_list p []))"
  by (cases p) (simp_all add: patch_dir_def patch_list_def frame_simps split: option.split)

lemma children_ok_patch:
  "children_ok s \<Longrightarrow> children_ok (s\<lparr>ls_dir := patch_dir p (ls_dir s), ls_log := ls_log s @ [p]\<rparr>)"
  by (auto simp: children_ok_def patch_dir_children patched_from_patch patched_from_first split: option.splits)

text \<open>A step that leaves the cached listing alone keeps its history.\<close>

lemma children_ok_frame:
  "children_ok s \<Longrightarrow> dn_children (ls_dir s') = dn_children (ls_dir s) \<Longrightarrow> ls_log s' = ls_log s \<Longrightarrow>
     set (ls_results s) \<subseteq> set (ls_results s') \<Longrightarrow> children_ok s'"
  by (auto simp: children_ok_def intro: patched_from_results split: option.splits)

lemma running_simps [simp]:
  "running Spawned" "running (Fetching n g)" "\<not> running NoFetch" "\<not> running Finished"
  "\<not> running (Persisting n cs g)"
  by (simp_all add: running_def)

lemma loadResult_frame:
  "loadResult now d = (d', cs, e) \<Longrightarrow> \<exists>w. d' = d\<lparr>dn_lastWarned := w\<rparr>"
proof -
  assume "loadResult now d = (d', cs, e)"
  then have "d' = d \<or> d' = fst (logOncePerMinute now d)" by (auto simp: loadResult_def split: if_splits)
  then show ?thesis by (rule same_or_warned)
qed

lemma persistListing_frame:
  assumes "persistListing save n cs g (d, s) = (d', s')"
  shows "d' = d\<lparr>dn_persistedGen := max g (dn_persistedGen d)\<rparr>"
    "s' = (if g < dn_persistedGen d then s else save n cs s)"
  using assms by (auto simp: persistListing_def max_def split: if_splits)

lemma flushListing_frame:
  assumes "flushListing save (d, s) = (d', s')"
  shows "dn_children d' = dn_children d" "dn_gen d' = dn_gen d" "dn_loading d' = dn_loading d"
    "dn_fetches d' = dn_fetches d"
    "dn_persistedGen d' = dn_persistedGen d \<and> s' = s
      \<or> dn_persistedGen d \<le> dn_gen d \<and> dn_persistedGen d' = dn_gen d \<and> s' = save (dn_node d) (nil_list (dn_children d)) s
      \<or> dn_gen d < dn_persistedGen d \<and> dn_persistedGen d' = dn_persistedGen d \<and> s' = s"
  using assms by (auto simp: flushListing_def persistListing_def split: if_splits)

lemma small_frames [frame_simps]:
  "dn_children (discardListing d) = dn_children d" "dn_gen (discardListing d) = dn_gen d"
  "dn_loading (discardListing d) = dn_loading d" "dn_fetches (discardListing d) = dn_fetches d"
  "dn_persistedGen (discardListing d) = dn_persistedGen d"
  "dn_children (notifyEntries d) = dn_children d" "dn_gen (notifyEntries d) = dn_gen d"
  "dn_loading (notifyEntries d) = dn_loading d" "dn_fetches (notifyEntries d) = dn_fetches d"
  "dn_persistedGen (notifyEntries d) = dn_persistedGen d"
  "dn_children (dir_setNode n d) = dn_children d" "dn_gen (dir_setNode n d) = dn_gen d"
  "dn_loading (dir_setNode n d) = dn_loading d" "dn_fetches (dir_setNode n d) = dn_fetches d"
  "dn_persistedGen (dir_setNode n d) = dn_persistedGen d"
  by (simp_all add: discardListing_def notifyEntries_def dir_setNode_def)

lemma invalidate_frame:
  assumes "invalidate d = (d', names)"
  shows "dn_children d' = dn_children d" "dn_gen d' = dn_gen d" "dn_loading d' = dn_loading d"
    "dn_fetches d' = dn_fetches d" "dn_persistedGen d' = dn_persistedGen d"
  using assms by (auto simp: invalidate_def frame_simps Let_def split: if_splits)

lemma singleflight_ok_step: "listing_step s s' \<Longrightarrow> singleflight_ok s \<Longrightarrow> singleflight_ok s'"
proof (induction rule: listing_step.induct)
  case (call s c now limited disk d k r)
  from call(2) show ?case
    by (cases rule: load_begin_cases)
      (use call(1,3) in \<open>auto simp: singleflight_ok_def frame_simps spawn_def answer_def disk_cold_def
        less_Suc_eq split: if_splits\<close>)
next
  case (wake s c k now d cs e)
  then show ?case by (auto simp: singleflight_ok_def dest!: loadResult_frame split: if_splits)
next
  case (fetch_persist s k n cs g d saved)
  have "\<not> running (ls_fetch s k)" using fetch_persist(1) by simp
  then have "dn_loading (ls_dir s) \<noteq> Some k" using fetch_persist(3) unfolding singleflight_ok_def by blast
  then show ?case using fetch_persist
    by (auto simp: singleflight_ok_def dest!: persistListing_frame(1) split: if_splits)
next
  case (flush s d saved)
  then show ?case using flushListing_frame [OF flush(1)] by (auto simp: singleflight_ok_def)
next
  case (event s d names)
  then show ?case using invalidate_frame [OF event(1)] by (auto simp: singleflight_ok_def)
qed (auto simp: singleflight_ok_def frame_simps split: if_splits)

lemma gens_ok_step: "listing_step s s' \<Longrightarrow> gens_ok s \<Longrightarrow> gens_ok s'"
proof (induction rule: listing_step.induct)
  case (call s c now limited disk d k r)
  from call(2) show ?case
    by (cases rule: load_begin_cases)
      (use call(1,3) in \<open>auto simp: gens_ok_def frame_simps spawn_def split: if_splits\<close>)
next
  case (wake s c k now d cs e)
  then show ?case by (auto simp: gens_ok_def dest!: loadResult_frame)
next
  case (fetch_persist s k n cs g d saved)
  have g: "g \<le> length (ls_log s)" using fetch_persist(1,3) by (auto simp: gens_ok_def)
  show ?case using fetch_persist(1,3) persistListing_frame [OF fetch_persist(2)] g
    by (fastforce simp: gens_ok_def record_save_def sorted_append)
next
  case (flush s d saved)
  show ?case using flush(2) flushListing_frame [OF flush(1)]
    by (fastforce simp: gens_ok_def record_save_def sorted_append)
next
  case (event s d names)
  then show ?case using invalidate_frame [OF event(1)] by (auto simp: gens_ok_def)
next
  case (local_patch s p)
  then show ?case by (fastforce simp: gens_ok_def frame_simps)
qed (auto simp: gens_ok_def frame_simps split: if_splits)

lemma children_ok_step:
  assumes "listing_step s s'" "children_ok s" "gens_ok s"
  shows "children_ok s'"
  using assms
proof (induction rule: listing_step.induct)
  case (call s c now limited disk d k r)
  from call(2) show ?case
  proof (cases rule: load_begin_cases)
    case (disk cs)
    then show ?thesis using call(4)
      by (auto simp: children_ok_def frame_simps disk_results_def gens_ok_def intro!: patched_from_new)
  qed (use call(3) in \<open>auto intro!: children_ok_frame [of s] simp: frame_simps\<close>)
next
  case (wake s c k now d cs e)
  then show ?case by (auto intro!: children_ok_frame [of s] dest!: loadResult_frame)
next
  case (fetch_done s k n g now t cs)
  have g: "g \<le> length (ls_log s)" "dn_gen (ls_dir s) = length (ls_log s)"
    using fetch_done(1,3) by (auto simp: gens_ok_def)
  show ?case
  proof (cases "dn_children (ls_dir s)")
    case None
    then show ?thesis using fetch_done(2) g
      by (auto simp: children_ok_def finish_publish_children intro!: patched_from_cold [of g])
  next
    case (Some old)
    then show ?thesis using fetch_done(2) g
      by (auto simp: children_ok_def finish_publish_children intro: patched_from_new patched_from_results)
  qed
next
  case (fetch_persist s k n cs g d saved)
  then show ?case using persistListing_frame(1) [OF fetch_persist(2)] by (auto intro!: children_ok_frame [of s])
next
  case (flush s d saved)
  then show ?case using flushListing_frame(1) [OF flush(1)] by (auto intro!: children_ok_frame [of s])
next
  case (event s d names)
  then show ?case using invalidate_frame(1) [OF event(1)] by (auto intro!: children_ok_frame [of s])
next
  case (local_patch s p)
  then show ?case by (simp add: children_ok_patch)
qed (auto elim!: children_ok_frame simp: frame_simps finish_publish_children)

lemma listing_ok_step: "listing_step s s' \<Longrightarrow> listing_ok s \<Longrightarrow> listing_ok s'"
  by (simp add: listing_ok_def singleflight_ok_step gens_ok_step children_ok_step)

interpretation listing_runs: kept_invariant listing_step listing_ok
  by unfold_locales (rule listing_ok_step)

lemmas listing_reach_ok = listing_runs.along [folded listing_reach_def]

section \<open>Properties\<close>

text \<open>In every interleaving at most one fetch of a directory runs, and a caller is made to wait
  only for a fetch that runs: once it is over the caller can read its outcome.\<close>

theorem listing_singleflight:
  assumes "listing_init s" "listing_reach s s'"
  shows "(\<forall>k j. running (ls_fetch s' k) \<longrightarrow> running (ls_fetch s' j) \<longrightarrow> k = j)
    \<and> (\<forall>c k. ls_caller s' c = Waits k \<longrightarrow>
         k < dn_fetches (ls_dir s') \<and> (running (ls_fetch s' k) \<longleftrightarrow> dn_loading (ls_dir s') = Some k))"
proof -
  have "singleflight_ok s'"
    using assms listing_init_ok listing_reach_ok unfolding listing_ok_def by blast
  then show ?thesis unfolding singleflight_ok_def by fastforce
qed


text \<open>A short run for the witnesses: a call fetches, a patch lands meanwhile, the fetch ends.\<close>

definition lstate0 :: lstate where
  "lstate0 = \<lparr>ls_dir = new_dir demo_node (seconds 30), ls_fetch = (\<lambda>_. NoFetch), ls_caller = (\<lambda>_. Idle),
     ls_log = [], ls_results = [], ls_saved = []\<rparr>"

definition waiting1 :: lstate where
  "waiting1 = lstate0\<lparr>ls_dir := open_fetch (ls_dir lstate0), ls_fetch := (\<lambda>_. NoFetch)(0 := Spawned),
     ls_caller := (\<lambda>_. Idle)(0 := Waits 0)\<rparr>"

definition fetched1 :: lstate where
  "fetched1 = waiting1\<lparr>ls_dir := finish_publish 1 False 0 (Inr [demo_node]) (ls_dir waiting1),
     ls_fetch := (\<lambda>_. NoFetch)(0 := Persisting demo_node [demo_node] 0), ls_results := [(0, [demo_node])]\<rparr>"

lemma step_call1: "listing_step lstate0 waiting1"
proof -
  have "load_begin 1 False None (ls_dir lstate0) = (open_fetch (ls_dir lstate0), Some 0, Await 0)"
    by (simp add: load_begin_def serveFromDiskCache_def beginLoad_def fresh_def lstate0_def new_dir_def)
  from listing_step.call [OF _ this, of 0] show ?thesis
    by (simp add: waiting1_def spawn_def answer_def disk_results_def lstate0_def)
qed

lemma step_fetch1: "listing_reach waiting1 fetched1"
proof -
  let ?m = "waiting1\<lparr>ls_fetch := (\<lambda>_. NoFetch)(0 := Fetching demo_node 0)\<rparr>"
  have "listing_step waiting1 ?m"
    using listing_step.fetch_start [of waiting1 0]
    by (simp add: waiting1_def lstate0_def new_dir_def frame_simps)
  moreover have "listing_step ?m fetched1"
    using listing_step.fetch_done [where s="?m" and k=0 and n=demo_node and g=0 and now=1 and t=False and cs="[demo_node]"]
    by (simp add: waiting1_def lstate0_def fetched1_def)
  ultimately show ?thesis unfolding listing_reach_def by (meson r_into_rtranclp rtranclp_trans)
qed

lemma listing_init0: "listing_init lstate0"
  by (auto simp: listing_init_def lstate0_def)

lemma reach_fetched1: "listing_reach lstate0 fetched1"
  using step_call1 step_fetch1 unfolding listing_reach_def by (meson converse_rtranclp_into_rtranclp)

theorem listing_singleflight_witness:
  "ls_caller waiting1 0 = Waits 0 \<and> running (ls_fetch waiting1 0) = (dn_loading (ls_dir waiting1) = Some 0)"
proof -
  have "listing_reach lstate0 waiting1" using step_call1 unfolding listing_reach_def by blast
  moreover have "ls_caller waiting1 0 = Waits 0" by (simp add: waiting1_def)
  ultimately show ?thesis using listing_singleflight [OF listing_init0, of waiting1] by blast
qed


text \<open>A waiter whose fetch succeeded can be told that the directory is empty: when an event (or a
  handler) expires the listing between the end of the fetch and the waiter's look at it, \<open>loadResult\<close>
  returns a nil listing with errno 0, although the listing is cached.\<close>

theorem expiry_empties_listing:
  "\<exists>s. listing_reach lstate0 s \<and> ls_caller s 0 = Answered None OK \<and> dn_children (ls_dir s) = Some [demo_node]"
proof -
  let ?e = "fetched1\<lparr>ls_dir := expire (ls_dir fetched1)\<rparr>"
  have c: "dn_children (ls_dir fetched1) = Some [demo_node]" "dn_loadErrno (ls_dir fetched1) = OK"
    "dn_loading (ls_dir fetched1) = None" "ls_caller fetched1 0 = Waits 0"
    by (simp_all add: fetched1_def finish_publish_def publish_def shouldPublish_def waiting1_def lstate0_def new_dir_def
        open_fetch_def Let_def)
  have r: "loadResult 2 (ls_dir ?e) = (ls_dir ?e, None, OK)"
    using c by (simp add: loadResult_def fresh_def expire_def decideStale_def)
  have "listing_step fetched1 ?e" by (rule listing_step.expired)
  moreover have "listing_step ?e (?e\<lparr>ls_dir := ls_dir ?e, ls_caller := (ls_caller ?e)(0 := Answered None OK)\<rparr>)"
    by (rule listing_step.wake [of ?e 0 0, OF _ _ r]) (use c in \<open>simp_all add: expire_def\<close>)
  ultimately have "listing_reach lstate0 (?e\<lparr>ls_dir := ls_dir ?e, ls_caller := (ls_caller ?e)(0 := Answered None OK)\<rparr>)"
    using reach_fetched1 unfolding listing_reach_def by (meson rtranclp.rtrancl_into_rtrancl)
  moreover have "dn_children (ls_dir ?e) = Some [demo_node]" using c by (simp add: expire_def)
  ultimately show ?thesis by (intro exI [of _ "?e\<lparr>ls_dir := ls_dir ?e, ls_caller := (ls_caller ?e)(0 := Answered None OK)\<rparr>"]) simp
qed

end
