(* ===== verification/Mount_Registry.thy ===== *)
theory Mount_Registry
  imports Dir_Listing Drive_Events
begin

text \<open>
  The registry of live directories and last-known parents, and how a remote event reaches the cached
  listings (internal/fusefs/fusefs.go: \<open>register\<close> to \<open>parentsToInvalidate\<close>). Directory nodes live in a
  heap, \<open>mt_dirs\<close>, under numbers standing for \<open>*dirNode\<close>; \<open>mt_ids\<close> is \<open>st.dirs\<close>. The handlers' patches
  of a listing with their parent bookkeeping (\<open>upsertChild\<close>, \<open>removeChild\<close>) and the loads a handler
  makes are lifted to the mount here.
\<close>

record 's mount =
  mt_dirs :: "nat \<Rightarrow> dir"
  mt_ids :: "(string \<times> nat) list"
  mt_parentOf :: "string \<Rightarrow> string option"
  mt_store :: 's

section \<open>Registering\<close>

definition dirs_at :: "('s, 'a) mount_scheme \<Rightarrow> string \<Rightarrow> nat option" where
  "dirs_at m lid = map_of (mt_ids m) lid"

definition register :: "nat \<Rightarrow> ('s, 'a) mount_scheme \<Rightarrow> ('s, 'a) mount_scheme" where
  "register r m = m\<lparr>mt_ids := AList.update (linkID (mt_dirs m r)) r (mt_ids m)\<rparr>"

definition forgetChildrenLocked :: "string \<Rightarrow> node list \<Rightarrow> ('s, 'a) mount_scheme \<Rightarrow> ('s, 'a) mount_scheme" where
  "forgetChildrenLocked parentID children m =
     m\<lparr>mt_parentOf := (\<lambda>l. if l \<in> (\<lambda>ch. lk_id (nd_link ch)) ` set children \<and> mt_parentOf m l = Some parentID
                         then None else mt_parentOf m l)\<rparr>"

definition upd_dir :: "nat \<Rightarrow> (dir \<Rightarrow> dir) \<Rightarrow> ('s, 'a) mount_scheme \<Rightarrow> ('s, 'a) mount_scheme" where
  "upd_dir r f m = m\<lparr>mt_dirs := (mt_dirs m)(r := f (mt_dirs m r))\<rparr>"

definition flush_dir ::
    "(node \<Rightarrow> node list \<Rightarrow> 's \<Rightarrow> 's) \<Rightarrow> nat \<Rightarrow> ('s, 'a) mount_scheme \<Rightarrow> ('s, 'a) mount_scheme" where
  "flush_dir save r m =
     (case flushListing save (mt_dirs m r, mt_store m) of
        (d, s) \<Rightarrow> m\<lparr>mt_dirs := (mt_dirs m)(r := d), mt_store := s\<rparr>)"

text \<open>\<open>OnForget\<close>: the registered directory writes what is still waiting and goes, with its children's
  parent entries; one a newer directory replaced only drops its waiting write.\<close>

definition unregister ::
    "(node \<Rightarrow> node list \<Rightarrow> 's \<Rightarrow> 's) \<Rightarrow> nat \<Rightarrow> ('s, 'a) mount_scheme \<Rightarrow> ('s, 'a) mount_scheme" where
  "unregister save r m =
     (let lid = linkID (mt_dirs m r)
      in if dirs_at m lid \<noteq> Some r then upd_dir r discardListing m
         else let m1 = flush_dir save r m
              in forgetChildrenLocked lid (nil_list (listing (mt_dirs m1 r)))
                   (m1\<lparr>mt_ids := AList.delete lid (mt_ids m1)\<rparr>))"

definition forgetChildren :: "string \<Rightarrow> ('s, 'a) mount_scheme \<Rightarrow> ('s, 'a) mount_scheme" where
  "forgetChildren lid m =
     (case dirs_at m lid of
        None \<Rightarrow> m
      | Some r \<Rightarrow> forgetChildrenLocked lid (nil_list (listing (mt_dirs m r))) m)"

definition setParent :: "string \<Rightarrow> string \<Rightarrow> ('s, 'a) mount_scheme \<Rightarrow> ('s, 'a) mount_scheme" where
  "setParent child parent m = m\<lparr>mt_parentOf := (mt_parentOf m)(child \<mapsto> parent)\<rparr>"

definition oldParent :: "string \<Rightarrow> ('s, 'a) mount_scheme \<Rightarrow> string" where
  "oldParent child m = (case mt_parentOf m child of None \<Rightarrow> '''' | Some p \<Rightarrow> p)"

definition forgetParent :: "string \<Rightarrow> ('s, 'a) mount_scheme \<Rightarrow> ('s, 'a) mount_scheme" where
  "forgetParent child m = m\<lparr>mt_parentOf := (mt_parentOf m)(child := None)\<rparr>"

section \<open>Events\<close>

text \<open>What a background goroutine then tells the kernel: entries to drop, or content to drop.\<close>

datatype notice = DropEntries nat "string list" | DropContent nat string

definition invalidate_ref :: "nat \<Rightarrow> ('s, 'a) mount_scheme \<Rightarrow> ('s, 'a) mount_scheme \<times> notice list" where
  "invalidate_ref r m =
     (case invalidate (mt_dirs m r) of
        (d, names) \<Rightarrow> (m\<lparr>mt_dirs := (mt_dirs m)(r := d)\<rparr>,
                       (case names of None \<Rightarrow> [] | Some ns \<Rightarrow> [DropEntries r ns])))"

definition invalidateDir :: "string \<Rightarrow> ('s, 'a) mount_scheme \<Rightarrow> ('s, 'a) mount_scheme \<times> notice list" where
  "invalidateDir lid m = (case dirs_at m lid of None \<Rightarrow> (m, []) | Some r \<Rightarrow> invalidate_ref r m)"

fun invalidate_refs :: "nat list \<Rightarrow> ('s, 'a) mount_scheme \<Rightarrow> ('s, 'a) mount_scheme \<times> notice list" where
  "invalidate_refs [] m = (m, [])"
| "invalidate_refs (r # rs) m =
     (let (m1, ns1) = invalidate_ref r m; (m2, ns2) = invalidate_refs rs m1 in (m2, ns1 @ ns2))"

definition invalidateAll :: "('s, 'a) mount_scheme \<Rightarrow> ('s, 'a) mount_scheme \<times> notice list" where
  "invalidateAll m = invalidate_refs (map snd (mt_ids m)) m"

fun invalidateDirs :: "string list \<Rightarrow> ('s, 'a) mount_scheme \<Rightarrow> ('s, 'a) mount_scheme \<times> notice list" where
  "invalidateDirs [] m = (m, [])"
| "invalidateDirs (p # ps) m =
     (let (m1, ns1) = invalidateDir p m; (m2, ns2) = invalidateDirs ps m1 in (m2, ns1 @ ns2))"

definition invalidateFileContent :: "event \<Rightarrow> ('s, 'a) mount_scheme \<Rightarrow> notice list" where
  "invalidateFileContent ev m =
     (case dirs_at m (ev_parent ev) of
        None \<Rightarrow> []
      | Some r \<Rightarrow>
          (case List.find (\<lambda>ch. lk_id (nd_link ch) = ev_link ev) (nil_list (dn_children (mt_dirs m r))) of
             None \<Rightarrow> []
           | Some ch \<Rightarrow> [DropContent r (nd_name ch)]))"

abbreviation linkEventDelete :: nat where "linkEventDelete \<equiv> 0"
abbreviation linkEventUpdate :: nat where "linkEventUpdate \<equiv> 2"

definition handle :: "event \<Rightarrow> ('s, 'a) mount_scheme \<Rightarrow> ('s, 'a) mount_scheme \<times> notice list" where
  "handle ev m =
     (if ev_refresh ev then invalidateAll m
      else let (m1, ns) = invalidateDirs (parentsToInvalidate (ev_parent ev) (oldParent (ev_link ev) m)) m;
               ns2 = (if ev_type ev = linkEventUpdate \<and> \<not> ev_isDir ev then invalidateFileContent ev m1 else []);
               m2 = (if ev_type ev = linkEventDelete then forgetChildren (ev_link ev) (forgetParent (ev_link ev) m1) else m1)
           in (m2, ns @ ns2))"

section \<open>The handlers' view of one directory\<close>

definition set_parents :: "(string \<times> string) list \<Rightarrow> ('s, 'a) mount_scheme \<Rightarrow> ('s, 'a) mount_scheme" where
  "set_parents ps m = foldl (\<lambda>m (c, p). setParent c p m) m ps"

definition mt_load ::
    "'s load_env \<Rightarrow> nat \<Rightarrow> ('s, 'a) mount_scheme \<Rightarrow> ('s, 'a) mount_scheme \<times> node list option \<times> errno" where
  "mt_load le r m =
     (case load le (mt_dirs m r, mt_store m) of
        (d, s, ps, cs, e) \<Rightarrow> (set_parents ps (m\<lparr>mt_dirs := (mt_dirs m)(r := d), mt_store := s\<rparr>), cs, e))"

definition mt_find ::
    "'s load_env \<Rightarrow> nat \<Rightarrow> string \<Rightarrow> ('s, 'a) mount_scheme \<Rightarrow> ('s, 'a) mount_scheme \<times> node option \<times> errno" where
  "mt_find le r name m =
     (case findChild le name (mt_dirs m r, mt_store m) of
        (d, s, ps, n, e) \<Rightarrow> (set_parents ps (m\<lparr>mt_dirs := (mt_dirs m)(r := d), mt_store := s\<rparr>), n, e))"

definition mt_upsert :: "nat \<Rightarrow> node \<Rightarrow> ('s, 'a) mount_scheme \<Rightarrow> ('s, 'a) mount_scheme" where
  "mt_upsert r n m =
     setParent (lk_id (nd_link n)) (linkID (mt_dirs m r)) (upd_dir r (upsertChild n) m)"

definition mt_remove :: "nat \<Rightarrow> string \<Rightarrow> ('s, 'a) mount_scheme \<Rightarrow> ('s, 'a) mount_scheme" where
  "mt_remove r name m =
     (case removeChild name (mt_dirs m r) of
        (d, removed) \<Rightarrow>
          (let m1 = m\<lparr>mt_dirs := (mt_dirs m)(r := d)\<rparr>
           in case removed of None \<Rightarrow> m1 | Some n \<Rightarrow> forgetParent (lk_id (nd_link n)) m1))"

definition mt_expire :: "nat \<Rightarrow> ('s, 'a) mount_scheme \<Rightarrow> ('s, 'a) mount_scheme" where
  "mt_expire r m = upd_dir r expire m"

text \<open>At unmount, every listing still waiting out its delay is written.\<close>

definition flushListings ::
    "(node \<Rightarrow> node list \<Rightarrow> 's \<Rightarrow> 's) \<Rightarrow> nat list \<Rightarrow> ('s, 'a) mount_scheme \<Rightarrow> ('s, 'a) mount_scheme" where
  "flushListings save dirty m = foldl (\<lambda>m r. flush_dir save r m) m dirty"

text \<open>\<open>refreshNode\<close> on a directory: the node is swapped, the registration stays under the old link.\<close>

definition refresh_dir :: "nat \<Rightarrow> node \<Rightarrow> ('s, 'a) mount_scheme \<Rightarrow> ('s, 'a) mount_scheme" where
  "refresh_dir r n m = upd_dir r (dir_setNode n) m"

section \<open>Lemmas\<close>

lemma invalidate_ref_expires:
  "invalidate_ref r m = (m', ns) \<Longrightarrow>
     dn_expires (mt_dirs m' q) = (if q = r then None else dn_expires (mt_dirs m q))
     \<and> mt_ids m' = mt_ids m \<and> mt_parentOf m' = mt_parentOf m
     \<and> dn_children (mt_dirs m' q) = dn_children (mt_dirs m q) \<and> dn_node (mt_dirs m' q) = dn_node (mt_dirs m q)"
  by (auto simp: invalidate_ref_def invalidate_def expire_def Let_def split: prod.splits if_splits)

lemma invalidate_refs_expires:
  "invalidate_refs rs m = (m', ns) \<Longrightarrow>
     dn_expires (mt_dirs m' q) = (if q \<in> set rs then None else dn_expires (mt_dirs m q))
     \<and> mt_ids m' = mt_ids m \<and> mt_parentOf m' = mt_parentOf m
     \<and> dn_children (mt_dirs m' q) = dn_children (mt_dirs m q) \<and> dn_node (mt_dirs m' q) = dn_node (mt_dirs m q)"
proof (induction rs arbitrary: m m' ns)
  case (Cons r rs)
  obtain m1 ns1 where 1: "invalidate_ref r m = (m1, ns1)" by fastforce
  obtain m2 ns2 where 2: "invalidate_refs rs m1 = (m2, ns2)" by fastforce
  have "m' = m2" using Cons.prems 1 2 by simp
  then show ?case using Cons.IH [OF 2] invalidate_ref_expires [OF 1, of q] by auto
qed simp

lemma invalidateDir_refs:
  "invalidateDir lid m = invalidate_refs (case dirs_at m lid of None \<Rightarrow> [] | Some r \<Rightarrow> [r]) m"
  by (auto simp: invalidateDir_def split: option.split prod.split)

lemma invalidateDirs_expires:
  "invalidateDirs ids m = (m', ns) \<Longrightarrow>
     dn_expires (mt_dirs m' q) = (if \<exists>lid\<in>set ids. dirs_at m lid = Some q then None else dn_expires (mt_dirs m q))
     \<and> mt_ids m' = mt_ids m \<and> mt_parentOf m' = mt_parentOf m
     \<and> dn_children (mt_dirs m' q) = dn_children (mt_dirs m q) \<and> dn_node (mt_dirs m' q) = dn_node (mt_dirs m q)"
proof (induction ids arbitrary: m m' ns)
  case (Cons i ids)
  obtain m1 ns1 where 1: "invalidateDir i m = (m1, ns1)" by fastforce
  obtain m2 ns2 where 2: "invalidateDirs ids m1 = (m2, ns2)" by fastforce
  have "m' = m2" using Cons.prems 1 2 by simp
  moreover note r = invalidate_refs_expires [OF 1 [unfolded invalidateDir_refs], of q]
  then have "dirs_at m1 = dirs_at m" by (simp add: dirs_at_def [abs_def] fun_eq_iff)
  ultimately show ?case using Cons.IH [OF 2] r by (auto split: option.splits if_splits)
qed simp

lemma forget_frame [frame_simps]:
  "mt_dirs (forgetChildrenLocked l cs m) = mt_dirs m" "mt_ids (forgetChildrenLocked l cs m) = mt_ids m"
  "mt_dirs (forgetChildren l m) = mt_dirs m" "mt_ids (forgetChildren l m) = mt_ids m"
  "mt_dirs (forgetParent l m) = mt_dirs m" "mt_ids (forgetParent l m) = mt_ids m"
  by (simp_all add: forgetChildren_def forgetChildrenLocked_def forgetParent_def split: option.split)

lemma handle_cases:
  assumes "handle ev m = (m', ns)"
  shows "(\<exists>m1 ns1. (if ev_refresh ev then invalidateAll m
            else invalidateDirs (parentsToInvalidate (ev_parent ev) (oldParent (ev_link ev) m)) m) = (m1, ns1)
     \<and> mt_dirs m' = mt_dirs m1 \<and> mt_ids m' = mt_ids m1
     \<and> m' = (if \<not> ev_refresh ev \<and> ev_type ev = linkEventDelete
             then forgetChildren (ev_link ev) (forgetParent (ev_link ev) m1) else m1))"
  using assms by (auto simp: handle_def frame_simps Let_def split: prod.splits if_splits)

text \<open>The directories an event expires.\<close>

definition affected :: "event \<Rightarrow> ('s, 'a) mount_scheme \<Rightarrow> nat \<Rightarrow> bool" where
  "affected ev m q \<longleftrightarrow>
     (if ev_refresh ev then q \<in> snd ` set (mt_ids m)
      else \<exists>p\<in>set (parentsToInvalidate (ev_parent ev) (oldParent (ev_link ev) m)). dirs_at m p = Some q)"

section \<open>Properties\<close>

text \<open>A remote event expires exactly the listings it can have changed: the link's parent now and its
  last-known parent (every registered directory on a full refresh). The listings themselves stay for
  the stale-over-blocking rule, the registry stays, and a deleted link loses its parent entry.\<close>

theorem handle_expires_affected:
  assumes "handle ev m = (m', ns)"
  shows "dn_expires (mt_dirs m' q) = (if affected ev m q then None else dn_expires (mt_dirs m q))
    \<and> dn_children (mt_dirs m' q) = dn_children (mt_dirs m q) \<and> mt_ids m' = mt_ids m
    \<and> oldParent (ev_link ev) m'
        = (if \<not> ev_refresh ev \<and> ev_type ev = linkEventDelete then '''' else oldParent (ev_link ev) m)"
proof -
  obtain m1 ns1 where 1: "(if ev_refresh ev then invalidateAll m
      else invalidateDirs (parentsToInvalidate (ev_parent ev) (oldParent (ev_link ev) m)) m) = (m1, ns1)"
    and mm: "mt_dirs m' = mt_dirs m1" "mt_ids m' = mt_ids m1"
      "m' = (if \<not> ev_refresh ev \<and> ev_type ev = linkEventDelete
             then forgetChildren (ev_link ev) (forgetParent (ev_link ev) m1) else m1)"
    using handle_cases [OF assms] by blast
  have *: "dn_expires (mt_dirs m1 q) = (if affected ev m q then None else dn_expires (mt_dirs m q))
      \<and> mt_ids m1 = mt_ids m \<and> mt_parentOf m1 = mt_parentOf m
      \<and> dn_children (mt_dirs m1 q) = dn_children (mt_dirs m q)"
    using invalidate_refs_expires [of "map snd (mt_ids m)" m m1 ns1 q]
      invalidateDirs_expires [of "parentsToInvalidate (ev_parent ev) (oldParent (ev_link ev) m)" m m1 ns1 q] 1
    by (auto simp: affected_def invalidateAll_def split: if_splits)
  have "mt_parentOf m' (ev_link ev)
      = (if \<not> ev_refresh ev \<and> ev_type ev = linkEventDelete then None else mt_parentOf m1 (ev_link ev))"
    unfolding mm(3) by (auto simp: forgetChildren_def forgetChildrenLocked_def forgetParent_def split: option.split)
  then show ?thesis using * mm(1,2) by (simp add: oldParent_def)
qed

definition demo_mount :: "unit mount" where
  "demo_mount = \<lparr>mt_dirs = (\<lambda>_. (new_dir demo_node 30)\<lparr>dn_children := Some [], dn_expires := Some 9\<rparr>),
     mt_ids = [(''a'', 0), (''p'', 1)], mt_parentOf = [''f'' \<mapsto> ''p''], mt_store = ()\<rparr>"

definition demo_event :: "string \<Rightarrow> string \<Rightarrow> nat \<Rightarrow> event" where
  "demo_event l p t = \<lparr>ev_type = t, ev_link = l, ev_parent = p, ev_isDir = False, ev_refresh = False\<rparr>"

theorem handle_expires_affected_witness:
  "dn_expires (mt_dirs (fst (handle (demo_event ''f'' ''a'' 0) demo_mount)) 1) = None"
proof -
  have "affected (demo_event ''f'' ''a'' 0) demo_mount 1"
    by (simp add: affected_def demo_event_def demo_mount_def parentsToInvalidate_def oldParent_def dirs_at_def)
  then show ?thesis
    using handle_expires_affected [of "demo_event ''f'' ''a'' 0" demo_mount _ _ 1, OF prod.collapse [symmetric]] by simp
qed

text \<open>A folder deleted and made again under its name while its inode lives keeps the registration of
  its old link: \<open>refreshNode\<close> only swaps the node. Events for the new link no longer expire its
  listing, and \<open>OnForget\<close> leaves the old entry in the registry for good.\<close>

theorem recreated_folder_is_deaf:
  assumes "dirs_at m old = Some r" "linkID (mt_dirs m r) = old" "lk_id (nd_link n) = new" "dirs_at m new = None"
    and "ev_parent ev = new" "\<not> ev_refresh ev" "oldParent (ev_link ev) m \<in> {'''', new}"
  shows "dn_expires (mt_dirs (fst (handle ev (refresh_dir r n m))) r) = dn_expires (mt_dirs m r)
    \<and> linkID (mt_dirs (refresh_dir r n m) r) = new
    \<and> dirs_at (unregister save r (refresh_dir r n m)) old = Some r"
proof -
  let ?m = "refresh_dir r n m"
  have f: "mt_ids ?m = mt_ids m" "mt_parentOf ?m = mt_parentOf m" "linkID (mt_dirs ?m r) = new"
      "dn_expires (mt_dirs ?m r) = dn_expires (mt_dirs m r)"
    using assms(3) by (simp_all add: refresh_dir_def upd_dir_def dir_setNode_def linkID_def)
  have at: "dirs_at ?m = dirs_at m" using f(1) by (simp add: dirs_at_def [abs_def])
  have "set (parentsToInvalidate (ev_parent ev) (oldParent (ev_link ev) ?m)) \<subseteq> {new}"
    using assms(5,7) f(2) by (auto simp: parentsToInvalidate_def oldParent_def)
  then have "\<not> affected ev ?m r" using assms(4,6) at by (auto simp: affected_def)
  then have "dn_expires (mt_dirs (fst (handle ev ?m)) r) = dn_expires (mt_dirs m r)"
    using handle_expires_affected [of ev ?m _ _ r, OF prod.collapse [symmetric]] f(4) by simp
  moreover have "unregister save r ?m = upd_dir r discardListing ?m"
    using f(3) at assms(4) by (simp add: unregister_def)
  ultimately show ?thesis using f at assms(1) by (simp add: upd_dir_def dirs_at_def)
qed

theorem recreated_folder_is_deaf_witness:
  "dn_expires (mt_dirs (fst (handle (demo_event ''g'' ''new'' 1)
     (refresh_dir 0 (demo_node\<lparr>nd_link := (demo_link ''new'' LinkStateActive)\<rparr>) demo_mount))) 0) = Some 9"
  using recreated_folder_is_deaf [of demo_mount "''a''" 0 "demo_node\<lparr>nd_link := (demo_link ''new'' LinkStateActive)\<rparr>"
    "''new''" "demo_event ''g'' ''new'' 1" "\<lambda>n cs s. s"]
  by (simp add: demo_mount_def dirs_at_def linkID_def new_dir_def demo_node_def newNode_def demo_link_def demo_event_def
      oldParent_def)

end
