(* ===== verification/Local_Store.thy ===== *)
theory Local_Store
  imports Mount_State "HOL-Library.AList"
begin

text \<open>
  The local store (internal/fusefs/fusefs.go: \<open>openLocalStore\<close>, \<open>moveLocal\<close>, \<open>removeLocalMirror\<close>): a
  directory on local disk that mirrors the mount's tree and holds what has an excluded name. It is a
  list of entries by their path from the mount point; the system calls the code makes on it (lstat,
  mkdir, open with O_CREAT and O_TRUNC, unlink, rmdir, rename) follow their POSIX behaviour.
\<close>

section \<open>Entries and system calls\<close>

datatype local_entry = LFile bytes | LDir

type_synonym store = "(string \<times> local_entry) list"

definition lstat :: "string \<Rightarrow> store \<Rightarrow> local_entry option" where
  "lstat p l = map_of l p"

definition is_file :: "local_entry \<Rightarrow> bool" where
  "is_file e \<longleftrightarrow> e \<noteq> LDir"

text \<open>Strictly inside a directory.\<close>

definition inside :: "string \<Rightarrow> string \<Rightarrow> bool" where
  "inside p q \<longleftrightarrow> prefix (p @ ''/'') q"

definition has_entries :: "string \<Rightarrow> store \<Rightarrow> bool" where
  "has_entries p l \<longleftrightarrow> list_ex (inside p) (map fst l)"

text \<open>The directories above a path, outermost first; the store's own root is always there.\<close>

definition ancestors :: "string \<Rightarrow> string list" where
  "ancestors p = (let cs = split_on (CHR ''/'') p in map (\<lambda>i. join_with ''/'' (take i cs)) [1..<length cs])"

text \<open>\<open>os.MkdirAll(filepath.Dir(p))\<close>.\<close>

fun mkdirs :: "string list \<Rightarrow> store \<Rightarrow> store \<times> errno" where
  "mkdirs [] l = (l, OK)"
| "mkdirs (a # as) l =
     (case lstat a l of
        None \<Rightarrow> mkdirs as (AList.update a LDir l)
      | Some LDir \<Rightarrow> mkdirs as l
      | Some (LFile x) \<Rightarrow> (l, ENOTDIR))"

definition mkdir_parents :: "string \<Rightarrow> store \<Rightarrow> store \<times> errno" where
  "mkdir_parents p l = mkdirs (ancestors p) l"

definition sys_mkdir :: "string \<Rightarrow> store \<Rightarrow> store \<times> errno" where
  "sys_mkdir p l = (if lstat p l \<noteq> None then (l, EEXIST) else (AList.update p LDir l, OK))"

definition sys_creat :: "string \<Rightarrow> store \<Rightarrow> store \<times> errno" where
  "sys_creat p l = (if lstat p l = Some LDir then (l, EISDIR) else (AList.update p (LFile []) l, OK))"

definition sys_unlink :: "string \<Rightarrow> store \<Rightarrow> store \<times> errno" where
  "sys_unlink p l =
     (case lstat p l of None \<Rightarrow> (l, ENOENT) | Some LDir \<Rightarrow> (l, EISDIR) | Some (LFile x) \<Rightarrow> (AList.delete p l, OK))"

definition sys_rmdir :: "string \<Rightarrow> store \<Rightarrow> store \<times> errno" where
  "sys_rmdir p l =
     (case lstat p l of
        None \<Rightarrow> (l, ENOENT)
      | Some (LFile x) \<Rightarrow> (l, ENOTDIR)
      | Some LDir \<Rightarrow> if has_entries p l then (l, ENOTEMPTY) else (AList.delete p l, OK))"

text \<open>The entry and everything inside it change their path; what was at the destination is replaced.\<close>

definition moved_path :: "string \<Rightarrow> string \<Rightarrow> string \<Rightarrow> string" where
  "moved_path src dst p = (if p = src then dst else if inside src p then dst @ drop (length src) p else p)"

definition move_entries :: "string \<Rightarrow> string \<Rightarrow> store \<Rightarrow> store" where
  "move_entries src dst l = map (\<lambda>(p, e). (moved_path src dst p, e)) (AList.delete dst l)"

definition sys_rename :: "string \<Rightarrow> string \<Rightarrow> store \<Rightarrow> store \<times> errno" where
  "sys_rename src dst l =
     (case lstat src l of
        None \<Rightarrow> (l, ENOENT)
      | Some e \<Rightarrow>
          if src = dst then (l, OK)
          else if inside src dst then (l, EINVAL)
          else (case lstat dst l of
                  None \<Rightarrow> (move_entries src dst l, OK)
                | Some d \<Rightarrow>
                    if is_file e \<and> \<not> is_file d then (l, EISDIR)
                    else if \<not> is_file e \<and> is_file d then (l, ENOTDIR)
                    else if \<not> is_file d \<and> has_entries dst l then (l, ENOTEMPTY)
                    else (move_entries src dst l, OK)))"

definition remove_all :: "string \<Rightarrow> store \<Rightarrow> store" where
  "remove_all p l = filter (\<lambda>(q, e). q \<noteq> p \<and> \<not> inside p q) l"

section \<open>The store's own operations\<close>

text \<open>\<open>localDir\<close>: a path in the store, when there is one.\<close>

definition localDir :: "bool \<Rightarrow> string \<Rightarrow> string option" where
  "localDir has_store rel = (if has_store then Some rel else None)"

definition moveLocal :: "bool \<Rightarrow> string \<Rightarrow> string \<Rightarrow> store \<Rightarrow> store" where
  "moveLocal has_store from dest l =
     (case (localDir has_store from, localDir has_store dest) of
        (Some src, Some dst) \<Rightarrow>
          if lstat src l = None then l
          else (case mkdir_parents dst l of
                  (l1, OK) \<Rightarrow> fst (sys_rename src dst l1)
                | (l1, _) \<Rightarrow> l1)
      | _ \<Rightarrow> l)"

text \<open>Anything but folders that only mirror the drive's makes the local copy of a folder non-empty.\<close>

definition local_only :: "(string \<Rightarrow> bool) \<Rightarrow> string \<Rightarrow> string \<times> local_entry \<Rightarrow> bool" where
  "local_only excl dir = (\<lambda>(p, e). inside dir p \<and> (is_file e \<or> excl (path_base p)))"

definition removeLocalMirror :: "(string \<Rightarrow> bool) \<Rightarrow> string \<Rightarrow> store \<Rightarrow> store \<times> errno" where
  "removeLocalMirror excl dir l =
     (if lstat dir l = None then (l, OK)
      else if list_ex (local_only excl dir) l then (l, ENOTEMPTY)
      else (remove_all dir l, OK))"

end
