(* ===== verification/File_Handle.thy ===== *)
theory File_Handle
  imports Mount_Registry Local_Store
begin

text \<open>
  Write buffers (internal/fusefs/fusefs.go: \<open>fileNode\<close>, \<open>fileHandle\<close>): the temp file a written file
  lives in until it is uploaded, how a closed buffer is parked, taken back, retried, moved out of the
  way or dropped, and \<open>Release\<close>, cut where it waits (for the files it replaced, for an upload slot, for
  the upload) so that \<open>Handle_Steps\<close> can interleave it with everything else. File nodes, handles and
  temp files live in heaps under numbers standing for their pointers; the inode tree is \<open>wd_tree\<close>.
  What the file system refuses is \<open>buffer_io\<close>, what the drive answers is \<open>drive_env\<close>; every write to the
  drive is recorded in \<open>wd_calls\<close>.
\<close>

section \<open>State\<close>

record fnode =
  fn_node :: "node option"
  fn_parent :: nat
  fn_name :: string
  fn_handle :: "nat option"
  fn_pinned :: bool
  fn_replaces :: "nat option"
  fn_busy :: bool

record fhandle =
  fh_file :: nat
  fh_tmp :: "nat option"
  fh_dirty :: bool
  fh_owns :: bool
  fh_parked :: bool
  fh_timer :: "nanos option"
  fh_due :: bool
  fh_retryIn :: nanos
  fh_failed :: bool
  fh_gone :: bool

record tmpfile =
  tf_data :: bytes
  tf_there :: bool

datatype inode = IFile nat | IDir nat

datatype drive_call =
    DUpload string nat "string option" bytes
  | DTrash string
  | DMove string nat string
  | DMkdir nat string

record 's world = "'s mount" +
  wd_files :: "nat \<Rightarrow> fnode"
  wd_handles :: "nat \<Rightarrow> fhandle"
  wd_tmps :: "nat \<Rightarrow> tmpfile"
  wd_tree :: "nat \<Rightarrow> string \<Rightarrow> inode option"
  wd_delayed :: "nat list"
  wd_kept :: "nat list"
  wd_unsaved :: "(string \<times> bytes) list"
  wd_local :: store
  wd_closing :: bool
  wd_counters :: counters
  wd_recent :: "recentTransfer list"
  wd_sem :: sem
  wd_now :: nanos
  wd_calls :: "drive_call list"

text \<open>The mount's fixed settings: the exclusion and delay rules, whether there is a local store, the
  path of each folder in the tree.\<close>

record config =
  mc_excluded :: "string \<Rightarrow> bool"
  mc_delayFor :: "string \<Rightarrow> nanos"
  mc_local :: bool
  mc_path :: "nat \<Rightarrow> string"
  mc_opTimeout :: nanos

text \<open>What each call into the local file system reports: \<open>True\<close> is a failure.\<close>

datatype local_result = LocalOk | LocalNotOpened | LocalCopyFailed

record buffer_io =
  io_create :: bool
  io_stat :: bool
  io_seek :: bool
  io_unsaved :: bool
  io_local :: local_result

definition upd_file :: "nat \<Rightarrow> (fnode \<Rightarrow> fnode) \<Rightarrow> 's world \<Rightarrow> 's world" where
  "upd_file f g w = w\<lparr>wd_files := (wd_files w)(f := g (wd_files w f))\<rparr>"

definition upd_handle :: "nat \<Rightarrow> (fhandle \<Rightarrow> fhandle) \<Rightarrow> 's world \<Rightarrow> 's world" where
  "upd_handle h g w = w\<lparr>wd_handles := (wd_handles w)(h := g (wd_handles w h))\<rparr>"

definition upd_tmp :: "nat \<Rightarrow> (tmpfile \<Rightarrow> tmpfile) \<Rightarrow> 's world \<Rightarrow> 's world" where
  "upd_tmp t g w = w\<lparr>wd_tmps := (wd_tmps w)(t := g (wd_tmps w t))\<rparr>"

definition file_of :: "'s world \<Rightarrow> nat \<Rightarrow> fnode" where
  "file_of w h = wd_files w (fh_file (wd_handles w h))"

text \<open>\<open>displayPath\<close> of a file node.\<close>

definition file_path :: "config \<Rightarrow> 's world \<Rightarrow> nat \<Rightarrow> string" where
  "file_path cfg w f = path_join [mc_path cfg (fn_parent (wd_files w f)), fn_name (wd_files w f)]"

section \<open>Tracking, parking, letting go\<close>

definition trackIn :: "nat \<Rightarrow> bool \<Rightarrow> nat list \<Rightarrow> nat list" where
  "trackIn h on hs = (if on then List.insert h hs else removeAll h hs)"

definition trackDelayed :: "nat \<Rightarrow> bool \<Rightarrow> 's world \<Rightarrow> 's world" where
  "trackDelayed h on w = w\<lparr>wd_delayed := trackIn h on (wd_delayed w)\<rparr>"

definition trackKept :: "nat \<Rightarrow> bool \<Rightarrow> 's world \<Rightarrow> 's world" where
  "trackKept h on w = w\<lparr>wd_kept := trackIn h on (wd_kept w)\<rparr>"

definition park :: "nat \<Rightarrow> nat \<Rightarrow> nanos \<Rightarrow> 's world \<Rightarrow> 's world" where
  "park h tmp delay w =
     (let w1 = upd_handle h (\<lambda>x. x\<lparr>fh_tmp := Some tmp, fh_parked := True\<rparr>) w
      in if delay \<le> 0 then trackKept h True w1
         else upd_handle h (\<lambda>x. x\<lparr>fh_timer := Some delay\<rparr>) (trackDelayed h True w1))"

definition unpin :: "nat \<Rightarrow> 's world \<Rightarrow> 's world" where
  "unpin f w = upd_file f (\<lambda>x. x\<lparr>fn_pinned := False\<rparr>) w"

definition detach :: "nat \<Rightarrow> 's world \<Rightarrow> 's world" where
  "detach h w =
     (let f = fh_file (wd_handles w h);
          w1 = upd_handle h (\<lambda>x. x\<lparr>fh_tmp := None\<rparr>) w
      in if fn_handle (wd_files w1 f) = Some h
         then unpin f (upd_file f (\<lambda>x. x\<lparr>fn_handle := None\<rparr>) w1)
         else w1)"

definition remove_tmp :: "nat \<Rightarrow> 's world \<Rightarrow> 's world" where
  "remove_tmp t w = upd_tmp t (\<lambda>x. x\<lparr>tf_there := False\<rparr>) w"

definition drop_buffer :: "nat \<Rightarrow> nat \<Rightarrow> 's world \<Rightarrow> 's world" where
  "drop_buffer h tmp w = remove_tmp tmp (detach h w)"

definition unsavedNameMax :: nat where "unsavedNameMax = 200"

text \<open>\<open>utf8.RuneStart\<close>: not a continuation byte.\<close>

definition rune_start :: "char \<Rightarrow> bool" where
  "rune_start c \<longleftrightarrow> \<not> (128 \<le> (of_char c :: nat) \<and> (of_char c :: nat) < 192)"

fun cut_back :: "string \<Rightarrow> nat \<Rightarrow> nat" where
  "cut_back name 0 = 0"
| "cut_back name (Suc n) = (if rune_start (name ! Suc n) then Suc n else cut_back name n)"

definition truncateName :: "string \<Rightarrow> nat \<Rightarrow> string" where
  "truncateName name n = (if length name \<le> n then name else take (cut_back name n) name)"

definition keepUnsaved :: "config \<Rightarrow> buffer_io \<Rightarrow> nat \<Rightarrow> nat \<Rightarrow> 's world \<Rightarrow> 's world" where
  "keepUnsaved cfg bio h tmp w =
     (let where_to = file_path cfg w (fh_file (wd_handles w h));
          w1 = detach h w
      in if io_unsaved bio then w1
         else remove_tmp tmp (w1\<lparr>wd_unsaved := wd_unsaved w1
                @ [(truncateName (path_base where_to) unsavedNameMax, tf_data (wd_tmps w1 tmp))]\<rparr>))"

definition keepLocal :: "config \<Rightarrow> buffer_io \<Rightarrow> nat \<Rightarrow> nat \<Rightarrow> 's world \<Rightarrow> 's world" where
  "keepLocal cfg bio h tmp w =
     (let dst = file_path cfg w (fh_file (wd_handles w h));
          w1 = detach h w;
          data = tf_data (wd_tmps w1 tmp);
          (l1, e1) = mkdir_parents dst (wd_local w1);
          (l2, e2) = (if e1 \<noteq> OK then (l1, e1) else if io_local bio = LocalNotOpened then (l1, EIO) else sys_creat dst l1);
          l3 = (if e2 \<noteq> OK then l2 else if io_local bio = LocalOk then AList.update dst (LFile data) l2 else AList.delete dst l2)
      in remove_tmp tmp (w1\<lparr>wd_local := l3\<rparr>))"

definition discard :: "config \<Rightarrow> buffer_io \<Rightarrow> nat \<Rightarrow> nat \<Rightarrow> 's world \<Rightarrow> 's world" where
  "discard cfg bio h tmp w =
     (if fh_failed (wd_handles w h) then keepUnsaved cfg bio h tmp w else drop_buffer h tmp w)"

definition uploadRetryDelay :: nanos where "uploadRetryDelay = seconds 30"
definition uploadRetryMax :: nanos where "uploadRetryMax = minutes 30"

definition next_retry :: "nanos \<Rightarrow> nanos" where
  "next_retry r = min (max (2 * r) uploadRetryDelay) uploadRetryMax"

definition keepForRetry :: "config \<Rightarrow> buffer_io \<Rightarrow> nat \<Rightarrow> nat \<Rightarrow> go_error \<Rightarrow> 's world \<Rightarrow> 's world" where
  "keepForRetry cfg bio h tmp err w =
     (if fh_gone (wd_handles w h) then discard cfg bio h tmp w
      else if wd_closing w then keepUnsaved cfg bio h tmp w
      else if permanentUploadError (Some err) then park h tmp 0 (upd_handle h (\<lambda>x. x\<lparr>fh_failed := True\<rparr>) w)
      else let delay = next_retry (fh_retryIn (wd_handles w h))
           in park h tmp delay (upd_handle h (\<lambda>x. x\<lparr>fh_retryIn := delay\<rparr>) w))"

text \<open>\<open>unpark\<close>, and the part of \<open>settle\<close> before its \<open>Release\<close>.\<close>

definition unpark :: "bool \<Rightarrow> nat \<Rightarrow> 's world \<Rightarrow> 's world \<times> bool" where
  "unpark dirty h w =
     (if \<not> fh_parked (wd_handles w h) then (w, False)
      else let timer = fh_timer (wd_handles w h);
               w1 = upd_handle h (\<lambda>x. x\<lparr>fh_parked := False, fh_dirty := dirty, fh_timer := None,
                      fh_retryIn := (if dirty then 0 else fh_retryIn x), fh_failed := (fh_failed x \<and> \<not> dirty)\<rparr>) w
           in (if timer = None then trackKept h False w1 else trackDelayed h False w1, True))"

definition settle_take :: "nat \<Rightarrow> 's world \<Rightarrow> 's world \<times> bool" where
  "settle_take h w =
     (if \<not> fh_parked (wd_handles w h) \<or> fh_timer (wd_handles w h) = None then (w, False)
      else (trackDelayed h False (upd_handle h (\<lambda>x. x\<lparr>fh_parked := False, fh_timer := None, fh_dirty := True, fh_due := True\<rparr>) w), True))"

definition abandon :: "config \<Rightarrow> buffer_io \<Rightarrow> nat \<Rightarrow> 's world \<Rightarrow> 's world" where
  "abandon cfg bio h w =
     (if \<not> fh_parked (wd_handles w h) then w
      else case fh_tmp (wd_handles w h) of
             None \<Rightarrow> w
           | Some tmp \<Rightarrow>
               (let timer = fh_timer (wd_handles w h); failed = fh_failed (wd_handles w h);
                    w1 = trackDelayed h False (trackKept h False
                           (upd_handle h (\<lambda>x. x\<lparr>fh_parked := False, fh_timer := None\<rparr>) w))
                in if timer = None \<and> \<not> failed
                   then (if mc_local cfg \<and> mc_excluded cfg (fn_name (file_of w h)) then keepLocal cfg bio h tmp w1
                         else drop_buffer h tmp w1)
                   else keepUnsaved cfg bio h tmp w1))"

section \<open>Release up to its first wait\<close>

record job =
  jb_handle :: nat
  jb_tmp :: nat
  jb_name :: string
  jb_parent :: nat
  jb_existing :: "node option"
  jb_data :: bytes

definition jb_file :: "'s world \<Rightarrow> job \<Rightarrow> nat" where
  "jb_file w j = fh_file (wd_handles w (jb_handle j))"

definition jb_path :: "config \<Rightarrow> job \<Rightarrow> string" where
  "jb_path cfg j = path_join [mc_path cfg (jb_parent j), jb_name j]"

text \<open>A handle without a buffer or with a borrowed one is done at once; an owned buffer is let go of,
  parked, or becomes an upload job.\<close>

datatype release_next = Released errno | Ready job

definition release_begin ::
    "config \<Rightarrow> buffer_io \<Rightarrow> nat \<Rightarrow> 's world \<Rightarrow> 's world \<times> release_next" where
  "release_begin cfg bio h w =
     (let x = wd_handles w h;
          w0 = upd_handle h (\<lambda>y. y\<lparr>fh_due := False, fh_tmp := (if fh_owns y then fh_tmp y else None)\<rparr>) w
      in case fh_tmp x of
           None \<Rightarrow> (w0, Released OK)
         | Some tmp \<Rightarrow>
             if \<not> fh_owns x then (w0, Released OK)
             else
               (let f = wd_files w0 (fh_file x); name = fn_name f
                in if fh_gone x then (discard cfg bio h tmp w0, Released OK)
                   else if fh_dirty x \<and> mc_excluded cfg name then (park h tmp 0 w0, Released OK)
                   else if fh_dirty x \<and> \<not> fh_due x \<and> 0 < mc_delayFor cfg name
                        then (park h tmp (mc_delayFor cfg name) w0, Released OK)
                   else if \<not> fh_dirty x then (drop_buffer h tmp w0, Released OK)
                   else if io_stat bio then (keepForRetry cfg bio h tmp (ErrMsg ''stat'') w0, Released EIO)
                   else if io_seek bio then (keepForRetry cfg bio h tmp (ErrMsg ''seek'') w0, Released EIO)
                   else (w0, Ready \<lparr>jb_handle = h, jb_tmp = tmp, jb_name = name, jb_parent = fn_parent f,
                                     jb_existing = fn_node f, jb_data = tf_data (wd_tmps w0 tmp)\<rparr>)))"

text \<open>The counters and the semaphore.\<close>

definition count_queued :: "'s world \<Rightarrow> 's world" where
  "count_queued w = w\<lparr>wd_counters := (wd_counters w)\<lparr>cn_queued := cn_queued (wd_counters w) + 1\<rparr>\<rparr>"

definition count_failed :: "'s world \<Rightarrow> 's world" where
  "count_failed w = w\<lparr>wd_counters := (wd_counters w)\<lparr>cn_failed := cn_failed (wd_counters w) + 1\<rparr>\<rparr>"

definition count_done :: "'s world \<Rightarrow> 's world" where
  "count_done w = w\<lparr>wd_counters := (wd_counters w)\<lparr>cn_done := cn_done (wd_counters w) + 1\<rparr>\<rparr>"

definition take_slot :: "'s world \<Rightarrow> 's world" where
  "take_slot w = w\<lparr>wd_sem := sem_acquire (wd_sem w)\<rparr>"

definition free_slot :: "'s world \<Rightarrow> 's world" where
  "free_slot w = w\<lparr>wd_sem := sem_release (wd_sem w)\<rparr>"

definition set_busy :: "bool \<Rightarrow> nat \<Rightarrow> 's world \<Rightarrow> 's world" where
  "set_busy b f w = upd_file f (\<lambda>x. x\<lparr>fn_busy := b\<rparr>) w"

definition record_upload :: "config \<Rightarrow> job \<Rightarrow> string \<Rightarrow> string \<Rightarrow> 's world \<Rightarrow> 's world" where
  "record_upload cfg j st msg w =
     w\<lparr>wd_recent := recordFinished \<lparr>rt_path = jb_path cfg j, rt_action = ''upload'', rt_status = st,
         rt_bytes = int (length (jb_data j)), rt_finished = wd_now w, rt_err = msg\<rparr> (wd_recent w)\<rparr>"

text \<open>\<open>awaitReplaced\<close> has ended and \<open>uploadMu\<close> is free: the second look at \<open>gone\<close>, then the queue.\<close>

definition release_lock :: "config \<Rightarrow> buffer_io \<Rightarrow> job \<Rightarrow> 's world \<Rightarrow> 's world \<times> errno option" where
  "release_lock cfg bio j w =
     (if fh_gone (wd_handles w (jb_handle j)) then (discard cfg bio (jb_handle j) (jb_tmp j) w, Some OK)
      else (count_queued (set_busy True (jb_file w j) w), None))"

definition release_cancelled :: "config \<Rightarrow> buffer_io \<Rightarrow> go_error \<Rightarrow> job \<Rightarrow> 's world \<Rightarrow> 's world \<times> errno" where
  "release_cancelled cfg bio err j w =
     (set_busy False (jb_file w j) (keepForRetry cfg bio (jb_handle j) (jb_tmp j) err (count_failed w)), EINTR)"

definition release_failed ::
    "config \<Rightarrow> buffer_io \<Rightarrow> bool \<Rightarrow> go_error \<Rightarrow> string \<Rightarrow> job \<Rightarrow> 's world \<Rightarrow> 's world \<times> errno" where
  "release_failed cfg bio timed_out err msg j w =
     (set_busy False (jb_file w j) (free_slot
        (keepForRetry cfg bio (jb_handle j) (jb_tmp j) err (record_upload cfg j ''failed'' msg (count_failed w)))),
      if timed_out then ETIMEDOUT else EIO)"

section \<open>Moving a link on the drive\<close>

record 's drive_env =
  de_load :: "'s load_env"
  de_trash :: "node \<Rightarrow> go_error option"
  de_move :: "node \<Rightarrow> nat \<Rightarrow> string \<Rightarrow> go_error + node"
  de_timedOut :: bool

definition drive_log :: "drive_call \<Rightarrow> 's world \<Rightarrow> 's world" where
  "drive_log c w = w\<lparr>wd_calls := wd_calls w @ [c]\<rparr>"

definition fileChild :: "'s world \<Rightarrow> nat \<Rightarrow> string \<Rightarrow> nat option" where
  "fileChild w d name = (case wd_tree w d name of Some (IFile f) \<Rightarrow> Some f | _ \<Rightarrow> None)"

definition unlinkTrashed :: "nat \<Rightarrow> string \<Rightarrow> node option \<Rightarrow> 's world \<Rightarrow> 's world" where
  "unlinkTrashed d name trashed w =
     (case trashed of
        None \<Rightarrow> w
      | Some t \<Rightarrow>
          (case fileChild w d name of
             None \<Rightarrow> w
           | Some f \<Rightarrow>
               (case (fn_handle (wd_files w f), fn_node (wd_files w f)) of
                  (Some h, Some n) \<Rightarrow>
                    if lk_id (nd_link n) \<noteq> lk_id (nd_link t) then w
                    else upd_file f (\<lambda>x. x\<lparr>fn_node := None\<rparr>) w
                | _ \<Rightarrow> w)))"

text \<open>The destination goes to the trash first, then the link moves.\<close>

definition trash_destination ::
    "'s drive_env \<Rightarrow> node \<Rightarrow> nat \<Rightarrow> string \<Rightarrow> 's world \<Rightarrow> 's world \<times> (errno + node option)" where
  "trash_destination de target newDir newName w =
     (case mt_find (de_load de) newDir newName w of
        (w1, Some existing, OK) \<Rightarrow>
          if lk_id (nd_link existing) = lk_id (nd_link target) then (w1, Inr None)
          else (let w2 = drive_log (DTrash (lk_id (nd_link existing))) w1
                in case de_trash de existing of
                     Some e \<Rightarrow> (w2, Inl EIO)
                   | None \<Rightarrow> (mt_remove newDir newName w2, Inr (Some existing)))
      | (w1, _) \<Rightarrow> (w1, Inr None))"

definition moveLink ::
    "'s drive_env \<Rightarrow> nat \<Rightarrow> node \<Rightarrow> string \<Rightarrow> nat \<Rightarrow> string \<Rightarrow> 's world \<Rightarrow> 's world \<times> (errno + node)" where
  "moveLink de d target name newDir newName w =
     (case trash_destination de target newDir newName w of
        (w1, Inl e) \<Rightarrow> (w1, Inl e)
      | (w1, Inr trashed) \<Rightarrow>
          (let w2 = drive_log (DMove (lk_id (nd_link target)) newDir newName) w1
           in case de_move de target newDir newName of
                Inl e \<Rightarrow> (unlinkTrashed newDir newName trashed w2, Inl (if de_timedOut de then ETIMEDOUT else EIO))
              | Inr moved \<Rightarrow> (mt_upsert newDir moved (mt_remove d name w2), Inr moved)))"

section \<open>Release after the upload\<close>

definition claim :: "nat \<Rightarrow> nat \<Rightarrow> node option \<Rightarrow> 's world \<Rightarrow> 's world \<times> bool" where
  "claim f h n w =
     (if fh_gone (wd_handles w h) then (w, False)
      else (upd_file f (\<lambda>x. x\<lparr>fn_node := (if n = None then fn_node x else n), fn_replaces := None\<rparr>) w, True))"

definition file_setNode :: "nat \<Rightarrow> node \<Rightarrow> 's world \<Rightarrow> 's world" where
  "file_setNode f n w = upd_file f (\<lambda>x. x\<lparr>fn_node := Some n, fn_name := nd_name n\<rparr>) w"

text \<open>What follows a successful upload, before the deferred clean-up.\<close>

definition after_upload :: "'s drive_env \<Rightarrow> job \<Rightarrow> node option \<Rightarrow> 's world \<Rightarrow> 's world \<times> errno" where
  "after_upload de j uploaded w =
     (let f = jb_file w j
      in case claim f (jb_handle j) uploaded w of
           (w1, False) \<Rightarrow>
             (if jb_existing j \<noteq> None then (w1, OK)
              else case uploaded of
                     None \<Rightarrow> (mt_expire (jb_parent j) w1, OK)
                   | Some n \<Rightarrow> (drive_log (DTrash (lk_id (nd_link n))) w1, OK))
         | (w1, True) \<Rightarrow>
             (let name' = fn_name (wd_files w1 f); parent' = fn_parent (wd_files w1 f)
              in if name' \<noteq> jb_name j \<or> parent' \<noteq> jb_parent j
                 then (case uploaded of
                         None \<Rightarrow> (mt_expire parent' (mt_expire (jb_parent j) w1), OK)
                       | Some n \<Rightarrow>
                           (case moveLink de (jb_parent j) n (jb_name j) parent' name' w1 of
                              (w2, Inl e) \<Rightarrow> (w2, e)
                            | (w2, Inr moved) \<Rightarrow> (file_setNode f moved w2, OK)))
                 else (case uploaded of
                         None \<Rightarrow> (mt_expire parent' w1, OK)
                       | Some n \<Rightarrow> (mt_upsert parent' n (file_setNode f n w1), OK))))"

definition release_uploaded ::
    "config \<Rightarrow> 's drive_env \<Rightarrow> job \<Rightarrow> node option \<Rightarrow> 's world \<Rightarrow> 's world \<times> errno" where
  "release_uploaded cfg de j uploaded w =
     (let w1 = drive_log (DUpload (jb_name j) (jb_parent j) (map_option (\<lambda>n. lk_id (nd_link n)) (jb_existing j)) (jb_data j)) w;
          (w2, e) = after_upload de j uploaded (record_upload cfg j ''done'' '''' (count_done w1))
      in (set_busy False (jb_file w j) (free_slot (drop_buffer (jb_handle j) (jb_tmp j) w2)), e))"

section \<open>Release in one piece\<close>

text \<open>What becomes of a job: the upload, or the caller's context ending while it queues. In one piece
  no other upload runs, so \<open>awaitReplaced\<close> and \<open>uploadMu\<close> do not block.\<close>

datatype upload_result = UpDone "node option" | UpFailed go_error bool string | UpCancelled go_error

definition run_job ::
    "config \<Rightarrow> buffer_io \<Rightarrow> 's drive_env \<Rightarrow> (job \<Rightarrow> upload_result) \<Rightarrow> job \<Rightarrow> 's world \<Rightarrow> 's world \<times> errno" where
  "run_job cfg bio de up j w =
     (case release_lock cfg bio j w of
        (w1, Some e) \<Rightarrow> (w1, e)
      | (w1, None) \<Rightarrow>
          (case up j of
             UpCancelled err \<Rightarrow> release_cancelled cfg bio err j w1
           | UpFailed err timed_out msg \<Rightarrow> release_failed cfg bio timed_out err msg j (take_slot w1)
           | UpDone n \<Rightarrow> release_uploaded cfg de j n (take_slot w1)))"

definition Release ::
    "config \<Rightarrow> buffer_io \<Rightarrow> 's drive_env \<Rightarrow> (job \<Rightarrow> upload_result) \<Rightarrow> nat \<Rightarrow> 's world \<Rightarrow> 's world \<times> errno" where
  "Release cfg bio de up h w =
     (case release_begin cfg bio h w of
        (w1, Released e) \<Rightarrow> (w1, e)
      | (w1, Ready j) \<Rightarrow> run_job cfg bio de up j w1)"

definition settle ::
    "config \<Rightarrow> buffer_io \<Rightarrow> 's drive_env \<Rightarrow> (job \<Rightarrow> upload_result) \<Rightarrow> nat \<Rightarrow> 's world \<Rightarrow> 's world" where
  "settle cfg bio de up h w =
     (case settle_take h w of
        (w1, False) \<Rightarrow> w1
      | (w1, True) \<Rightarrow> fst (Release cfg bio de up h w1))"

section \<open>Unmount\<close>

text \<open>One pass settles the buffers that were waiting when it started, one after another here; a pass
  during which the deadline passes ends the flush. Then what is still parked is let go of.\<close>

definition settleDelayed ::
    "config \<Rightarrow> buffer_io \<Rightarrow> 's drive_env \<Rightarrow> (job \<Rightarrow> upload_result) \<Rightarrow> 's world \<Rightarrow> 's world" where
  "settleDelayed cfg bio de up w = foldl (\<lambda>w h. settle cfg bio de up h w) w (wd_delayed w)"

definition abandonKept :: "config \<Rightarrow> buffer_io \<Rightarrow> 's world \<Rightarrow> 's world" where
  "abandonKept cfg bio w = foldl (\<lambda>w h. abandon cfg bio h w) w (wd_kept w @ wd_delayed w)"

definition flushDelayed ::
    "config \<Rightarrow> buffer_io \<Rightarrow> 's drive_env \<Rightarrow> (job \<Rightarrow> upload_result) \<Rightarrow> (job \<Rightarrow> upload_result) \<Rightarrow> bool \<Rightarrow> 's world \<Rightarrow> 's world" where
  "flushDelayed cfg bio de up1 up2 deadline_passed w =
     (let w1 = settleDelayed cfg bio de up1 w;
          w2 = (if deadline_passed then w1 else settleDelayed cfg bio de up2 w1)
      in abandonKept cfg bio (w2\<lparr>wd_closing := True\<rparr>))"

end
