(* ===== verification/Handle_Steps.thy ===== *)
theory Handle_Steps
  imports File_Handle
begin

text \<open>
  Write buffers under every interleaving of writers, closes, timers, renames, unlinks, uploads and
  the unmount (internal/fusefs/fusefs.go). A step is a stretch of the code between two waits, a
  definition of \<open>File_Handle\<close>. \<open>sy_open\<close> says which write handles the kernel holds, \<open>sy_job\<close> how far
  the \<open>Release\<close> of a handle has got. The directories' own steps are those of \<open>Listing_Steps\<close>.
\<close>

section \<open>Steps\<close>

datatype rel_phase = NoJob | Awaiting job "nat option" | Queued job | Uploading job

record 's sys =
  sy_w :: "'s world"
  sy_open :: "nat \<Rightarrow> bool"
  sy_job :: "nat \<Rightarrow> rel_phase"
  sy_next :: nat

definition new_buffer :: "nat \<Rightarrow> nat \<Rightarrow> nat \<Rightarrow> bool \<Rightarrow> bytes \<Rightarrow> 's world \<Rightarrow> 's world" where
  "new_buffer f h t dirty content w =
     upd_file f (\<lambda>x. x\<lparr>fn_handle := Some h\<rparr>)
       (w\<lparr>wd_handles := (wd_handles w)(h := \<lparr>fh_file = f, fh_tmp = Some t, fh_dirty = dirty, fh_owns = True,
             fh_parked = False, fh_timer = None, fh_due = False, fh_retryIn = 0, fh_failed = False, fh_gone = False\<rparr>),
          wd_tmps := (wd_tmps w)(t := \<lparr>tf_data = content, tf_there = True\<rparr>)\<rparr>)"

text \<open>A new pending file under a fresh number; one number serves file, handle and temp file.\<close>

definition create_file :: "nat \<Rightarrow> nat \<Rightarrow> string \<Rightarrow> 's world \<Rightarrow> 's world" where
  "create_file i d name w =
     new_buffer i i i True []
           (w\<lparr>wd_files := (wd_files w)(i := \<lparr>fn_node = None, fn_parent = d, fn_name = name, fn_handle = None,
                 fn_pinned = True, fn_replaces = None, fn_busy = False\<rparr>),
              wd_tree := (wd_tree w)(d := (wd_tree w d)(name \<mapsto> IFile i))\<rparr>)"

definition open_buffer :: "nat \<Rightarrow> nat \<Rightarrow> bytes \<Rightarrow> 's world \<Rightarrow> 's world" where
  "open_buffer i f content w = new_buffer f i i False content w"

definition write_buffer :: "nat \<Rightarrow> bytes \<Rightarrow> 's world \<Rightarrow> 's world" where
  "write_buffer h content w =
     (case fh_tmp (wd_handles w h) of
        None \<Rightarrow> w
      | Some t \<Rightarrow> upd_handle h (\<lambda>x. x\<lparr>fh_dirty := True\<rparr>) (upd_tmp t (\<lambda>x. x\<lparr>tf_data := content\<rparr>) w))"

definition mark_gone :: "nat \<Rightarrow> 's world \<Rightarrow> 's world" where
  "mark_gone h w = upd_handle h (\<lambda>x. x\<lparr>fh_gone := True\<rparr>) w"

definition retarget :: "nat \<Rightarrow> string \<Rightarrow> nat \<Rightarrow> node option \<Rightarrow> nat option \<Rightarrow> 's world \<Rightarrow> 's world" where
  "retarget f name d n r w =
     upd_file f (\<lambda>x. x\<lparr>fn_name := name, fn_parent := d, fn_node := n, fn_replaces := r\<rparr>) w"

text \<open>Where a \<open>Release\<close> leaves the handle: done, or waiting as a job.\<close>

definition job_phase :: "'s world \<Rightarrow> release_next \<Rightarrow> rel_phase" where
  "job_phase w r = (case r of Released e \<Rightarrow> NoJob | Ready j \<Rightarrow> Awaiting j (fn_replaces (wd_files w (jb_file w j))))"

inductive fs_step :: "config \<Rightarrow> 's sys \<Rightarrow> 's sys \<Rightarrow> bool" for cfg where
  create: "fs_step cfg s (s\<lparr>sy_w := create_file (sy_next s) d name (sy_w s), sy_next := Suc (sy_next s),
     sy_open := (sy_open s)(sy_next s := True)\<rparr>)"
| open_write: "fn_handle (wd_files (sy_w s) f) = None \<Longrightarrow> f < sy_next s \<Longrightarrow>
    fs_step cfg s (s\<lparr>sy_w := open_buffer (sy_next s) f content (sy_w s), sy_next := Suc (sy_next s),
     sy_open := (sy_open s)(sy_next s := True)\<rparr>)"
| wrote: "sy_open s h \<Longrightarrow> fs_step cfg s (s\<lparr>sy_w := write_buffer h content (sy_w s)\<rparr>)"
| setattr: "fn_handle (wd_files (sy_w s) f) = Some h \<Longrightarrow>
    fs_step cfg s (s\<lparr>sy_w := write_buffer h content (sy_w s)\<rparr>)"
| close: "sy_open s h \<Longrightarrow> release_begin cfg bio h (sy_w s) = (w, r) \<Longrightarrow>
    fs_step cfg s (s\<lparr>sy_w := w, sy_open := (sy_open s)(h := False), sy_job := (sy_job s)(h := job_phase w r)\<rparr>)"
| timer: "settle_take h (sy_w s) = (w1, True) \<Longrightarrow> release_begin cfg bio h w1 = (w, r) \<Longrightarrow>
    fs_step cfg s (s\<lparr>sy_w := w, sy_job := (sy_job s)(h := job_phase w r)\<rparr>)"
| take_back: "unpark dirty h (sy_w s) = (w1, True) \<Longrightarrow> release_begin cfg bio h w1 = (w, r) \<Longrightarrow>
    fs_step cfg s (s\<lparr>sy_w := w, sy_job := (sy_job s)(h := job_phase w r)\<rparr>)"
| reopen: "unpark True h (sy_w s) = (w1, True) \<Longrightarrow>
    fs_step cfg s (s\<lparr>sy_w := w1, sy_open := (sy_open s)(h := True)\<rparr>)"
| await: "sy_job s h = Awaiting j (Some r) \<Longrightarrow> \<not> fn_busy (wd_files (sy_w s) r) \<Longrightarrow>
    fs_step cfg s (s\<lparr>sy_job := (sy_job s)(h := Awaiting j (fn_replaces (wd_files (sy_w s) r)))\<rparr>)"
| lock: "sy_job s h = Awaiting j None \<Longrightarrow> \<not> fn_busy (wd_files (sy_w s) (jb_file (sy_w s) j)) \<Longrightarrow>
    release_lock cfg bio j (sy_w s) = (w, e) \<Longrightarrow>
    fs_step cfg s (s\<lparr>sy_w := w, sy_job := (sy_job s)(h := (if e = None then Queued j else NoJob))\<rparr>)"
| slot: "sy_job s h = Queued j \<Longrightarrow> sem_free (wd_sem (sy_w s)) \<Longrightarrow>
    fs_step cfg s (s\<lparr>sy_w := take_slot (sy_w s), sy_job := (sy_job s)(h := Uploading j)\<rparr>)"
| cancelled: "sy_job s h = Queued j \<Longrightarrow> release_cancelled cfg bio err j (sy_w s) = (w, e) \<Longrightarrow>
    fs_step cfg s (s\<lparr>sy_w := w, sy_job := (sy_job s)(h := NoJob)\<rparr>)"
| failed: "sy_job s h = Uploading j \<Longrightarrow> release_failed cfg bio timed_out err msg j (sy_w s) = (w, e) \<Longrightarrow>
    fs_step cfg s (s\<lparr>sy_w := w, sy_job := (sy_job s)(h := NoJob)\<rparr>)"
| uploaded: "sy_job s h = Uploading j \<Longrightarrow> release_uploaded cfg de j n (sy_w s) = (w, e) \<Longrightarrow>
    fs_step cfg s (s\<lparr>sy_w := w, sy_job := (sy_job s)(h := NoJob)\<rparr>)"
| gone: "fs_step cfg s (s\<lparr>sy_w := mark_gone h (sy_w s)\<rparr>)"
| rename: "fs_step cfg s (s\<lparr>sy_w := retarget f name d n r (sy_w s)\<rparr>)"
| unmount: "fs_step cfg s (s\<lparr>sy_w := (sy_w s)\<lparr>wd_closing := True\<rparr>\<rparr>)"
| let_go: "fs_step cfg s (s\<lparr>sy_w := abandon cfg bio h (sy_w s)\<rparr>)"

definition sys_init :: "'s sys \<Rightarrow> bool" where
  "sys_init s \<longleftrightarrow> (\<forall>h. fh_tmp (wd_handles (sy_w s) h) = None \<and> \<not> fh_parked (wd_handles (sy_w s) h)
       \<and> fh_timer (wd_handles (sy_w s) h) = None \<and> fh_retryIn (wd_handles (sy_w s) h) = 0
       \<and> \<not> sy_open s h \<and> sy_job s h = NoJob)
     \<and> (\<forall>f. fn_handle (wd_files (sy_w s) f) = None \<and> \<not> fn_busy (wd_files (sy_w s) f))
     \<and> wd_delayed (sy_w s) = [] \<and> wd_kept (sy_w s) = [] \<and> wd_calls (sy_w s) = []"

definition fs_reach :: "config \<Rightarrow> 's sys \<Rightarrow> 's sys \<Rightarrow> bool" where
  "fs_reach cfg = (fs_step cfg)\<^sup>*\<^sup>*"

section \<open>The states of a write handle\<close>

text \<open>What the states below read of a handle; an operation on one handle leaves the core of every other
  one alone. A buffer's temp file has its handle's number.\<close>

definition core :: "'s world \<Rightarrow> nat \<Rightarrow> fhandle \<times> bool \<times> bool \<times> bool \<times> nat set" where
  "core w h = (wd_handles w h, h \<in> set (wd_delayed w), h \<in> set (wd_kept w), tf_there (wd_tmps w h),
     {f. fn_handle (wd_files w f) = Some h})"

definition h_live :: "'s world \<Rightarrow> nat \<Rightarrow> bool" where
  "h_live w h \<longleftrightarrow> fh_owns (wd_handles w h) \<and> fh_tmp (wd_handles w h) = Some h \<and> tf_there (wd_tmps w h)
     \<and> fn_handle (file_of w h) = Some h \<and> \<not> fh_parked (wd_handles w h) \<and> fh_timer (wd_handles w h) = None
     \<and> h \<notin> set (wd_delayed w) \<and> h \<notin> set (wd_kept w)"

definition h_parked :: "'s world \<Rightarrow> nat \<Rightarrow> bool" where
  "h_parked w h \<longleftrightarrow> fh_owns (wd_handles w h) \<and> fh_tmp (wd_handles w h) = Some h \<and> tf_there (wd_tmps w h)
     \<and> fn_handle (file_of w h) = Some h \<and> fh_parked (wd_handles w h)
     \<and> (h \<in> set (wd_delayed w) \<longleftrightarrow> fh_timer (wd_handles w h) \<noteq> None)
     \<and> (h \<in> set (wd_kept w) \<longleftrightarrow> fh_timer (wd_handles w h) = None)"

definition h_dead :: "'s world \<Rightarrow> nat \<Rightarrow> bool" where
  "h_dead w h \<longleftrightarrow> fh_tmp (wd_handles w h) = None \<and> \<not> fh_parked (wd_handles w h) \<and> fh_timer (wd_handles w h) = None
     \<and> h \<notin> set (wd_delayed w) \<and> h \<notin> set (wd_kept w)"

lemmas h_defs = h_live_def h_parked_def h_dead_def

lemma h_states_core:
  assumes "core w' h = core w h"
  shows "h_live w' h = h_live w h" "h_parked w' h = h_parked w h" "h_dead w' h = h_dead w h"
  using assms unfolding core_def h_defs file_of_def by (auto simp: set_eq_iff)

definition others_same :: "nat \<Rightarrow> 's world \<Rightarrow> 's world \<Rightarrow> bool" where
  "others_same h w w' \<longleftrightarrow> (\<forall>k. k \<noteq> h \<longrightarrow> core w' k = core w k)
     \<and> (\<forall>f. fn_handle (wd_files w' f) = Some h \<longrightarrow> fn_handle (wd_files w f) = Some h)"

lemma others_same_refl [simp]: "others_same h w w"
  by (simp add: others_same_def)

lemma others_same_trans: "others_same h w1 w2 \<Longrightarrow> others_same h w2 w3 \<Longrightarrow> others_same h w1 w3"
  by (simp add: others_same_def)

lemma set_trackIn: "set (trackIn h on hs) = (if on then insert h (set hs) else set hs - {h})"
  by (simp add: trackIn_def)

lemmas world_defs = upd_handle_def upd_file_def upd_tmp_def trackDelayed_def trackKept_def unpin_def remove_tmp_def

lemma others_same_prims:
  "others_same h w (upd_handle h g w)"
  "others_same h w (trackDelayed h on w)" "others_same h w (trackKept h on w)"
  "others_same h w (remove_tmp h w)" "others_same h w (upd_tmp h (\<lambda>x. x\<lparr>tf_data := c\<rparr>) w)"
  by (auto simp: others_same_def core_def world_defs set_trackIn)

lemma others_same_detach: "others_same h w (detach h w)"
  by (auto simp: others_same_def core_def world_defs detach_def Let_def)

lemma others_same_park: "t = h \<Longrightarrow> others_same h w (park h t delay w)"
  by (auto simp: others_same_def core_def park_def world_defs set_trackIn Let_def)

text \<open>Changes no core can see.\<close>

definition same_core :: "'s world \<Rightarrow> 's world \<Rightarrow> bool" where
  "same_core w w' \<longleftrightarrow> (\<forall>k. core w' k = core w k)"

lemma same_core_refl [simp]: "same_core w w"
  by (simp add: same_core_def)

lemma same_core_trans: "same_core w1 w2 \<Longrightarrow> same_core w2 w3 \<Longrightarrow> same_core w1 w3"
  by (simp add: same_core_def)

lemma same_core_others: "same_core w w' \<Longrightarrow> others_same h w w'"
  by (auto simp: same_core_def others_same_def core_def set_eq_iff)

lemma core_fields:
  "wd_handles w' = wd_handles w \<Longrightarrow> wd_delayed w' = wd_delayed w \<Longrightarrow> wd_kept w' = wd_kept w \<Longrightarrow>
   wd_tmps w' = wd_tmps w \<Longrightarrow> (\<And>f. fn_handle (wd_files w' f) = fn_handle (wd_files w f)) \<Longrightarrow> same_core w w'"
  by (simp add: same_core_def core_def)

lemma same_core_upd_file: "(\<And>x. fn_handle (g x) = fn_handle x) \<Longrightarrow> same_core w (upd_file f g w)"
  by (auto simp: same_core_def core_def upd_file_def)

lemma same_core_updates:
  "same_core w (w\<lparr>wd_unsaved := u\<rparr>)" "same_core w (w\<lparr>wd_local := l\<rparr>)" "same_core w (w\<lparr>wd_closing := b\<rparr>)"
  "same_core w (set_busy b f w)" "same_core w (count_queued w)" "same_core w (count_failed w)"
  "same_core w (count_done w)" "same_core w (take_slot w)" "same_core w (free_slot w)"
  "same_core w (record_upload cfg j st msg w)" "same_core w (drive_log c w)"
  "same_core w (retarget f name d n r w)" "same_core w (file_setNode f nn w)"
  by (simp_all add: set_busy_def count_queued_def count_failed_def count_done_def take_slot_def free_slot_def
      record_upload_def drive_log_def retarget_def file_setNode_def same_core_upd_file)
     (simp_all add: same_core_def core_def)

lemma same_core_mount:
  "same_core w (mt_expire r w)" "same_core w (mt_upsert r n w)" "same_core w (mt_remove r nm w)"
  by (simp_all add: mt_expire_def mt_upsert_def mt_remove_def upd_dir_def setParent_def forgetParent_def
      same_core_def core_def Let_def split: prod.split option.split)

lemma set_parents_core: "same_core w (set_parents ps w)"
proof (induction ps arbitrary: w)
  case (Cons p ps)
  have "same_core w (setParent (fst p) (snd p) w)" by (simp add: setParent_def same_core_def core_def)
  then show ?case using Cons [of "setParent (fst p) (snd p) w"] same_core_trans
    by (auto simp: set_parents_def case_prod_beta)
qed (simp add: set_parents_def)

lemma mt_find_core: "mt_find le r nm w = (w', n, e) \<Longrightarrow> same_core w w'"
proof -
  assume a: "mt_find le r nm w = (w', n, e)"
  obtain d s ps n' e' where f: "findChild le nm (mt_dirs w r, mt_store w) = (d, s, ps, n', e')" by (metis prod_cases5)
  have "same_core w (w\<lparr>mt_dirs := (mt_dirs w)(r := d), mt_store := s\<rparr>)" by (simp add: same_core_def core_def)
  note same_core_trans [OF this set_parents_core, of ps]
  then show ?thesis using a f by (auto simp: mt_find_def)
qed

lemma unlinkTrashed_core: "same_core w (unlinkTrashed d nm t w)"
  by (auto simp: unlinkTrashed_def same_core_upd_file split: option.split)

lemma trash_destination_core: "trash_destination de t d nm w = (w', r) \<Longrightarrow> same_core w w'"
proof -
  assume a: "trash_destination de t d nm w = (w', r)"
  obtain w1 n e where f: "mt_find (de_load de) d nm w = (w1, n, e)" by (metis prod_cases3)
  note c = mt_find_core [OF f]
  note l = same_core_trans [OF c same_core_updates(11)]
  note rm = same_core_trans [OF l same_core_mount(3)]
  show ?thesis using a f c l rm
    by (auto simp: trash_destination_def Let_def split: option.splits errno.splits if_splits)
qed

lemma moveLink_core: "moveLink de d t nm d' nm' w = (w', r) \<Longrightarrow> same_core w w'"
proof -
  assume a: "moveLink de d t nm d' nm' w = (w', r)"
  obtain w1 x where f: "trash_destination de t d' nm' w = (w1, x)" by fastforce
  note c = trash_destination_core [OF f]
  have 1: "same_core w (drive_log (DMove (lk_id (nd_link t)) d' nm') w1)"
    using same_core_trans [OF c same_core_updates(11)] .
  have 2: "same_core w (unlinkTrashed d' nm' y (drive_log (DMove (lk_id (nd_link t)) d' nm') w1))" for y
    using same_core_trans [OF 1 unlinkTrashed_core] .
  have 3: "same_core w (mt_upsert d' m (mt_remove d nm (drive_log (DMove (lk_id (nd_link t)) d' nm') w1)))" for m
    using same_core_trans [OF same_core_trans [OF 1 same_core_mount(3)] same_core_mount(2)] .
  show ?thesis using a f c 2 3 by (auto simp: moveLink_def Let_def split: sum.splits)
qed

lemma after_upload_core:
  assumes "after_upload de j n w = (w', e)"
  shows "same_core w w'"
proof -
  obtain w1 b where c: "claim (jb_file w j) (jb_handle j) n w = (w1, b)" by fastforce
  have c1: "same_core w w1"
    using c by (auto simp: claim_def same_core_upd_file split: if_splits)
  note steps = same_core_updates(11,13) same_core_mount(1,2)
  show ?thesis
  proof (cases b)
    case False
    then show ?thesis using assms c c1 steps [of w1]
      by (auto simp: after_upload_def Let_def split: if_splits option.splits intro: same_core_trans)
  next
    case True
    have mv: "same_core w w2" if "moveLink de a x nm d' nm' w1 = (w2, r)" for a x nm d' nm' w2 r
      using same_core_trans [OF c1 moveLink_core [OF that]] .
    have up: "same_core w (mt_upsert p x (file_setNode f x w1))" for p x f
      using same_core_trans [OF same_core_trans [OF c1 same_core_updates(13)] same_core_mount(2)] .
    have ex: "same_core w (mt_expire p w1)" "same_core w (mt_expire p (mt_expire q w1))" for p q
      using same_core_trans [OF c1 same_core_mount(1)] same_core_trans [OF _ same_core_mount(1)] by blast+
    have st: "same_core w (file_setNode f x w2)" if "moveLink de a y nm d' nm' w1 = (w2, r)" for f x a y nm d' nm' w2 r
      using same_core_trans [OF mv [OF that] same_core_updates(13)] .
    show ?thesis using assms c True up ex
      by (auto simp: after_upload_def Let_def split: if_splits option.splits sum.splits prod.splits dest: mv intro: st)
  qed
qed

section \<open>How each operation moves a handle between its states\<close>

lemma park_live: "h_live w h \<Longrightarrow> h_parked (park h h delay w) h"
  by (auto simp: h_defs file_of_def park_def world_defs set_trackIn Let_def)

lemma detach_live: "h_live w h \<Longrightarrow> h_dead (detach h w) h"
  by (auto simp: h_defs detach_def world_defs Let_def)

lemma drop_live: "h_live w h \<Longrightarrow> h_dead (drop_buffer h h w) h"
  by (auto simp: h_defs drop_buffer_def detach_def world_defs Let_def)

lemma drop_others: "others_same h w (drop_buffer h h w)"
  using others_same_trans [OF others_same_detach others_same_prims(4)] by (simp add: drop_buffer_def)

lemma remove_dead: "h_dead w h \<Longrightarrow> h_dead (remove_tmp t w) h"
  by (simp add: h_dead_def remove_tmp_def upd_tmp_def)

lemma dead_updates:
  "h_dead w h \<Longrightarrow> h_dead (w\<lparr>wd_unsaved := u\<rparr>) h" "h_dead w h \<Longrightarrow> h_dead (w\<lparr>wd_local := l\<rparr>) h"
  by (simp_all add: h_dead_def)

lemma keepUnsaved_live: "h_live w h \<Longrightarrow> h_dead (keepUnsaved cfg bio h h w) h"
  by (simp add: keepUnsaved_def Let_def remove_dead dead_updates detach_live)

lemma keepUnsaved_others: "others_same h w (keepUnsaved cfg bio h h w)"
proof -
  have "others_same h w (remove_tmp h ((detach h w)\<lparr>wd_unsaved := u\<rparr>))" for u
    by (rule others_same_trans [OF others_same_detach
          others_same_trans [OF same_core_others [OF same_core_updates(1)] others_same_prims(4)]])
  then show ?thesis by (simp add: keepUnsaved_def Let_def others_same_detach)
qed

lemma keepLocal_is: "\<exists>l. keepLocal cfg bio h t w = remove_tmp t ((detach h w)\<lparr>wd_local := l\<rparr>)"
  by (simp add: keepLocal_def Let_def case_prod_beta) blast

lemma keepLocal_live: "h_live w h \<Longrightarrow> h_dead (keepLocal cfg bio h h w) h"
proof -
  assume l: "h_live w h"
  obtain x where "keepLocal cfg bio h h w = remove_tmp h ((detach h w)\<lparr>wd_local := x\<rparr>)" using keepLocal_is by metis
  then show ?thesis by (simp add: remove_dead dead_updates detach_live l)
qed

lemma keepLocal_others: "others_same h w (keepLocal cfg bio h h w)"
proof -
  obtain x where "keepLocal cfg bio h h w = remove_tmp h ((detach h w)\<lparr>wd_local := x\<rparr>)" using keepLocal_is by metis
  moreover have "others_same h w (remove_tmp h ((detach h w)\<lparr>wd_local := x\<rparr>))"
    by (rule others_same_trans [OF others_same_detach
          others_same_trans [OF same_core_others [OF same_core_updates(2)] others_same_prims(4)]])
  ultimately show ?thesis by simp
qed

lemma discard_live: "h_live w h \<Longrightarrow> h_dead (discard cfg bio h h w) h"
  by (simp add: discard_def keepUnsaved_live drop_live)

lemma discard_others: "others_same h w (discard cfg bio h h w)"
  by (simp add: discard_def keepUnsaved_others drop_others)

lemma live_upd_handle:
  "h_live w h \<Longrightarrow> (\<And>x. fh_owns (g x) = fh_owns x \<and> fh_tmp (g x) = fh_tmp x \<and> fh_parked (g x) = fh_parked x
      \<and> fh_timer (g x) = fh_timer x \<and> fh_file (g x) = fh_file x) \<Longrightarrow> h_live (upd_handle h g w) h"
  by (simp add: h_live_def upd_handle_def file_of_def)

lemma keepForRetry_live:
  "h_live w h \<Longrightarrow> h_parked (keepForRetry cfg bio h h err w) h \<or> h_dead (keepForRetry cfg bio h h err w) h"
  by (simp add: keepForRetry_def Let_def discard_live keepUnsaved_live park_live live_upd_handle)

lemma keepForRetry_others: "others_same h w (keepForRetry cfg bio h h err w)"
  by (auto simp: keepForRetry_def Let_def discard_others keepUnsaved_others
      intro!: others_same_trans [OF others_same_prims(1) others_same_park])

lemma unpark_parked:
  "unpark dirty h w = (w', True) \<Longrightarrow> h_parked w h \<Longrightarrow> h_live w' h"
  by (auto simp: h_defs unpark_def file_of_def world_defs set_trackIn Let_def split: if_splits)

lemma unpark_others: "unpark dirty h w = (w', b) \<Longrightarrow> others_same h w w'"
  by (auto simp: unpark_def Let_def split: if_splits
      intro: others_same_trans [OF others_same_prims(1) others_same_prims(2)]
        others_same_trans [OF others_same_prims(1) others_same_prims(3)])

lemma unpark_was_parked: "unpark dirty h w = (w', True) \<Longrightarrow> fh_parked (wd_handles w h)"
  by (simp add: unpark_def split: if_splits)

lemma settle_take_parked:
  "settle_take h w = (w', True) \<Longrightarrow> h_parked w h \<Longrightarrow> h_live w' h"
  by (auto simp: h_defs settle_take_def file_of_def world_defs set_trackIn split: if_splits)

lemma settle_take_others: "settle_take h w = (w', b) \<Longrightarrow> others_same h w w'"
  by (auto simp: settle_take_def split: if_splits intro: others_same_trans [OF others_same_prims(1) others_same_prims(2)])

lemma settle_take_was_parked: "settle_take h w = (w', True) \<Longrightarrow> fh_parked (wd_handles w h)"
  by (simp add: settle_take_def split: if_splits)

definition unparked :: "nat \<Rightarrow> 's world \<Rightarrow> 's world" where
  "unparked h w = trackDelayed h False (trackKept h False (upd_handle h (\<lambda>x. x\<lparr>fh_parked := False, fh_timer := None\<rparr>) w))"

lemma unparked_live: "h_parked w h \<Longrightarrow> h_live (unparked h w) h"
  by (auto simp: h_defs unparked_def file_of_def world_defs set_trackIn)

lemma unparked_others: "others_same h w (unparked h w)"
  unfolding unparked_def
  by (intro others_same_trans [OF others_same_trans [OF others_same_prims(1) others_same_prims(3)] others_same_prims(2)])

lemma abandon_parked:
  assumes "h_parked w h"
  shows "h_dead (abandon cfg bio h w) h" "others_same h w (abandon cfg bio h w)"
proof -
  have "abandon cfg bio h w = (if fh_timer (wd_handles w h) = None \<and> \<not> fh_failed (wd_handles w h)
      then (if mc_local cfg \<and> mc_excluded cfg (fn_name (file_of w h)) then keepLocal cfg bio h h (unparked h w)
            else drop_buffer h h (unparked h w))
      else keepUnsaved cfg bio h h (unparked h w))"
    using assms by (simp add: abandon_def h_parked_def unparked_def Let_def)
  then show "h_dead (abandon cfg bio h w) h" "others_same h w (abandon cfg bio h w)"
    using unparked_live [OF assms]
    by (auto simp: keepLocal_live drop_live keepUnsaved_live
        intro: others_same_trans [OF unparked_others] keepLocal_others drop_others keepUnsaved_others)
qed

lemma abandon_other: "\<not> fh_parked (wd_handles w h) \<Longrightarrow> abandon cfg bio h w = w"
  by (simp add: abandon_def)

lemma release_begin_live:
  assumes "h_live w h" "release_begin cfg bio h w = (w', r)"
  shows "others_same h w w'
    \<and> (case r of Released e \<Rightarrow> h_parked w' h \<or> h_dead w' h
       | Ready j \<Rightarrow> h_live w' h \<and> jb_handle j = h \<and> jb_tmp j = h \<and> \<not> mc_excluded cfg (jb_name j))"
proof -
  let ?w0 = "upd_handle h (\<lambda>y. y\<lparr>fh_due := False, fh_tmp := (if fh_owns y then fh_tmp y else None)\<rparr>) w"
  have l: "h_live ?w0 h" using assms(1) by (simp add: h_live_def upd_handle_def file_of_def)
  have o0: "others_same h w ?w0" by (rule others_same_prims(1))
  have x: "fh_tmp (wd_handles w h) = Some h" "fh_owns (wd_handles w h)" using assms(1) by (simp_all add: h_live_def)
  note os = others_same_trans [OF o0]
  note fates = park_live [OF l] discard_live [OF l] drop_live [OF l] keepForRetry_live [OF l] l
    os [OF others_same_park] os [OF discard_others] os [OF drop_others] os [OF keepForRetry_others] o0
  show ?thesis using assms(2) x fates
    by (auto simp: release_begin_def Let_def split: if_splits)
qed

text \<open>The operations on a job whose handle is live.\<close>

lemma release_lock_live:
  assumes "h_live w (jb_handle j)" "jb_tmp j = jb_handle j" "release_lock cfg bio j w = (w', e)"
  shows "others_same (jb_handle j) w w' \<and> (if e = None then h_live w' (jb_handle j) else h_dead w' (jb_handle j))"
proof -
  have c: "same_core w (count_queued (set_busy True (jb_file w j) w))"
    by (rule same_core_trans [OF same_core_updates(4) same_core_updates(5)])
  then have "core (count_queued (set_busy True (jb_file w j) w)) (jb_handle j) = core w (jb_handle j)"
    by (simp add: same_core_def)
  from h_states_core(1) [OF this] show ?thesis
    using assms discard_live [OF assms(1)] discard_others same_core_others [OF c]
    by (auto simp: release_lock_def split: if_splits)
qed

lemma release_cancelled_live:
  assumes "h_live w (jb_handle j)" "jb_tmp j = jb_handle j" "release_cancelled cfg bio err j w = (w', e)"
  shows "others_same (jb_handle j) w w' \<and> (h_parked w' (jb_handle j) \<or> h_dead w' (jb_handle j))"
proof -
  let ?h = "jb_handle j" and ?w1 = "count_failed w"
  have "same_core w ?w1" by (rule same_core_updates(6))
  then have l: "h_live ?w1 ?h" using assms(1) h_states_core(1) by (auto simp: same_core_def)
  let ?w2 = "keepForRetry cfg bio ?h ?h err ?w1"
  have o2: "others_same ?h w ?w2"
    by (rule others_same_trans [OF same_core_others [OF same_core_updates(6)] keepForRetry_others])
  have s3: "same_core ?w2 (set_busy False (jb_file w j) ?w2)" by (rule same_core_updates(4))
  have w': "w' = set_busy False (jb_file w j) ?w2"
    using assms(2,3) by (simp add: release_cancelled_def)
  have "core w' ?h = core ?w2 ?h" using s3 w' by (simp add: same_core_def)
  from h_states_core(2,3) [OF this] keepForRetry_live [OF l] show ?thesis
    using others_same_trans [OF o2 same_core_others [OF s3]] w' by auto
qed

lemma release_failed_live:
  assumes "h_live w (jb_handle j)" "jb_tmp j = jb_handle j" "release_failed cfg bio t err msg j w = (w', e)"
  shows "others_same (jb_handle j) w w' \<and> (h_parked w' (jb_handle j) \<or> h_dead w' (jb_handle j))"
proof -
  let ?h = "jb_handle j" and ?w1 = "record_upload cfg j ''failed'' msg (count_failed w)"
  have s1: "same_core w ?w1" by (rule same_core_trans [OF same_core_updates(6) same_core_updates(10)])
  then have l: "h_live ?w1 ?h" using assms(1) h_states_core(1) by (auto simp: same_core_def)
  let ?w2 = "keepForRetry cfg bio ?h ?h err ?w1"
  have o2: "others_same ?h w ?w2" by (rule others_same_trans [OF same_core_others [OF s1] keepForRetry_others])
  have s3: "same_core ?w2 (set_busy False (jb_file w j) (free_slot ?w2))"
    by (rule same_core_trans [OF same_core_updates(9) same_core_updates(4)])
  have w': "w' = set_busy False (jb_file w j) (free_slot ?w2)"
    using assms(2,3) by (simp add: release_failed_def)
  have "core w' ?h = core ?w2 ?h" using s3 w' by (simp add: same_core_def)
  from h_states_core(2,3) [OF this] keepForRetry_live [OF l] show ?thesis
    using others_same_trans [OF o2 same_core_others [OF s3]] w' by auto
qed

lemma release_uploaded_live:
  assumes "h_live w (jb_handle j)" "jb_tmp j = jb_handle j" "release_uploaded cfg de j n w = (w', e)"
  shows "others_same (jb_handle j) w w' \<and> h_dead w' (jb_handle j)"
proof -
  let ?h = "jb_handle j"
  let ?w0 = "record_upload cfg j ''done'' '''' (count_done (drive_log (DUpload (jb_name j) (jb_parent j)
      (map_option (\<lambda>n. lk_id (nd_link n)) (jb_existing j)) (jb_data j)) w))"
  obtain w2 e2 where a: "after_upload de j n ?w0 = (w2, e2)" by fastforce
  have s0: "same_core w ?w0"
    by (rule same_core_trans [OF same_core_trans [OF same_core_updates(11) same_core_updates(7)] same_core_updates(10)])
  have s2: "same_core w w2" by (rule same_core_trans [OF s0 after_upload_core [OF a]])
  then have l: "h_live w2 ?h" using assms(1) h_states_core(1) by (auto simp: same_core_def)
  let ?w3 = "drop_buffer ?h ?h w2"
  have s4: "same_core ?w3 (set_busy False (jb_file w j) (free_slot ?w3))"
    by (rule same_core_trans [OF same_core_updates(9) same_core_updates(4)])
  have w': "w' = set_busy False (jb_file w j) (free_slot ?w3)"
    using assms(2,3) a by (simp add: release_uploaded_def Let_def)
  have "core w' ?h = core ?w3 ?h" using s4 w' by (simp add: same_core_def)
  from h_states_core(3) [OF this] drop_live [OF l] show ?thesis
    using others_same_trans [OF others_same_trans [OF same_core_others [OF s2] drop_others] same_core_others [OF s4]] w' by auto
qed

section \<open>The invariant of the whole\<close>

definition job_of :: "rel_phase \<Rightarrow> job option" where
  "job_of p = (case p of NoJob \<Rightarrow> None | Awaiting j r \<Rightarrow> Some j | Queued j \<Rightarrow> Some j | Uploading j \<Rightarrow> Some j)"

lemma job_of_simps [simp]:
  "job_of NoJob = None" "job_of (Awaiting j r) = Some j" "job_of (Queued j) = Some j" "job_of (Uploading j) = Some j"
  by (simp_all add: job_of_def)

definition handle_ok :: "config \<Rightarrow> 's sys \<Rightarrow> nat \<Rightarrow> bool" where
  "handle_ok cfg s h \<longleftrightarrow>
     (case job_of (sy_job s h) of
        None \<Rightarrow> if sy_open s h then h_live (sy_w s) h else h_parked (sy_w s) h \<or> h_dead (sy_w s) h
      | Some j \<Rightarrow> \<not> sy_open s h \<and> h_live (sy_w s) h \<and> jb_handle j = h \<and> jb_tmp j = h
                  \<and> \<not> mc_excluded cfg (jb_name j))"

definition fresh_from :: "nat \<Rightarrow> 's sys \<Rightarrow> bool" where
  "fresh_from n s \<longleftrightarrow>
     (\<forall>h\<ge>n. h_dead (sy_w s) h \<and> \<not> sy_open s h \<and> sy_job s h = NoJob)
     \<and> (\<forall>f h. fn_handle (wd_files (sy_w s) f) = Some h \<longrightarrow> f < n)"

definition sys_ok :: "config \<Rightarrow> 's sys \<Rightarrow> bool" where
  "sys_ok cfg s \<longleftrightarrow> (\<forall>h. handle_ok cfg s h) \<and> fresh_from (sy_next s) s"

lemma handle_ok_cong:
  assumes "core (sy_w s') h = core (sy_w s) h" "sy_open s' h = sy_open s h" "job_of (sy_job s' h) = job_of (sy_job s h)"
  shows "handle_ok cfg s' h = handle_ok cfg s h"
  unfolding handle_ok_def assms(2,3) h_states_core [OF assms(1)] ..

lemma live_not_dead: "h_live w h \<Longrightarrow> \<not> h_dead w h" "h_parked w h \<Longrightarrow> \<not> h_dead w h" "h_live w h \<Longrightarrow> \<not> h_parked w h"
  by (auto simp: h_defs)

text \<open>A step on one known handle keeps the invariant when it leaves the others alone and ends with its
  own handle in order.\<close>

lemma sys_ok_local:
  assumes "sys_ok cfg s" "h < sy_next s" "others_same h (sy_w s) (sy_w s')"
    and "\<forall>k. k \<noteq> h \<longrightarrow> sy_open s' k = sy_open s k \<and> sy_job s' k = sy_job s k" "sy_next s' = sy_next s"
    and "handle_ok cfg s' h"
  shows "sys_ok cfg s'"
proof -
  have c: "core (sy_w s') k = core (sy_w s) k" if "k \<noteq> h" for k
    using assms(3) that by (simp add: others_same_def)
  have "handle_ok cfg s' k" for k
  proof (cases "k = h")
    case False
    have "handle_ok cfg s k" using assms(1) by (simp add: sys_ok_def)
    then show ?thesis using handle_ok_cong [OF c [OF False]] assms(4) False by simp
  qed (simp add: assms(6))
  moreover have "fresh_from (sy_next s') s'"
  proof -
    have "h_dead (sy_w s') k \<and> \<not> sy_open s' k \<and> sy_job s' k = NoJob" if "sy_next s \<le> k" for k
    proof -
      have "k \<noteq> h" using that assms(2) by simp
      then show ?thesis using assms(1,4) h_states_core(3) [OF c] that
        by (simp add: sys_ok_def fresh_from_def)
    qed
    moreover have "f < sy_next s" if "fn_handle (wd_files (sy_w s') f) = Some k" for f k
    proof -
      have "fn_handle (wd_files (sy_w s) f) = Some k"
      proof (cases "k = h")
        case True then show ?thesis using assms(3) that by (auto simp: others_same_def)
      next
        case False then show ?thesis using c [OF False] that by (auto simp: core_def set_eq_iff)
      qed
      then show ?thesis using assms(1) by (auto simp: sys_ok_def fresh_from_def)
    qed
    ultimately show ?thesis using assms(5) by (simp add: fresh_from_def)
  qed
  ultimately show ?thesis by (simp add: sys_ok_def)
qed

text \<open>A step that changes no handle's state.\<close>

definition same_states :: "'s world \<Rightarrow> 's world \<Rightarrow> bool" where
  "same_states w w' \<longleftrightarrow>
     (\<forall>k. h_live w' k = h_live w k \<and> h_parked w' k = h_parked w k \<and> h_dead w' k = h_dead w k)
     \<and> (\<forall>f. fn_handle (wd_files w' f) = fn_handle (wd_files w f))"

lemma same_core_states: "same_core w w' \<Longrightarrow> same_states w w'"
proof -
  assume a: "same_core w w'"
  then have c: "core w' k = core w k" for k by (simp add: same_core_def)
  have "fn_handle (wd_files w' f) = fn_handle (wd_files w f)" for f
  proof (rule ccontr)
    assume "fn_handle (wd_files w' f) \<noteq> fn_handle (wd_files w f)"
    then obtain k where "(fn_handle (wd_files w' f) = Some k) \<noteq> (fn_handle (wd_files w f) = Some k)"
      by (metis option.exhaust)
    then show False using c [of k] by (auto simp: core_def set_eq_iff)
  qed
  then show ?thesis using h_states_core [OF c] by (simp add: same_states_def)
qed

lemma same_states_gone: "same_states w (mark_gone h w)"
  by (auto simp: same_states_def mark_gone_def upd_handle_def h_defs file_of_def)

lemma same_states_write:
  "fh_tmp (wd_handles w h) = None \<or> fh_tmp (wd_handles w h) = Some h \<Longrightarrow> same_states w (write_buffer h c w)"
  by (auto simp: same_states_def write_buffer_def world_defs h_defs file_of_def split: option.split)

lemma sys_ok_same:
  assumes "sys_ok cfg s" "same_states (sy_w s) (sy_w s')" "sy_open s' = sy_open s" "sy_next s' = sy_next s"
    and "\<forall>k. job_of (sy_job s' k) = job_of (sy_job s k)" "\<forall>k. sy_job s k = NoJob \<longrightarrow> sy_job s' k = NoJob"
  shows "sys_ok cfg s'"
proof -
  have c: "h_live (sy_w s') k = h_live (sy_w s) k" "h_parked (sy_w s') k = h_parked (sy_w s) k"
    "h_dead (sy_w s') k = h_dead (sy_w s) k" for k
    using assms(2) by (simp_all add: same_states_def)
  have "handle_ok cfg s' k" for k
  proof -
    have "handle_ok cfg s k" using assms(1) by (simp add: sys_ok_def)
    moreover have j: "job_of (sy_job s' k) = job_of (sy_job s k)" using assms(5) by simp
    ultimately show ?thesis unfolding handle_ok_def c assms(3) j by simp
  qed
  then show ?thesis using assms c by (simp add: sys_ok_def fresh_from_def same_states_def)
qed

lemma known_handle:
  assumes "sys_ok cfg s" "\<not> h_dead (sy_w s) h \<or> sy_open s h \<or> sy_job s h \<noteq> NoJob"
  shows "h < sy_next s"
  using assms unfolding sys_ok_def fresh_from_def by (meson not_le_imp_less)

lemma open_ok:
  assumes "sys_ok cfg s" "sy_open s h"
  shows "h_live (sy_w s) h \<and> sy_job s h = NoJob"
proof -
  have "handle_ok cfg s h" using assms(1) by (simp add: sys_ok_def)
  then show ?thesis using assms(2) by (cases "sy_job s h") (simp_all add: handle_ok_def)
qed

lemma parked_ok:
  assumes "sys_ok cfg s" "fh_parked (wd_handles (sy_w s) h)"
  shows "h_parked (sy_w s) h \<and> sy_job s h = NoJob \<and> \<not> sy_open s h"
proof -
  have "handle_ok cfg s h" using assms(1) by (simp add: sys_ok_def)
  moreover have "\<not> h_live (sy_w s) h" "\<not> h_dead (sy_w s) h" using assms(2) by (auto simp: h_defs)
  ultimately show ?thesis
    by (cases "sy_job s h") (auto simp: handle_ok_def split: if_splits)
qed

lemma job_ok:
  assumes "sys_ok cfg s" "job_of (sy_job s h) = Some j"
  shows "h_live (sy_w s) h \<and> jb_handle j = h \<and> jb_tmp j = h \<and> \<not> sy_open s h \<and> \<not> mc_excluded cfg (jb_name j)"
proof -
  have "handle_ok cfg s h" using assms(1) by (simp add: sys_ok_def)
  then show ?thesis using assms(2) by (simp add: handle_ok_def)
qed

lemma tmp_known:
  assumes "sys_ok cfg s"
  shows "fh_tmp (wd_handles (sy_w s) h) = None \<or> fh_tmp (wd_handles (sy_w s) h) = Some h"
proof -
  have "handle_ok cfg s h" using assms by (simp add: sys_ok_def)
  then show ?thesis by (auto simp: handle_ok_def h_defs split: option.splits if_splits)
qed

text \<open>A new buffer under the next number.\<close>

lemma sys_ok_new:
  assumes ok: "sys_ok cfg s" and f: "fn_handle (wd_files v f) = None" "f < Suc (sy_next s)"
    and v: "wd_handles v = wd_handles (sy_w s)" "wd_tmps v = wd_tmps (sy_w s)" "wd_delayed v = wd_delayed (sy_w s)"
      "wd_kept v = wd_kept (sy_w s)" "\<And>g. fn_handle (wd_files v g) = fn_handle (wd_files (sy_w s) g)"
    and s': "sy_w s' = new_buffer f (sy_next s) (sy_next s) dirty content v" "sy_next s' = Suc (sy_next s)"
      "sy_open s' = (sy_open s)(sy_next s := True)" "sy_job s' = sy_job s"
  shows "sys_ok cfg s'"
proof -
  let ?i = "sy_next s"
  have fr: "h_dead (sy_w s) k" "\<not> sy_open s k" "sy_job s k = NoJob" if "?i \<le> k" for k
    using ok that by (auto simp: sys_ok_def fresh_from_def)
  have c: "core (sy_w s') k = core (sy_w s) k" if "k \<noteq> ?i" for k
    using that f(1) v s'(1) unfolding core_def new_buffer_def upd_file_def by auto
  have "handle_ok cfg s' k" for k
  proof (cases "k = ?i")
    case True
    have "h_live (sy_w s') ?i" using fr(1) [of ?i] v s'(1)
      by (simp add: h_defs new_buffer_def upd_file_def file_of_def)
    then show ?thesis using True s'(3,4) fr(3) [of ?i] by (simp add: handle_ok_def)
  next
    case False
    have "handle_ok cfg s k" using ok by (simp add: sys_ok_def)
    then show ?thesis using handle_ok_cong [OF c [OF False], of cfg] s'(3,4) False by simp
  qed
  moreover have "fresh_from (Suc ?i) s'"
  proof -
    have "h_dead (sy_w s') k \<and> \<not> sy_open s' k \<and> sy_job s' k = NoJob" if "Suc ?i \<le> k" for k
      using fr [of k] that h_states_core(3) [OF c, of k] s'(3,4) by simp
    moreover have "g < Suc ?i" if "fn_handle (wd_files (sy_w s') g) = Some k" for g k
      using that ok f s'(1) v(5) unfolding new_buffer_def upd_file_def sys_ok_def fresh_from_def
      by (auto simp: less_Suc_eq split: if_splits)
    ultimately show ?thesis by (simp add: fresh_from_def)
  qed
  ultimately show ?thesis using s'(2) by (simp add: sys_ok_def)
qed

lemma fs_step_ok:
  assumes "fs_step cfg s s'" "sys_ok cfg s"
  shows "sys_ok cfg s'"
  using assms
proof (induction rule: fs_step.induct)
  case (create s d name)
  have "fn_handle (wd_files (sy_w s) (sy_next s)) = None"
    using create by (auto simp: sys_ok_def fresh_from_def)
  then show ?case
    by (intro sys_ok_new [OF create, where f="sy_next s" and dirty=True and content="[]"
          and v="(sy_w s)\<lparr>wd_files := (wd_files (sy_w s))(sy_next s := \<lparr>fn_node = None, fn_parent = d,
            fn_name = name, fn_handle = None, fn_pinned = True, fn_replaces = None, fn_busy = False\<rparr>),
            wd_tree := (wd_tree (sy_w s))(d := (wd_tree (sy_w s) d)(name \<mapsto> IFile (sy_next s)))\<rparr>"])
      (simp_all add: create_file_def)
next
  case (open_write s f content)
  then show ?case
    by (intro sys_ok_new [OF open_write(3), where f=f and dirty=False and content=content and v="sy_w s"])
      (simp_all add: open_buffer_def)
next
  case (wrote s h content)
  show ?case by (rule sys_ok_same [OF wrote(2)]) (simp_all add: same_states_write [OF tmp_known [OF wrote(2)]])
next
  case (setattr s f h content)
  show ?case by (rule sys_ok_same [OF setattr(2)]) (simp_all add: same_states_write [OF tmp_known [OF setattr(2)]])
next
  case (close s h bio w r)
  have l: "h_live (sy_w s) h" "sy_job s h = NoJob" using open_ok [OF close(3,1)] by simp_all
  show ?case
    by (rule sys_ok_local [OF close(3) known_handle [OF close(3)]])
      (use release_begin_live [OF l(1) close(2)] close(1) in
        \<open>auto simp: handle_ok_def job_phase_def split: release_next.splits\<close>)
next
  case (timer h s w1 bio w r)
  have p: "h_parked (sy_w s) h" "sy_job s h = NoJob" "\<not> sy_open s h"
    using parked_ok [OF timer(3) settle_take_was_parked [OF timer(1)]] by simp_all
  have l: "h_live w1 h" using settle_take_parked [OF timer(1) p(1)] .
  have o1: "others_same h (sy_w s) w"
    using others_same_trans [OF settle_take_others [OF timer(1)]] release_begin_live [OF l timer(2)] by blast
  show ?case
    by (rule sys_ok_local [OF timer(3) known_handle [OF timer(3)]])
      (use release_begin_live [OF l timer(2)] p o1 live_not_dead(2) [OF p(1)] in
        \<open>auto simp: handle_ok_def job_phase_def split: release_next.splits\<close>)
next
  case (take_back dirty h s w1 bio w r)
  have p: "h_parked (sy_w s) h" "sy_job s h = NoJob" "\<not> sy_open s h"
    using parked_ok [OF take_back(3) unpark_was_parked [OF take_back(1)]] by simp_all
  have l: "h_live w1 h" using unpark_parked [OF take_back(1) p(1)] .
  have o1: "others_same h (sy_w s) w"
    using others_same_trans [OF unpark_others [OF take_back(1)]] release_begin_live [OF l take_back(2)] by blast
  show ?case
    by (rule sys_ok_local [OF take_back(3) known_handle [OF take_back(3)]])
      (use release_begin_live [OF l take_back(2)] p o1 live_not_dead(2) [OF p(1)] in
        \<open>auto simp: handle_ok_def job_phase_def split: release_next.splits\<close>)
next
  case (reopen h s w1)
  have p: "h_parked (sy_w s) h" "sy_job s h = NoJob"
    using parked_ok [OF reopen(2) unpark_was_parked [OF reopen(1)]] by simp_all
  show ?case
    by (rule sys_ok_local [OF reopen(2) known_handle [OF reopen(2)]])
      (use unpark_parked [OF reopen(1) p(1)] p unpark_others [OF reopen(1)] live_not_dead(2) [OF p(1)] in
        \<open>auto simp: handle_ok_def\<close>)
next
  case (await s h j r)
  show ?case by (rule sys_ok_same [OF await(3)]) (use await in \<open>auto simp: same_core_states\<close>)
next
  case (lock s h j bio w e)
  note j = job_ok [OF lock(4), of h j]
  show ?case
    by (rule sys_ok_local [OF lock(4) known_handle [OF lock(4)]])
      (use release_lock_live [of "sy_w s" j cfg bio w e] j lock(1,3) in \<open>auto simp: handle_ok_def split: if_splits\<close>)
next
  case (slot s h j)
  show ?case
    by (rule sys_ok_same [OF slot(3)]) (use slot in \<open>auto simp: same_core_states [OF same_core_updates(8)]\<close>)
next
  case (cancelled s h j bio err w e)
  note j = job_ok [OF cancelled(3), of h j]
  show ?case
    by (rule sys_ok_local [OF cancelled(3) known_handle [OF cancelled(3)]])
      (use release_cancelled_live [of "sy_w s" j cfg bio err w e] j cancelled(1,2) in \<open>auto simp: handle_ok_def\<close>)
next
  case (failed s h j bio timed_out err msg w e)
  note j = job_ok [OF failed(3), of h j]
  show ?case
    by (rule sys_ok_local [OF failed(3) known_handle [OF failed(3)]])
      (use release_failed_live [of "sy_w s" j cfg bio timed_out err msg w e] j failed(1,2) in \<open>auto simp: handle_ok_def\<close>)
next
  case (uploaded s h j de n w e)
  note j = job_ok [OF uploaded(3), of h j]
  show ?case
    by (rule sys_ok_local [OF uploaded(3) known_handle [OF uploaded(3)]])
      (use release_uploaded_live [of "sy_w s" j cfg de n w e] j uploaded(1,2) in \<open>auto simp: handle_ok_def\<close>)
next
  case (gone s h)
  show ?case by (rule sys_ok_same [OF gone]) (simp_all add: same_states_gone)
next
  case (rename s f name d n r)
  show ?case by (rule sys_ok_same [OF rename]) (simp_all add: same_core_states [OF same_core_updates(12)])
next
  case (unmount s)
  show ?case by (rule sys_ok_same [OF unmount]) (simp_all add: same_core_states [OF same_core_updates(3)])
next
  case (let_go s bio h)
  show ?case
  proof (cases "fh_parked (wd_handles (sy_w s) h)")
    case True
    then have p: "h_parked (sy_w s) h" "sy_job s h = NoJob" "\<not> sy_open s h"
      using parked_ok [OF let_go] by simp_all
    show ?thesis
      by (rule sys_ok_local [OF let_go known_handle [OF let_go]])
        (use abandon_parked [OF p(1)] p live_not_dead(2) [OF p(1)] in \<open>auto simp: handle_ok_def\<close>)
  next
    case False
    then show ?thesis using let_go by (simp add: abandon_other)
  qed
qed

lemma sys_init_ok: "sys_init s \<Longrightarrow> sys_ok cfg s"
  by (auto simp: sys_init_def sys_ok_def handle_ok_def fresh_from_def h_dead_def)

interpretation fs_runs: kept_invariant "fs_step cfg" "sys_ok cfg" for cfg
  by unfold_locales (rule fs_step_ok)

lemmas fs_reach_ok = fs_runs.along [folded fs_reach_def]

end
