(* ===== verification/Save_Fate.thy ===== *)
theory Save_Fate
  imports Handle_Steps
begin

text \<open>
  What becomes of a save (internal/fusefs/fusefs.go): on every step of \<open>Handle_Steps\<close> that removes a
  buffer's temp file, where its content went; what never reaches the drive; what the unmount leaves.
\<close>

section \<open>Where a buffer goes when its temp file is removed\<close>

text \<open>The save is not wanted any more (another file was renamed over it, it was unlinked, or nothing was
  ever written), or it was moved to the directory of unsaved files.\<close>

definition let_off :: "'s world \<Rightarrow> 's world \<Rightarrow> nat \<Rightarrow> bool" where
  "let_off w w' h \<longleftrightarrow> fh_gone (wd_handles w' h) \<or> \<not> fh_dirty (wd_handles w' h)
     \<or> (\<exists>nm. (nm, tf_data (wd_tmps w h)) \<in> set (wd_unsaved w'))"

definition kept_safe :: "'s world \<Rightarrow> 's world \<Rightarrow> nat \<Rightarrow> bool" where
  "kept_safe w w' h \<longleftrightarrow> (tf_there (wd_tmps w h) \<longrightarrow> tf_there (wd_tmps w' h)) \<or> let_off w w' h"

lemma detach_fields:
  "tf_data (wd_tmps (detach h w) t) = tf_data (wd_tmps w t)" "tf_there (wd_tmps (detach h w) t) = tf_there (wd_tmps w t)"
  "fh_gone (wd_handles (detach h w) k) = fh_gone (wd_handles w k)"
  "fh_dirty (wd_handles (detach h w) k) = fh_dirty (wd_handles w k)"
  "wd_unsaved (detach h w) = wd_unsaved w" "wd_local (detach h w) = wd_local w" "wd_calls (detach h w) = wd_calls w"
  by (simp_all add: detach_def world_defs Let_def)

lemma keepUnsaved_safe: "kept_safe w (keepUnsaved cfg bio h h w) h"
  by (auto simp: kept_safe_def let_off_def keepUnsaved_def remove_tmp_def upd_tmp_def detach_fields Let_def)

lemma drop_flags:
  "fh_gone (wd_handles (drop_buffer h t w) k) = fh_gone (wd_handles w k)"
  "fh_dirty (wd_handles (drop_buffer h t w) k) = fh_dirty (wd_handles w k)"
  "wd_calls (drop_buffer h t w) = wd_calls w"
  by (simp_all add: drop_buffer_def remove_tmp_def upd_tmp_def detach_fields)

lemma discard_safe: "fh_gone (wd_handles w h) \<Longrightarrow> kept_safe w (discard cfg bio h h w) h"
  by (simp add: discard_def keepUnsaved_safe) (simp add: kept_safe_def let_off_def drop_flags)

lemma park_safe: "kept_safe w (park h h delay w) h"
  by (simp add: kept_safe_def park_def world_defs Let_def)

lemma kept_safe_from:
  "wd_tmps v = wd_tmps w \<Longrightarrow> kept_safe v w' h \<Longrightarrow> kept_safe w w' h"
  by (simp add: kept_safe_def let_off_def)

lemma kept_safe_to:
  "kept_safe w v h \<Longrightarrow> wd_tmps w' = wd_tmps v \<Longrightarrow> wd_unsaved w' = wd_unsaved v \<Longrightarrow> wd_handles w' = wd_handles v \<Longrightarrow>
     kept_safe w w' h"
  by (simp add: kept_safe_def let_off_def)

lemma upd_handle_tmps [simp]: "wd_tmps (upd_handle h g w) = wd_tmps w"
  by (simp add: upd_handle_def)

lemma keepForRetry_safe: "kept_safe w (keepForRetry cfg bio h h err w) h"
  by (auto simp: keepForRetry_def Let_def discard_safe keepUnsaved_safe intro!: kept_safe_from [OF upd_handle_tmps park_safe])

lemma release_begin_safe:
  assumes "h_live w h" "release_begin cfg bio h w = (w', r)"
  shows "kept_safe w w' h"
proof -
  let ?v = "upd_handle h (\<lambda>y. y\<lparr>fh_due := False, fh_tmp := (if fh_owns y then fh_tmp y else None)\<rparr>) w"
  have x: "fh_tmp (wd_handles w h) = Some h" "fh_owns (wd_handles w h)" using assms(1) by (simp_all add: h_live_def)
  have dr: "kept_safe w (drop_buffer h h ?v) h" if "\<not> fh_dirty (wd_handles w h)"
    using that by (simp add: kept_safe_def let_off_def drop_flags) (simp add: upd_handle_def)
  have di: "kept_safe w (discard cfg bio h h ?v) h" if "fh_gone (wd_handles w h)"
    using that by (intro kept_safe_from [OF upd_handle_tmps discard_safe]) (simp add: upd_handle_def)
  have id: "kept_safe w ?v h" by (simp add: kept_safe_def)
  note safe = kept_safe_from [OF upd_handle_tmps park_safe] kept_safe_from [OF upd_handle_tmps keepForRetry_safe]
  show ?thesis using assms(2) x dr di id safe
    by (auto simp: release_begin_def Let_def split: if_splits)
qed

lemma count_fields:
  "wd_tmps (count_failed w) = wd_tmps w" "wd_tmps (record_upload cfg j st msg w) = wd_tmps w"
  "wd_tmps (set_busy b f w) = wd_tmps w" "wd_handles (set_busy b f w) = wd_handles w"
  "wd_unsaved (set_busy b f w) = wd_unsaved w" "wd_tmps (free_slot w) = wd_tmps w"
  "wd_handles (free_slot w) = wd_handles w" "wd_unsaved (free_slot w) = wd_unsaved w"
  "wd_tmps (count_queued w) = wd_tmps w" "wd_calls (set_busy b f w) = wd_calls w" "wd_calls (free_slot w) = wd_calls w"
  "wd_calls (record_upload cfg j st msg w) = wd_calls w" "wd_calls (count_done w) = wd_calls w"
  by (simp_all add: count_failed_def record_upload_def set_busy_def upd_file_def free_slot_def count_queued_def count_done_def)

lemma release_lock_safe:
  "jb_tmp j = jb_handle j \<Longrightarrow> release_lock cfg bio j w = (w', e) \<Longrightarrow> kept_safe w w' (jb_handle j)"
  by (auto simp: release_lock_def discard_safe split: if_splits) (simp add: kept_safe_def count_fields)

lemma release_cancelled_safe:
  assumes "jb_tmp j = jb_handle j" "release_cancelled cfg bio err j w = (w', e)"
  shows "kept_safe w w' (jb_handle j)"
proof -
  let ?h = "jb_handle j"
  have "kept_safe w (keepForRetry cfg bio ?h ?h err (count_failed w)) ?h"
    by (rule kept_safe_from [OF _ keepForRetry_safe]) (simp add: count_fields)
  from kept_safe_to [OF this, of "set_busy b f (keepForRetry cfg bio ?h ?h err (count_failed w))" for b f]
  have "kept_safe w (set_busy b f (keepForRetry cfg bio ?h ?h err (count_failed w))) ?h" for b f
    by (simp add: count_fields)
  then show ?thesis using assms by (auto simp: release_cancelled_def)
qed

lemma release_failed_safe:
  assumes "jb_tmp j = jb_handle j" "release_failed cfg bio t err msg j w = (w', e)"
  shows "kept_safe w w' (jb_handle j)"
proof -
  let ?h = "jb_handle j" let ?v = "record_upload cfg j ''failed'' msg (count_failed w)"
  have "kept_safe w (keepForRetry cfg bio ?h ?h err ?v) ?h"
    by (rule kept_safe_from [OF _ keepForRetry_safe]) (simp add: count_fields)
  from kept_safe_to [OF this, of "set_busy b f (free_slot (keepForRetry cfg bio ?h ?h err ?v))" for b f]
  have "kept_safe w (set_busy b f (free_slot (keepForRetry cfg bio ?h ?h err ?v))) ?h" for b f
    by (simp add: count_fields)
  then show ?thesis using assms by (auto simp: release_failed_def)
qed

text \<open>The record of calls only grows.\<close>

definition more_calls :: "'s world \<Rightarrow> 's world \<Rightarrow> bool" where
  "more_calls w w' \<longleftrightarrow> set (wd_calls w) \<subseteq> set (wd_calls w')"

lemma more_calls_same: "wd_calls w' = wd_calls w \<Longrightarrow> more_calls w w'"
  by (simp add: more_calls_def)

lemma more_calls_trans: "more_calls w1 w2 \<Longrightarrow> more_calls w2 w3 \<Longrightarrow> more_calls w1 w3"
  by (auto simp: more_calls_def)

lemma set_parents_calls [simp]: "wd_calls (set_parents ps w) = wd_calls w"
proof (induction ps arbitrary: w)
  case (Cons p ps)
  then show ?case using Cons [of "setParent (fst p) (snd p) w"]
    by (simp add: set_parents_def case_prod_beta) (simp add: setParent_def)
qed (simp add: set_parents_def)

lemma mount_calls [simp]:
  "wd_calls (mt_expire r w) = wd_calls w" "wd_calls (mt_upsert r n w) = wd_calls w" "wd_calls (mt_remove r nm w) = wd_calls w"
  "wd_calls (unlinkTrashed d nm t w) = wd_calls w" "wd_calls (file_setNode f x w) = wd_calls w"
  by (simp_all add: mt_expire_def mt_upsert_def mt_remove_def upd_dir_def setParent_def forgetParent_def unlinkTrashed_def
      file_setNode_def upd_file_def Let_def split: prod.split option.split)

lemma drive_log_more: "more_calls w (drive_log c w)"
  by (auto simp: more_calls_def drive_log_def)

lemma mt_find_calls: "mt_find le r nm w = (w', n, e) \<Longrightarrow> wd_calls w' = wd_calls w"
  by (auto simp: mt_find_def split: prod.splits)

lemma trash_destination_calls: "trash_destination de t d nm w = (w', r) \<Longrightarrow> more_calls w w'"
  by (auto simp: trash_destination_def Let_def more_calls_def drive_log_def dest!: mt_find_calls
      split: prod.splits option.splits errno.splits if_splits)

lemma moveLink_calls:
  assumes "moveLink de d t nm d' nm' w = (w', r)"
  shows "more_calls w w'"
proof -
  obtain w1 x where f: "trash_destination de t d' nm' w = (w1, x)" by fastforce
  have "more_calls w (drive_log (DMove (lk_id (nd_link t)) d' nm') w1)"
    by (rule more_calls_trans [OF trash_destination_calls [OF f] drive_log_more])
  then show ?thesis using assms f trash_destination_calls [OF f]
    by (auto simp: moveLink_def Let_def more_calls_def split: sum.splits)
qed

lemma after_upload_calls:
  assumes "after_upload de j n w = (w', e)"
  shows "more_calls w w'"
proof -
  obtain w1 b where c: "claim (jb_file w j) (jb_handle j) n w = (w1, b)" by fastforce
  then have c1: "wd_calls w1 = wd_calls w" by (auto simp: claim_def upd_file_def split: if_splits)
  show ?thesis using assms c c1 drive_log_more [of w1]
    by (cases b) (auto simp: after_upload_def Let_def more_calls_def split: if_splits option.splits sum.splits prod.splits
        dest!: moveLink_calls)
qed

lemma release_uploaded_named:
  assumes "release_uploaded cfg de j n w = (w', e)"
  shows "DUpload (jb_name j) (jb_parent j) (map_option (\<lambda>n. lk_id (nd_link n)) (jb_existing j)) (jb_data j) \<in> set (wd_calls w')"
proof -
  let ?c = "DUpload (jb_name j) (jb_parent j) (map_option (\<lambda>n. lk_id (nd_link n)) (jb_existing j)) (jb_data j)"
  let ?w0 = "drive_log ?c w"
  obtain w2 e2 where a: "after_upload de j n (record_upload cfg j ''done'' '''' (count_done ?w0)) = (w2, e2)" by fastforce
  have "?c \<in> set (wd_calls w2)"
    using after_upload_calls [OF a] by (auto simp: more_calls_def count_fields drive_log_def)
  then show ?thesis using assms a by (auto simp: release_uploaded_def Let_def count_fields drop_flags)
qed

lemma release_uploaded_call:
  assumes "release_uploaded cfg de j n w = (w', e)"
  shows "\<exists>ex. DUpload (jb_name j) (jb_parent j) ex (jb_data j) \<in> set (wd_calls w')"
  using release_uploaded_named [OF assms] by blast

text \<open>A step on one handle: the others keep their temp files, its own keeps it or lets it go safely.\<close>

lemma others_there: "others_same h w w' \<Longrightarrow> k \<noteq> h \<Longrightarrow> tf_there (wd_tmps w' k) = tf_there (wd_tmps w k)"
  by (simp add: others_same_def core_def)

lemma one_handle_there:
  assumes "others_same h w w'" "kept_safe w w' h" "tf_there (wd_tmps w k)"
  shows "tf_there (wd_tmps w' k) \<or> let_off w w' k"
  using assms others_there [OF assms(1), of k] by (cases "k = h") (auto simp: kept_safe_def)

text \<open>A buffer that was parked without a timer and without a failed upload has a name that is never
  uploaded; the unmount lets it go without moving it out of the way.\<close>

definition parked_local :: "'s world \<Rightarrow> nat \<Rightarrow> bool" where
  "parked_local w h \<longleftrightarrow> fh_parked (wd_handles w h) \<and> fh_timer (wd_handles w h) = None \<and> \<not> fh_failed (wd_handles w h)"

lemma abandon_safe:
  assumes "h_parked w h"
  shows "kept_safe w (abandon cfg bio h w) h \<or> parked_local w h"
proof -
  have "abandon cfg bio h w = keepUnsaved cfg bio h h (unparked h w)" if "\<not> parked_local w h"
    using assms that by (auto simp: abandon_def h_parked_def unparked_def Let_def parked_local_def)
  moreover have "wd_tmps (unparked h w) = wd_tmps w"
    by (simp add: unparked_def trackDelayed_def trackKept_def)
  ultimately show ?thesis using kept_safe_from [OF _ keepUnsaved_safe] by metis
qed

definition save_fate :: "'s sys \<Rightarrow> 's sys \<Rightarrow> nat \<Rightarrow> bool" where
  "save_fate s s' h \<longleftrightarrow> let_off (sy_w s) (sy_w s') h
     \<or> (\<exists>j ex. sy_job s h = Uploading j \<and> DUpload (jb_name j) (jb_parent j) ex (jb_data j) \<in> set (wd_calls (sy_w s')))
     \<or> parked_local (sy_w s) h"

lemma step_fate:
  assumes "fs_step cfg s s'" "sys_ok cfg s" "tf_there (wd_tmps (sy_w s) k)"
  shows "tf_there (wd_tmps (sy_w s') k) \<or> save_fate s s' k"
  using assms
proof (induction rule: fs_step.induct)
  case (create s d name)
  then show ?case by (simp add: create_file_def new_buffer_def upd_file_def)
next
  case (open_write s f content)
  then show ?case by (simp add: open_buffer_def new_buffer_def upd_file_def)
next
  case (wrote s h content)
  then show ?case by (auto simp: write_buffer_def world_defs split: option.split)
next
  case (setattr s f h content)
  then show ?case by (auto simp: write_buffer_def world_defs split: option.split)
next
  case (close s h bio w r)
  have l: "h_live (sy_w s) h" using open_ok [OF close(3,1)] by simp
  show ?case
    using one_handle_there [OF conjunct1 [OF release_begin_live [OF l close(2)]] release_begin_safe [OF l close(2)] close(4)]
    by (auto simp: save_fate_def)
next
  case (timer h s w1 bio w r)
  have p: "h_parked (sy_w s) h" using parked_ok [OF timer(3) settle_take_was_parked [OF timer(1)]] by simp
  have l: "h_live w1 h" using settle_take_parked [OF timer(1) p] .
  have t: "wd_tmps w1 = wd_tmps (sy_w s)" using timer(1) by (auto simp: settle_take_def world_defs split: if_splits)
  show ?case
    using one_handle_there [OF others_same_trans [OF settle_take_others [OF timer(1)]
        conjunct1 [OF release_begin_live [OF l timer(2)]]] kept_safe_from [OF t release_begin_safe [OF l timer(2)]] timer(4)]
    by (auto simp: save_fate_def)
next
  case (take_back dirty h s w1 bio w r)
  have p: "h_parked (sy_w s) h" using parked_ok [OF take_back(3) unpark_was_parked [OF take_back(1)]] by simp
  have l: "h_live w1 h" using unpark_parked [OF take_back(1) p] .
  have t: "wd_tmps w1 = wd_tmps (sy_w s)" using take_back(1) by (auto simp: unpark_def world_defs Let_def split: if_splits)
  show ?case
    using one_handle_there [OF others_same_trans [OF unpark_others [OF take_back(1)]
        conjunct1 [OF release_begin_live [OF l take_back(2)]]] kept_safe_from [OF t release_begin_safe [OF l take_back(2)]] take_back(4)]
    by (auto simp: save_fate_def)
next
  case (reopen h s w1)
  then show ?case by (auto simp: unpark_def world_defs Let_def split: if_splits)
next
  case (await s h j r)
  then show ?case by simp
next
  case (lock s h j bio w e)
  have j: "h_live (sy_w s) h" "jb_handle j = h" "jb_tmp j = h" using job_ok [OF lock(4), of h j] lock(1) by simp_all
  have os: "others_same h (sy_w s) w" using release_lock_live [OF _ _ lock(3)] j by simp
  have "kept_safe (sy_w s) w h" using release_lock_safe [OF _ lock(3)] j by simp
  from one_handle_there [OF os this lock(5)] show ?case by (auto simp: save_fate_def)
next
  case (slot s h j)
  then show ?case by (simp add: take_slot_def)
next
  case (cancelled s h j bio err w e)
  have j: "h_live (sy_w s) h" "jb_handle j = h" "jb_tmp j = h" using job_ok [OF cancelled(3), of h j] cancelled(1) by simp_all
  have os: "others_same h (sy_w s) w" using release_cancelled_live [OF _ _ cancelled(2)] j by simp
  have "kept_safe (sy_w s) w h" using release_cancelled_safe [OF _ cancelled(2)] j by simp
  from one_handle_there [OF os this cancelled(4)] show ?case by (auto simp: save_fate_def)
next
  case (failed s h j bio timed_out err msg w e)
  have j: "h_live (sy_w s) h" "jb_handle j = h" "jb_tmp j = h" using job_ok [OF failed(3), of h j] failed(1) by simp_all
  have os: "others_same h (sy_w s) w" using release_failed_live [OF _ _ failed(2)] j by simp
  have "kept_safe (sy_w s) w h" using release_failed_safe [OF _ failed(2)] j by simp
  from one_handle_there [OF os this failed(4)] show ?case by (auto simp: save_fate_def)
next
  case (uploaded s h j de n w e)
  have j: "h_live (sy_w s) h" "jb_handle j = h" "jb_tmp j = h" using job_ok [OF uploaded(3), of h j] uploaded(1) by simp_all
  have os: "others_same h (sy_w s) w" using release_uploaded_live [of "sy_w s" j cfg de n w e] j uploaded(2) by simp
  show ?case
  proof (cases "k = h")
    case True
    then show ?thesis using release_uploaded_call [OF uploaded(2)] uploaded(1) by (auto simp: save_fate_def)
  next
    case False
    then show ?thesis using others_there [OF os False] uploaded(4) by simp
  qed
next
  case (gone s h)
  then show ?case by (simp add: mark_gone_def upd_handle_def)
next
  case (rename s f name d n r)
  then show ?case by (simp add: retarget_def upd_file_def)
next
  case (unmount s)
  then show ?case by simp
next
  case (let_go s bio h)
  show ?case
  proof (cases "fh_parked (wd_handles (sy_w s) h)")
    case True
    have p: "h_parked (sy_w s) h" using parked_ok [OF let_go(1) True] by simp
    show ?thesis
      using abandon_safe [OF p, of cfg bio] others_there [OF abandon_parked(2) [OF p, of cfg bio], of k] let_go(2)
      by (cases "k = h") (auto simp: save_fate_def kept_safe_def)
  next
    case False
    then show ?thesis using let_go by (simp add: abandon_other)
  qed
qed

section \<open>What never reaches the drive\<close>

text \<open>Every upload recorded carries a name outside the exclusion rules.\<close>

definition uploads :: "drive_call list \<Rightarrow> string set" where
  "uploads cs = {name. \<exists>d ex data. DUpload name d ex data \<in> set cs}"

definition same_uploads :: "'s world \<Rightarrow> 's world \<Rightarrow> bool" where
  "same_uploads w w' \<longleftrightarrow> uploads (wd_calls w') = uploads (wd_calls w)"

lemma same_uploads_calls: "wd_calls w' = wd_calls w \<Longrightarrow> same_uploads w w'"
  by (simp add: same_uploads_def)

lemma uploads_append: "uploads (cs @ [c]) = (case c of DUpload name d ex data \<Rightarrow> insert name (uploads cs) | _ \<Rightarrow> uploads cs)"
  by (auto simp: uploads_def split: drive_call.split)

lemma keepLocal_calls: "wd_calls (keepLocal cfg bio h t w) = wd_calls w"
proof -
  obtain x where "keepLocal cfg bio h t w = remove_tmp t ((detach h w)\<lparr>wd_local := x\<rparr>)" using keepLocal_is by metis
  then show ?thesis by (simp add: remove_tmp_def upd_tmp_def detach_fields)
qed

lemma calls_kept [simp]:
  "wd_calls (upd_handle h g w) = wd_calls w" "wd_calls (upd_file f g2 w) = wd_calls w" "wd_calls (upd_tmp t g3 w) = wd_calls w"
  "wd_calls (trackDelayed h b w) = wd_calls w" "wd_calls (trackKept h b w) = wd_calls w"
  "wd_calls (park h t delay w) = wd_calls w" "wd_calls (remove_tmp t w) = wd_calls w" "wd_calls (detach h w) = wd_calls w"
  "wd_calls (drop_buffer h t w) = wd_calls w" "wd_calls (keepUnsaved cfg bio h t w) = wd_calls w"
  "wd_calls (keepLocal cfg bio h t w) = wd_calls w" "wd_calls (discard cfg bio h t w) = wd_calls w"
  "wd_calls (keepForRetry cfg bio h t err w) = wd_calls w" "wd_calls (abandon cfg bio h w) = wd_calls w"
  "wd_calls (set_busy b f w) = wd_calls w" "wd_calls (count_queued w) = wd_calls w" "wd_calls (count_failed w) = wd_calls w"
  "wd_calls (take_slot w) = wd_calls w" "wd_calls (free_slot w) = wd_calls w" "wd_calls (record_upload cfg j st msg w) = wd_calls w"
  "wd_calls (write_buffer h c w) = wd_calls w" "wd_calls (new_buffer f h t b c w) = wd_calls w"
  by (simp_all add: world_defs park_def detach_def drop_buffer_def keepUnsaved_def keepLocal_calls discard_def keepForRetry_def
      abandon_def set_busy_def count_queued_def count_failed_def take_slot_def free_slot_def record_upload_def write_buffer_def
      new_buffer_def Let_def split: local_result.split option.split)

lemma release_calls:
  "release_begin cfg bio h w = (w', r) \<Longrightarrow> wd_calls w' = wd_calls w"
  "release_lock cfg bio j w = (w', e) \<Longrightarrow> wd_calls w' = wd_calls w"
  "release_cancelled cfg bio err j w = (w', e2) \<Longrightarrow> wd_calls w' = wd_calls w"
  "release_failed cfg bio tm err msg j w = (w', e2) \<Longrightarrow> wd_calls w' = wd_calls w"
  "unpark d h w = (w', b) \<Longrightarrow> wd_calls w' = wd_calls w"
  "settle_take h w = (w', b) \<Longrightarrow> wd_calls w' = wd_calls w"
  by (auto simp: release_begin_def release_lock_def release_cancelled_def release_failed_def unpark_def settle_take_def Let_def
      split: option.splits if_splits)

lemma trash_destination_uploads: "trash_destination de t d nm w = (w', r) \<Longrightarrow> same_uploads w w'"
  by (auto simp: trash_destination_def Let_def same_uploads_def drive_log_def uploads_append dest!: mt_find_calls
      split: prod.splits option.splits errno.splits if_splits)

lemma moveLink_uploads: "moveLink de d t nm d' nm' w = (w', r) \<Longrightarrow> same_uploads w w'"
  by (auto simp: moveLink_def Let_def same_uploads_def drive_log_def uploads_append dest!: trash_destination_uploads
      split: prod.splits sum.splits)

lemma after_upload_uploads:
  assumes "after_upload de j n w = (w', e)"
  shows "same_uploads w w'"
proof -
  obtain w1 b where c: "claim (jb_file w j) (jb_handle j) n w = (w1, b)" by fastforce
  then have c1: "wd_calls w1 = wd_calls w" by (auto simp: claim_def split: if_splits)
  show ?thesis using assms c c1
    by (cases b) (auto simp: after_upload_def Let_def same_uploads_def drive_log_def uploads_append
        split: if_splits option.splits sum.splits prod.splits dest!: moveLink_uploads)
qed

lemma release_uploaded_uploads:
  assumes "release_uploaded cfg de j n w = (w', e)"
  shows "uploads (wd_calls w') = insert (jb_name j) (uploads (wd_calls w))"
proof -
  let ?w0 = "drive_log (DUpload (jb_name j) (jb_parent j) (map_option (\<lambda>n. lk_id (nd_link n)) (jb_existing j)) (jb_data j)) w"
  obtain w2 e2 where a: "after_upload de j n (record_upload cfg j ''done'' '''' (count_done ?w0)) = (w2, e2)" by fastforce
  have "uploads (wd_calls w2) = uploads (wd_calls ?w0)"
    using after_upload_uploads [OF a] by (simp add: same_uploads_def count_fields)
  also have "\<dots> = insert (jb_name j) (uploads (wd_calls w))" by (simp add: drive_log_def uploads_append)
  finally have u: "uploads (wd_calls w2) = insert (jb_name j) (uploads (wd_calls w))" .
  have "w' = set_busy False (jb_file w j) (free_slot (drop_buffer (jb_handle j) (jb_tmp j) w2))"
    using assms a by (simp add: release_uploaded_def Let_def)
  then have "wd_calls w' = wd_calls w2" by simp
  then show ?thesis using u by simp
qed

lemma step_uploads:
  assumes "fs_step cfg s s'" "sys_ok cfg s" "name \<in> uploads (wd_calls (sy_w s'))"
  shows "name \<in> uploads (wd_calls (sy_w s)) \<or> \<not> mc_excluded cfg name"
  using assms
proof (induction rule: fs_step.induct)
  case (uploaded s h j de n w e)
  have "\<not> mc_excluded cfg (jb_name j)" using job_ok [OF uploaded(3), of h j] uploaded(1) by simp
  then show ?case using release_uploaded_uploads [OF uploaded(2)] uploaded(4) by auto
next
  case (close s h bio w r)
  then show ?case using release_calls(1) [OF close(2)] by simp
next
  case (timer h s w1 bio w r)
  then show ?case using release_calls(6) [OF timer(1)] release_calls(1) [OF timer(2)] by simp
next
  case (take_back dirty h s w1 bio w r)
  then show ?case using release_calls(5) [OF take_back(1)] release_calls(1) [OF take_back(2)] by simp
next
  case (reopen h s w1)
  then show ?case using release_calls(5) [OF reopen(1)] by simp
next
  case (lock s h j bio w e)
  then show ?case using release_calls(2) [OF lock(3)] by simp
next
  case (cancelled s h j bio err w e)
  then show ?case using release_calls(3) [OF cancelled(2)] by simp
next
  case (failed s h j bio timed_out err msg w e)
  then show ?case using release_calls(4) [OF failed(2)] by simp
qed (simp_all add: create_file_def open_buffer_def mark_gone_def retarget_def)

lemma reach_uploads:
  assumes "fs_reach cfg s s'" "sys_ok cfg s" "name \<in> uploads (wd_calls (sy_w s'))"
  shows "name \<in> uploads (wd_calls (sy_w s)) \<or> \<not> mc_excluded cfg name"
  using fs_runs.first_seen [OF assms(1) [unfolded fs_reach_def] assms(2), of "\<lambda>t. name \<in> uploads (wd_calls (sy_w t))"]
    step_uploads assms(3) by blast

section \<open>Properties\<close>



text \<open>C20. Nothing under a name of the exclusion rules is ever uploaded.\<close>

theorem excluded_never_uploaded:
  assumes "sys_init s0" "fs_reach cfg s0 s" "DUpload name d ex data \<in> set (wd_calls (sy_w s))"
  shows "\<not> mc_excluded cfg name"
proof -
  have "uploads (wd_calls (sy_w s0)) = {}" using assms(1) by (simp add: sys_init_def uploads_def)
  moreover have "name \<in> uploads (wd_calls (sy_w s))" using assms(3) by (auto simp: uploads_def)
  ultimately show ?thesis using reach_uploads [OF assms(2) sys_init_ok [OF assms(1)]] by blast
qed

text \<open>The delay between two tries of a failing upload doubles from thirty seconds up to half an hour
  and stays there.\<close>

theorem retry_delay_doubles:
  "(next_retry ^^ Suc n) 0 = min (uploadRetryDelay * 2 ^ n) uploadRetryMax"
proof (induction n)
  case (Suc n)
  have "next_retry (min (uploadRetryDelay * p) uploadRetryMax) = min (uploadRetryDelay * (2 * p)) uploadRetryMax"
    if "1 \<le> p" for p :: int
    using that by (simp add: next_retry_def uploadRetryDelay_def uploadRetryMax_def nanosecond_per_second_def min_def max_def)
  from this [of "2 ^ n"] show ?case using Suc by simp
qed (simp add: next_retry_def uploadRetryDelay_def uploadRetryMax_def nanosecond_per_second_def)

section \<open>The unmount\<close>

definition buffers_ok :: "'s world \<Rightarrow> bool" where
  "buffers_ok w \<longleftrightarrow> (\<forall>h. h_live w h \<or> h_parked w h \<or> h_dead w h)"

lemma buffers_ok_local:
  assumes "buffers_ok w" "others_same h w w'" "h_live w' h \<or> h_parked w' h \<or> h_dead w' h"
  shows "buffers_ok w'"
proof -
  have "h_live w' k \<or> h_parked w' k \<or> h_dead w' k" for k
  proof (cases "k = h")
    case False
    then have "core w' k = core w k" using assms(2) by (simp add: others_same_def)
    from h_states_core [OF this] show ?thesis using assms(1) by (simp add: buffers_ok_def)
  qed (simp add: assms(3))
  then show ?thesis by (simp add: buffers_ok_def)
qed

lemma buffers_ok_cong: "buffers_ok w \<Longrightarrow> same_core w w' \<Longrightarrow> buffers_ok w'"
  using h_states_core unfolding buffers_ok_def same_core_def by metis

lemma run_job_live:
  assumes "h_live w h" "jb_handle j = h" "jb_tmp j = h" "run_job cfg bio de up j w = (w', e)"
  shows "others_same h w w' \<and> (h_parked w' h \<or> h_dead w' h)"
proof -
  obtain w1 r where l: "release_lock cfg bio j w = (w1, r)" by fastforce
  have l1: "others_same h w w1" "if r = None then h_live w1 h else h_dead w1 h"
    using release_lock_live [OF _ _ l] assms(1-3) by (auto split: if_splits)
  show ?thesis
  proof (cases r)
    case None
    have sl: "same_core w1 (take_slot w1)" by (rule same_core_updates(8))
    then have "core (take_slot w1) h = core w1 h" by (simp add: same_core_def)
    from h_states_core(1) [OF this] have live: "h_live w1 h" "h_live (take_slot w1) h" using l1(2) None by simp_all
    note o2 = others_same_trans [OF l1(1) same_core_others [OF sl]]
    show ?thesis
    proof (cases "up j")
      case (UpDone n)
      then have "release_uploaded cfg de j n (take_slot w1) = (w', e)" using assms(4) l None by (simp add: run_job_def)
      from release_uploaded_live [OF _ _ this] show ?thesis using live(2) assms(2,3) others_same_trans [OF o2] by simp
    next
      case (UpFailed err t msg)
      then have "release_failed cfg bio t err msg j (take_slot w1) = (w', e)" using assms(4) l None by (simp add: run_job_def)
      from release_failed_live [OF _ _ this] show ?thesis using live(2) assms(2,3) others_same_trans [OF o2] by simp
    next
      case (UpCancelled err)
      then have "release_cancelled cfg bio err j w1 = (w', e)" using assms(4) l None by (simp add: run_job_def)
      from release_cancelled_live [OF _ _ this] show ?thesis
        using live(1) assms(2,3) others_same_trans [OF l1(1)] by simp
    qed
  next
    case (Some x)
    then show ?thesis using assms(4) l l1 by (simp add: run_job_def)
  qed
qed

lemma Release_live:
  assumes "h_live w h" "Release cfg bio de up h w = (w', e)"
  shows "others_same h w w' \<and> (h_parked w' h \<or> h_dead w' h)"
proof -
  obtain w1 r where b: "release_begin cfg bio h w = (w1, r)" by fastforce
  note l = release_begin_live [OF assms(1) b]
  show ?thesis
  proof (cases r)
    case (Released x)
    then show ?thesis using l assms(2) b by (simp add: Release_def)
  next
    case (Ready j)
    then have j: "h_live w1 h" "jb_handle j = h" "jb_tmp j = h" "others_same h w w1" using l by simp_all
    have "run_job cfg bio de up j w1 = (w', e)" using assms(2) b Ready by (simp add: Release_def)
    from run_job_live [OF j(1-3) this] show ?thesis using others_same_trans [OF j(4)] by blast
  qed
qed

lemma settle_ok: "buffers_ok w \<Longrightarrow> buffers_ok (settle cfg bio de up h w)"
proof -
  assume ok: "buffers_ok w"
  obtain w1 b where t: "settle_take h w = (w1, b)" by fastforce
  show ?thesis
  proof (cases b)
    case False
    then show ?thesis using ok t by (auto simp: settle_def settle_take_def split: if_splits)
  next
    case True
    then have t1: "settle_take h w = (w1, True)" using t by simp
    have p: "h_parked w h"
      using ok settle_take_was_parked [OF t1] unfolding buffers_ok_def h_defs by blast
    obtain w2 e where r: "Release cfg bio de up h w1 = (w2, e)" by fastforce
    note l = Release_live [OF settle_take_parked [OF t1 p] r]
    have "buffers_ok w2"
      by (rule buffers_ok_local [OF ok others_same_trans [OF settle_take_others [OF t1]]]) (use l in auto)
    then show ?thesis using t1 r by (simp add: settle_def)
  qed
qed

lemma settleDelayed_ok: "buffers_ok w \<Longrightarrow> buffers_ok (settleDelayed cfg bio de up w)"
proof -
  have "buffers_ok w \<Longrightarrow> buffers_ok (foldl (\<lambda>w h. settle cfg bio de up h w) w hs)" for w hs
    by (induction hs arbitrary: w) (simp_all add: settle_ok)
  then show "buffers_ok w \<Longrightarrow> ?thesis" by (simp add: settleDelayed_def)
qed

lemma abandon_ok:
  assumes "buffers_ok w"
  shows "buffers_ok (abandon cfg bio h w)
    \<and> (\<forall>k. fh_parked (wd_handles (abandon cfg bio h w) k) \<longrightarrow> k \<noteq> h \<and> fh_parked (wd_handles w k))"
proof (cases "fh_parked (wd_handles w h)")
  case True
  then have p: "h_parked w h" using assms unfolding buffers_ok_def h_defs by blast
  note a = abandon_parked [OF p, of cfg bio]
  have "k \<noteq> h \<and> fh_parked (wd_handles w k)" if "fh_parked (wd_handles (abandon cfg bio h w) k)" for k
    using a that by (cases "k = h") (auto simp: h_dead_def others_same_def core_def)
  then show ?thesis using buffers_ok_local [OF assms a(2)] a(1) by blast
next
  case False
  then show ?thesis using assms by (auto simp: abandon_other)
qed

lemma abandon_all:
  "buffers_ok w \<Longrightarrow> buffers_ok (foldl (\<lambda>w h. abandon cfg bio h w) w hs)
    \<and> (\<forall>k. fh_parked (wd_handles (foldl (\<lambda>w h. abandon cfg bio h w) w hs) k) \<longrightarrow> k \<notin> set hs \<and> fh_parked (wd_handles w k))"
proof (induction hs arbitrary: w)
  case (Cons h hs)
  note a = abandon_ok [OF Cons.prems, of cfg bio h]
  from Cons.IH [OF conjunct1 [OF a]] a show ?case by auto
qed simp

lemma sys_ok_buffers: "sys_ok cfg s \<Longrightarrow> buffers_ok (sy_w s)"
  unfolding buffers_ok_def sys_ok_def handle_ok_def by (metis (mono_tags, lifting) option.case_eq_if)

lemma flush_empties:
  assumes "buffers_ok w" "w' = flushDelayed cfg bio de up1 up2 late w"
  shows "\<not> fh_parked (wd_handles w' h) \<and> wd_delayed w' = [] \<and> wd_kept w' = []"
proof -
  let ?w1 = "settleDelayed cfg bio de up1 w"
  let ?w2 = "if late then ?w1 else settleDelayed cfg bio de up2 ?w1"
  let ?w3 = "?w2\<lparr>wd_closing := True\<rparr>"
  have "buffers_ok ?w2" using settleDelayed_ok [OF assms(1)] settleDelayed_ok [OF settleDelayed_ok [OF assms(1)]] by simp
  then have ok3: "buffers_ok ?w3" by (rule buffers_ok_cong [OF _ same_core_updates(3)])
  have w': "w' = foldl (\<lambda>w h. abandon cfg bio h w) ?w3 (wd_kept ?w3 @ wd_delayed ?w3)"
    unfolding assms(2) flushDelayed_def Let_def abandonKept_def ..
  note a = abandon_all [OF ok3, of cfg bio "wd_kept ?w3 @ wd_delayed ?w3", folded w']
  have np: "\<not> fh_parked (wd_handles w' k)" for k
  proof
    assume "fh_parked (wd_handles w' k)"
    then have k: "k \<notin> set (wd_kept ?w3 @ wd_delayed ?w3)" "fh_parked (wd_handles ?w3 k)" using a by blast+
    then have "h_parked ?w3 k" using ok3 unfolding buffers_ok_def h_defs by blast
    then show False using k(1) by (auto simp: h_parked_def)
  qed
  have "k \<notin> set (wd_delayed w') \<and> k \<notin> set (wd_kept w')" for k
  proof -
    have "h_live w' k \<or> h_dead w' k" using a np [of k] unfolding buffers_ok_def h_parked_def by blast
    then show ?thesis by (auto simp: h_defs)
  qed
  then show ?thesis using np by (simp add: set_empty2 [symmetric, of "wd_delayed w'"] set_empty2 [symmetric, of "wd_kept w'"] set_eq_iff)
qed

text \<open>C19. The unmount leaves no buffer behind: after the two rounds of uploads, whatever they answered,
  and the letting go, nothing is parked and both lists are empty.\<close>

theorem flushDelayed_leaves_nothing:
  assumes "sys_init s0" "fs_reach cfg s0 s" "w' = flushDelayed cfg bio de up1 up2 late (sy_w s)"
  shows "\<not> fh_parked (wd_handles w' h) \<and> wd_delayed w' = [] \<and> wd_kept w' = []"
  by (rule flush_empties [OF sys_ok_buffers [OF fs_reach_ok [OF assms(2) sys_init_ok [OF assms(1)]]] assms(3)])

section \<open>A file from its creation to the drive\<close>

definition demo_cfg :: config where
  "demo_cfg = \<lparr>mc_excluded = (\<lambda>_. False), mc_delayFor = (\<lambda>_. 0), mc_local = False, mc_path = (\<lambda>_. ''''), mc_opTimeout = 60\<rparr>"

definition demo_world :: "unit world" where
  "demo_world = \<lparr>mt_dirs = mt_dirs demo_mount, mt_ids = [], mt_parentOf = Map.empty, mt_store = (),
     wd_files = (\<lambda>_. \<lparr>fn_node = None, fn_parent = 0, fn_name = '''', fn_handle = None, fn_pinned = False,
        fn_replaces = None, fn_busy = False\<rparr>),
     wd_handles = (\<lambda>_. \<lparr>fh_file = 0, fh_tmp = None, fh_dirty = False, fh_owns = False, fh_parked = False, fh_timer = None,
        fh_due = False, fh_retryIn = 0, fh_failed = False, fh_gone = False\<rparr>),
     wd_tmps = (\<lambda>_. \<lparr>tf_data = [], tf_there = False\<rparr>), wd_tree = (\<lambda>_ _. None), wd_delayed = [], wd_kept = [],
     wd_unsaved = [], wd_local = [], wd_closing = False,
     wd_counters = \<lparr>cn_queued = 0, cn_done = 0, cn_failed = 0, cn_drainedAt = 0\<rparr>, wd_recent = [], wd_sem = newSem 5,
     wd_now = 0, wd_calls = []\<rparr>"

definition demo_io :: buffer_io where
  "demo_io = \<lparr>io_create = False, io_stat = False, io_seek = False, io_unsaved = False, io_local = LocalOk\<rparr>"

definition demo_job :: job where
  "demo_job = \<lparr>jb_handle = 0, jb_tmp = 0, jb_name = ''a'', jb_parent = 0, jb_existing = None, jb_data = []\<rparr>"

definition demo0 :: "unit sys" where
  "demo0 = \<lparr>sy_w = demo_world, sy_open = (\<lambda>_. False), sy_job = (\<lambda>_. NoJob), sy_next = 0\<rparr>"

definition demo1 :: "unit sys" where
  "demo1 = demo0\<lparr>sy_w := create_file 0 0 ''a'' demo_world, sy_next := 1, sy_open := (\<lambda>_. False)(0 := True)\<rparr>"

definition demo2 :: "unit sys" where
  "demo2 = demo1\<lparr>sy_w := fst (release_begin demo_cfg demo_io 0 (sy_w demo1)), sy_open := (sy_open demo1)(0 := False),
     sy_job := (\<lambda>_. NoJob)(0 := Awaiting demo_job None)\<rparr>"

definition demo3 :: "unit sys" where
  "demo3 = demo2\<lparr>sy_w := fst (release_lock demo_cfg demo_io demo_job (sy_w demo2)), sy_job := (sy_job demo2)(0 := Queued demo_job)\<rparr>"

definition demo4 :: "unit sys" where
  "demo4 = demo3\<lparr>sy_w := take_slot (sy_w demo3), sy_job := (sy_job demo3)(0 := Uploading demo_job)\<rparr>"

definition demo_drive :: "unit drive_env" where
  "demo_drive = \<lparr>de_load = \<lparr>le_now = 0, le_limited = False, le_disk = None, le_fetch = (\<lambda>_. Inr []), le_timedOut = False,
       le_save = (\<lambda>_ _ s. s)\<rparr>, de_trash = (\<lambda>_. None), de_move = (\<lambda>n _ _. Inr n), de_timedOut = False\<rparr>"

definition demo5 :: "unit sys" where
  "demo5 = demo4\<lparr>sy_w := fst (release_uploaded demo_cfg demo_drive demo_job None (sy_w demo4)), sy_job := (sy_job demo4)(0 := NoJob)\<rparr>"

lemma demo_init: "sys_init demo0"
  by (simp add: sys_init_def demo0_def demo_world_def)

lemma demo_begin: "release_begin demo_cfg demo_io 0 (sy_w demo1) = (sy_w demo2, Ready demo_job)"
  by (simp add: demo2_def demo1_def create_file_def new_buffer_def upd_file_def release_begin_def demo_cfg_def demo_io_def
      demo_job_def upd_handle_def Let_def)

lemma demo_step1: "fs_step demo_cfg demo0 demo1"
  using fs_step.create [of demo_cfg demo0 0 "''a''"] by (simp add: demo1_def demo0_def)

lemma demo_step2: "fs_step demo_cfg demo1 demo2"
proof -
  have p: "job_phase (sy_w demo2) (Ready demo_job) = Awaiting demo_job None"
    by (simp add: job_phase_def demo2_def demo1_def create_file_def new_buffer_def upd_file_def release_begin_def
        demo_cfg_def demo_io_def demo_job_def upd_handle_def Let_def jb_file_def)
  have "sy_open demo1 0" by (simp add: demo1_def)
  from fs_step.close [OF this demo_begin] show ?thesis
    by (simp add: p) (simp add: demo2_def demo1_def demo0_def)
qed

lemma demo_lock: "release_lock demo_cfg demo_io demo_job (sy_w demo2) = (sy_w demo3, None)"
  by (simp add: demo3_def demo2_def demo1_def create_file_def new_buffer_def upd_file_def release_begin_def
      demo_cfg_def demo_io_def demo_job_def upd_handle_def Let_def release_lock_def)

lemma demo_step3: "fs_step demo_cfg demo2 demo3"
proof -
  have "sy_job demo2 0 = Awaiting demo_job None" by (simp add: demo2_def)
  moreover have "\<not> fn_busy (wd_files (sy_w demo2) (jb_file (sy_w demo2) demo_job))"
    by (simp add: demo2_def demo1_def create_file_def new_buffer_def upd_file_def release_begin_def
        demo_cfg_def demo_io_def demo_job_def upd_handle_def Let_def jb_file_def)
  ultimately show ?thesis using fs_step.lock [OF _ _ demo_lock] by (simp add: demo3_def)
qed

lemma demo_tmp3: "wd_tmps (sy_w demo3) 0 = \<lparr>tf_data = [], tf_there = True\<rparr>"
  "fh_tmp (wd_handles (sy_w demo3) 0) = Some 0" "wd_sem (sy_w demo3) = newSem 5"
  "fh_gone (wd_handles (sy_w demo3) 0) = False" "fh_dirty (wd_handles (sy_w demo3) 0) = True"
  by (simp_all add: demo3_def demo2_def demo1_def create_file_def new_buffer_def upd_file_def release_begin_def demo_world_def
      demo_cfg_def demo_io_def demo_job_def upd_handle_def Let_def release_lock_def count_queued_def set_busy_def)

lemma demo_reach4: "fs_reach demo_cfg demo0 demo4"
proof -
  have "fs_step demo_cfg demo3 demo4"
    using fs_step.slot [of demo3 0 demo_job demo_cfg] demo_tmp3(3)
    by (simp add: demo4_def demo3_def sem_free_def newSem_def)
  then show ?thesis using demo_step1 demo_step2 demo_step3 unfolding fs_reach_def
    by (meson converse_rtranclp_into_rtranclp rtranclp.rtrancl_refl)
qed

lemma demo_step5: "fs_step demo_cfg demo4 demo5"
proof -
  have "sy_job demo4 0 = Uploading demo_job" by (simp add: demo4_def)
  from fs_step.uploaded [OF this prod.collapse [symmetric], of demo_cfg demo_drive None] show ?thesis
    by (simp add: demo5_def)
qed

lemma demo_tmp4: "fh_tmp (wd_handles (sy_w demo4) 0) = Some 0" "tf_there (wd_tmps (sy_w demo4) 0)"
  using demo_tmp3 by (simp_all add: demo4_def take_slot_def)

lemma demo_tmp5: "\<not> tf_there (wd_tmps (sy_w demo5) 0)"
proof -
  obtain w e where a: "release_uploaded demo_cfg demo_drive demo_job None (sy_w demo4) = (w, e)" by fastforce
  then have "\<not> tf_there (wd_tmps w 0)"
    by (auto simp: release_uploaded_def Let_def demo_job_def set_busy_def upd_file_def free_slot_def drop_buffer_def remove_tmp_def
        upd_tmp_def split: prod.splits)
  then show ?thesis using a by (simp add: demo5_def)
qed



lemma demo_call5: "DUpload ''a'' 0 None [] \<in> set (wd_calls (sy_w demo5))"
proof -
  obtain w e where a: "release_uploaded demo_cfg demo_drive demo_job None (sy_w demo4) = (w, e)" by fastforce
  let ?w0 = "drive_log (DUpload ''a'' 0 None []) (sy_w demo4)"
  obtain w2 e2 where b: "after_upload demo_drive demo_job None (record_upload demo_cfg demo_job ''done'' '''' (count_done ?w0)) = (w2, e2)"
    by fastforce
  have "DUpload ''a'' 0 None [] \<in> set (wd_calls w2)"
    using after_upload_calls [OF b] by (auto simp: more_calls_def count_fields drive_log_def)
  moreover have "w = set_busy False (jb_file (sy_w demo4) demo_job) (free_slot (drop_buffer 0 0 w2))"
    using a b by (simp add: release_uploaded_def Let_def demo_job_def)
  ultimately show ?thesis using a by (simp add: demo5_def)
qed

theorem excluded_never_uploaded_witness: "\<not> mc_excluded demo_cfg ''a''"
proof -
  have "fs_reach demo_cfg demo0 demo5"
    using demo_reach4 demo_step5 unfolding fs_reach_def by (meson rtranclp.rtrancl_into_rtrancl)
  from excluded_never_uploaded [OF demo_init this demo_call5] show ?thesis .
qed

theorem flushDelayed_leaves_nothing_witness:
  "\<not> fh_parked (wd_handles (flushDelayed demo_cfg demo_io demo_drive (\<lambda>_. UpDone None) (\<lambda>_. UpDone None) False (sy_w demo4)) 0)"
  using flushDelayed_leaves_nothing [OF demo_init demo_reach4 refl] by blast

end
