(* ===== verification/File_Ops.thy ===== *)
theory File_Ops
  imports Save_Fate Drive_File
begin

unbundle bit_operations_syntax

text \<open>
  The handlers of a file and of its handles (internal/fusefs/fusefs.go, \<open>fileNode\<close> and \<open>fileHandle\<close>):
  attributes, truncation, opening in every mode, reading and writing the temp file, and the download
  that fills it. Each handler runs in one piece here; \<open>Handle_Steps\<close> interleaves what they do to a
  buffer. The inode number of a node is go-fuse's and a parameter.
\<close>

section \<open>Attributes\<close>

record attrs =
  at_ino :: "64 word"
  at_mode :: nat
  at_size :: "64 word"
  at_time :: "64 word"

definition S_IFREG :: nat where "S_IFREG = 32768"
definition S_IFDIR :: nat where "S_IFDIR = 16384"

definition unix64 :: "nanos \<Rightarrow> 64 word" where
  "unix64 t = word_of_int (unix_seconds t)"

text \<open>\<open>fillEntryOut\<close> resolves a file's real size, in the node every holder of it shares.\<close>

definition fillEntryOut :: "crypto \<Rightarrow> node \<Rightarrow> node \<times> attrs" where
  "fillEntryOut cr child =
     (let ino = inodeNum (lk_id (nd_link child))
      in if IsDir child
         then (child, \<lparr>at_ino = ino, at_mode = S_IFDIR + 493, at_size = 0, at_time = unix64 (nd_modTime child)\<rparr>)
         else (let c = ResolveAttrs cr child
               in (c, \<lparr>at_ino = ino, at_mode = S_IFREG + 420, at_size = word_of_int (nd_size c), at_time = unix64 (nd_modTime c)\<rparr>)))"

definition dir_getattr :: "64 word \<Rightarrow> dir \<Rightarrow> attrs" where
  "dir_getattr ino d = \<lparr>at_ino = ino, at_mode = S_IFDIR + 493, at_size = 0, at_time = unix64 (nd_modTime (dn_node d))\<rparr>"

text \<open>\<open>tmpSize\<close>: the temp file's size, unless the handle has none or it cannot be read.\<close>

definition tmpSize :: "bool \<Rightarrow> nat \<Rightarrow> 's world \<Rightarrow> int option" where
  "tmpSize stat_fails h w =
     (case fh_tmp (wd_handles w h) of
        None \<Rightarrow> None
      | Some t \<Rightarrow> if stat_fails then None else Some (int (length (tf_data (wd_tmps w t)))))"

definition hasTmp :: "nat \<Rightarrow> 's world \<Rightarrow> bool" where
  "hasTmp h w \<longleftrightarrow> fh_tmp (wd_handles w h) \<noteq> None"

definition file_getattr :: "crypto \<Rightarrow> bool \<Rightarrow> 64 word \<Rightarrow> nat \<Rightarrow> 's world \<Rightarrow> 's world \<times> attrs" where
  "file_getattr cr stat_fails ino f w =
     (let x = wd_files w f;
          time = (\<lambda>n. unix64 (nd_modTime n));
          out = \<lparr>at_ino = ino, at_mode = S_IFREG + 420, at_size = 0, at_time = 0\<rparr>
      in case (case fn_handle x of None \<Rightarrow> None | Some h \<Rightarrow> tmpSize stat_fails h w) of
           Some sz \<Rightarrow> (w, out\<lparr>at_size := word_of_int sz, at_time := (case fn_node x of None \<Rightarrow> 0 | Some n \<Rightarrow> time n)\<rparr>)
         | None \<Rightarrow>
             (case fn_node x of
                None \<Rightarrow> (w, out)
              | Some n \<Rightarrow>
                  (let c = ResolveAttrs cr n
                   in (upd_file f (\<lambda>y. y\<lparr>fn_node := Some c\<rparr>) w,
                       out\<lparr>at_size := word_of_int (nd_size c), at_time := time c\<rparr>))))"

record statfs =
  sf_bsize :: nat
  sf_frsize :: nat
  sf_namelen :: nat
  sf_blocks :: nat
  sf_bfree :: nat
  sf_bavail :: nat
  sf_files :: nat
  sf_ffree :: nat

definition Statfs :: statfs where
  "Statfs = \<lparr>sf_bsize = 4096, sf_frsize = 4096, sf_namelen = 255, sf_blocks = 2 ^ 40, sf_bfree = 2 ^ 39,
     sf_bavail = 2 ^ 39, sf_files = 2 ^ 30, sf_ffree = 2 ^ 29\<rparr>"

section \<open>Truncating and writing\<close>

definition resize :: "nat \<Rightarrow> bytes \<Rightarrow> bytes" where
  "resize n xs = take n xs @ replicate (n - length xs) 0"

text \<open>\<open>os.File.WriteAt\<close>: a gap before the offset reads as zeros.\<close>

definition write_at :: "bytes \<Rightarrow> nat \<Rightarrow> bytes \<Rightarrow> bytes" where
  "write_at data off xs = (let ys = resize (max (length xs) off) xs in take off ys @ data @ drop (off + length data) ys)"

text \<open>\<open>truncate\<close>: the size arrives as an \<open>int64\<close>; a negative one is refused by the system call.\<close>

definition truncate_tmp :: "bool \<Rightarrow> int \<Rightarrow> nat \<Rightarrow> 's world \<Rightarrow> 's world \<times> bool" where
  "truncate_tmp fails sz h w =
     (case fh_tmp (wd_handles w h) of
        None \<Rightarrow> (w, False)
      | Some t \<Rightarrow>
          if fails \<or> sz < 0 then (w, False)
          else (upd_handle h (\<lambda>x. x\<lparr>fh_dirty := True\<rparr>) (upd_tmp t (\<lambda>x. x\<lparr>tf_data := resize (nat sz) (tf_data x)\<rparr>) w), True))"

definition Setattr ::
    "crypto \<Rightarrow> bool \<Rightarrow> bool \<Rightarrow> 64 word \<Rightarrow> nat \<Rightarrow> nat option \<Rightarrow> 64 word option \<Rightarrow> 's world \<Rightarrow> 's world \<times> (errno + attrs)" where
  "Setattr cr stat_fails trunc_fails ino f fh sz w =
     (case sz of
        None \<Rightarrow> (case file_getattr cr stat_fails ino f w of (w1, a) \<Rightarrow> (w1, Inr a))
      | Some n \<Rightarrow>
          (let given = (case fh of None \<Rightarrow> None | Some h \<Rightarrow> if fh_owns (wd_handles w h) \<and> hasTmp h w then Some h else None);
               target = (if given = None then fn_handle (wd_files w f) else given)
           in case target of
                None \<Rightarrow> (w, Inl EIO)
              | Some h \<Rightarrow>
                  (case truncate_tmp trunc_fails (sint n) h w of
                     (w1, False) \<Rightarrow> (w1, Inl EIO)
                   | (w1, True) \<Rightarrow> (case file_getattr cr stat_fails ino f w1 of (w2, a) \<Rightarrow> (w2, Inr a)))))"

definition Write_at :: "bool \<Rightarrow> bytes \<Rightarrow> int \<Rightarrow> nat \<Rightarrow> 's world \<Rightarrow> 's world \<times> nat \<times> errno" where
  "Write_at fails data off h w =
     (case fh_tmp (wd_handles w h) of
        None \<Rightarrow> (w, 0, EBADF)
      | Some t \<Rightarrow>
          if fails \<or> off < 0 then (w, 0, EIO)
          else (upd_handle h (\<lambda>x. x\<lparr>fh_dirty := True\<rparr>) (upd_tmp t (\<lambda>x. x\<lparr>tf_data := write_at data (nat off) (tf_data x)\<rparr>) w),
                length data, OK))"

definition Flush :: errno where "Flush = OK"
definition Fsync :: errno where "Fsync = OK"

section \<open>Reading\<close>

text \<open>A buffer is read from its temp file, a committed revision through \<open>drive.File\<close>'s \<open>ReadAt\<close>, whose
  result is \<open>remote\<close>.\<close>

definition read_errno :: "bool \<Rightarrow> go_error \<Rightarrow> errno" where
  "read_errno timed_out e = (if timed_out \<or> errors_is e ErrRateLimited then ETIMEDOUT else EIO)"

definition Read_at ::
    "bool \<Rightarrow> bool \<Rightarrow> bytes \<times> go_error option \<Rightarrow> nat \<Rightarrow> int \<Rightarrow> nat \<Rightarrow> 's world \<Rightarrow> errno + bytes" where
  "Read_at fails timed_out remote want off h w =
     (case fh_tmp (wd_handles w h) of
        Some t \<Rightarrow>
          if fails \<or> off < 0 then Inl EIO else Inr (take want (drop (nat off) (tf_data (wd_tmps w t))))
      | None \<Rightarrow>
          (case remote of
             (xs, Some e) \<Rightarrow> if e = ErrEOF then Inr xs else Inl (read_errno timed_out e)
           | (xs, None) \<Rightarrow> Inr xs))"

text \<open>\<open>readerOf\<close>: a handle of its own on the writer's temp file; the new handle's number is \<open>i\<close>. The
  temp file cannot be opened by name once it was removed.\<close>

definition readerOf :: "bool \<Rightarrow> nat \<Rightarrow> nat \<Rightarrow> nat \<Rightarrow> 's world \<Rightarrow> ('s world \<times> nat) option" where
  "readerOf fails i f writer w =
     (case fh_tmp (wd_handles w writer) of
        None \<Rightarrow> None
      | Some t \<Rightarrow>
          if fails \<or> \<not> tf_there (wd_tmps w t) then None
          else Some (w\<lparr>wd_handles := (wd_handles w)(i := \<lparr>fh_file = f, fh_tmp = Some t, fh_dirty = False, fh_owns = False,
                 fh_parked = False, fh_timer = None, fh_due = False, fh_retryIn = 0, fh_failed = False, fh_gone = False\<rparr>)\<rparr>, i))"

section \<open>Filling a buffer from the drive\<close>

text \<open>\<open>downloadInto\<close>'s loop over \<open>ReadAt\<close>, a quarter of a megabyte at a time.\<close>

definition copyChunk :: nat where "copyChunk = 262144"

partial_function (option) download_loop ::
    "http_env \<Rightarrow> file_st \<Rightarrow> bytes \<Rightarrow> (file_st \<times> bytes \<times> go_error option) option" where
  "download_loop en f got =
     (case ReadAt en copyChunk (int (length got)) f of
        (f1, xs, err) \<Rightarrow>
          (case err of
             None \<Rightarrow> download_loop en f1 (got @ xs)
           | Some e \<Rightarrow> Some (f1, got @ xs, if e = ErrEOF then None else Some e)))"

definition downloadInto :: "http_env \<Rightarrow> file_st \<Rightarrow> (file_st \<times> bytes \<times> int \<times> go_error option) option" where
  "downloadInto en f =
     (case download_loop en f [] of
        None \<Rightarrow> None
      | Some (f1, data, err) \<Rightarrow> Some (fst (Close f1), data, BytesTransferred f1, err))"

text \<open>A read of one chunk at a multiple of its size stays inside one block, so it never ends early
  because of a second one.\<close>

lemma chunk_in_block: "(k * 262144) mod 4194304 \<le> 4194304 - (262144 :: int)"
proof -
  have "(k * 262144) mod (16 * 262144) = (k mod 16) * (262144 :: int)" by (rule mult_mod_left [symmetric])
  moreover have "k mod 16 \<le> 15" using pos_mod_bound [of 16 k] by simp
  ultimately show ?thesis by simp
qed

lemma ReadAt_chunk:
  assumes h: "honest en truth content f" "fl_size f = int (length content)"
    and al: "n = k * copyChunk" and r: "ReadAt en copyChunk (int n) f = (f', xs, err)"
  shows "honest en truth content f' \<and> keeps f f'
    \<and> ((\<exists>e idx. err = Some e \<and> xs = [] \<and> getBlock en idx f = (f', Inl e))
       \<or> xs = take copyChunk (drop n content) \<and> err = (if n + copyChunk \<le> length content then None else Some ErrEOF))"
proof (cases "length content \<le> n")
  case True
  then show ?thesis using r h by (auto simp: ReadAt_def copyChunk_def)
next
  case False
  have cc: "0 < copyChunk" by (simp add: copyChunk_def)
  let ?i = "blockIndexForOffset (int n)"
  obtain f1 g where g: "getBlock en ?i f = (f1, g)" by fastforce
  note k = getBlock_ok [OF h(1) g]
  obtain f2 lr where l: "read_loop en copyChunk (int n) f [] = (f2, lr)" by fastforce
  have R: "ReadAt en copyChunk (int n) f = (case lr of Inl e \<Rightarrow> (f2, [], Some e)
      | Inr got \<Rightarrow> (f2, got, if length got < copyChunk then Some ErrEOF else None))"
    using False h(2) l by (simp add: ReadAt_def split: sum.split)
  show ?thesis
  proof (cases g)
    case (Inl e)
    then have "read_loop en copyChunk (int n) f [] = (f1, Inl e)"
      using g False h(2) cc by (simp add: read_loop.simps [of en copyChunk "int n" f] Let_def)
    then show ?thesis using R r l k g Inl by auto
  next
    case (Inr data)
    have d: "data = chunk content ?i" using k Inr by simp
    let ?o = "int n - blockByteOffset ?i"
    have reach: "?o < int (length data)" using chunk_reaches [of "int n" content] False d by simp
    let ?xs = "take copyChunk (drop n content)"
    have m: "int n mod blockSize \<le> blockSize - int copyChunk"
      unfolding al using chunk_in_block [of "int k"] by (simp add: blockSize_def copyChunk_def)
    have bs: "nat (blockSize - int n mod blockSize) \<ge> copyChunk" using m by linarith
    have got: "take copyChunk (drop (nat ?o) data) = ?xs"
      using chunk_at [of "int n" content] bs d by (simp add: min_def)
    have step: "read_loop en copyChunk (int n) f [] = read_loop en copyChunk (int n) f1 ?xs"
      using g Inr False h(2) reach got cc by (simp add: read_loop.simps [of en copyChunk "int n" f] Let_def)
    have stop: "copyChunk \<le> length ?xs \<or> fl_size f1 \<le> int n + int (length ?xs)"
      using k h(2) False by (auto simp: keeps_def)
    have "read_loop en copyChunk (int n) f1 ?xs = (f1, Inr ?xs)"
      using stop by (auto simp: read_loop.simps [of en copyChunk "int n" f1] Let_def)
    then have e: "f2 = f1" "lr = Inr ?xs" using step l by simp_all
    have "f' = f1 \<and> xs = ?xs \<and> err = (if length ?xs < copyChunk then Some ErrEOF else None)"
      using r unfolding R e sum.case by blast
    moreover have "length ?xs < copyChunk \<longleftrightarrow> \<not> n + copyChunk \<le> length content" using False by auto
    ultimately show ?thesis using k by auto
  qed
qed

lemma download_loop_ends:
  assumes "honest en truth content f" "fl_size f = int (length content)" "keeps f0 f"
    and "got = take (k * copyChunk) content" "k * copyChunk \<le> length content"
  shows "\<exists>f' data err. download_loop en f got = Some (f', data, err)
    \<and> (err = None \<longrightarrow> data = content \<or> (\<exists>idx f1 f2. keeps f0 f1 \<and> getBlock en idx f1 = (f2, Inl ErrEOF)))"
  using assms
proof (induction "length content - k * copyChunk" arbitrary: k f got rule: less_induct)
  case less
  obtain f1 xs err where r: "ReadAt en copyChunk (int (length got)) f = (f1, xs, err)" by (metis prod_cases3)
  have len: "length got = k * copyChunk" using less.prems(4,5) by simp
  note c = ReadAt_chunk [OF less.prems(1,2) refl, of k f1 xs err, folded len, OF r]
  have k1: "keeps f0 f1" using c less.prems(3) keeps_trans by blast
  show ?case
  proof (cases err)
    case None
    have full: "xs = take copyChunk (drop (length got) content)" "length got + copyChunk \<le> length content"
      using c None by (auto split: if_splits)
    have got': "got @ xs = take (Suc k * copyChunk) content"
      using full(1) less.prems(4) len take_add [of "k * copyChunk" copyChunk content] by (simp add: add.commute)
    have "\<exists>f' data err. download_loop en f1 (got @ xs) = Some (f', data, err)
      \<and> (err = None \<longrightarrow> data = content \<or> (\<exists>idx f1 f2. keeps f0 f1 \<and> getBlock en idx f1 = (f2, Inl ErrEOF)))"
    proof (rule less.hyps [OF _ _ _ k1 got'])
      show "length content - Suc k * copyChunk < length content - k * copyChunk"
        using full(2) len by (simp add: copyChunk_def)
      show "honest en truth content f1" using c by simp
      show "fl_size f1 = int (length content)" using c less.prems(2) by (auto simp: keeps_def)
      show "Suc k * copyChunk \<le> length content" using full(2) len by simp
    qed
    then show ?thesis using r None by (simp add: download_loop.simps [of en f])
  next
    case (Some e)
    have "download_loop en f got = Some (f1, got @ xs, if e = ErrEOF then None else Some e)"
      using r Some by (simp add: download_loop.simps [of en f])
    moreover have "got @ xs = content \<or> (\<exists>idx. getBlock en idx f = (f1, Inl e))"
    proof -
      have "got @ xs = content" if "xs = take copyChunk (drop (length got) content)" "\<not> length got + copyChunk \<le> length content"
        using that less.prems(4) len by (metis append_take_drop_id length_drop le_diff_conv nat_le_linear take_all add.commute)
      then show ?thesis using c Some by (auto split: if_splits)
    qed
    ultimately show ?thesis using less.prems(3) by auto
  qed
qed



section \<open>Opening a file\<close>

definition O_ACCMODE :: "32 word" where "O_ACCMODE = 3"
definition O_TRUNC :: "32 word" where "O_TRUNC = 512"
definition FOPEN_DIRECT_IO :: nat where "FOPEN_DIRECT_IO = 1"
definition FOPEN_KEEP_CACHE :: nat where "FOPEN_KEEP_CACHE = 2"

text \<open>A handle on a temp file, or one that streams a revision.\<close>

datatype opened = Buffered nat nat | Streaming node nat

text \<open>What an open depends on: the denylist (\<open>deniedReader\<close>, by size), \<open>OpenFile\<close>, the download (its
  bytes, those moved over the network, its error), the deadline, and the local system calls
  (\<open>True\<close> is a failure).\<close>

record open_env =
  oe_denied :: "int \<Rightarrow> bool"
  oe_open :: "node \<Rightarrow> go_error option"
  oe_download :: "node \<Rightarrow> bytes \<times> int \<times> go_error option"
  oe_timedOut :: bool
  oe_create :: bool
  oe_openTmp :: bool
  oe_trunc :: bool

definition record_download :: "string \<Rightarrow> string \<Rightarrow> int \<Rightarrow> string \<Rightarrow> 's world \<Rightarrow> 's world" where
  "record_download path st moved msg w =
     w\<lparr>wd_recent := recordFinished \<lparr>rt_path = path, rt_action = ''download'', rt_status = st,
         rt_bytes = moved, rt_finished = wd_now w, rt_err = msg\<rparr> (wd_recent w)\<rparr>"

definition parkedHandle :: "nat \<Rightarrow> 's world \<Rightarrow> nat option" where
  "parkedHandle f w =
     (case fn_handle (wd_files w f) of
        None \<Rightarrow> None
      | Some h \<Rightarrow> if fh_parked (wd_handles w h) then Some h else None)"

text \<open>An error of the download or of \<open>OpenFile\<close>; a file gone from the drive expires its folder.\<close>

definition open_failed :: "open_env \<Rightarrow> go_error \<Rightarrow> nat \<Rightarrow> 's world \<Rightarrow> 's world \<times> (errno + opened)" where
  "open_failed oe err d w =
     (case openErrno err (oe_timedOut oe) of (e, gone) \<Rightarrow> (if gone then mt_expire d w else w, Inl e))"

definition open_for_reading :: "open_env \<Rightarrow> nat \<Rightarrow> nat \<Rightarrow> node \<Rightarrow> 's world \<Rightarrow> 's world \<times> (errno + opened)" where
  "open_for_reading oe i f n w =
     (case (case fn_handle (wd_files w f) of None \<Rightarrow> None | Some h \<Rightarrow> readerOf (oe_openTmp oe) i f h w) of
        Some (w1, r) \<Rightarrow> (w1, Inr (Buffered r FOPEN_DIRECT_IO))
      | None \<Rightarrow>
          (case oe_open oe n of
             Some err \<Rightarrow> open_failed oe err (fn_parent (wd_files w f)) w
           | None \<Rightarrow> (w, Inr (Streaming n FOPEN_KEEP_CACHE))))"

definition open_for_writing ::
    "config \<Rightarrow> open_env \<Rightarrow> nat \<Rightarrow> nat \<Rightarrow> bool \<Rightarrow> node \<Rightarrow> 's world \<Rightarrow> 's world \<times> (errno + opened)" where
  "open_for_writing cfg oe i f trunc n w =
     (if fn_handle (wd_files w f) \<noteq> None then (w, Inl EBUSY)
      else if oe_create oe then (w, Inl EIO)
      else if trunc then (open_buffer i f [] w, Inr (Buffered i 0))
      else (case oe_download oe n of
              (xs, moved, Some err) \<Rightarrow>
                open_failed oe err (fn_parent (wd_files w f)) (record_download (file_path cfg w f) ''failed'' moved ''download'' w)
            | (xs, moved, None) \<Rightarrow>
                (open_buffer i f xs (if 0 < moved then record_download (file_path cfg w f) ''done'' moved [] w else w),
                 Inr (Buffered i 0))))"

definition Open_file ::
    "config \<Rightarrow> open_env \<Rightarrow> nat \<Rightarrow> nat \<Rightarrow> 32 word \<Rightarrow> 's world \<Rightarrow> 's world \<times> (errno + opened)" where
  "Open_file cfg oe i f flags w =
     (let readOnly = (flags AND O_ACCMODE = 0); trunc = (flags AND O_TRUNC \<noteq> 0);
          taken = (case parkedHandle f w of
                     None \<Rightarrow> None
                   | Some h \<Rightarrow> if readOnly then None
                              else (case unpark True h w of (w1, b) \<Rightarrow> if b then Some (w1, h) else None))
      in case taken of
           Some (w1, h) \<Rightarrow>
             if trunc
             then (case truncate_tmp (oe_trunc oe) 0 h w1 of
                     (w2, True) \<Rightarrow> (w2, Inr (Buffered h 0))
                   | (w2, False) \<Rightarrow> (w2, Inl EIO))
             else (w1, Inr (Buffered h 0))
         | None \<Rightarrow>
             (case fn_node (wd_files w f) of
                None \<Rightarrow>
                  (case (if readOnly then fn_handle (wd_files w f) else None) of
                     None \<Rightarrow> (w, Inl EIO)
                   | Some h \<Rightarrow>
                       (case readerOf (oe_openTmp oe) i f h w of
                          None \<Rightarrow> (w, Inl EIO)
                        | Some (w1, r) \<Rightarrow> (w1, Inr (Buffered r FOPEN_DIRECT_IO))))
              | Some n \<Rightarrow>
                  if oe_denied oe (nd_size n) then (w, Inl EACCES)
                  else if readOnly then open_for_reading oe i f n w
                  else open_for_writing cfg oe i f trunc n w))"

text \<open>\<open>Release\<close> of a handle that streamed a revision: its transfer ends, and is recorded when it moved
  anything.\<close>

definition release_reader :: "string \<Rightarrow> file_st \<Rightarrow> 's world \<Rightarrow> 's world \<times> file_st" where
  "release_reader path fl w =
     (let moved = BytesTransferred fl
      in case Close fl of
           (fl1, err) \<Rightarrow>
             if moved = 0 then (w, fl1)
             else (case err of
                     Some e \<Rightarrow> (record_download path ''failed'' moved ''close'' w, fl1)
                   | None \<Rightarrow> (record_download path ''done'' moved [] w, fl1)))"

section \<open>What the handlers do to the content\<close>

lemma length_resize [simp]: "length (resize n xs) = n"
  by (simp add: resize_def)

lemma length_write_at: "length (write_at data off xs) = max (length xs) (off + length data)"
  by (auto simp: write_at_def Let_def)

lemma nth_resize: "i < n \<Longrightarrow> resize n xs ! i = (if i < length xs then xs ! i else 0)"
  by (auto simp: resize_def nth_append)

text \<open>Reading a byte back: what was written, else what was there, else the zero of a gap.\<close>

lemma nth_write_at:
  assumes "i < max (length xs) (off + length data)"
  shows "write_at data off xs ! i =
    (if off \<le> i \<and> i < off + length data then data ! (i - off) else if i < length xs then xs ! i else 0)"
proof -
  let ?ys = "resize (max (length xs) off) xs"
  have l: "length (take off ?ys) = off" by simp
  consider "i < off" | "off \<le> i" "i < off + length data" | "off + length data \<le> i" by linarith
  then show ?thesis
  proof cases
    case 1
    then show ?thesis by (simp add: write_at_def Let_def nth_append nth_resize)
  next
    case 2
    then have "i - off < length data" by linarith
    then show ?thesis using 2 by (simp add: write_at_def Let_def nth_append)
  next
    case 3
    then have "i < length xs" using assms by linarith
    moreover have "\<not> i < off" "\<not> i - off < length data" "i - off - length data + (off + length data) = i" using 3 by linarith+
    ultimately show ?thesis using 3 by (simp add: write_at_def Let_def nth_append nth_resize add.commute)
  qed
qed

lemma read_write_at: "take (length data) (drop off (write_at data off xs)) = data"
proof -
  have "length (take off (resize (max (length xs) off) xs)) = off" by simp
  then show ?thesis by (simp add: write_at_def Let_def)
qed

text \<open>Whoever reads a file being written sees the writes: after a write through one handle, every
  handle on the same temp file (the writer's own, and readers opened on it) reads back the bytes
  written, and the handle is dirty, so its close uploads them.\<close>

theorem write_read_back:
  assumes "Write_at fails data off h w = (w', n, OK)" "fh_tmp (wd_handles w r) = fh_tmp (wd_handles w h)"
  shows "Read_at False late remote (length data) off r w' = Inr data \<and> n = length data \<and> fh_dirty (wd_handles w' h)"
proof -
  obtain t where t: "fh_tmp (wd_handles w h) = Some t" "\<not> fails" "0 \<le> off"
    using assms(1) by (auto simp: Write_at_def split: option.splits if_splits)
  have w': "w' = upd_handle h (\<lambda>x. x\<lparr>fh_dirty := True\<rparr>) (upd_tmp t (\<lambda>x. x\<lparr>tf_data := write_at data (nat off) (tf_data x)\<rparr>) w)"
      "n = length data"
    using assms(1) t by (simp_all add: Write_at_def)
  have "fh_tmp (wd_handles w' r) = Some t" using assms(2) t by (simp add: w' upd_handle_def upd_tmp_def)
  then show ?thesis using t by (simp add: Read_at_def w' upd_handle_def upd_tmp_def read_write_at)
qed

theorem write_read_back_witness:
  "\<exists>w' n. Write_at False [7, 8] 3 0 (create_file 0 0 ''a'' demo_world) = (w', n, OK)
     \<and> Read_at False False ([], None) (length [7 :: 8 word, 8]) 3 0 w' = Inr [7, 8]"
proof -
  obtain w' n e where e: "Write_at False [7, 8] 3 0 (create_file 0 0 ''a'' demo_world) = (w', n, e)" by (metis prod_cases3)
  then have ok: "Write_at False [7, 8] 3 0 (create_file 0 0 ''a'' demo_world) = (w', n, OK)"
    by (simp add: Write_at_def create_file_def new_buffer_def upd_file_def)
  from write_read_back [OF ok refl, of False "([], None)"] show ?thesis using ok by blast
qed

text \<open>A second writer is refused: the file's one buffer belongs to the handle that has it.\<close>

lemma Open_write_busy:
  assumes "fn_handle (wd_files w f) = Some h" "\<not> fh_parked (wd_handles w h)" "fn_node (wd_files w f) = Some n"
    and "flags AND O_ACCMODE \<noteq> 0" "\<not> oe_denied oe (nd_size n)"
  shows "Open_file cfg oe i f flags w = (w, Inl EBUSY)"
  using assms by (simp add: Open_file_def parkedHandle_def open_for_writing_def)

text \<open>A writer that opens a parked file gets the parked buffer itself, with its unsaved content, and no
  timer uploads it meanwhile.\<close>

lemma Open_takes_parked:
  assumes "h_parked w h" "fn_handle (wd_files w f) = Some h" "flags AND O_ACCMODE \<noteq> 0" "flags AND O_TRUNC = 0"
  shows "\<exists>w'. Open_file cfg oe i f flags w = (w', Inr (Buffered h 0)) \<and> h_live w' h \<and> fh_dirty (wd_handles w' h)
    \<and> wd_tmps w' = wd_tmps w"
proof -
  obtain w1 b where u: "unpark True h w = (w1, b)" by fastforce
  have p: "fh_parked (wd_handles w h)" using assms(1) by (simp add: h_parked_def)
  then have b: b using u by (simp add: unpark_def Let_def split: if_splits)
  with u have u1: "unpark True h w = (w1, True)" by simp
  have "fh_dirty (wd_handles w1 h)" "wd_tmps w1 = wd_tmps w"
    using u p by (auto simp: unpark_def Let_def world_defs split: if_splits)
  moreover have "h_live w1 h" using unpark_parked [OF u1 assms(1)] .
  ultimately show ?thesis using assms(2-4) u b p by (simp add: Open_file_def parkedHandle_def)
qed

end
