(* ===== verification/Dir_Ops.thy ===== *)
theory Dir_Ops
  imports File_Ops
begin

text \<open>
  The handlers of a directory (internal/fusefs/fusefs.go, \<open>dirNode\<close>): lookup and listing, where drive
  entries, pending files and local-only entries meet; making, removing and renaming entries. A
  handler runs in one piece here. A new inode's number is a parameter; so are the names
  of the inodes under a directory, in the order go-fuse's map gives them. go-fuse itself
  moves or removes the inode after a rename or an unlink that answered \<open>OK\<close>.
\<close>

section \<open>What a handler depends on\<close>

text \<open>\<open>dv_local\<close> is what the one local system call that changes something reports, \<open>OK\<close> when only its
  arguments decide.\<close>

record 's dir_env =
  dv_drive :: "'s drive_env"
  dv_mkdir :: "node \<Rightarrow> string \<Rightarrow> go_error + node"
  dv_crypto :: crypto
  dv_io :: buffer_io
  dv_up :: "job \<Rightarrow> upload_result"
  dv_local :: errno
  dv_ino :: "64 word"

definition dv_load :: "'s dir_env \<Rightarrow> 's load_env" where
  "dv_load ev = de_load (dv_drive ev)"

definition release_of :: "config \<Rightarrow> 's dir_env \<Rightarrow> nat \<Rightarrow> 's world \<Rightarrow> 's world \<times> errno" where
  "release_of cfg ev h w = Release cfg (dv_io ev) (dv_drive ev) (dv_up ev) h w"

section \<open>Names kept on local disk\<close>

definition child_path :: "config \<Rightarrow> nat \<Rightarrow> string \<Rightarrow> string" where
  "child_path cfg d name = path_join [mc_path cfg d, name]"

definition localPath :: "config \<Rightarrow> nat \<Rightarrow> string \<Rightarrow> string option" where
  "localPath cfg d name = (if mc_excluded cfg name then localDir (mc_local cfg) (child_path cfg d name) else None)"

definition keepsLocal :: "config \<Rightarrow> nat \<Rightarrow> string \<Rightarrow> bool" where
  "keepsLocal cfg d name \<longleftrightarrow> mc_local cfg \<and> (mc_excluded cfg name \<or> inTrash (mc_path cfg d))"

definition storedPath :: "config \<Rightarrow> nat \<Rightarrow> string \<Rightarrow> store \<Rightarrow> string option" where
  "storedPath cfg d name l =
     (if keepsLocal cfg d name \<and> lstat (child_path cfg d name) l \<noteq> None then Some (child_path cfg d name) else None)"

definition onDrive :: "'s dir_env \<Rightarrow> nat \<Rightarrow> string \<Rightarrow> 's world \<Rightarrow> 's world \<times> bool" where
  "onDrive ev d name w = (case mt_find (dv_load ev) d name w of (w1, n, e) \<Rightarrow> (w1, e \<noteq> ENOENT))"

definition localEntry :: "config \<Rightarrow> 's dir_env \<Rightarrow> nat \<Rightarrow> string \<Rightarrow> 's world \<Rightarrow> 's world \<times> string option" where
  "localEntry cfg ev d name w =
     (case storedPath cfg d name (wd_local w) of
        None \<Rightarrow> (w, None)
      | Some p \<Rightarrow>
          if mc_excluded cfg name then (w, Some p)
          else (case onDrive ev d name w of (w1, b) \<Rightarrow> (w1, if b then None else Some p)))"

text \<open>A system call on the store, with its arguments' outcome or the failure \<open>dv_local\<close>.\<close>

definition on_store :: "'s dir_env \<Rightarrow> (store \<Rightarrow> store \<times> errno) \<Rightarrow> 's world \<Rightarrow> 's world \<times> errno" where
  "on_store ev f w =
     (if dv_local ev \<noteq> OK then (w, dv_local ev)
      else (case f (wd_local w) of (l, e) \<Rightarrow> (w\<lparr>wd_local := l\<rparr>, e)))"

section \<open>Lookup\<close>

datatype found = Found inode attrs | FoundLocal string local_entry

definition pendingChild :: "'s world \<Rightarrow> nat \<Rightarrow> string \<Rightarrow> nat option" where
  "pendingChild w d name =
     (case fileChild w d name of
        None \<Rightarrow> None
      | Some f \<Rightarrow> if fn_node (wd_files w f) = None then Some f else None)"

definition lookupLocal :: "config \<Rightarrow> nat \<Rightarrow> string \<Rightarrow> store \<Rightarrow> errno + found" where
  "lookupLocal cfg d name l =
     (case storedPath cfg d name l of
        None \<Rightarrow> Inl ENOENT
      | Some p \<Rightarrow> (case lstat p l of None \<Rightarrow> Inl ENOENT | Some e \<Rightarrow> Inr (FoundLocal p e)))"

definition refreshNode :: "inode \<Rightarrow> node \<Rightarrow> 's world \<Rightarrow> 's world" where
  "refreshNode ino n w = (case ino of IFile f \<Rightarrow> file_setNode f n w | IDir r \<Rightarrow> refresh_dir r n w)"

definition makeChild :: "crypto \<Rightarrow> nat \<Rightarrow> nat \<Rightarrow> node \<Rightarrow> 's world \<Rightarrow> 's world \<times> found" where
  "makeChild cr i d child w =
     (case fillEntryOut cr child of
        (c, out) \<Rightarrow>
          let put = (\<lambda>ino v. v\<lparr>wd_tree := (wd_tree v)(d := (wd_tree v d)(nd_name child \<mapsto> ino))\<rparr>)
          in if IsDir child
             then (put (IDir i) (register i (w\<lparr>mt_dirs := (mt_dirs w)(i := new_dir c (dn_ttl (mt_dirs w d)))\<rparr>)), Found (IDir i) out)
             else (put (IFile i) (w\<lparr>wd_files := (wd_files w)(i := \<lparr>fn_node = Some c, fn_parent = d, fn_name = nd_name child,
                     fn_handle = None, fn_pinned = False, fn_replaces = None, fn_busy = False\<rparr>)\<rparr>), Found (IFile i) out))"

text \<open>The listing's own entry gets its attributes resolved: the node is shared.\<close>

definition resolve_entry :: "node \<Rightarrow> node \<Rightarrow> dir \<Rightarrow> dir" where
  "resolve_entry child c d = d\<lparr>dn_children := map_option (map (\<lambda>x. if x = child then c else x)) (dn_children d)\<rparr>"

definition lookup_pending :: "'s dir_env \<Rightarrow> nat \<Rightarrow> 's world \<Rightarrow> 's world \<times> (errno + found)" where
  "lookup_pending ev f w =
     (case file_getattr (dv_crypto ev) (io_stat (dv_io ev)) (dv_ino ev) f w of (w1, a) \<Rightarrow> (w1, Inr (Found (IFile f) a)))"

definition Lookup :: "config \<Rightarrow> 's dir_env \<Rightarrow> nat \<Rightarrow> nat \<Rightarrow> string \<Rightarrow> 's world \<Rightarrow> 's world \<times> (errno + found)" where
  "Lookup cfg ev i d name w =
     (if mc_excluded cfg name
      then (case pendingChild w d name of
              Some f \<Rightarrow> lookup_pending ev f w
            | None \<Rightarrow> (w, lookupLocal cfg d name (wd_local w)))
      else (case mt_load (dv_load ev) d w of
              (w1, cs, e) \<Rightarrow>
                if e \<noteq> OK then (w1, Inl e)
                else (case List.find (\<lambda>ch. nd_name ch = name) (nil_list cs) of
                        Some child \<Rightarrow>
                          (let c = ResolveAttrs (dv_crypto ev) child; w2 = upd_dir d (resolve_entry child c) w1
                           in case wd_tree w2 d name of
                                Some ino \<Rightarrow> (refreshNode ino c w2, Inr (Found ino (snd (fillEntryOut (dv_crypto ev) c))))
                              | None \<Rightarrow> (case makeChild (dv_crypto ev) i d c w2 of (w3, x) \<Rightarrow> (w3, Inr x)))
                      | None \<Rightarrow>
                          (case pendingChild w1 d name of
                             Some f \<Rightarrow> lookup_pending ev f w1
                           | None \<Rightarrow> (w1, lookupLocal cfg d name (wd_local w1))))))"

section \<open>Listing\<close>

datatype dirent = DriveEntry string "64 word" nat | PendingEntry string | LocalEntry string local_entry

primrec entry_name :: "dirent \<Rightarrow> string" where
  "entry_name (DriveEntry n i m) = n"
| "entry_name (PendingEntry n) = n"
| "entry_name (LocalEntry n e) = n"

definition drive_entry :: "node \<Rightarrow> dirent" where
  "drive_entry ch = DriveEntry (nd_name ch) (inodeNum (lk_id (nd_link ch))) (if IsDir ch then S_IFDIR else S_IFREG)"

definition drive_entries :: "config \<Rightarrow> node list \<Rightarrow> dirent list" where
  "drive_entries cfg cs = map drive_entry (filter (\<lambda>ch. \<not> mc_excluded cfg (nd_name ch)) cs)"

definition pending_entries :: "'s world \<Rightarrow> nat \<Rightarrow> string list \<Rightarrow> string list \<Rightarrow> dirent list" where
  "pending_entries w d kids listed =
     map PendingEntry (filter (\<lambda>n. n \<notin> set listed \<and> pendingChild w d n \<noteq> None) kids)"

text \<open>\<open>os.ReadDir\<close>: the entries directly in a directory of the store, by name.\<close>

definition read_dir :: "string \<Rightarrow> store \<Rightarrow> (string \<times> local_entry) list" where
  "read_dir rel l =
     (let pre = (if rel = [] then [] else rel @ ''/'')
      in map (\<lambda>(p, e). (drop (length pre) p, e))
           (filter (\<lambda>(p, e). prefix pre p \<and> CHR ''/'' \<notin> set (drop (length pre) p)) l))"

definition local_entries :: "config \<Rightarrow> nat \<Rightarrow> string list \<Rightarrow> store \<Rightarrow> dirent list" where
  "local_entries cfg d listed l =
     (case localDir (mc_local cfg) (mc_path cfg d) of
        None \<Rightarrow> []
      | Some dir \<Rightarrow>
          map (\<lambda>(n, e). LocalEntry n e) (filter (\<lambda>(n, e). n \<notin> set listed \<and> keepsLocal cfg d n) (read_dir dir l)))"

definition Readdir :: "config \<Rightarrow> 's dir_env \<Rightarrow> string list \<Rightarrow> nat \<Rightarrow> 's world \<Rightarrow> 's world \<times> (errno + dirent list)" where
  "Readdir cfg ev kids d w =
     (case mt_load (dv_load ev) d w of
        (w1, cs, e) \<Rightarrow>
          if e \<noteq> OK then (w1, Inl e)
          else (let es = drive_entries cfg (nil_list cs);
                    es2 = es @ pending_entries w1 d kids (map entry_name es)
                in (w1, Inr (es2 @ local_entries cfg d (map entry_name es2) (wd_local w1)))))"

section \<open>Making entries\<close>

definition drive_errno :: "bool \<Rightarrow> errno" where
  "drive_errno timed_out = (if timed_out then ETIMEDOUT else EIO)"

definition Mkdir :: "config \<Rightarrow> 's dir_env \<Rightarrow> nat \<Rightarrow> nat \<Rightarrow> string \<Rightarrow> 's world \<Rightarrow> 's world \<times> (errno + found)" where
  "Mkdir cfg ev i d name w =
     (case localPath cfg d name of
        Some p \<Rightarrow>
          (case on_store ev (mkdir_parents p) w of
             (w1, e) \<Rightarrow>
               if e \<noteq> OK then (w1, Inl e)
               else (case on_store ev (sys_mkdir p) w1 of
                       (w2, e2) \<Rightarrow> if e2 \<noteq> OK then (w2, Inl e2) else (w2, lookupLocal cfg d name (wd_local w2))))
      | None \<Rightarrow>
          (let w1 = drive_log (DMkdir d name) w
           in case dv_mkdir ev (dn_node (mt_dirs w d)) name of
                Inl err \<Rightarrow> (w1, Inl (drive_errno (de_timedOut (dv_drive ev))))
              | Inr created \<Rightarrow>
                  (case makeChild (dv_crypto ev) i d created (mt_upsert d created w1) of (w2, x) \<Rightarrow> (w2, Inr x))))"

definition Create :: "'s dir_env \<Rightarrow> nat \<Rightarrow> nat \<Rightarrow> string \<Rightarrow> 's world \<Rightarrow> 's world \<times> (errno + attrs)" where
  "Create ev i d name w =
     (if io_create (dv_io ev) then (w, Inl EIO)
      else (create_file i d name w,
            Inr \<lparr>at_ino = inodeNum (linkID (mt_dirs w d) @ ''/'' @ name), at_mode = S_IFREG + 420, at_size = 0, at_time = 0\<rparr>))"

section \<open>Removing entries\<close>

definition remove_child :: "config \<Rightarrow> 's dir_env \<Rightarrow> nat \<Rightarrow> string \<Rightarrow> 's world \<Rightarrow> 's world \<times> errno" where
  "remove_child cfg ev d name w =
     (case mt_find (dv_load ev) d name w of
        (w1, Some target, OK) \<Rightarrow>
          (let (w2, e) =
             (case localDir (mc_local cfg) (child_path cfg d name) of
                Some p \<Rightarrow> if IsDir target then on_store ev (removeLocalMirror (mc_excluded cfg) p) w1 else (w1, OK)
              | None \<Rightarrow> (w1, OK))
           in if e \<noteq> OK then (w2, e)
              else (let w3 = drive_log (DTrash (lk_id (nd_link target))) w2
                    in case de_trash (dv_drive ev) target of
                         Some err \<Rightarrow> (w3, drive_errno (de_timedOut (dv_drive ev)))
                       | None \<Rightarrow> (mt_remove d name w3, OK)))
      | (w1, n, e) \<Rightarrow> (w1, if e = OK then ENOENT else e))"

definition unlinkPending :: "nat \<Rightarrow> 's world \<Rightarrow> 's world \<times> bool" where
  "unlinkPending f w =
     (case (fn_node (wd_files w f), fn_handle (wd_files w f)) of
        (None, Some h) \<Rightarrow> (mark_gone h w, True)
      | _ \<Rightarrow> (w, False))"

text \<open>Taking a parked buffer back to drop it (\<open>dirty\<close> false) or to upload it; \<open>True\<close> when it did.\<close>

definition take_parked :: "config \<Rightarrow> 's dir_env \<Rightarrow> bool \<Rightarrow> nat \<Rightarrow> 's world \<Rightarrow> 's world \<times> errno option" where
  "take_parked cfg ev dirty h w =
     (case unpark dirty h w of
        (w1, False) \<Rightarrow> (w1, None)
      | (w1, True) \<Rightarrow> (case release_of cfg ev h w1 of (w2, e) \<Rightarrow> (w2, Some e)))"

definition unlink_file :: "config \<Rightarrow> 's dir_env \<Rightarrow> nat \<Rightarrow> 's world \<Rightarrow> 's world \<times> bool" where
  "unlink_file cfg ev f w =
     (case (case parkedHandle f w of None \<Rightarrow> (w, None) | Some h \<Rightarrow> take_parked cfg ev False h w) of
        (w1, Some e) \<Rightarrow> if fn_node (wd_files w1 f) = None then (w1, True) else unlinkPending f w1
      | (w1, None) \<Rightarrow> unlinkPending f w1)"

definition Unlink :: "config \<Rightarrow> 's dir_env \<Rightarrow> nat \<Rightarrow> string \<Rightarrow> 's world \<Rightarrow> 's world \<times> errno" where
  "Unlink cfg ev d name w =
     (case (case fileChild w d name of None \<Rightarrow> (w, False) | Some f \<Rightarrow> unlink_file cfg ev f w) of
        (w1, True) \<Rightarrow> (w1, OK)
      | (w1, False) \<Rightarrow>
          (case localEntry cfg ev d name w1 of
             (w2, Some p) \<Rightarrow> on_store ev (sys_unlink p) w2
           | (w2, None) \<Rightarrow> remove_child cfg ev d name w2))"

definition Rmdir :: "config \<Rightarrow> 's dir_env \<Rightarrow> nat \<Rightarrow> string \<Rightarrow> 's world \<Rightarrow> 's world \<times> errno" where
  "Rmdir cfg ev d name w =
     (case localEntry cfg ev d name w of
        (w1, Some p) \<Rightarrow> on_store ev (sys_rmdir p) w1
      | (w1, None) \<Rightarrow> remove_child cfg ev d name w1)"

section \<open>Renaming\<close>

definition renameFlags :: "32 word" where "renameFlags = 3"

text \<open>The new parent is a folder of the mount, or one of the local store at a path.\<close>

datatype new_parent = InDrive nat | InLocal string

definition replace :: "config \<Rightarrow> 's dir_env \<Rightarrow> nat \<Rightarrow> string \<Rightarrow> nat option \<Rightarrow> string \<Rightarrow> 's world \<Rightarrow> 's world" where
  "replace cfg ev d name src srcLink w =
     (case fileChild w d name of
        None \<Rightarrow> w
      | Some dst \<Rightarrow>
          if src = Some dst then w
          else if srcLink \<noteq> [] \<and> (case fn_node (wd_files w dst) of Some n \<Rightarrow> lk_id (nd_link n) = srcLink | None \<Rightarrow> False) then w
          else (let w1 = (case src of None \<Rightarrow> w | Some s \<Rightarrow> upd_file s (\<lambda>x. x\<lparr>fn_replaces := Some dst\<rparr>) w)
                in case fn_handle (wd_files w dst) of
                     None \<Rightarrow> w1
                   | Some h \<Rightarrow> fst (take_parked cfg ev False h (mark_gone h w1))))"

definition renamePending :: "config \<Rightarrow> 's dir_env \<Rightarrow> nat \<Rightarrow> string \<Rightarrow> nat \<Rightarrow> string \<Rightarrow> 's world \<Rightarrow> 's world \<times> errno" where
  "renamePending cfg ev d name newDir newName w =
     (case fileChild w d name of
        None \<Rightarrow> (w, ENOENT)
      | Some f \<Rightarrow>
          (case mt_find (dv_load ev) newDir newName (replace cfg ev newDir newName (Some f) [] w) of
             (w1, existing, e) \<Rightarrow>
               (let w2 = upd_file f (\<lambda>x. x\<lparr>fn_name := newName, fn_parent := newDir,
                                          fn_node := (if existing = None then fn_node x else existing)\<rparr>) w1
                in case (case parkedHandle f w2 of None \<Rightarrow> (w2, None) | Some h \<Rightarrow> take_parked cfg ev True h w2) of
                     (w3, Some e3) \<Rightarrow> (w3, e3)
                   | (w3, None) \<Rightarrow> (w3, OK))))"

definition rename_local :: "config \<Rightarrow> 's dir_env \<Rightarrow> string \<Rightarrow> new_parent \<Rightarrow> string \<Rightarrow> 's world \<Rightarrow> 's world \<times> errno" where
  "rename_local cfg ev src np newName w =
     (if (case np of InDrive nd \<Rightarrow> \<not> keepsLocal cfg nd newName | InLocal p \<Rightarrow> False) then (w, EXDEV)
      else (let dst = (case np of InDrive nd \<Rightarrow> child_path cfg nd newName | InLocal p \<Rightarrow> path_join [p, newName])
            in case on_store ev (mkdir_parents dst) w of
                 (w1, e) \<Rightarrow> if e \<noteq> OK then (w1, e) else on_store ev (sys_rename src dst) w1))"

text \<open>After the drive has moved the link: the local mirror follows a folder, the file at the destination
  is replaced, the inode takes the new link, name and parent, and a parked edit starts over.\<close>

definition rename_finish ::
    "config \<Rightarrow> 's dir_env \<Rightarrow> nat \<Rightarrow> string \<Rightarrow> nat \<Rightarrow> string \<Rightarrow> node \<Rightarrow> node \<Rightarrow> 's world \<Rightarrow> 's world \<times> errno" where
  "rename_finish cfg ev d name newDir newName target moved w =
     (let w1 = (if IsDir target
                then w\<lparr>wd_local := moveLocal (mc_local cfg) (child_path cfg d name) (child_path cfg newDir newName) (wd_local w)\<rparr>
                else w);
          w2 = replace cfg ev newDir newName (fileChild w1 d name) (lk_id (nd_link target)) w1
      in case wd_tree w2 d name of
           None \<Rightarrow> (w2, OK)
         | Some (IDir r) \<Rightarrow> (refresh_dir r moved w2, OK)
         | Some (IFile f) \<Rightarrow>
             (let w3 = upd_file f (\<lambda>x. x\<lparr>fn_name := newName, fn_parent := newDir\<rparr>) (file_setNode f moved w2)
              in case (case parkedHandle f w3 of None \<Rightarrow> (w3, None) | Some h \<Rightarrow> take_parked cfg ev True h w3) of
                   (w4, Some e) \<Rightarrow> (w4, e)
                 | (w4, None) \<Rightarrow> (w4, OK)))"

definition rename_drive :: "config \<Rightarrow> 's dir_env \<Rightarrow> nat \<Rightarrow> string \<Rightarrow> nat \<Rightarrow> string \<Rightarrow> 's world \<Rightarrow> 's world \<times> errno" where
  "rename_drive cfg ev d name newDir newName w =
     (case mt_find (dv_load ev) d name w of
        (w1, Some target, OK) \<Rightarrow>
          if mc_local cfg \<and> mc_excluded cfg newName then (w1, EXDEV)
          else (case moveLink (dv_drive ev) d target name newDir newName w1 of
                  (w2, Inl e) \<Rightarrow> (w2, e)
                | (w2, Inr moved) \<Rightarrow> rename_finish cfg ev d name newDir newName target moved w2)
      | (w1, n, ENOENT) \<Rightarrow> renamePending cfg ev d name newDir newName w1
      | (w1, n, e) \<Rightarrow> (w1, e))"

definition Rename ::
    "config \<Rightarrow> 's dir_env \<Rightarrow> nat \<Rightarrow> string \<Rightarrow> new_parent \<Rightarrow> string \<Rightarrow> 32 word \<Rightarrow> 's world \<Rightarrow> 's world \<times> errno" where
  "Rename cfg ev d name np newName flags w =
     (if flags AND renameFlags \<noteq> 0 then (w, EINVAL)
      else (case localEntry cfg ev d name w of
              (w1, src) \<Rightarrow>
                (case src of
                   Some p \<Rightarrow>
                     if pendingChild w1 d name = None then rename_local cfg ev p np newName w1
                     else (case np of InLocal q \<Rightarrow> (w1, EXDEV) | InDrive nd \<Rightarrow> rename_drive cfg ev d name nd newName w1)
                 | None \<Rightarrow> (case np of InLocal q \<Rightarrow> (w1, EXDEV) | InDrive nd \<Rightarrow> rename_drive cfg ev d name nd newName w1))))"

section \<open>What listing and looking up agree on\<close>

lemma set_parents_frame:
  "wd_tree (set_parents ps w) = wd_tree w \<and> wd_files (set_parents ps w) = wd_files w
   \<and> wd_local (set_parents ps w) = wd_local w \<and> wd_handles (set_parents ps w) = wd_handles w \<and> wd_tmps (set_parents ps w) = wd_tmps w"
proof (induction ps arbitrary: w)
  case (Cons p ps)
  then show ?case using Cons [of "setParent (fst p) (snd p) w"]
    by (simp add: set_parents_def case_prod_beta) (simp add: setParent_def)
qed (simp add: set_parents_def)

lemma mt_load_frame:
  "mt_load le d w = (w', cs, e) \<Longrightarrow> wd_tree w' = wd_tree w \<and> wd_files w' = wd_files w \<and> wd_local w' = wd_local w"
  by (auto simp: mt_load_def set_parents_frame split: prod.splits)

lemma mt_find_frame:
  "mt_find le d name w = (w', n, e) \<Longrightarrow> wd_tree w' = wd_tree w \<and> wd_files w' = wd_files w \<and> wd_local w' = wd_local w
     \<and> wd_handles w' = wd_handles w \<and> wd_tmps w' = wd_tmps w"
  by (auto simp: mt_find_def set_parents_frame split: prod.splits)

text \<open>The path of a folder as the inode tree gives it: empty for the root, else plain names.\<close>

definition folder_path :: "string \<Rightarrow> bool" where
  "folder_path p \<longleftrightarrow> p = [] \<or> (\<exists>ds. ds \<noteq> [] \<and> list_all plain_elem ds \<and> p = join_with ''/'' ds)"

lemma child_path_is:
  assumes "folder_path (mc_path cfg d)" "plain_elem name"
  shows "child_path cfg d name = (if mc_path cfg d = [] then name else mc_path cfg d @ ''/'' @ name)"
proof (cases "mc_path cfg d = []")
  case True
  then show ?thesis using path_join_root [OF assms(2)] by (simp add: child_path_def)
next
  case False
  then obtain ds where "ds \<noteq> []" "list_all plain_elem ds" "mc_path cfg d = join_with ''/'' ds"
    using assms(1) by (auto simp: folder_path_def)
  then show ?thesis using False path_join_plain [of ds name] assms(2) by (simp add: child_path_def)
qed

lemma read_dir_names:
  assumes "plain_elem name"
  shows "name \<in> fst ` set (read_dir rel l) \<longleftrightarrow> lstat (if rel = [] then name else rel @ ''/'' @ name) l \<noteq> None"
proof -
  let ?pre = "if rel = [] then [] else rel @ ''/''"
  have p: "?pre @ name = (if rel = [] then name else rel @ ''/'' @ name)" by simp
  have n: "CHR ''/'' \<notin> set name" using assms by (simp add: plain_elem_def)
  have "name \<in> fst ` set (read_dir rel l) \<longleftrightarrow> (\<exists>q e. (q, e) \<in> set l \<and> prefix ?pre q \<and> drop (length ?pre) q = name)"
    using n by (force simp: read_dir_def Let_def image_iff)
  also have "\<dots> \<longleftrightarrow> (\<exists>e. (?pre @ name, e) \<in> set l)"
    by (metis append_eq_conv_conj append_take_drop_id prefix_def)
  also have "\<dots> \<longleftrightarrow> map_of l (?pre @ name) \<noteq> None"
    by (metis map_of_SomeD weak_map_of_SomeI not_None_eq)
  finally show ?thesis using p by (simp add: lstat_def)
qed

lemma drive_entries_names:
  "entry_name ` set (drive_entries cfg cs) = {n. n \<in> nd_name ` set cs \<and> \<not> mc_excluded cfg n}"
  by (auto simp: drive_entries_def drive_entry_def image_iff)

lemma local_entries_names:
  "entry_name ` set (local_entries cfg d listed l) =
     {n. mc_local cfg \<and> n \<notin> set listed \<and> keepsLocal cfg d n \<and> n \<in> fst ` set (read_dir (mc_path cfg d) l)}"
proof (cases "mc_local cfg")
  case True
  have "entry_name ` set (local_entries cfg d listed l)
      = fst ` {(n, e) \<in> set (read_dir (mc_path cfg d) l). n \<notin> set listed \<and> keepsLocal cfg d n}"
    using True by (force simp: local_entries_def localDir_def)
  then show ?thesis using True by force
qed (simp add: local_entries_def localDir_def)

lemma find_None_name: "(List.find (\<lambda>ch. nd_name ch = name) cs = None) = (name \<notin> nd_name ` set cs)"
  by (auto simp: find_None_iff)

lemma pendingChild_cong: "wd_tree v = wd_tree w \<Longrightarrow> wd_files v = wd_files w \<Longrightarrow> pendingChild v d n = pendingChild w d n"
  by (simp add: pendingChild_def fileChild_def split: option.split inode.split)

definition visible :: "config \<Rightarrow> nat \<Rightarrow> node list \<Rightarrow> 's world \<Rightarrow> string \<Rightarrow> bool" where
  "visible cfg d cs w name \<longleftrightarrow> name \<in> nd_name ` set cs \<and> \<not> mc_excluded cfg name
     \<or> pendingChild w d name \<noteq> None \<or> storedPath cfg d name (wd_local w) \<noteq> None"

lemma Readdir_visible:
  assumes "mt_load (dv_load ev) d w = (w1, cs, OK)" "set kids = dom (wd_tree w d)"
    and "folder_path (mc_path cfg d)" "plain_elem name"
  shows "\<exists>es. Readdir cfg ev kids d w = (w1, Inr es) \<and> (name \<in> entry_name ` set es) = visible cfg d (nil_list cs) w name"
proof -
  note fr = mt_load_frame [OF assms(1)]
  have pc: "pendingChild w1 d n = pendingChild w d n" for n by (rule pendingChild_cong) (simp_all add: fr)
  have kid: "name \<in> set kids" if "pendingChild w d name \<noteq> None"
    using that assms(2) by (auto simp: pendingChild_def fileChild_def split: option.splits)
  let ?es = "drive_entries cfg (nil_list cs)"
  let ?es2 = "?es @ pending_entries w1 d kids (map entry_name ?es)"
  have n2: "name \<in> entry_name ` set ?es2 \<longleftrightarrow>
      name \<in> nd_name ` set (nil_list cs) \<and> \<not> mc_excluded cfg name \<or> pendingChild w d name \<noteq> None"
    using kid by (auto simp: image_Un drive_entries_names pending_entries_def pc image_iff)
  have st: "storedPath cfg d name (wd_local w) \<noteq> None \<longleftrightarrow> mc_local cfg \<and> keepsLocal cfg d name
      \<and> name \<in> fst ` set (read_dir (mc_path cfg d) (wd_local w))"
    using child_path_is [OF assms(3,4)] read_dir_names [OF assms(4)] by (auto simp: storedPath_def keepsLocal_def)
  have loc: "name \<in> entry_name ` set (local_entries cfg d (map entry_name ?es2) (wd_local w1)) \<longleftrightarrow>
      name \<notin> entry_name ` set ?es2 \<and> storedPath cfg d name (wd_local w) \<noteq> None"
    unfolding st local_entries_names using fr by auto
  have "Readdir cfg ev kids d w = (w1, Inr (?es2 @ local_entries cfg d (map entry_name ?es2) (wd_local w1)))"
    using assms(1) by (simp add: Readdir_def Let_def)
  then show ?thesis using n2 loc by (auto simp: visible_def image_Un)
qed

lemma Lookup_visible:
  assumes "mt_load (dv_load ev) d w = (w1, cs, OK)"
  shows "(\<exists>x. snd (Lookup cfg ev i d name w) = Inr x) = visible cfg d (nil_list cs) w name"
proof -
  note fr = mt_load_frame [OF assms(1)]
  have pc: "pendingChild w1 d n = pendingChild w d n" for n by (rule pendingChild_cong) (simp_all add: fr)
  have lp: "\<exists>x. snd (lookup_pending ev f v) = Inr x" for f and v :: "'a world"
    by (simp add: lookup_pending_def split: prod.split)
  have ll: "(\<exists>x. lookupLocal cfg d name l = Inr x) = (storedPath cfg d name l \<noteq> None)" for l
    by (auto simp: lookupLocal_def storedPath_def split: option.splits)
  show ?thesis
  proof (cases "mc_excluded cfg name")
    case True
    then show ?thesis using lp ll by (simp add: Lookup_def visible_def split: option.split)
  next
    case False
    show ?thesis
    proof (cases "List.find (\<lambda>ch. nd_name ch = name) (nil_list cs)")
      case None
      then show ?thesis using False assms lp ll fr find_None_name [of name "nil_list cs"]
        by (simp add: Lookup_def visible_def pc split: option.split)
    next
      case (Some child)
      then have "name \<in> nd_name ` set (nil_list cs)" using find_None_name [of name "nil_list cs"] by auto
      then show ?thesis using Some False assms
        by (simp add: Lookup_def visible_def Let_def split: option.split prod.split)
    qed
  qed
qed

text \<open>C10. What a folder lists and what can be looked up in it are the same names: drive entries outside
  the exclusion rules, files not uploaded yet, and local-only entries, in the trash too.\<close>

theorem Readdir_agrees_with_Lookup:
  assumes "mt_load (dv_load ev) d w = (w1, cs, OK)" "set kids = dom (wd_tree w d)"
    and "folder_path (mc_path cfg d)" "plain_elem name"
  shows "\<exists>es. Readdir cfg ev kids d w = (w1, Inr es)
    \<and> (name \<in> entry_name ` set es) = (\<exists>x. snd (Lookup cfg ev i d name w) = Inr x)"
  using Readdir_visible [OF assms] Lookup_visible [OF assms(1), of cfg i name] by metis

section \<open>Unlinking, removing, renaming\<close>

lemma Release_clean:
  assumes "h_live w h" "\<not> fh_dirty (wd_handles w h)" "\<not> fh_gone (wd_handles w h)" "Release cfg bio de up h w = (w', e)"
  shows "e = OK \<and> wd_calls w' = wd_calls w \<and> \<not> tf_there (wd_tmps w' h)
    \<and> (\<forall>f. fn_node (wd_files w' f) = fn_node (wd_files w f) \<and> (fn_handle (wd_files w' f) = fn_handle (wd_files w f) \<or> fn_handle (wd_files w' f) = None))
    \<and> fn_handle (wd_files w' (fh_file (wd_handles w h))) = None"
proof -
  let ?v = "upd_handle h (\<lambda>y. y\<lparr>fh_due := False, fh_tmp := (if fh_owns y then fh_tmp y else None)\<rparr>) w"
  have x: "fh_tmp (wd_handles w h) = Some h" "fh_owns (wd_handles w h)" "fn_handle (file_of w h) = Some h"
    using assms(1) by (simp_all add: h_live_def)
  have "release_begin cfg bio h w = (drop_buffer h h ?v, Released OK)"
    using x assms(2,3) by (simp add: release_begin_def Let_def)
  then have "w' = drop_buffer h h ?v" "e = OK" using assms(4) by (simp_all add: Release_def)
  then show ?thesis using x
    by (simp add: drop_buffer_def remove_tmp_def upd_tmp_def detach_def upd_handle_def upd_file_def unpin_def file_of_def Let_def)
qed

text \<open>Unlinking a file that never reached the drive calls nothing on the drive: a parked buffer is
  dropped with its temp file, one still open or uploading is marked gone.\<close>

theorem Unlink_unsent_stays_local:
  assumes "fileChild w d name = Some f" "fn_node (wd_files w f) = None" "fn_handle (wd_files w f) = Some h"
    and "fh_file (wd_handles w h) = f" "\<not> fh_gone (wd_handles w h)" "h_live w h \<or> h_parked w h"
  shows "\<exists>w'. Unlink cfg ev d name w = (w', OK) \<and> wd_calls w' = wd_calls w
    \<and> (if fh_parked (wd_handles w h) then \<not> tf_there (wd_tmps w' h) else fh_gone (wd_handles w' h))"
proof (cases "fh_parked (wd_handles w h)")
  case False
  have "unlink_file cfg ev f w = (mark_gone h w, True)"
    using assms(2,3) False by (simp add: unlink_file_def parkedHandle_def unlinkPending_def)
  then show ?thesis using assms(1) False by (simp add: Unlink_def) (simp add: mark_gone_def upd_handle_def)
next
  case True
  obtain w1 b where u: "unpark False h w = (w1, b)" by fastforce
  have b: b using u True by (simp add: unpark_def Let_def split: if_splits)
  with u have u1: "unpark False h w = (w1, True)" by simp
  have p: "h_parked w h" using assms(6) True by (auto simp: h_live_def)
  have f1: "\<not> fh_dirty (wd_handles w1 h)" "\<not> fh_gone (wd_handles w1 h)" "fh_file (wd_handles w1 h) = f"
      "wd_files w1 = wd_files w" "wd_calls w1 = wd_calls w"
    using u True assms(4,5) by (auto simp: unpark_def Let_def world_defs split: if_splits)
  obtain w2 e where r: "release_of cfg ev h w1 = (w2, e)" by fastforce
  note c = Release_clean [OF unpark_parked [OF u1 p] f1(1,2) r [unfolded release_of_def]]
  have "unlink_file cfg ev f w = (w2, True)"
    using assms(2,3) True u1 r c f1(4) by (simp add: unlink_file_def parkedHandle_def take_parked_def)
  then show ?thesis using assms(1) True c f1(5) by (simp add: Unlink_def)
qed

text \<open>C21. Removing a folder whose local copy holds anything local-only is refused, with nothing trashed
  and nothing removed: the drive's trash could not bring those entries back.\<close>

theorem Rmdir_keeps_local_only:
  assumes "mc_local cfg" "dv_local ev = OK" "storedPath cfg d name (wd_local w) = None"
    and "mt_find (dv_load ev) d name w = (w1, Some target, OK)" "IsDir target"
    and "lstat (child_path cfg d name) (wd_local w) \<noteq> None"
    and "list_ex (local_only (mc_excluded cfg) (child_path cfg d name)) (wd_local w)"
  shows "\<exists>w'. Rmdir cfg ev d name w = (w', ENOTEMPTY) \<and> wd_local w' = wd_local w \<and> wd_calls w' = wd_calls w"
proof -
  have l: "wd_local w1 = wd_local w" using mt_find_frame [OF assms(4)] by simp
  have m: "removeLocalMirror (mc_excluded cfg) (child_path cfg d name) (wd_local w) = (wd_local w, ENOTEMPTY)"
    using assms(6,7) by (auto simp: removeLocalMirror_def)
  have "Rmdir cfg ev d name w = (w1\<lparr>wd_local := wd_local w1\<rparr>, ENOTEMPTY)"
    using assms(1-5) l m by (simp add: Rmdir_def localEntry_def remove_child_def localDir_def on_store_def)
  then show ?thesis using l mt_find_calls [OF assms(4)] by simp
qed

lemma Release_uploads:
  assumes "h_live w h" "fh_dirty (wd_handles w h)" "\<not> fh_gone (wd_handles w h)" "fh_file (wd_handles w h) = f"
    and "\<not> mc_excluded cfg (fn_name (wd_files w f))" "mc_delayFor cfg (fn_name (wd_files w f)) \<le> 0"
    and "\<not> io_stat bio" "\<not> io_seek bio" "\<And>j. \<exists>r. up j = UpDone r" "Release cfg bio de up h w = (w', e)"
  shows "DUpload (fn_name (wd_files w f)) (fn_parent (wd_files w f))
      (map_option (\<lambda>n. lk_id (nd_link n)) (fn_node (wd_files w f))) (tf_data (wd_tmps w h)) \<in> set (wd_calls w')"
proof -
  let ?v = "upd_handle h (\<lambda>y. y\<lparr>fh_due := False, fh_tmp := (if fh_owns y then fh_tmp y else None)\<rparr>) w"
  let ?j = "\<lparr>jb_handle = h, jb_tmp = h, jb_name = fn_name (wd_files w f), jb_parent = fn_parent (wd_files w f),
    jb_existing = fn_node (wd_files w f), jb_data = tf_data (wd_tmps w h)\<rparr>"
  have x: "fh_tmp (wd_handles w h) = Some h" "fh_owns (wd_handles w h)" using assms(1) by (simp_all add: h_live_def)
  have v: "wd_files ?v = wd_files w" "wd_tmps ?v = wd_tmps w" by (simp_all add: upd_handle_def)
  have b: "release_begin cfg bio h w = (?v, Ready ?j)"
    using x assms(2-8) by (simp add: release_begin_def Let_def v)
  have g: "\<not> fh_gone (wd_handles ?v h)" using assms(3) by (simp add: upd_handle_def)
  obtain r where r: "up ?j = UpDone r" using assms(9) by blast
  have "run_job cfg bio de up ?j ?v = (w', e)" using assms(10) b by (simp add: Release_def)
  then have u: "release_uploaded cfg de ?j r (take_slot (count_queued (set_busy True (jb_file ?v ?j) ?v))) = (w', e)"
    using g r by (simp add: run_job_def release_lock_def)
  show ?thesis using release_uploaded_named [OF u] by simp
qed


lemma moveLink_error: "moveLink de d t nm d' nm' w = (w', Inl e) \<Longrightarrow> e \<noteq> OK"
  by (auto simp: moveLink_def trash_destination_def Let_def split: prod.splits sum.splits option.splits errno.splits if_splits)

lemma mount_frames:
  "wd_tree (mt_upsert r n w) = wd_tree w" "wd_local (mt_upsert r n w) = wd_local w"
  "wd_tree (mt_remove r nm w) = wd_tree w" "wd_local (mt_remove r nm w) = wd_local w"
  "wd_tree (drive_log c w) = wd_tree w" "wd_local (drive_log c w) = wd_local w"
  by (simp_all add: mt_upsert_def mt_remove_def upd_dir_def setParent_def forgetParent_def drive_log_def Let_def
      split: prod.split option.split)

lemma trash_destination_frame:
  "trash_destination de t d nm w = (w', r) \<Longrightarrow> wd_tree w' = wd_tree w \<and> wd_local w' = wd_local w"
  by (auto simp: trash_destination_def Let_def mount_frames dest!: mt_find_frame
      split: prod.splits option.splits errno.splits if_splits)

lemma moveLink_moves:
  "moveLink de d t nm d' nm' w = (w', Inr moved) \<Longrightarrow>
     DMove (lk_id (nd_link t)) d' nm' \<in> set (wd_calls w') \<and> wd_tree w' = wd_tree w \<and> wd_local w' = wd_local w"
  by (auto simp: moveLink_def Let_def mount_frames dest!: trash_destination_frame split: prod.splits sum.splits)
    (simp_all add: drive_log_def)

text \<open>A file renamed to an excluded name while its upload runs ends up on the drive under that name,
  where the mount never looks for it: its own directory answers that it does not exist.\<close>

theorem mid_upload_rename_hides_file:
  assumes "\<not> fh_gone (wd_handles w (jb_handle j))" "jb_file w j = f"
    and "fn_name (wd_files w f) = newName" "fn_parent (wd_files w f) = nd" "mc_excluded cfg newName" "newName \<noteq> jb_name j"
    and "fileChild w nd newName = Some f" "storedPath cfg nd newName (wd_local w) = None"
    and "after_upload de j (Some n) w = (w', OK)"
  shows "DMove (lk_id (nd_link n)) nd newName \<in> set (wd_calls w') \<and> snd (Lookup cfg ev i nd newName w') = Inl ENOENT"
proof -
  let ?c = "upd_file f (\<lambda>x. x\<lparr>fn_node := Some n, fn_replaces := None\<rparr>) w"
  have c: "claim f (jb_handle j) (Some n) w = (?c, True)" using assms(1) by (simp add: claim_def)
  obtain w2 r where m: "moveLink de (jb_parent j) n (jb_name j) nd newName ?c = (w2, r)" by fastforce
  have nm: "fn_name (wd_files ?c f) = newName" "fn_parent (wd_files ?c f) = nd"
    using assms(3,4) by (simp_all add: upd_file_def)
  obtain moved where r: "r = Inr moved" "w' = file_setNode f moved w2"
  proof (cases r)
    case (Inl e)
    then have "e = OK" using assms(2,6,9) c m nm by (simp add: after_upload_def Let_def)
    then show ?thesis using m Inl moveLink_error by metis
  next
    case (Inr mv)
    then show ?thesis using that assms(2,6,9) c m nm by (simp add: after_upload_def Let_def)
  qed
  note mo = moveLink_moves [OF m [unfolded r(1)]]
  have "wd_tree w' = wd_tree w" "wd_local w' = wd_local w" "DMove (lk_id (nd_link n)) nd newName \<in> set (wd_calls w')"
    using mo by (simp_all add: r(2) file_setNode_def upd_file_def)
  moreover from this have "pendingChild w' nd newName = None"
    using assms(7) by (simp add: pendingChild_def fileChild_def r(2) file_setNode_def upd_file_def split: option.splits inode.splits)
  ultimately show ?thesis using assms(5,8) by (simp add: Lookup_def lookupLocal_def)
qed

section \<open>The handlers on concrete folders\<close>

definition demo_ev :: "unit dir_env" where
  "demo_ev = \<lparr>dv_drive = demo_drive, dv_mkdir = (\<lambda>_ _. Inl (ErrMsg ''mkdir'')), dv_crypto = demo_crypto, dv_io = demo_io,
     dv_up = (\<lambda>_. UpDone None), dv_local = OK, dv_ino = 0\<rparr>"

definition demo_folder :: node where
  "demo_folder = demo_node\<lparr>nd_name := ''d'', nd_link := (nd_link demo_node)\<lparr>lk_type := LinkTypeFolder\<rparr>\<rparr>"

definition demo_listed :: "node list \<Rightarrow> unit world" where
  "demo_listed cs = demo_world\<lparr>mt_dirs := (\<lambda>_. (new_dir demo_node 30)\<lparr>dn_children := Some cs, dn_expires := Some 9\<rparr>)\<rparr>"

lemma demo_load: "\<exists>w1. mt_load (dv_load demo_ev) 0 (demo_listed cs) = (w1, Some cs, OK)"
  by (simp add: mt_load_def Dir_Listing.load_def load_begin_def beginLoad_def serveFromDiskCache_def disk_cold_def fresh_def
      demo_ev_def demo_drive_def demo_listed_def dv_load_def new_dir_def set_parents_def)

lemmas demo_defs = demo_ev_def demo_drive_def demo_listed_def dv_load_def demo_world_def demo_cfg_def demo_io_def

theorem Readdir_agrees_with_Lookup_witness:
  "\<exists>w1 es. Readdir demo_cfg demo_ev [] 0 (demo_listed [demo_node]) = (w1, Inr es)
    \<and> (''a'' \<in> entry_name ` set es) = (\<exists>x. snd (Lookup demo_cfg demo_ev 7 0 ''a'' (demo_listed [demo_node])) = Inr x)"
proof -
  obtain w1 where l: "mt_load (dv_load demo_ev) 0 (demo_listed [demo_node]) = (w1, Some [demo_node], OK)"
    using demo_load by blast
  have "\<exists>es. Readdir demo_cfg demo_ev [] 0 (demo_listed [demo_node]) = (w1, Inr es)
    \<and> (''a'' \<in> entry_name ` set es) = (\<exists>x. snd (Lookup demo_cfg demo_ev 7 0 ''a'' (demo_listed [demo_node])) = Inr x)"
    by (rule Readdir_agrees_with_Lookup [OF l]) (simp_all add: demo_defs folder_path_def plain_elem_def)
  then show ?thesis by blast
qed

theorem Unlink_unsent_stays_local_witness:
  "\<exists>w'. Unlink demo_cfg demo_ev 0 ''t'' (create_file 0 0 ''t'' demo_world) = (w', OK) \<and> wd_calls w' = []"
proof -
  let ?w = "create_file 0 0 ''t'' demo_world"
  have "\<exists>w'. Unlink demo_cfg demo_ev 0 ''t'' ?w = (w', OK) \<and> wd_calls w' = wd_calls ?w
    \<and> (if fh_parked (wd_handles ?w 0) then \<not> tf_there (wd_tmps w' 0) else fh_gone (wd_handles w' 0))"
    by (rule Unlink_unsent_stays_local [where f=0])
      (simp_all add: create_file_def new_buffer_def upd_file_def fileChild_def h_live_def file_of_def demo_world_def)
  then show ?thesis by (auto simp: create_file_def) (simp add: demo_world_def)
qed

lemma demo_find:
  assumes "mt_dirs w 0 = (new_dir demo_node 30)\<lparr>dn_children := Some cs, dn_expires := Some 9\<rparr>"
    and "List.find (\<lambda>ch. nd_name ch = name) cs = Some n"
  shows "\<exists>w1. mt_find (dv_load demo_ev) 0 name w = (w1, Some n, OK)"
  using assms by (simp add: mt_find_def findChild_def Dir_Listing.load_def load_begin_def beginLoad_def serveFromDiskCache_def
      disk_cold_def fresh_def demo_ev_def demo_drive_def dv_load_def new_dir_def set_parents_def)

definition demo_mirror :: "unit world" where
  "demo_mirror = (demo_listed [demo_folder])\<lparr>wd_local := [(''d'', LDir), (''d/x'', LFile [])]\<rparr>"

definition demo_keep :: config where
  "demo_keep = demo_cfg\<lparr>mc_local := True, mc_excluded := (\<lambda>n. n = ''x'')\<rparr>"

lemma demo_keep_fields: "mc_local demo_keep" "mc_excluded demo_keep = (\<lambda>n. n = ''x'')" "mc_path demo_keep = (\<lambda>_. [])"
  by (simp_all add: demo_keep_def demo_cfg_def)

lemma demo_child: "child_path demo_keep 0 ''d'' = ''d''"
  by (simp add: child_path_def demo_keep_fields path_join_root plain_elem_def)

theorem Rmdir_keeps_local_only_witness:
  "\<exists>w'. Rmdir demo_keep demo_ev 0 ''d'' demo_mirror = (w', ENOTEMPTY) \<and> wd_calls w' = []"
proof -
  have l: "wd_local demo_mirror = [(''d'', LDir), (''d/x'', LFile [])]" "wd_calls demo_mirror = []"
    by (simp_all add: demo_mirror_def demo_listed_def demo_world_def)
  obtain w1 where f: "mt_find (dv_load demo_ev) 0 ''d'' demo_mirror = (w1, Some demo_folder, OK)"
    using demo_find [of demo_mirror "[demo_folder]" "''d''" demo_folder]
    by (auto simp: demo_mirror_def demo_listed_def demo_folder_def)
  have d: "IsDir demo_folder" by (simp add: IsDir_def demo_folder_def)
  have s: "storedPath demo_keep 0 ''d'' (wd_local demo_mirror) = None"
    by (simp add: storedPath_def keepsLocal_def demo_keep_fields inTrash_def)
  have o: "list_ex (local_only (mc_excluded demo_keep) ''d'') (wd_local demo_mirror)"
    by (simp add: l local_only_def inside_def is_file_def)
  have "dv_local demo_ev = OK" "lstat ''d'' (wd_local demo_mirror) \<noteq> None" by (simp_all add: demo_ev_def l lstat_def)
  from Rmdir_keeps_local_only [OF demo_keep_fields(1) this(1) s f d, unfolded demo_child, OF this(2) o] l(2)
  show ?thesis by auto
qed

definition demo_parked :: "unit world" where
  "demo_parked = park 5 5 0 (create_file 5 0 ''t'' (demo_listed [demo_node]))"

lemma demo_parked_fields:
  "mt_dirs demo_parked 0 = (new_dir demo_node 30)\<lparr>dn_children := Some [demo_node], dn_expires := Some 9\<rparr>"
  "wd_tree demo_parked 0 ''t'' = Some (IFile 5)" "wd_tree demo_parked 0 ''a'' = None"
  "fn_handle (wd_files demo_parked 5) = Some 5"
  "wd_handles demo_parked 5 = \<lparr>fh_file = 5, fh_tmp = Some 5, fh_dirty = True, fh_owns = True, fh_parked = True, fh_timer = None,
     fh_due = False, fh_retryIn = 0, fh_failed = False, fh_gone = False\<rparr>"
  "wd_tmps demo_parked 5 = \<lparr>tf_data = [], tf_there = True\<rparr>" "wd_delayed demo_parked = []" "wd_kept demo_parked = [5]"
  by (simp_all add: demo_parked_def park_def create_file_def new_buffer_def upd_file_def upd_handle_def trackKept_def trackIn_def
      demo_listed_def demo_world_def)


text \<open>The upload of a new file \<open>a\<close> runs while the file has become \<open>x\<close>.\<close>

definition demo_moving :: "unit world" where
  "demo_moving = create_file 0 0 ''x'' demo_world"

theorem mid_upload_rename_hides_file_witness:
  "snd (Lookup demo_keep demo_ev 7 0 ''x'' (fst (after_upload demo_drive demo_job (Some demo_node) demo_moving))) = Inl ENOENT"
proof -
  have fl: "\<not> fh_gone (wd_handles demo_moving (jb_handle demo_job))" "jb_file demo_moving demo_job = 0"
    "fn_name (wd_files demo_moving 0) = ''x''" "fn_parent (wd_files demo_moving 0) = 0" "mc_excluded demo_keep ''x''"
    "''x'' \<noteq> jb_name demo_job" "fileChild demo_moving 0 ''x'' = Some 0"
    by (simp_all add: demo_moving_def create_file_def new_buffer_def upd_file_def demo_job_def jb_file_def demo_keep_fields fileChild_def)
  have s: "storedPath demo_keep 0 ''x'' (wd_local demo_moving) = None"
    by (simp add: storedPath_def demo_moving_def create_file_def new_buffer_def upd_file_def demo_world_def lstat_def)
  obtain w' e where a: "after_upload demo_drive demo_job (Some demo_node) demo_moving = (w', e)" by fastforce
  have "snd (after_upload demo_drive demo_job (Some demo_node) demo_moving) = OK"
    using fl by (simp add: after_upload_def Let_def claim_def moveLink_def trash_destination_def demo_drive_def
        split: prod.split option.split errno.split)
  with a have ok: "after_upload demo_drive demo_job (Some demo_node) demo_moving = (w', OK)" by simp
  from mid_upload_rename_hides_file [OF fl s ok] show ?thesis using ok by simp
qed

end
