(* ===== verification/Config_File.thy ===== *)
theory Config_File
  imports Api_Errors
begin

text \<open>
  The configuration (internal/config): the built-in defaults, the documented keys, the commented
  file \<open>Init\<close> writes, \<open>Upgrade\<close>, which rewrites a user's file to follow the documented keys, and
  the overlay of command-line flags. TOML is go-toml's: a parameter of \<open>Load\<close>.
\<close>

section \<open>The configuration and its defaults\<close>

record conf =
  cf_mountpoint :: string
  cf_ttl :: string
  cf_poll :: string
  cf_opTimeout :: string
  cf_cacheDir :: string
  cf_cacheSize :: string
  cf_largeFile :: string
  cf_thumbnails :: bool
  cf_thumbnailDir :: string
  cf_denyReaders :: "string list"
  cf_exclude :: "string list"
  cf_uploadDelay :: string
  cf_uploadDelays :: "string list"
  cf_maxUploads :: int
  cf_maxDownloads :: int
  cf_logLevel :: string
  cf_logStderr :: bool
  cf_foreground :: bool
  cf_hvMethod :: string
  cf_noBrowser :: bool
  cf_fileKeys :: "string list"

definition backslash :: char where "backslash = CHR 0x5C"
definition newline :: char where "newline = CHR 0x0A"
definition tab :: char where "tab = CHR 0x09"

definition defaultExclude :: "string list" where
  "defaultExclude = [''.DS_Store'', ''Thumbs.db'', ''desktop.ini'', ''._*'', ''.Spotlight-V100'', ''.Trashes'', ''.fseventsd'',
     ''*.swp'', ''*.swo'', ''*.tmp'', ''*~'', ''re:^'' @ [backslash] @ ''.~lock'' @ [backslash] @ ''.'']"

definition defaultDenyReaders :: "string list" where
  "defaultDenyReaders = [''tracker-miner-fs'', ''tracker-extract'', ''localsearch'', ''baloo_file'', ''baloo_file_extractor'',
     ''tumblerd'', ''ffmpegthumbnailer'', ''totem-video-thumbnailer'', ''gdk-pixbuf-thumbnailer'', ''gnome-desktop-thumbnailer'',
     ''evince-thumbnailer'']"

text \<open>\<open>os.UserCacheDir\<close> and \<open>os.UserHomeDir\<close> are arguments, \<open>None\<close> when they fail.\<close>

definition defaultCacheDir :: "string option \<Rightarrow> string" where
  "defaultCacheDir base = (case base of None \<Rightarrow> [] | Some b \<Rightarrow> path_join [b, ''proton-drive-fs''])"

definition defaultThumbnailDir :: "string option \<Rightarrow> string" where
  "defaultThumbnailDir base = (case base of None \<Rightarrow> [] | Some b \<Rightarrow> path_join [b, ''thumbnails''])"

definition Defaults :: "string option \<Rightarrow> conf" where
  "Defaults base = \<lparr>cf_mountpoint = [], cf_ttl = ''30s'', cf_poll = ''10s'', cf_opTimeout = ''60s'',
     cf_cacheDir = defaultCacheDir base, cf_cacheSize = ''2GiB'', cf_largeFile = ''300MiB'', cf_thumbnails = True,
     cf_thumbnailDir = defaultThumbnailDir base, cf_denyReaders = defaultDenyReaders, cf_exclude = defaultExclude,
     cf_uploadDelay = ''5s'', cf_uploadDelays = [], cf_maxUploads = 5, cf_maxDownloads = 20, cf_logLevel = ''info'',
     cf_logStderr = False, cf_foreground = False, cf_hvMethod = [], cf_noBrowser = False, cf_fileKeys = []\<rparr>"

definition DefaultPath :: "string \<Rightarrow> string option \<Rightarrow> string" where
  "DefaultPath xdg home =
     (if xdg \<noteq> [] then path_join [xdg, ''proton-drive-fs'', ''config.toml'']
      else (case home of None \<Rightarrow> [] | Some h \<Rightarrow> path_join [path_join [h, ''.config''], ''proton-drive-fs'', ''config.toml'']))"

section \<open>Rendering\<close>

text \<open>\<open>strconv.Quote\<close>, with printable characters beyond ASCII left as they are.\<close>

definition hex_digit :: "nat \<Rightarrow> char" where
  "hex_digit n = ''0123456789abcdef'' ! n"

definition quote_char :: "char \<Rightarrow> string" where
  "quote_char c =
     (let n = of_char c :: nat
      in if c = CHR 0x22 \<or> c = backslash then [backslash, c]
         else if n = 7 then [backslash, CHR ''a''] else if n = 8 then [backslash, CHR ''b'']
         else if n = 12 then [backslash, CHR ''f''] else if n = 10 then [backslash, CHR ''n'']
         else if n = 13 then [backslash, CHR ''r''] else if n = 9 then [backslash, CHR ''t'']
         else if n = 11 then [backslash, CHR ''v'']
         else if n < 32 \<or> n = 127 then [backslash, CHR ''x'', hex_digit (n div 16), hex_digit (n mod 16)]
         else [c])"

definition quote :: "string \<Rightarrow> string" where
  "quote s = [CHR 0x22] @ concat (map quote_char s) @ [CHR 0x22]"

definition format_bool :: "bool \<Rightarrow> string" where
  "format_bool b = (if b then ''true'' else ''false'')"

definition QuoteArray :: "string list \<Rightarrow> string" where
  "QuoteArray items = ''['' @ join_with '', '' (map quote items) @ '']''"

definition lines :: "string list \<Rightarrow> string" where
  "lines ss = join_with [newline] ss"

type_synonym init_field = "string \<times> string \<times> string"

definition initFields :: "conf \<Rightarrow> init_field list" where
  \<open>initFields d = [
  (''mountpoint'', lines [''Where the drive is mounted. This one is required and has no default.'',
    ''Set it here so "proton-drive-fs mount" works without arguments, for example "/home/you/ProtonDrive".''], quote (cf_mountpoint d)),
  (''ttl'', lines [''How long a folder listing is reused before it is fetched again.'',
    ''A higher value makes browsing big folders faster. Changes from other devices still arrive through poll.'',
    ''A lower value means more network calls.'',
    ''Warning: below "5s" a folder is fetched again almost every time you open it.''], quote (cf_ttl d)),
  (''poll'', lines [''How often Proton is asked for changes made on other devices.'',
    ''A higher value means less traffic, but a file added on your phone takes up to that long to show up here.'',
    ''A lower value shows changes sooner.'',
    ''Warning: below "5s" Proton may start rate limiting you.''], quote (cf_poll d)),
  (''op_timeout'', lines [''How long one operation may wait on the network before it fails. Big uploads get extra time on top of this.'',
    ''A higher value means fewer failures on a slow connection, but a dead connection freezes the app for longer.'',
    ''A lower value fails faster.'',
    ''Warning: below "15s" normal operations on a slow connection also start failing.''], quote (cf_opTimeout d)),
  (''cache_dir'', lines [''Where downloaded file blocks and folder listings are kept on disk.'',
    ''This is why reopening a file or folder after a remount does not download it again.''], quote (cf_cacheDir d)),
  (''cache_size'', lines [''How much disk space the cache may use. "0" turns the disk cache off.'',
    ''A higher value lets more files reopen without downloading.'',
    ''A lower value uses less disk.'',
    ''Warning: below "256MiB" files you reopen often get downloaded again.''], quote (cf_cacheSize d)),
  (''large_file'', lines [''Files above this size skip the disk cache. "0" caches files of any size.'',
    ''This is so large files you download don't evict the entire cache in one go.'',
    ''A higher value caches bigger files too, but each one pushes out many small ones.'',
    ''A lower value caches only small files.'',
    ''Warning: keep it well below cache_size.''], quote (cf_largeFile d)),
  (''thumbnails'', lines [''Write file previews where your file manager looks for them.'',
    ''Photos and models then show thumbnails without being downloaded.''], format_bool (cf_thumbnails d)),
  (''thumbnail_dir'', lines [''Where those previews go.'',
    ''Only change it if your file manager reads thumbnails from somewhere else.''], quote (cf_thumbnailDir d)),
  (''deny_readers'', lines [''Programs that are not allowed to read files bigger than large_file. An empty list allows everyone.'',
    ''Indexers and thumbnailers open every file they find, which would download every big file on the drive.''], QuoteArray (cf_denyReaders d)),
  (''exclude'', lines [''File and folder names that are never uploaded, such as editor swap files ("*.swp") or "node_modules".'',
    ''They still show up and work in the mount, but live on this machine only, and so does everything inside such a folder.'',
    ''Patterns are globs. Start one with "re:" to use a regular expression instead.'',
    ''A file an app just saved under one of these names uploads if the app renames it to a name not on this list.''], QuoteArray (cf_exclude d)),
  (''upload_delay'', lines [''How long to wait after a file closes before uploading it, so the app can finish saving first. "0s" uploads right away.'',
    ''For example, FreeCAD saves to "model.FCStd.<uuid>" and then renames it to "model.FCStd". Without the wait, the temporary name gets uploaded.'',
    ''A higher value is safer for apps with slow saves, but a fresh save only exists on this machine until it uploads.'',
    ''A lower value gets saves to Proton sooner.'',
    ''Warning: above "1m" a crash before the upload loses that save.'',
    ''Warning: below "2s" the app may still be saving when the upload starts.''], quote (cf_uploadDelay d)),
  (''upload_delays'', lines [''A different upload_delay for files matching a pattern, written as "pattern=duration". The first pattern that matches is used.'',
    ''For example, ["*.bak=1m"] for an app that rewrites its backups every few seconds, so only the last one uploads.'',
    ''Files in exclude are never uploaded, whatever this says.''], QuoteArray (cf_uploadDelays d)),
  (''max_uploads'', lines [''How many files upload at the same time. 0 or less removes the limit.'',
    ''A higher value copies big folders in faster.'',
    ''A lower value is lighter on your network, but bulk copies take longer.'',
    ''Warning: above 10 Proton may start rate limiting you. Proton's own apps use 5.''], itoa (cf_maxUploads d)),
  (''max_downloads'', lines [''How many file pieces download at the same time, counting every open file. 0 or less removes the limit.'',
    ''A higher value opens big files faster on a fast connection.'',
    ''A lower value is lighter on your network.'',
    ''Warning: above 32 Proton may start rate limiting you.'',
    ''Warning: below 4 big files are slow to open.''], itoa (cf_maxDownloads d)),
  (''log_level'', lines [''Log verbosity: debug, info, warn or error.''], quote (cf_logLevel d)),
  (''log_stderr'', lines [''Log to the terminal instead of the systemd journal.''], format_bool (cf_logStderr d)),
  (''foreground'', lines [''Keep mount attached to the terminal instead of moving to the background.'',
    ''The systemd unit turns this on itself, so leave it off here.''], format_bool (cf_foreground d)),
  (''hv_method'', lines [''Which human verification to use when Proton asks for one at login: captcha, email or sms.'',
    ''When empty, it tries email first, then sms, then captcha.''], quote (cf_hvMethod d)),
  (''no_browser'', lines [''Do not open a browser for human verification at login.'',
    ''Useful when logging in over SSH or on a machine without a desktop.''], format_bool (cf_noBrowser d))]\<close>

definition writeBlock :: "init_field \<Rightarrow> string" where
  "writeBlock f =
     (case f of (key, comment, value) \<Rightarrow>
        concat (map (\<lambda>line. ''# '' @ line @ [newline]) (split_on newline comment))
        @ ''# ----'' @ [newline] @ ''# '' @ key @ '' = '' @ value @ [newline, newline])"

definition defaultFileContents :: "conf \<Rightarrow> string" where
  "defaultFileContents d =
     ''# proton-drive-fs configuration. Every key below is commented out at its default value;'' @ [newline]
     @ ''# uncomment and edit a line to override it. A command-line flag overrides this file.'' @ [newline, newline]
     @ concat (map writeBlock (initFields d))"

section \<open>Upgrading a file\<close>

text \<open>\<open>strings.SplitAfter(s, "\n")\<close>: the lines with their terminators, and a last piece without.\<close>

definition split_after :: "string \<Rightarrow> string list" where
  "split_after s = (let ps = split_on newline s in map (\<lambda>p. p @ [newline]) (butlast ps) @ [last ps])"

definition is_blank :: "char \<Rightarrow> bool" where
  "is_blank c \<longleftrightarrow> c = CHR '' '' \<or> c = tab"

definition key_char :: "char \<Rightarrow> bool" where
  "key_char c \<longleftrightarrow> 97 \<le> (of_char c :: nat) \<and> (of_char c :: nat) \<le> 122 \<or> c = CHR ''_''"

text \<open>\<open>commentedKey\<close>: a hash, a key and an equals sign at the start of a line.\<close>

definition commentedKey :: "string \<Rightarrow> string option" where
  "commentedKey line =
     (case line of
        [] \<Rightarrow> None
      | c # cs \<Rightarrow>
          if c \<noteq> CHR ''#'' then None
          else (let r = dropWhile is_blank cs; key = takeWhile key_char r; rest = dropWhile is_blank (dropWhile key_char r)
                in if key \<noteq> [] \<and> prefix ''='' rest then Some key else None))"

text \<open>Whether a line of the text sets the key or lists it as a comment (the regular expression of
  \<open>Upgrade\<close>, in multi-line mode).\<close>

definition line_has :: "string \<Rightarrow> string \<Rightarrow> bool" where
  "line_has key line \<longleftrightarrow>
     (let r = dropWhile is_blank line;
          r2 = (case r of c # cs \<Rightarrow> if c = CHR ''#'' then dropWhile is_blank cs else r | [] \<Rightarrow> r)
      in prefix key r2 \<and> prefix ''='' (dropWhile is_blank (drop (length key) r2)))"

definition keyPresent :: "string \<Rightarrow> string \<Rightarrow> bool" where
  "keyPresent key text \<longleftrightarrow> list_ex (line_has key) (split_on newline text)"

text \<open>The explanation right above a retired key goes with it.\<close>

definition explanation :: "string \<Rightarrow> bool" where
  "explanation line \<longleftrightarrow> prefix ''#'' line \<and> commentedKey line = None"

definition drop_explanation :: "string list \<Rightarrow> string list" where
  "drop_explanation kept = rev (dropWhile explanation (rev kept))"

fun upgrade_pass :: "(string \<Rightarrow> bool) \<Rightarrow> string list \<Rightarrow> bool \<Rightarrow> string list \<Rightarrow> string list \<Rightarrow> string list \<times> string list" where
  "upgrade_pass known [] skipBlank kept removed = (kept, removed)"
| "upgrade_pass known (line # ls) skipBlank kept removed =
     (if skipBlank \<and> trim_space line = [] then upgrade_pass known ls False kept removed
      else (case commentedKey line of
              None \<Rightarrow> upgrade_pass known ls False (kept @ [line]) removed
            | Some k \<Rightarrow>
                if known k then upgrade_pass known ls False (kept @ [line]) removed
                else upgrade_pass known ls True (drop_explanation kept) (removed @ [k])))"

definition add_spacing :: "string \<Rightarrow> string" where
  "add_spacing text =
     (let t1 = (if suffix [newline] text then text else text @ [newline])
      in if suffix [newline, newline] t1 then t1 else t1 @ [newline])"

text \<open>The new text with the keys added and removed; \<open>None\<close> leaves the file as it is.\<close>

definition upgrade_text :: "init_field list \<Rightarrow> string \<Rightarrow> (string \<times> string list \<times> string list) option" where
  "upgrade_text fs data =
     (case upgrade_pass (\<lambda>k. k \<in> set (map fst fs)) (split_after data) False [] [] of
        (kept, removed) \<Rightarrow>
          (let text = concat kept;
               new = filter (\<lambda>f. \<not> keyPresent (fst f) text) fs
           in if new = [] \<and> removed = [] then None
              else Some ((if new \<noteq> [] \<and> text \<noteq> [] then add_spacing text else text) @ concat (map writeBlock new),
                         map fst new, removed)))"

section \<open>Texts by their lines\<close>

text \<open>A condition on every line of a text, and what appending does to it.\<close>

definition all_lines :: "(string \<Rightarrow> bool) \<Rightarrow> string \<Rightarrow> bool" where
  "all_lines P s \<longleftrightarrow> list_all P (split_on newline s)"

definition closed_text :: "string \<Rightarrow> bool" where
  "closed_text s \<longleftrightarrow> s = [] \<or> suffix [newline] s"

lemma split_on_app: "split_on c (a @ c # b) = split_on c a @ split_on c b"
  by (induction a) (auto split: list.splits)

lemma closed_text_cases:
  assumes "closed_text s"
  obtains "s = []" | p where "s = p @ [newline]"
  using assms by (auto simp: closed_text_def suffix_def)

lemma all_lines_append:
  assumes "closed_text a" and "P []"
  shows "all_lines P (a @ b) \<longleftrightarrow> all_lines P a \<and> all_lines P b"
  using assms(1)
proof (cases rule: closed_text_cases)
  case 1
  then show ?thesis using assms(2) by (simp add: all_lines_def)
next
  case (2 p)
  then show ?thesis using assms(2)
    by (auto simp: all_lines_def split_on_app [of newline p "[]", simplified] split_on_app)
qed

lemma all_lines_close: "P [] \<Longrightarrow> all_lines P (s @ [newline]) \<longleftrightarrow> all_lines P s"
  by (simp add: all_lines_def split_on_app [of newline s "[]", simplified])

lemma all_lines_Nil [simp]: "all_lines P [] \<longleftrightarrow> P []"
  by (simp add: all_lines_def)

lemma all_lines_line: "newline \<notin> set l \<Longrightarrow> P [] \<Longrightarrow> all_lines P (l @ [newline]) \<longleftrightarrow> P l"
  by (simp only: all_lines_close) (simp add: all_lines_def split_on_no_sep)

lemma closed_text_simps [simp]:
  "closed_text []" "closed_text (s @ [newline])"
  by (simp_all add: closed_text_def)

lemma closed_text_append: "closed_text a \<Longrightarrow> closed_text b \<Longrightarrow> closed_text (a @ b)"
  by (auto simp: closed_text_def suffix_append)

lemma closed_text_concat: "(\<And>x. x \<in> set xs \<Longrightarrow> closed_text x) \<Longrightarrow> closed_text (concat xs)"
  by (induction xs) (auto intro: closed_text_append)

lemma all_lines_concat:
  assumes "P []" and "\<And>x. x \<in> set xs \<Longrightarrow> closed_text x"
  shows "all_lines P (concat xs) \<longleftrightarrow> (\<forall>x\<in>set xs. all_lines P x)"
  using assms(2)
proof (induction xs)
  case (Cons x xs)
  have "closed_text x" using Cons.prems by simp
  then show ?case using Cons all_lines_append [of x P "concat xs"] assms(1) by simp
qed (simp add: assms(1))

lemma keyPresent_lines: "keyPresent key s \<longleftrightarrow> \<not> all_lines (\<lambda>l. \<not> line_has key l) s"
  by (simp add: keyPresent_def all_lines_def list_ex_iff list_all_iff)

text \<open>The lines with their terminators give the text back, and only the last may lack one.\<close>

definition line_body :: "string \<Rightarrow> string" where
  "line_body x = (if suffix [newline] x then butlast x else x)"

definition text_lines :: "string list \<Rightarrow> bool" where
  "text_lines ls \<longleftrightarrow> (\<forall>x\<in>set ls. newline \<notin> set (line_body x)) \<and> sorted_wrt (\<lambda>x y. suffix [newline] x) ls"

lemma line_body_simps [simp]:
  "line_body (p @ [newline]) = p" "newline \<notin> set p \<Longrightarrow> line_body p = p"
  by (auto simp: line_body_def suffix_def)

lemma concat_split_after: "concat (split_after s) = s"
proof -
  have "concat (map (\<lambda>p. p @ [newline]) (butlast ps)) @ last ps = join_with [newline] ps"
    if "ps \<noteq> []" for ps :: "string list"
    using that by (induction ps rule: induct_list012) auto
  from this [of "split_on newline s"] show ?thesis
    by (simp add: split_after_def Let_def join_split_on)
qed

lemma line_body_split_after:
  assumes "x \<in> set (split_after s)"
  shows "line_body x \<in> set (split_on newline s)"
proof -
  let ?ps = "split_on newline s"
  consider p where "p \<in> set (butlast ?ps)" "x = p @ [newline]" | "x = last ?ps"
    using assms by (auto simp: split_after_def Let_def)
  then show ?thesis
  proof cases
    case 1
    then show ?thesis by (simp add: in_set_butlastD)
  next
    case 2
    have l: "last ?ps \<in> set ?ps" by simp
    then show ?thesis using 2 split_on_parts [OF l] by simp
  qed
qed

lemma text_lines_split_after: "text_lines (split_after s)"
proof -
  have "sorted_wrt (\<lambda>x y. suffix [newline] x) (split_after s)"
    by (auto simp: split_after_def Let_def sorted_wrt_append sorted_wrt_map intro: sorted_wrt_mono_rel [of _ "\<lambda>_ _. True"])
  then show ?thesis
    by (auto simp: text_lines_def dest!: line_body_split_after split_on_parts)
qed

lemma text_lines_subseq: "subseq xs ys \<Longrightarrow> text_lines ys \<Longrightarrow> text_lines xs"
proof (induction rule: list_emb.induct)
  case (list_emb_Cons2 x y xs ys)
  then show ?case by (auto simp: text_lines_def dest: list_emb_set)
qed (auto simp: text_lines_def)

lemma split_on_concat:
  "text_lines ls \<Longrightarrow>
     split_on newline (concat ls) =
       map line_body ls @ (if ls = [] \<or> suffix [newline] (last ls) then [[]] else [])"
proof (induction ls)
  case (Cons x ls)
  show ?case
  proof (cases "suffix [newline] x")
    case True
    then obtain p where p: "x = p @ [newline]" by (auto simp: suffix_def)
    have "newline \<notin> set p" using Cons.prems p by (simp add: text_lines_def)
    then show ?thesis using Cons p by (simp add: text_lines_def split_on_append_sep)
  next
    case False
    then have "ls = []" "line_body x = x" using Cons.prems
      by (auto simp: text_lines_def line_body_def neq_Nil_conv)
    then show ?thesis using Cons.prems False by (simp add: text_lines_def split_on_no_sep)
  qed
qed simp

lemma all_lines_concat_lines:
  "text_lines ls \<Longrightarrow> P [] \<Longrightarrow> all_lines P (concat ls) \<longleftrightarrow> (\<forall>x\<in>set ls. P (line_body x))"
  by (auto simp: all_lines_def split_on_concat list_all_iff)

lemma all_lines_split_after: "all_lines P s \<Longrightarrow> x \<in> set (split_after s) \<Longrightarrow> P (line_body x)"
  using line_body_split_after by (auto simp: all_lines_def list_all_iff)

section \<open>What a pass of the upgrade does\<close>

lemma newline_facts [simp]: "\<not> is_blank newline" "\<not> key_char newline" "is_space newline"
  "newline \<noteq> CHR ''#''" "newline \<noteq> CHR ''=''" "CHR ''#'' \<noteq> newline" "CHR ''='' \<noteq> newline"
  by (simp_all add: newline_def is_blank_def key_char_def is_space_def tab_def)

lemma commentedKey_line: "commentedKey (p @ [newline]) = commentedKey p"
proof (cases p)
  case (Cons c cs)
  let ?r = "dropWhile is_blank cs"
  have r: "dropWhile is_blank (cs @ [newline]) = ?r @ [newline]"
    using dropWhile_append3 [of is_blank newline cs "[]"] by simp
  have k: "takeWhile key_char (?r @ [newline]) = takeWhile key_char ?r"
    by (simp add: takeWhile_tail)
  have d: "dropWhile is_blank (dropWhile key_char (?r @ [newline]))
      = dropWhile is_blank (dropWhile key_char ?r) @ [newline]"
    using dropWhile_append3 [of key_char newline ?r "[]"] dropWhile_append3 [of is_blank newline _ "[]"] by simp
  have e: "prefix ''='' (x @ [newline]) \<longleftrightarrow> prefix ''='' x" for x :: string
    by (cases x) simp_all
  show ?thesis using Cons by (simp add: commentedKey_def Let_def r k d e)
qed (simp add: commentedKey_def)

lemma commentedKey_body: "commentedKey (line_body x) = commentedKey x"
  by (auto simp: line_body_def suffix_def commentedKey_line)

lemma trim_space_line: "trim_space (p @ [newline]) = trim_space p"
proof (cases "\<forall>c\<in>set p. is_space c")
  case True
  then have "dropWhile is_space p = []" and "dropWhile is_space (p @ [newline]) = []"
    by (simp_all only: dropWhile_eq_Nil_conv set_append, auto)
  then show ?thesis unfolding trim_space_def by (simp only:)
next
  case False
  then have "dropWhile is_space (p @ [newline]) = dropWhile is_space p @ [newline]"
    by (metis dropWhile_append1)
  then show ?thesis by (simp add: trim_space_def)
qed

lemma trim_space_body: "trim_space (line_body x) = trim_space x"
  by (auto simp: line_body_def suffix_def trim_space_line)

text \<open>A line that sets something: neither a comment nor blank.\<close>

definition setting :: "string \<Rightarrow> bool" where
  "setting line \<longleftrightarrow> \<not> prefix ''#'' line \<and> trim_space line \<noteq> []"

definition settings :: "string \<Rightarrow> string list" where
  "settings s = filter setting (split_on newline s)"

lemma setting_body: "setting (line_body x) \<longleftrightarrow> setting x"
proof (cases "suffix [newline] x")
  case True
  then obtain p where p: "x = p @ [newline]" by (auto simp: suffix_def)
  have "prefix ''#'' (p @ [newline]) \<longleftrightarrow> prefix ''#'' p" by (cases p) simp_all
  then show ?thesis using p by (simp add: setting_def trim_space_line)
qed (simp add: line_body_def)

lemma commentedKey_hash: "commentedKey x = Some k \<Longrightarrow> prefix ''#'' x"
  by (auto simp: commentedKey_def split: list.splits if_splits)

lemma not_setting: "commentedKey x = Some k \<Longrightarrow> \<not> setting x" "trim_space x = [] \<Longrightarrow> \<not> setting x"
  by (auto simp: setting_def dest: commentedKey_hash)

lemma drop_explanation_prefix: "\<exists>zs. kept = drop_explanation kept @ zs \<and> (\<forall>z\<in>set zs. explanation z)"
proof -
  have "rev kept = takeWhile explanation (rev kept) @ dropWhile explanation (rev kept)" by simp
  then have "kept = drop_explanation kept @ rev (takeWhile explanation (rev kept))"
    by (metis drop_explanation_def rev_append rev_rev_ident)
  then show ?thesis by (metis set_rev set_takeWhileD)
qed

lemma drop_explanation_facts:
  "subseq (drop_explanation kept) kept"
  "filter setting (drop_explanation kept) = filter setting kept"
proof -
  obtain zs where z: "kept = drop_explanation kept @ zs" "\<forall>z\<in>set zs. explanation z"
    using drop_explanation_prefix by blast
  show "subseq (drop_explanation kept) kept" by (metis z(1) list_emb_append2 subseq_order.refl subseq_rev_drop_many)
  have "filter setting zs = []" using z(2) by (auto simp: filter_empty_conv explanation_def setting_def)
  then show "filter setting (drop_explanation kept) = filter setting kept"
    by (metis z(1) append_Nil2 filter_append)
qed

text \<open>The lines kept are some of the file's, in order, with every setting among them.\<close>

lemma upgrade_pass_kept:
  assumes "upgrade_pass known ls sb kept removed = (k', r')"
  shows "subseq k' (kept @ ls) \<and> filter setting k' = filter setting (kept @ ls)"
  using assms
proof (induction known ls sb kept removed rule: upgrade_pass.induct)
  case (2 known line ls sb kept removed)
  show ?case
  proof (cases "sb \<and> trim_space line = []")
    case True
    then have "upgrade_pass known ls False kept removed = (k', r')" using 2(5) by simp
    from 2(1) [OF True this] have "subseq k' (kept @ ls)" "filter setting k' = filter setting (kept @ ls)" by auto
    moreover have "subseq (kept @ ls) (kept @ line # ls)" by (intro list_emb_append_mono) auto
    moreover have "\<not> setting line" using True not_setting by blast
    ultimately show ?thesis by (auto dest: subseq_order.trans)
  next
    case nb: False
    show ?thesis
    proof (cases "commentedKey line")
      case None
      then show ?thesis using 2(2) [OF nb None] 2(5) nb by simp
    next
      case (Some k)
      show ?thesis
      proof (cases "known k")
        case True
        then show ?thesis using 2(3) [OF nb Some True] 2(5) nb Some by simp
      next
        case False
        then have "subseq k' (drop_explanation kept @ ls) \<and> filter setting k' = filter setting (drop_explanation kept @ ls)"
          using 2(4) [OF nb Some False] 2(5) nb Some by simp
        moreover have "subseq (drop_explanation kept @ ls) (kept @ line # ls)"
          using drop_explanation_facts(1) by (intro list_emb_append_mono) auto
        moreover have "\<not> setting line" using Some not_setting by blast
        ultimately show ?thesis using drop_explanation_facts(2) by (auto dest: subseq_order.trans)
      qed
    qed
  qed
qed auto

text \<open>A line a second pass leaves: no commented key, or a documented one.\<close>

definition line_ok :: "(string \<Rightarrow> bool) \<Rightarrow> string \<Rightarrow> bool" where
  "line_ok known l \<longleftrightarrow> (\<forall>k. commentedKey l = Some k \<longrightarrow> known k)"

lemma upgrade_pass_ok:
  assumes "upgrade_pass known ls sb kept removed = (k', r')" and "\<forall>x\<in>set kept. line_ok known x"
  shows "\<forall>x\<in>set k'. line_ok known x"
  using assms
proof (induction known ls sb kept removed rule: upgrade_pass.induct)
  case (2 known line ls sb kept removed)
  have "set (drop_explanation kept) \<subseteq> set kept" by (auto simp: drop_explanation_def dest: set_dropWhileD)
  then have d: "\<forall>x\<in>set (drop_explanation kept). line_ok known x" using 2(6) by blast
  show ?case
  proof (cases "sb \<and> trim_space line = []")
    case True
    then show ?thesis using 2(1) [OF True] 2(5,6) by simp
  next
    case nb: False
    show ?thesis
    proof (cases "commentedKey line")
      case None
      then have "\<forall>x\<in>set (kept @ [line]). line_ok known x" using 2(6) by (simp add: line_ok_def)
      then show ?thesis using 2(2) [OF nb None] 2(5) nb None by simp
    next
      case (Some k)
      show ?thesis
      proof (cases "known k")
        case True
        then have "\<forall>x\<in>set (kept @ [line]). line_ok known x" using 2(6) Some by (simp add: line_ok_def)
        then show ?thesis using 2(3) [OF nb Some True] 2(5) nb Some True by simp
      next
        case False
        then show ?thesis using 2(4) [OF nb Some False] 2(5) nb Some d by simp
      qed
    qed
  qed
qed auto

lemma upgrade_pass_all_ok:
  "\<forall>x\<in>set ls. line_ok known x \<Longrightarrow> upgrade_pass known ls False kept removed = (kept @ ls, removed)"
  by (induction ls arbitrary: kept) (auto simp: line_ok_def split: option.splits)

lemma line_ok_body: "line_ok known (line_body x) \<longleftrightarrow> line_ok known x"
  by (simp add: line_ok_def commentedKey_body)

lemma line_ok_Nil [simp]: "line_ok known []"
  by (simp add: line_ok_def commentedKey_def)

section \<open>Blocks of documented keys\<close>

text \<open>What the upgrade needs of the documented keys: words of key characters, values on one line,
  and explanations that do not read as a commented key of their own.\<close>

definition comment_ok :: "string \<Rightarrow> bool" where
  "comment_ok comment \<longleftrightarrow> list_all (\<lambda>l. commentedKey (''# '' @ l) = None) (split_on newline comment)"

definition key_ok :: "string \<Rightarrow> bool" where
  "key_ok key \<longleftrightarrow> key \<noteq> [] \<and> list_all key_char key"

definition field_ok :: "init_field \<Rightarrow> bool" where
  "field_ok f \<longleftrightarrow> key_ok (fst f) \<and> comment_ok (fst (snd f)) \<and> newline \<notin> set (snd (snd f))"

lemma key_char_facts: "key_char c \<Longrightarrow> \<not> is_blank c \<and> c \<noteq> CHR ''#'' \<and> c \<noteq> newline \<and> c \<noteq> CHR ''=''"
  by (auto simp: key_char_def is_blank_def tab_def newline_def)

lemma key_ok_cases:
  assumes "key_ok key"
  obtains c cs where "key = c # cs" "key_char c" "list_all key_char cs"
  using assms by (cases key) (auto simp: key_ok_def)

lemma key_ok_newline: "key_ok key \<Longrightarrow> newline \<notin> set key"
  by (auto simp: key_ok_def list_all_iff dest: key_char_facts)

lemma commentedKey_of_key:
  assumes "key_ok key"
  shows "commentedKey (''# '' @ key @ '' = '' @ v) = Some key"
proof -
  obtain c cs where c: "key = c # cs" "key_char c" "list_all key_char cs" using assms by (rule key_ok_cases)
  have b: "\<not> is_blank c" "is_blank (CHR '' '')" "\<not> key_char (CHR '' '')" "\<not> is_blank (CHR ''='')"
    using key_char_facts [OF c(2)] by (auto simp: is_blank_def key_char_def tab_def)
  have all: "\<forall>x\<in>set key. key_char x" using c by (simp add: list_all_iff)
  have t: "takeWhile key_char (key @ '' = '' @ v) = key" "dropWhile key_char (key @ '' = '' @ v) = '' = '' @ v"
    using all b by (simp_all add: takeWhile_append2 dropWhile_append2)
  have k: "dropWhile is_blank (key @ '' = '' @ v) = key @ '' = '' @ v" using c b by simp
  have d: "dropWhile is_blank ('' '' @ key @ '' = '' @ v) = key @ '' = '' @ v"
    using k b(2) by simp
  have ne: "key \<noteq> []" using c by simp
  have s: "''# '' @ key @ '' = '' @ v = CHR ''#'' # ('' '' @ key @ '' = '' @ v)" by simp
  show ?thesis
    unfolding s commentedKey_def Let_def list.case d t using ne b by simp
qed

lemma line_has_of_key:
  assumes "key_ok key"
  shows "line_has key (''# '' @ key @ '' = '' @ v)"
proof -
  obtain c cs where c: "key = c # cs" "key_char c" "list_all key_char cs" using assms by (rule key_ok_cases)
  have b: "\<not> is_blank c" "is_blank (CHR '' '')" "\<not> is_blank (CHR ''#'')" "\<not> is_blank (CHR ''='')"
    using key_char_facts [OF c(2)] by (auto simp: is_blank_def key_char_def tab_def)
  then show ?thesis using c by (simp add: line_has_def Let_def)
qed

lemma line_has_Nil: "key_ok key \<Longrightarrow> \<not> line_has key []"
  by (auto simp: line_has_def Let_def key_ok_def)

text \<open>The lines of a block, and what holds for all of them.\<close>

lemma all_lines_block:
  assumes "field_ok f" and "P []"
  shows "all_lines P (writeBlock f) \<longleftrightarrow>
    (\<forall>l\<in>set (split_on newline (fst (snd f))). P (''# '' @ l)) \<and> P ''# ----''
      \<and> P (''# '' @ fst f @ '' = '' @ snd (snd f))"
proof -
  obtain key comment v where f: "f = (key, comment, v)" by (cases f)
  let ?cs = "map (\<lambda>line. (''# '' @ line) @ [newline]) (split_on newline comment)"
  let ?sep = "''# ----'' @ [newline]" and ?key = "(''# '' @ key @ '' = '' @ v) @ [newline]"
  have key: "newline \<notin> set key" "newline \<notin> set v" using assms(1) f key_ok_newline by (auto simp: field_ok_def)
  have nl: "newline \<notin> set ''# ----''" "newline \<notin> set (''# '' @ key @ '' = '' @ v)"
    using key by (auto simp: newline_def)
  have split: "writeBlock f = concat ?cs @ ?sep @ ?key @ [newline]"
    by (simp add: writeBlock_def f)
  have closed: "closed_text x" if "x \<in> set ?cs" for x
  proof -
    have "\<exists>l. x = (''# '' @ l) @ [newline]" using that unfolding set_map by blast
    then show ?thesis using closed_text_simps(2) by blast
  qed
  have lines: "all_lines P x \<longleftrightarrow> P (''# '' @ l)" if "l \<in> set (split_on newline comment)" "x = (''# '' @ l) @ [newline]" for x l
    using that split_on_parts [OF that(1)] assms(2) all_lines_line [of "''# '' @ l" P] by (simp add: newline_def)
  have a: "all_lines P (concat ?cs) \<longleftrightarrow> (\<forall>l\<in>set (split_on newline comment). P (''# '' @ l))"
    using all_lines_concat [of P ?cs] assms(2) closed lines by (auto simp del: append_Cons)
  have e: "all_lines P [newline]" using all_lines_close [of P "[]"] assms(2) by simp
  have b: "all_lines P (?sep @ ?key @ [newline]) \<longleftrightarrow> P ''# ----'' \<and> P (''# '' @ key @ '' = '' @ v)"
    using assms(2) e by (simp only: all_lines_append closed_text_simps all_lines_line [OF nl(1)] all_lines_line [OF nl(2)]) simp
  show ?thesis
    unfolding split using all_lines_append [OF closed_text_concat, of ?cs P, OF closed assms(2)] a b f by simp
qed

lemma closed_block: "closed_text (writeBlock f)"
proof -
  obtain key comment v where f: "f = (key, comment, v)" by (cases f)
  have "suffix [newline] (writeBlock f)" by (simp add: writeBlock_def f suffix_def)
  then show ?thesis by (simp add: closed_text_def)
qed

lemma all_lines_blocks:
  "P [] \<Longrightarrow> all_lines P (concat (map writeBlock fs)) \<longleftrightarrow> (\<forall>f\<in>set fs. all_lines P (writeBlock f))"
  by (subst all_lines_concat) (auto simp: closed_block)

lemma blocks_ok:
  assumes "list_all field_ok fs" and "\<And>f. f \<in> set fs \<Longrightarrow> known (fst f)"
  shows "all_lines (line_ok known) (concat (map writeBlock fs))"
proof -
  have "all_lines (line_ok known) (writeBlock f)" if "f \<in> set fs" for f
  proof -
    have ok: "field_ok f" using assms(1) that by (simp add: list_all_iff)
    have "commentedKey ''# ----'' = None" by (simp add: commentedKey_def is_blank_def key_char_def tab_def)
    then show ?thesis
      using ok commentedKey_of_key [of "fst f" "snd (snd f)"] assms(2) [OF that]
      unfolding all_lines_block [of f "line_ok known", OF ok line_ok_Nil]
      by (simp add: line_ok_def field_ok_def comment_ok_def list_all_iff)
  qed
  then show ?thesis by (simp add: all_lines_blocks)
qed

lemma block_present:
  assumes "list_all field_ok fs" and "f \<in> set fs"
  shows "keyPresent (fst f) (concat (map writeBlock fs))"
proof -
  have ok: "field_ok f" using assms by (simp add: list_all_iff)
  then have k: "key_ok (fst f)" by (simp add: field_ok_def)
  have "\<not> all_lines (\<lambda>l. \<not> line_has (fst f) l) (writeBlock f)"
    using line_has_of_key [OF k] line_has_Nil [OF k] by (simp add: all_lines_block [OF ok])
  then have "\<not> all_lines (\<lambda>l. \<not> line_has (fst f) l) (concat (map writeBlock fs))"
    using assms(2) line_has_Nil [OF k] by (auto simp: all_lines_blocks)
  then show ?thesis by (simp add: keyPresent_lines)
qed

lemma not_setting_hash: "\<not> setting (''# '' @ l)"
  by (simp add: setting_def)

lemma settings_none: "settings s = [] \<longleftrightarrow> all_lines (\<lambda>l. \<not> setting l) s"
  by (auto simp: settings_def all_lines_def filter_empty_conv list_all_iff)

lemma setting_Nil [simp]: "\<not> setting []"
  by (simp add: setting_def trim_space_def)

lemma blocks_no_settings:
  assumes "list_all field_ok fs"
  shows "settings (concat (map writeBlock fs)) = []"
proof -
  have "all_lines (\<lambda>l. \<not> setting l) (writeBlock f)" if "f \<in> set fs" for f
    using assms that all_lines_block [of f "\<lambda>l. \<not> setting l", OF _ setting_Nil]
    by (simp add: list_all_iff) (simp add: setting_def)
  then show ?thesis by (simp add: settings_none all_lines_blocks)
qed

lemma settings_append: "closed_text a \<Longrightarrow> settings (a @ b) = settings a @ settings b"
  by (elim closed_text_cases) (simp_all add: settings_def split_on_app split_on_app [of newline _ "[]", simplified])

lemma settings_close: "settings (s @ [newline]) = settings s"
  by (simp add: settings_def split_on_app [of newline s "[]", simplified])

lemma settings_concat_lines: "text_lines ls \<Longrightarrow> settings (concat ls) = map line_body (filter setting ls)"
  by (auto simp: settings_def split_on_concat filter_map o_def setting_body)

section \<open>The documented keys meet those conditions\<close>

lemma quote_char_newline: "newline \<notin> set (quote_char c)"
proof -
  have "list_all (\<lambda>k. hex_digit k \<noteq> newline) (upt 0 16)" by code_simp
  then have "\<forall>k\<in>set (upt 0 16). hex_digit k \<noteq> newline" by (simp only: list_all_iff)
  then have "hex_digit k \<noteq> newline" if "k < 16" for k
    by (rule bspec [where x = k]) (simp add: that)
  then have h: "newline \<noteq> hex_digit k" if "k < 16" for k using that by fastforce
  have c: "of_char c \<noteq> (10::nat) \<Longrightarrow> newline \<noteq> c" by (auto simp: newline_def)
  have n: "newline \<noteq> backslash" "newline \<notin> set ''abfnrtvx''" "newline \<noteq> CHR 0x22"
    by (simp_all add: newline_def backslash_def)
  show ?thesis using h c n by (simp add: quote_char_def Let_def)
qed

lemma quote_newline: "newline \<notin> set (quote s)"
  using quote_char_newline by (auto simp: quote_def newline_def)

lemma set_join_with: "set (join_with sep ps) \<subseteq> set sep \<union> (\<Union>p\<in>set ps. set p)"
  by (induction ps rule: induct_list012) auto

lemma QuoteArray_newline: "newline \<notin> set (QuoteArray items)"
  using set_join_with [of "'', ''" "map quote items"] quote_newline by (auto simp: QuoteArray_def newline_def)

lemma itoa_newline: "newline \<notin> set (itoa i)"
  by (auto simp: itoa_def newline_def dest: nat_digits_chars)

lemma format_bool_newline: "newline \<notin> set (format_bool b)"
  by (simp add: format_bool_def newline_def)

lemmas values_newline = quote_newline QuoteArray_newline itoa_newline format_bool_newline

lemma initFields_values: "list_all (\<lambda>f. newline \<notin> set (snd (snd f))) (initFields d)"
  by (simp add: initFields_def values_newline)

lemma initFields_texts: "list_all (\<lambda>f. key_ok (fst f) \<and> comment_ok (fst (snd f))) (initFields d)"
  unfolding initFields_def list.pred_inject fst_conv snd_conv
  by (intro conjI TrueI; code_simp)

lemma initFields_ok: "list_all field_ok (initFields d)"
  using initFields_values [of d] initFields_texts [of d] by (auto simp: list_all_iff field_ok_def)

section \<open>The upgrade\<close>

lemma add_spacing_cases:
  obtains "add_spacing t = t" "closed_text t" | n where "add_spacing t = t @ replicate n newline" "n \<noteq> 0"
proof (cases "suffix [newline] t")
  case True
  then show ?thesis using that(1) that(2) [of 1]
    by (cases "suffix [newline, newline] t") (simp_all add: add_spacing_def Let_def closed_text_def)
next
  case False
  then show ?thesis using that(2) [of 1] that(2) [of 2] by (auto simp: add_spacing_def Let_def numeral_2_eq_2 split: if_splits)
qed

lemma newlines_snoc: "t @ replicate (Suc n) newline = (t @ replicate n newline) @ [newline]"
  by (simp flip: replicate_append_same)

lemma all_lines_newlines: "P [] \<Longrightarrow> all_lines P (t @ replicate n newline) \<longleftrightarrow> all_lines P t"
proof (induction n)
  case (Suc n)
  then show ?case unfolding newlines_snoc by (simp only: all_lines_close)
qed simp

lemma settings_newlines: "settings (t @ replicate n newline) = settings t"
proof (induction n)
  case (Suc n)
  then show ?case unfolding newlines_snoc by (simp only: settings_close)
qed simp

lemma add_spacing_facts:
  "closed_text (add_spacing t)"
  "P [] \<Longrightarrow> all_lines P (add_spacing t) \<longleftrightarrow> all_lines P t"
  "settings (add_spacing t) = settings t"
proof -
  show "closed_text (add_spacing t)"
  proof (cases t rule: add_spacing_cases)
    case (2 n)
    then obtain m where "n = Suc m" by (auto simp: gr0_conv_Suc)
    then show ?thesis using 2 newlines_snoc [of t m] closed_text_simps(2) by metis
  qed simp
  show "P [] \<Longrightarrow> all_lines P (add_spacing t) \<longleftrightarrow> all_lines P t"
    by (cases t rule: add_spacing_cases) (simp_all add: all_lines_newlines)
  show "settings (add_spacing t) = settings t"
    by (cases t rule: add_spacing_cases) (simp_all add: settings_newlines)
qed

text \<open>The text an upgrade writes: the kept lines, spaced, and a block for every absent key.\<close>

definition absent :: "init_field list \<Rightarrow> string \<Rightarrow> init_field list" where
  "absent fs t = filter (\<lambda>f. \<not> keyPresent (fst f) t) fs"

definition joined :: "string \<Rightarrow> init_field list \<Rightarrow> string" where
  "joined t new = (if new \<noteq> [] \<and> t \<noteq> [] then add_spacing t else t) @ concat (map writeBlock new)"

lemma upgrade_text_parts:
  assumes "upgrade_text fs data = Some (t', added, removed)"
  obtains kept where "upgrade_pass (\<lambda>k. k \<in> set (map fst fs)) (split_after data) False [] [] = (kept, removed)"
    and "t' = joined (concat kept) (absent fs (concat kept))" and "added = map fst (absent fs (concat kept))"
  using assms by (auto simp: upgrade_text_def absent_def joined_def Let_def split: prod.splits if_splits)

lemma joined_all_lines:
  "P [] \<Longrightarrow> all_lines P (joined t new) \<longleftrightarrow> all_lines P t \<and> all_lines P (concat (map writeBlock new))"
  by (auto simp: joined_def all_lines_append add_spacing_facts)

lemma settings_Nil: "settings [] = []"
  by (simp add: settings_def)

lemma joined_settings: "list_all field_ok new \<Longrightarrow> settings (joined t new) = settings t"
  using settings_append [of "add_spacing t" "concat (map writeBlock new)"] blocks_no_settings [of new]
  by (auto simp: joined_def add_spacing_facts settings_append settings_Nil)

lemma upgrade_text_lines:
  assumes fs: "list_all field_ok fs" and u: "upgrade_text fs data = Some (t', added, removed)"
  shows "all_lines (line_ok (\<lambda>k. k \<in> set (map fst fs))) t' \<and> (\<forall>f\<in>set fs. keyPresent (fst f) t')
    \<and> settings t' = settings data"
proof -
  let ?known = "\<lambda>k. k \<in> set (map fst fs)"
  obtain kept where k: "upgrade_pass ?known (split_after data) False [] [] = (kept, removed)"
    and t: "t' = joined (concat kept) (absent fs (concat kept))"
    using upgrade_text_parts [OF u] by metis
  let ?new = "absent fs (concat kept)"
  have new: "list_all field_ok ?new" using fs by (auto simp: absent_def list_all_iff)
  have sub: "subseq kept (split_after data)" and filt: "filter setting kept = filter setting (split_after data)"
    using upgrade_pass_kept [OF k] by simp_all
  have tl: "text_lines kept" using text_lines_subseq [OF sub text_lines_split_after] .
  have ok: "all_lines (line_ok ?known) (concat kept)"
    using upgrade_pass_ok [OF k] unfolding all_lines_concat_lines [of kept "line_ok ?known", OF tl line_ok_Nil] line_ok_body
    by simp
  have blk: "all_lines (line_ok ?known) (concat (map writeBlock ?new))"
    by (rule blocks_ok [OF new]) (auto simp: absent_def)
  have one: "all_lines (line_ok ?known) t'"
    unfolding t using joined_all_lines [of "line_ok ?known"] ok blk by simp
  have two: "keyPresent (fst f) t'" if f: "f \<in> set fs" for f
  proof -
    have key: "key_ok (fst f)" using fs f by (simp add: list_all_iff field_ok_def)
    have "keyPresent (fst f) (concat kept) \<or> keyPresent (fst f) (concat (map writeBlock ?new))"
      using block_present [OF new, of f] f by (auto simp: absent_def)
    then show ?thesis
      unfolding t keyPresent_lines using joined_all_lines [of "\<lambda>l. \<not> line_has (fst f) l"] line_has_Nil [OF key] by blast
  qed
  have "settings t' = settings (concat kept)" unfolding t by (rule joined_settings [OF new])
  also have "\<dots> = settings (concat (split_after data))"
    by (simp only: settings_concat_lines [OF tl] settings_concat_lines [OF text_lines_split_after] filt)
  finally show ?thesis using one two by (simp add: concat_split_after)
qed

text \<open>A text whose lines are all documented and which mentions every key is left alone.\<close>

lemma upgrade_text_None:
  assumes "all_lines (line_ok (\<lambda>k. k \<in> set (map fst fs))) t" and "\<forall>f\<in>set fs. keyPresent (fst f) t"
  shows "upgrade_text fs t = None"
proof -
  have "line_ok (\<lambda>k. k \<in> set (map fst fs)) x" if "x \<in> set (split_after t)" for x
    using all_lines_split_after [OF assms(1) that] by (simp only: line_ok_body)
  then have "upgrade_pass (\<lambda>k. k \<in> set (map fst fs)) (split_after t) False [] [] = (split_after t, [])"
    using upgrade_pass_all_ok [of "split_after t" "\<lambda>k. k \<in> set (map fst fs)" "[]" "[]"] by simp
  moreover have "filter (\<lambda>f. \<not> keyPresent (fst f) t) fs = []" using assms(2) by (simp add: filter_empty_conv)
  ultimately show ?thesis by (simp add: upgrade_text_def concat_split_after)
qed

end
