(* ===== verification/Config_Load.thy ===== *)
theory Config_Load
  imports Config_File
begin

text \<open>
  The configuration on disk and the flags over it (internal/config): \<open>Init\<close>, \<open>Upgrade\<close>, \<open>Load\<close>
  and \<open>LoadOrInit\<close> over a file map whose calls may fail, and \<open>ApplyFlags\<close> (flags.go) over typed
  flag values, a failed type assertion being \<open>None\<close>. The TOML decoder is a parameter.
\<close>

section \<open>The files\<close>

text \<open>
  Real paths to contents; \<open>cs_link\<close> is what \<open>EvalSymlinks\<close> makes of a path. A write may fail before
  the file is opened or leave part of its data behind.
\<close>

datatype write_outcome = Written | NotOpened | Cut string

record config_fs =
  cs_file :: "string \<Rightarrow> string option"
  cs_link :: "string \<Rightarrow> string"

record config_faults =
  cft_stat :: bool
  cft_mkdir :: bool
  cft_read :: bool
  cft_write :: write_outcome
  cft_rename :: bool

datatype config_error = CE_exists string | CE_not_exist string | CE_io string
  | CE_parse string "(int \<times> int) option"

definition no_config_faults :: config_faults where
  "no_config_faults = \<lparr>cft_stat = False, cft_mkdir = False, cft_read = False, cft_write = Written, cft_rename = False\<rparr>"

definition ReadFile :: "config_faults \<Rightarrow> string \<Rightarrow> config_fs \<Rightarrow> config_error + string" where
  "ReadFile fl path s =
     (if cft_read fl then Inl (CE_io path)
      else (case cs_file s (cs_link s path) of None \<Rightarrow> Inl (CE_not_exist path) | Some t \<Rightarrow> Inr t))"

definition WriteFile :: "config_faults \<Rightarrow> string \<Rightarrow> string \<Rightarrow> config_fs \<Rightarrow> (config_error + unit) \<times> config_fs" where
  "WriteFile fl q t s =
     (case cft_write fl of
        Written \<Rightarrow> (Inr (), s\<lparr>cs_file := (cs_file s)(q \<mapsto> t)\<rparr>)
      | NotOpened \<Rightarrow> (Inl (CE_io q), s)
      | Cut part \<Rightarrow> (Inl (CE_io q), s\<lparr>cs_file := (cs_file s)(q \<mapsto> part)\<rparr>))"

definition RenameFile :: "config_faults \<Rightarrow> string \<Rightarrow> string \<Rightarrow> config_fs \<Rightarrow> (config_error + unit) \<times> config_fs" where
  "RenameFile fl a b s =
     (if cft_rename fl then (Inl (CE_io a), s)
      else (Inr (), s\<lparr>cs_file := (cs_file s)(b := cs_file s a, a := None)\<rparr>))"

section \<open>Init, Upgrade, Load\<close>

definition Init :: "config_faults \<Rightarrow> conf \<Rightarrow> string \<Rightarrow> bool \<Rightarrow> config_fs \<Rightarrow> (config_error + unit) \<times> config_fs" where
  "Init fl d path force s =
     (if \<not> force \<and> cft_stat fl then (Inl (CE_io path), s)
      else if \<not> force \<and> cs_file s (cs_link s path) \<noteq> None then (Inl (CE_exists path), s)
      else if cft_mkdir fl then (Inl (CE_io (path_dir path)), s)
      else WriteFile fl (cs_link s path) (defaultFileContents d) s)"

text \<open>The new text goes to a temporary file beside the target, which is renamed over it.\<close>

definition Upgrade :: "config_faults \<Rightarrow> conf \<Rightarrow> string \<Rightarrow> config_fs
    \<Rightarrow> (config_error + string list \<times> string list) \<times> config_fs" where
  "Upgrade fl d path s =
     (case ReadFile fl path s of
        Inl e \<Rightarrow> (Inl e, s)
      | Inr data \<Rightarrow>
          (case upgrade_text (initFields d) data of
             None \<Rightarrow> (Inr ([], []), s)
           | Some (text, added, removed) \<Rightarrow>
               (let target = cs_link s path; tmp = target @ ''.tmp''
                in if cft_stat fl then (Inl (CE_io path), s)
                   else (case WriteFile fl tmp text s of
                           (Inl e, s1) \<Rightarrow> (Inl e, s1)
                         | (Inr _, s1) \<Rightarrow>
                             (case RenameFile fl tmp target s1 of
                                (Inl e, s2) \<Rightarrow> (Inl e, s2\<lparr>cs_file := (cs_file s2)(tmp := None)\<rparr>)
                              | (Inr _, s2) \<Rightarrow> (Inr (added, removed), s2))))))"

text \<open>
  The decoder: the keys of a document, and the document overlaid on a configuration. An error is the
  position, when there is one; the typed pass may have set some fields before it fails.
\<close>

record toml =
  tm_keys :: "string \<Rightarrow> (int \<times> int) option + string list"
  tm_into :: "string \<Rightarrow> conf \<Rightarrow> conf \<times> (int \<times> int) option option"

definition decodeErr :: "string \<Rightarrow> (int \<times> int) option \<Rightarrow> config_error" where
  "decodeErr path pos = CE_parse path pos"

definition Load :: "toml \<Rightarrow> config_faults \<Rightarrow> conf \<Rightarrow> string \<Rightarrow> config_fs \<Rightarrow> conf \<times> config_error option" where
  "Load tm fl d path s =
     (case ReadFile fl path s of
        Inl (CE_not_exist _) \<Rightarrow> (d, None)
      | Inl e \<Rightarrow> (d, Some e)
      | Inr data \<Rightarrow>
          (case tm_keys tm data of
             Inl pos \<Rightarrow> (d, Some (decodeErr path pos))
           | Inr keys \<Rightarrow>
               (case tm_into tm data d of
                  (cfg, Some pos) \<Rightarrow> (cfg, Some (decodeErr path pos))
                | (cfg, None) \<Rightarrow> (cfg\<lparr>cf_fileKeys := keys\<rparr>, None))))"

text \<open>The three calls fail independently; a failed \<open>Init\<close> or \<open>Upgrade\<close> is ignored.\<close>

definition LoadOrInit :: "toml \<Rightarrow> config_faults \<Rightarrow> config_faults \<Rightarrow> config_faults \<Rightarrow> conf \<Rightarrow> string \<Rightarrow> config_fs
    \<Rightarrow> (conf \<times> config_error option) \<times> config_fs" where
  "LoadOrInit tm fi fu fl d path s =
     (let s1 = (if path \<noteq> [] then snd (Init fi d path False s) else s);
          s2 = (if path \<noteq> [] then snd (Upgrade fu d path s1) else s1)
      in (Load tm fl d path s2, s2))"

definition FileKeys :: "conf \<Rightarrow> string list" where
  "FileKeys c = cf_fileKeys c"

section \<open>What the file operations keep\<close>

lemma Upgrade_cases:
  assumes "Upgrade fl d path s = (r, s')"
  obtains "s' = s"
  | data t added removed where "ReadFile fl path s = Inr data"
      and "upgrade_text (initFields d) data = Some (t, added, removed)"
      and "cs_link s' = cs_link s"
      and "\<forall>q. q \<noteq> cs_link s path \<and> q \<noteq> cs_link s path @ ''.tmp'' \<longrightarrow> cs_file s' q = cs_file s q"
      and "(\<exists>e. r = Inl e) \<and> cs_file s' (cs_link s path) = cs_file s (cs_link s path)
            \<or> r = Inr (added, removed) \<and> cs_file s' (cs_link s path) = Some t"
proof (cases "ReadFile fl path s")
  case (Inl e)
  then show ?thesis using assms that(1) by (simp add: Upgrade_def)
next
  case data: (Inr data)
  show ?thesis
  proof (cases "upgrade_text (initFields d) data")
    case None
    then show ?thesis using assms data that(1) by (simp add: Upgrade_def)
  next
    case (Some u)
    then obtain t added removed where u: "upgrade_text (initFields d) data = Some (t, added, removed)"
      by (cases u) auto
    show ?thesis
    proof (cases "cft_stat fl")
      case True
      then show ?thesis using assms data u that(1) by (simp add: Upgrade_def Let_def)
    next
      case False
      then show ?thesis using assms data u
        by (intro that(2) [OF data u])
          (auto simp: Upgrade_def Let_def WriteFile_def RenameFile_def split: write_outcome.splits if_splits)
    qed
  qed
qed

text \<open>C29. An upgrade leaves every setting of the file alone: whatever call fails, the lines of the
  user's file that are neither comments nor blank are the same afterwards, in the same order, and
  no other file but the temporary one beside it changes.
\<close>

theorem Upgrade_keeps_settings:
  assumes "cs_file s (cs_link s path) = Some old" and "Upgrade fl d path s = (r, s')"
  shows "(\<exists>t. cs_file s' (cs_link s path) = Some t \<and> settings t = settings old)
    \<and> (\<forall>q. q \<noteq> cs_link s path \<and> q \<noteq> cs_link s path @ ''.tmp'' \<longrightarrow> cs_file s' q = cs_file s q)"
  using assms(2)
proof (cases rule: Upgrade_cases)
  case 1
  then show ?thesis using assms(1) by simp
next
  case (2 data t added removed)
  have "data = old" using 2(1) assms(1) by (auto simp: ReadFile_def split: if_splits)
  then have "settings t = settings old"
    using upgrade_text_lines [OF initFields_ok 2(2)] by simp
  then show ?thesis using 2(4,5) assms(1) by auto
qed

definition demo_fs :: config_fs where
  "demo_fs = \<lparr>cs_file = [''/c'' \<mapsto> ''ttl = 5'' @ [newline] @ ''# gone = 1'' @ [newline]], cs_link = (\<lambda>p. p)\<rparr>"

theorem Upgrade_keeps_settings_witness:
  "(\<exists>t. cs_file (snd (Upgrade no_config_faults (Defaults None) ''/c'' demo_fs)) ''/c'' = Some t
      \<and> settings t = settings (''ttl = 5'' @ [newline] @ ''# gone = 1'' @ [newline]))"
proof -
  have l: "cs_link demo_fs ''/c'' = ''/c''" by (simp add: demo_fs_def)
  have f: "cs_file demo_fs (cs_link demo_fs ''/c'') = Some (''ttl = 5'' @ [newline] @ ''# gone = 1'' @ [newline])"
    by (simp add: demo_fs_def)
  show ?thesis
    using Upgrade_keeps_settings [OF f, of no_config_faults "Defaults None" "fst (Upgrade no_config_faults (Defaults None) ''/c'' demo_fs)"
        "snd (Upgrade no_config_faults (Defaults None) ''/c'' demo_fs)"]
    unfolding l by simp
qed

text \<open>Upgrading an upgraded file changes nothing: after an upgrade that succeeded, the next one,
  whatever fails in it, leaves every file as it is and reports no key added or removed.
\<close>

theorem Upgrade_idempotent:
  assumes "Upgrade fl d path s = (Inr r, s')"
  shows "snd (Upgrade fl' d path s') = s' \<and> (\<not> cft_read fl' \<longrightarrow> fst (Upgrade fl' d path s') = Inr ([], []))"
proof -
  have "\<exists>t. cs_file s' (cs_link s' path) = Some t \<and> upgrade_text (initFields d) t = None"
    using assms
  proof (cases rule: Upgrade_cases)
    case 1
    obtain data where d: "ReadFile fl path s = Inr data" using assms by (cases "ReadFile fl path s") (simp_all add: Upgrade_def)
    then have f: "cs_file s (cs_link s path) = Some data" by (auto simp: ReadFile_def split: if_splits option.splits)
    show ?thesis
    proof (cases "upgrade_text (initFields d) data")
      case None
      then show ?thesis using 1 f by simp
    next
      case (Some u)
      then obtain t a m where u: "upgrade_text (initFields d) data = Some (t, a, m)" by (cases u) auto
      then have "cs_file s' (cs_link s path) = Some t" using assms d
        by (auto simp: Upgrade_def Let_def WriteFile_def RenameFile_def split: write_outcome.splits if_splits)
      then show ?thesis using 1 upgrade_text_lines [OF initFields_ok u] upgrade_text_None by auto
    qed
  next
    case (2 data t added removed)
    then show ?thesis using upgrade_text_lines [OF initFields_ok 2(2)] upgrade_text_None by auto
  qed
  then show ?thesis by (auto simp: Upgrade_def ReadFile_def)
qed

lemma Upgrade_no_faults:
  "cs_file s (cs_link s path) = Some data \<Longrightarrow> \<exists>r. fst (Upgrade no_config_faults d path s) = Inr r"
  by (cases "upgrade_text (initFields d) data")
    (auto simp: Upgrade_def ReadFile_def WriteFile_def RenameFile_def no_config_faults_def Let_def)

theorem Upgrade_idempotent_witness:
  "let s1 = snd (Upgrade no_config_faults (Defaults None) ''/c'' demo_fs)
   in snd (Upgrade no_config_faults (Defaults None) ''/c'' s1) = s1
      \<and> fst (Upgrade no_config_faults (Defaults None) ''/c'' s1) = Inr ([], [])"
proof -
  have "cs_file demo_fs (cs_link demo_fs ''/c'') = Some (''ttl = 5'' @ [newline] @ ''# gone = 1'' @ [newline])"
    by (simp add: demo_fs_def)
  then obtain r where "fst (Upgrade no_config_faults (Defaults None) ''/c'' demo_fs) = Inr r"
    using Upgrade_no_faults by blast
  then have u: "Upgrade no_config_faults (Defaults None) ''/c'' demo_fs
      = (Inr r, snd (Upgrade no_config_faults (Defaults None) ''/c'' demo_fs))" by (metis prod.collapse)
  show ?thesis
    using Upgrade_idempotent [OF u, of no_config_faults] by (simp add: no_config_faults_def Let_def)
qed

section \<open>A text that sets nothing\<close>

text \<open>Comment lines and empty lines, in printable ASCII.\<close>

definition plain_char :: "char \<Rightarrow> bool" where
  "plain_char c \<longleftrightarrow> 32 \<le> (of_char c :: nat) \<and> (of_char c :: nat) < 127"

definition doc_line :: "string \<Rightarrow> bool" where
  "doc_line l \<longleftrightarrow> (l = [] \<or> prefix ''#'' l) \<and> list_all plain_char l"

abbreviation comments_only :: "string \<Rightarrow> bool" where
  "comments_only t \<equiv> all_lines doc_line t"

definition ascii :: "string \<Rightarrow> bool" where
  "ascii s \<longleftrightarrow> list_all (\<lambda>c. (of_char c :: nat) < 128) s"

definition conf_ascii :: "conf \<Rightarrow> bool" where
  "conf_ascii d \<longleftrightarrow> list_all ascii ([cf_mountpoint d, cf_ttl d, cf_poll d, cf_opTimeout d, cf_cacheDir d, cf_cacheSize d,
     cf_largeFile d, cf_thumbnailDir d, cf_uploadDelay d, cf_logLevel d, cf_hvMethod d]
     @ cf_denyReaders d @ cf_exclude d @ cf_uploadDelays d)"

lemma doc_line_Nil [simp]: "doc_line []"
  by (simp add: doc_line_def)

lemma hex_digit_plain: "k < 16 \<Longrightarrow> plain_char (hex_digit k)"
proof -
  assume k: "k < 16"
  have "list_all (\<lambda>k. plain_char (hex_digit k)) (upt 0 16)" by code_simp
  then have "\<forall>k\<in>set (upt 0 16). plain_char (hex_digit k)" by (simp only: list_all_iff)
  then show ?thesis by (rule bspec [where x = k]) (simp add: k)
qed

lemma quote_char_plain: "(of_char c :: nat) < 128 \<Longrightarrow> list_all plain_char (quote_char c)"
proof -
  assume c: "(of_char c :: nat) < 128"
  have n: "plain_char backslash" "plain_char (CHR 0x22)" "list_all plain_char ''abfnrtvx''" by code_simp+
  have h: "plain_char (hex_digit (of_char c div 16))" "plain_char (hex_digit (of_char c mod 16))"
    using c by (auto intro!: hex_digit_plain)
  have o: "plain_char c" if "\<not> ((of_char c :: nat) < 32 \<or> of_char c = (127::nat))"
    using c that by (simp add: plain_char_def)
  show ?thesis using n h o by (simp add: quote_char_def Let_def)
qed

lemma quote_plain: "ascii s \<Longrightarrow> list_all plain_char (quote s)"
proof -
  assume "ascii s"
  then have "\<forall>c\<in>set s. list_all plain_char (quote_char c)" using quote_char_plain by (auto simp: ascii_def list_all_iff)
  moreover have "plain_char (CHR 0x22)" by code_simp
  ultimately show ?thesis by (auto simp: quote_def list_all_iff)
qed

lemma QuoteArray_plain: "list_all ascii ss \<Longrightarrow> list_all plain_char (QuoteArray ss)"
proof -
  assume a: "list_all ascii ss"
  have "list_all plain_char (join_with '', '' (map quote ss))"
    using a by (induction ss rule: induct_list012) (auto simp: quote_plain plain_char_def)
  then show ?thesis by (simp add: QuoteArray_def plain_char_def)
qed

lemma itoa_plain: "list_all plain_char (itoa i)"
  by (auto simp: itoa_def list_all_iff plain_char_def dest: nat_digits_chars)

lemma format_bool_plain: "list_all plain_char (format_bool b)"
  by (simp add: format_bool_def plain_char_def)

lemmas values_plain = quote_plain QuoteArray_plain itoa_plain format_bool_plain

definition text_plain :: "string \<Rightarrow> bool" where
  "text_plain comment \<longleftrightarrow> list_all (\<lambda>c. plain_char c \<or> c = newline) comment"

definition field_plain :: "init_field \<Rightarrow> bool" where
  "field_plain f \<longleftrightarrow> text_plain (fst (snd f)) \<and> list_all plain_char (fst f) \<and> list_all plain_char (snd (snd f))"

lemma plain_char_Char:
  "plain_char (Char b0 b1 b2 b3 b4 b5 b6 b7) \<longleftrightarrow>
     \<not> b7 \<and> (b5 \<or> b6) \<and> \<not> (b0 \<and> b1 \<and> b2 \<and> b3 \<and> b4 \<and> b5 \<and> b6)"
  by (cases b0; cases b1; cases b2; cases b3; cases b4; cases b5; cases b6; cases b7) (simp_all add: plain_char_def)

lemma newline_Char: "newline = Char False True False True False False False False"
  by (simp add: newline_def)

lemma lines_plain: "list_all (list_all plain_char) ss \<Longrightarrow> text_plain (lines ss)"
proof -
  assume "list_all (list_all plain_char) ss"
  then have "list_all (\<lambda>c. plain_char c \<or> c = newline) (join_with [newline] ss)"
    by (induction ss rule: induct_list012) (auto simp: list_all_iff)
  then show ?thesis by (simp add: text_plain_def lines_def)
qed

lemma text_plain_one: "list_all plain_char s \<Longrightarrow> text_plain s"
  by (auto simp: text_plain_def list_all_iff)

lemma initFields_plain_texts: "list_all (\<lambda>f. list_all plain_char (fst f) \<and> text_plain (fst (snd f))) (initFields d)"
  unfolding initFields_def list.pred_inject fst_conv snd_conv
  by (intro conjI TrueI; (intro lines_plain | intro text_plain_one | simp only:)?;
      simp only: list.pred_inject plain_char_Char simp_thms)

lemma initFields_plain: "conf_ascii d \<Longrightarrow> list_all field_plain (initFields d)"
proof -
  assume a: "conf_ascii d"
  have "list_all (\<lambda>f. list_all plain_char (snd (snd f))) (initFields d)"
    using a unfolding initFields_def conf_ascii_def by (simp add: values_plain)
  then show ?thesis using initFields_plain_texts [of d] by (auto simp: field_plain_def list_all_iff)
qed

lemma split_on_chars: "p \<in> set (split_on c s) \<Longrightarrow> set p \<subseteq> set s - {c}"
proof (induction c s arbitrary: p rule: split_on.induct)
  case (2 c x xs)
  then show ?case by (fastforce split: if_splits list.splits)
qed simp

lemma block_comments:
  assumes "field_ok f" and "field_plain f"
  shows "comments_only (writeBlock f)"
proof -
  have "list_all plain_char l" if "l \<in> set (split_on newline (fst (snd f)))" for l
    using that assms(2) split_on_chars [OF that] by (auto simp: field_plain_def text_plain_def list_all_iff)
  moreover have "plain_char (CHR ''#'')" "plain_char (CHR '' '')" "plain_char (CHR ''-'')" "plain_char (CHR ''='')"
    by code_simp+
  ultimately show ?thesis using assms(2)
    unfolding all_lines_block [of f doc_line, OF assms(1) doc_line_Nil] by (simp add: doc_line_def field_plain_def)
qed

text \<open>What the upgrade makes of such a text, and what an interrupted write leaves of one.\<close>

lemma upgrade_text_all_lines:
  assumes fs: "\<forall>f\<in>set fs. all_lines P (writeBlock f)" and "P []"
    and u: "upgrade_text fs data = Some (t', added, removed)" and "all_lines P data"
  shows "all_lines P t'"
proof -
  obtain kept where k: "upgrade_pass (\<lambda>k. k \<in> set (map fst fs)) (split_after data) False [] [] = (kept, removed)"
    and t: "t' = joined (concat kept) (absent fs (concat kept))"
    using upgrade_text_parts [OF u] by metis
  have sub: "subseq kept (split_after data)" using upgrade_pass_kept [OF k] by simp
  have "x \<in> set (split_after data)" if "x \<in> set kept" for x
    using list_emb_set [OF sub that] by blast
  then have "\<forall>x\<in>set kept. P (line_body x)" using all_lines_split_after [OF assms(4)] by blast
  then have "all_lines P (concat kept)"
    using all_lines_concat_lines [of kept P, OF text_lines_subseq [OF sub text_lines_split_after] assms(2)] by simp
  moreover have "all_lines P (concat (map writeBlock (absent fs (concat kept))))"
    using fs assms(2) by (auto simp: all_lines_blocks absent_def)
  ultimately show ?thesis unfolding t using joined_all_lines [of P] assms(2) by simp
qed

lemma split_on_append:
  "split_on c (t @ r) = butlast (split_on c t) @ (last (split_on c t) @ hd (split_on c r)) # tl (split_on c r)"
proof (induction t)
  case Nil
  then show ?case by simp
next
  case (Cons x t)
  obtain p ps where t: "split_on c t = p # ps" by (meson neq_Nil_conv split_on_ne)
  then show ?case using Cons by (cases ps) auto
qed

lemma split_on_prefix:
  assumes "prefix t s" and "l \<in> set (split_on c t)"
  shows "\<exists>l'\<in>set (split_on c s). prefix l l'"
proof -
  obtain r where s: "s = t @ r" using assms(1) by (rule prefixE)
  have "split_on c t = butlast (split_on c t) @ [last (split_on c t)]" by simp
  then have "l \<in> set (butlast (split_on c t)) \<or> l = last (split_on c t)"
    using assms(2) by (metis Un_iff empty_iff empty_set set_ConsD set_append)
  then show ?thesis unfolding s split_on_append by auto
qed

lemma comments_only_prefix: "prefix t s \<Longrightarrow> comments_only s \<Longrightarrow> comments_only t"
proof -
  assume p: "prefix t s" and c: "comments_only s"
  have "doc_line l" if "l \<in> set (split_on newline t)" for l
  proof -
    obtain l' where l: "l' \<in> set (split_on newline s)" "prefix l l'"
      using bexE [OF split_on_prefix [OF p \<open>l \<in> set (split_on newline t)\<close>]] by metis
    then have "doc_line l'" using c by (simp add: all_lines_def list_all_iff)
    then show ?thesis using l(2) by (cases l) (auto simp: doc_line_def prefix_def)
  qed
  then show ?thesis by (simp add: all_lines_def list_all_iff)
qed

lemma default_comments:
  assumes "conf_ascii d"
  shows "comments_only (defaultFileContents d)"
proof -
  let ?h = "''# proton-drive-fs configuration. Every key below is commented out at its default value;'' @ [newline]
     @ ''# uncomment and edit a line to override it. A command-line flag overrides this file.'' @ [newline, newline]"
  have "comments_only ?h \<and> closed_text ?h" by code_simp
  moreover have "comments_only (concat (map writeBlock (initFields d)))"
    using initFields_ok [of d] initFields_plain [OF assms] block_comments by (auto simp: all_lines_blocks list_all_iff)
  moreover have "defaultFileContents d = ?h @ concat (map writeBlock (initFields d))"
    by (simp only: defaultFileContents_def append.assoc append_Cons append_Nil)
  ultimately show ?thesis using all_lines_append [of ?h doc_line] by (simp only: doc_line_Nil simp_thms)
qed

lemma upgrade_comments:
  assumes "conf_ascii d" and "upgrade_text (initFields d) data = Some (t', added, removed)" and "comments_only data"
  shows "comments_only t'"
proof (rule upgrade_text_all_lines [OF _ _ assms(2,3)])
  show "\<forall>f\<in>set (initFields d). comments_only (writeBlock f)"
    using initFields_ok [of d] initFields_plain [OF assms(1)] block_comments by (auto simp: list_all_iff)
qed simp

text \<open>A fresh install starts from the defaults: with no file at the path, \<open>LoadOrInit\<close> returns the
  built-in configuration with no error and no key counted as set, even when the write of the first
  file or its upgrade fails or stops part way through. That a TOML document of comments and empty
  lines sets no key is the decoder's documented behaviour.
\<close>

theorem LoadOrInit_fresh:
  assumes toml: "\<And>t c. comments_only t \<Longrightarrow> tm_keys tm t = Inr [] \<and> tm_into tm t c = (c, None)"
    and "cs_file s (cs_link s path) = None" and "conf_ascii d"
    and cut: "\<And>part. cft_write fi = Cut part \<Longrightarrow> prefix part (defaultFileContents d)"
    and "\<not> cft_read fl"
  shows "fst (LoadOrInit tm fi fu fl d path s) = (d\<lparr>cf_fileKeys := []\<rparr>, None)
    \<or> fst (LoadOrInit tm fi fu fl d path s) = (d, None)"
proof -
  let ?good = "\<lambda>s1. cs_link s1 = cs_link s \<and> (\<forall>t. cs_file s1 (cs_link s path) = Some t \<longrightarrow> comments_only t)"
  have init: "?good (snd (Init fi d path False s))"
    using assms(2) default_comments [OF assms(3)] comments_only_prefix [OF cut default_comments [OF assms(3)]]
    by (auto simp: Init_def WriteFile_def split: write_outcome.splits)
  have up: "?good (snd (Upgrade fu d path s1))" if g: "?good s1" for s1
    using prod.collapse [of "Upgrade fu d path s1", symmetric]
  proof (cases rule: Upgrade_cases)
    case 1
    then show ?thesis using g by simp
  next
    case (2 data t added removed)
    have "cs_file s1 (cs_link s1 path) = Some data" using 2(1) by (simp add: ReadFile_def split: if_splits option.splits)
    then have c: "comments_only data" using g by metis
    have "comments_only t" by (rule upgrade_comments [OF assms(3) 2(2) c])
    moreover have "cs_file (snd (Upgrade fu d path s1)) (cs_link s path) = cs_file s1 (cs_link s path)
        \<or> cs_file (snd (Upgrade fu d path s1)) (cs_link s path) = Some t"
      using 2(5) g by auto
    ultimately show ?thesis using 2(3) g by (elim disjE) simp_all
  qed
  have load: "Load tm fl d path s2 = (d\<lparr>cf_fileKeys := []\<rparr>, None) \<or> Load tm fl d path s2 = (d, None)" if "?good s2" for s2
    using that toml assms(5) by (cases "cs_file s2 (cs_link s path)") (auto simp: Load_def ReadFile_def)
  show ?thesis
    using load [OF up [OF init]] load [of s] assms(2) by (auto simp: LoadOrInit_def Let_def)
qed

definition demo_toml :: toml where
  "demo_toml = \<lparr>tm_keys = (\<lambda>t. if comments_only t then Inr [] else Inl None), tm_into = (\<lambda>t c. (c, None))\<rparr>"

theorem LoadOrInit_fresh_witness:
  "let r = fst (LoadOrInit demo_toml no_config_faults no_config_faults no_config_faults (Defaults None) ''/c'' (demo_fs\<lparr>cs_file := Map.empty\<rparr>))
   in r = ((Defaults None)\<lparr>cf_fileKeys := []\<rparr>, None) \<or> r = (Defaults None, None)"
proof -
  have a: "conf_ascii (Defaults None)" by code_simp
  show ?thesis
    unfolding Let_def
    by (rule LoadOrInit_fresh) (simp_all add: demo_toml_def no_config_faults_def a)
qed

end
