(* ===== verification/Cmd_Flags.thy ===== *)
theory Cmd_Flags
  imports Config_Load
begin

text \<open>
  Command-line flags: the flag package's parser over typed flags, the flags the subcommands register
  (cmd/proton-drive-fs/config.go), and \<open>ApplyFlags\<close>, which overlays the flags that were set on the
  configuration (internal/config/flags.go). The scanners of integers, durations and decimal
  fractions are parameters.
\<close>

section \<open>Values of flags\<close>

datatype fval = VString string | VBool bool | VInt int | VDuration nanos

text \<open>What a flag was registered as. A size is a string whose \<open>Set\<close> checks it.\<close>

datatype flag_ty = TString | TBool | TInt | TDuration | TSize

fun has_ty :: "fval \<Rightarrow> flag_ty \<Rightarrow> bool" where
  "has_ty (VString _) t \<longleftrightarrow> t = TString \<or> t = TSize"
| "has_ty (VBool _) t \<longleftrightarrow> t = TBool"
| "has_ty (VInt _) t \<longleftrightarrow> t = TInt"
| "has_ty (VDuration _) t \<longleftrightarrow> t = TDuration"

text \<open>
  The scanners: \<open>strconv.ParseInt(s, 0, 64)\<close>, \<open>time.ParseDuration\<close>, and
  \<open>int64(strconv.ParseFloat(s) * mult)\<close>.
\<close>

record scanners =
  sc_int :: "string \<Rightarrow> int option"
  sc_duration :: "string \<Rightarrow> nanos option"
  sc_scaled :: "string \<Rightarrow> int \<Rightarrow> int option"

definition ParseBool :: "string \<Rightarrow> bool option" where
  "ParseBool s =
     (if s \<in> {''1'', ''t'', ''T'', ''TRUE'', ''true'', ''True''} then Some True
      else if s \<in> {''0'', ''f'', ''F'', ''FALSE'', ''false'', ''False''} then Some False
      else None)"

section \<open>Durations as strings\<close>

text \<open>The \<open>k\<close> low digits of a number, and a fraction without its trailing zeros.\<close>

fun low_digits :: "nat \<Rightarrow> nat \<Rightarrow> nat list" where
  "low_digits 0 n = []"
| "low_digits (Suc k) n = low_digits k (n div 10) @ [n mod 10]"

definition fmt_frac :: "nat \<Rightarrow> nat \<Rightarrow> string" where
  "fmt_frac k n =
     (let ds = rev (dropWhile (\<lambda>d. d = 0) (rev (low_digits k n)))
      in if ds = [] then [] else CHR ''.'' # map (\<lambda>d. char_of (48 + d)) ds)"

text \<open>\<open>Duration.String\<close>; the micro sign is two bytes.\<close>

definition duration_magnitude :: "nat \<Rightarrow> string" where
  "duration_magnitude u =
     (if u = 0 then ''0s''
      else if u < 1000 then nat_digits u @ ''ns''
      else if u < 1000000 then nat_digits (u div 1000) @ fmt_frac 3 u @ [CHR 0xC2, CHR 0xB5, CHR ''s'']
      else if u < 1000000000 then nat_digits (u div 1000000) @ fmt_frac 6 u @ ''ms''
      else (let secs = u div 1000000000; mins = secs div 60; hours = mins div 60;
                s = nat_digits (secs mod 60) @ fmt_frac 9 u @ ''s'';
                m = (if mins = 0 then [] else nat_digits (mins mod 60) @ ''m'');
                h = (if hours = 0 then [] else nat_digits hours @ ''h'')
            in h @ m @ s))"

definition duration_string :: "nanos \<Rightarrow> string" where
  "duration_string d = (if d < 0 then CHR ''-'' # duration_magnitude (nat (- d)) else duration_magnitude (nat d))"

section \<open>Sizes\<close>

definition size_units :: "(string \<times> int) list" where
  "size_units = [(''KiB'', 1024), (''MiB'', 1048576), (''GiB'', 1073741824), (''K'', 1024), (''M'', 1048576), (''G'', 1073741824)]"

definition trim_suffix :: "string \<Rightarrow> string \<Rightarrow> string" where
  "trim_suffix s suf = (if suffix suf s then take (length s - length suf) s else s)"

definition parseCacheSize :: "scanners \<Rightarrow> string \<Rightarrow> int option" where
  "parseCacheSize sc s0 =
     (let s = trim_space s0
      in if s = [] then None
         else (case List.find (\<lambda>u. suffix (fst u) s) size_units of
                 Some (suf, mult) \<Rightarrow> sc_scaled sc (trim_suffix s suf) mult
               | None \<Rightarrow> atoi s))"

datatype log_level = Debug | Info | Warn | Error

definition parseLogLevel :: "string \<Rightarrow> log_level option" where
  "parseLogLevel s =
     (let l = to_lower (trim_space s)
      in if l = ''debug'' then Some Debug else if l = ''info'' then Some Info
         else if l = ''warn'' \<or> l = ''warning'' then Some Warn
         else if l = ''error'' then Some Error else None)"

section \<open>The flag package\<close>

text \<open>A flag set: each flag with its type and default, and the values set so far, latest first.\<close>

type_synonym flag_set = "(string \<times> flag_ty \<times> fval) list"

datatype flag_error = BadSyntax string | NotDefined string | HelpRequested | NeedsArg string
  | BadValue string string

definition flag_Set :: "scanners \<Rightarrow> flag_ty \<Rightarrow> string \<Rightarrow> fval option" where
  "flag_Set sc ty s =
     (case ty of
        TString \<Rightarrow> Some (VString s)
      | TBool \<Rightarrow> map_option VBool (ParseBool s)
      | TInt \<Rightarrow> map_option VInt (sc_int sc s)
      | TDuration \<Rightarrow> map_option VDuration (sc_duration sc s)
      | TSize \<Rightarrow> (if parseCacheSize sc s = None then None else Some (VString s)))"

text \<open>An argument as a flag: \<open>None\<close> when it ends the flags, else its name and value part.\<close>

datatype flag_part = NotFlag | Terminator | BadWord | FlagWord string "string option"

definition flag_word :: "string \<Rightarrow> flag_part" where
  "flag_word s =
     (if length s < 2 \<or> hd s \<noteq> CHR ''-'' then NotFlag
      else if s = ''--'' then Terminator
      else (let name = (if s ! 1 = CHR ''-'' then drop 2 s else drop 1 s)
            in if name = [] \<or> hd name = CHR ''-'' \<or> hd name = CHR ''='' then BadWord
               else (case cut_at (CHR ''='') name of
                       Some (n, v) \<Rightarrow> FlagWord n (Some v)
                     | None \<Rightarrow> FlagWord name None)))"

fun parse_flags :: "scanners \<Rightarrow> flag_set \<Rightarrow> string list \<Rightarrow> (string \<times> fval) list
    \<Rightarrow> flag_error + (string \<times> fval) list \<times> string list" where
  "parse_flags sc fs [] actual = Inr (actual, [])"
| "parse_flags sc fs (s # args) actual =
     (case flag_word s of
        NotFlag \<Rightarrow> Inr (actual, s # args)
      | Terminator \<Rightarrow> Inr (actual, args)
      | BadWord \<Rightarrow> Inl (BadSyntax s)
      | FlagWord name val \<Rightarrow>
          (case map_of fs name of
             None \<Rightarrow> Inl (if name = ''help'' \<or> name = ''h'' then HelpRequested else NotDefined name)
           | Some (ty, dflt) \<Rightarrow>
               if ty = TBool \<and> val = None then parse_flags sc fs args ((name, VBool True) # actual)
               else (case val of
                       Some v \<Rightarrow>
                         (case flag_Set sc ty v of
                            None \<Rightarrow> Inl (BadValue v name)
                          | Some x \<Rightarrow> parse_flags sc fs args ((name, x) # actual))
                     | None \<Rightarrow>
                         (case args of
                            [] \<Rightarrow> Inl (NeedsArg name)
                          | v # rest \<Rightarrow>
                              (case flag_Set sc ty v of
                                 None \<Rightarrow> Inl (BadValue v name)
                               | Some x \<Rightarrow> parse_flags sc fs rest ((name, x) # actual))))))"

text \<open>\<open>FlagSet.Visit\<close>: the flags that were set, in the order of their names, with their last value.\<close>

fun str_le :: "string \<Rightarrow> string \<Rightarrow> bool" where
  "str_le [] t \<longleftrightarrow> True"
| "str_le (a # s) [] \<longleftrightarrow> False"
| "str_le (a # s) (b # t) \<longleftrightarrow> (of_char a :: nat) < of_char b \<or> a = b \<and> str_le s t"

fun insert_name :: "string \<Rightarrow> string list \<Rightarrow> string list" where
  "insert_name x [] = [x]"
| "insert_name x (y # ys) = (if str_le x y then x # y # ys else y # insert_name x ys)"

definition Visit :: "(string \<times> fval) list \<Rightarrow> (string \<times> fval) list" where
  "Visit actual = map (\<lambda>n. (n, the (map_of actual n))) (foldr insert_name (remdups (map fst actual)) [])"

text \<open>A flag's value: what it was set to, else its default.\<close>

definition flag_value :: "flag_set \<Rightarrow> (string \<times> fval) list \<Rightarrow> string \<Rightarrow> fval option" where
  "flag_value fs actual n =
     (case map_of actual n of Some v \<Rightarrow> Some v | None \<Rightarrow> map_option snd (map_of fs n))"

section \<open>ApplyFlags\<close>

definition SplitComma :: "string \<Rightarrow> string list" where
  "SplitComma s = filter (\<lambda>p. p \<noteq> []) (map trim_space (split_on (CHR '','') s))"

text \<open>A type assertion: \<open>None\<close> is the panic of the wrong type.\<close>

fun as_string :: "fval \<Rightarrow> string option" where
  "as_string (VString s) = Some s" | "as_string _ = None"

fun as_bool :: "fval \<Rightarrow> bool option" where
  "as_bool (VBool b) = Some b" | "as_bool _ = None"

fun as_int :: "fval \<Rightarrow> int option" where
  "as_int (VInt i) = Some i" | "as_int _ = None"

fun as_duration :: "fval \<Rightarrow> nanos option" where
  "as_duration (VDuration d) = Some d" | "as_duration _ = None"

definition config_fields :: "(string \<times> string \<times> (fval \<Rightarrow> conf \<Rightarrow> conf option)) list" where
  "config_fields = [
     (''mountpoint'', ''mountpoint'', \<lambda>v c. map_option (\<lambda>x. c\<lparr>cf_mountpoint := x\<rparr>) (as_string v)),
     (''ttl'', ''ttl'', \<lambda>v c. map_option (\<lambda>x. c\<lparr>cf_ttl := duration_string x\<rparr>) (as_duration v)),
     (''poll'', ''poll'', \<lambda>v c. map_option (\<lambda>x. c\<lparr>cf_poll := duration_string x\<rparr>) (as_duration v)),
     (''op-timeout'', ''op_timeout'', \<lambda>v c. map_option (\<lambda>x. c\<lparr>cf_opTimeout := duration_string x\<rparr>) (as_duration v)),
     (''cache-dir'', ''cache_dir'', \<lambda>v c. map_option (\<lambda>x. c\<lparr>cf_cacheDir := x\<rparr>) (as_string v)),
     (''cache-size'', ''cache_size'', \<lambda>v c. map_option (\<lambda>x. c\<lparr>cf_cacheSize := x\<rparr>) (as_string v)),
     (''large-file'', ''large_file'', \<lambda>v c. map_option (\<lambda>x. c\<lparr>cf_largeFile := x\<rparr>) (as_string v)),
     (''thumbnails'', ''thumbnails'', \<lambda>v c. map_option (\<lambda>x. c\<lparr>cf_thumbnails := x\<rparr>) (as_bool v)),
     (''thumbnail-dir'', ''thumbnail_dir'', \<lambda>v c. map_option (\<lambda>x. c\<lparr>cf_thumbnailDir := x\<rparr>) (as_string v)),
     (''deny-readers'', ''deny_readers'', \<lambda>v c. map_option (\<lambda>x. c\<lparr>cf_denyReaders := SplitComma x\<rparr>) (as_string v)),
     (''max-uploads'', ''max_uploads'', \<lambda>v c. map_option (\<lambda>x. c\<lparr>cf_maxUploads := x\<rparr>) (as_int v)),
     (''max-downloads'', ''max_downloads'', \<lambda>v c. map_option (\<lambda>x. c\<lparr>cf_maxDownloads := x\<rparr>) (as_int v)),
     (''foreground'', ''foreground'', \<lambda>v c. map_option (\<lambda>x. c\<lparr>cf_foreground := x\<rparr>) (as_bool v)),
     (''log-level'', ''log_level'', \<lambda>v c. map_option (\<lambda>x. c\<lparr>cf_logLevel := x\<rparr>) (as_string v)),
     (''log-stderr'', ''log_stderr'', \<lambda>v c. map_option (\<lambda>x. c\<lparr>cf_logStderr := x\<rparr>) (as_bool v)),
     (''exclude'', ''exclude'', \<lambda>v c. map_option (\<lambda>x. c\<lparr>cf_exclude := SplitComma x\<rparr>) (as_string v)),
     (''upload-delay'', ''upload_delay'', \<lambda>v c. map_option (\<lambda>x. c\<lparr>cf_uploadDelay := duration_string x\<rparr>) (as_duration v)),
     (''upload-delays'', ''upload_delays'', \<lambda>v c. map_option (\<lambda>x. c\<lparr>cf_uploadDelays := SplitComma x\<rparr>) (as_string v)),
     (''hv-method'', ''hv_method'', \<lambda>v c. map_option (\<lambda>x. c\<lparr>cf_hvMethod := x\<rparr>) (as_string v)),
     (''no-browser'', ''no_browser'', \<lambda>v c. map_option (\<lambda>x. c\<lparr>cf_noBrowser := x\<rparr>) (as_bool v))]"

text \<open>Every flag that was set, in order; a value that is no getter is skipped (every one here is one).\<close>

fun ApplyFlags :: "(string \<times> fval option) list \<Rightarrow> conf \<Rightarrow> (conf \<times> string list) option" where
  "ApplyFlags [] cfg = Some (cfg, [])"
| "ApplyFlags ((name, getter) # fs) cfg =
     (case (map_of config_fields name, getter) of
        (Some (key, setf), Some v) \<Rightarrow>
          (case setf v cfg of
             None \<Rightarrow> None
           | Some cfg' \<Rightarrow> map_option (\<lambda>(c, ks). (c, key # ks)) (ApplyFlags fs cfg'))
      | _ \<Rightarrow> ApplyFlags fs cfg)"

section \<open>The flags of the subcommands\<close>

datatype register_error = BadDefault string

definition registerMountConfigFlags :: "scanners \<Rightarrow> conf \<Rightarrow> register_error + flag_set" where
  "registerMountConfigFlags sc cfg =
     (case sc_duration sc (cf_ttl cfg) of None \<Rightarrow> Inl (BadDefault ''ttl'') | Some ttl \<Rightarrow>
      case sc_duration sc (cf_poll cfg) of None \<Rightarrow> Inl (BadDefault ''poll'') | Some poll \<Rightarrow>
      case sc_duration sc (cf_opTimeout cfg) of None \<Rightarrow> Inl (BadDefault ''op_timeout'') | Some opTimeout \<Rightarrow>
      case sc_duration sc (cf_uploadDelay cfg) of None \<Rightarrow> Inl (BadDefault ''upload_delay'') | Some uploadDelay \<Rightarrow>
      if parseCacheSize sc (cf_cacheSize cfg) = None then Inl (BadDefault ''cache_size'')
      else if parseCacheSize sc (cf_largeFile cfg) = None then Inl (BadDefault ''large_file'')
      else Inr [(''cache-size'', TSize, VString (cf_cacheSize cfg)),
        (''large-file'', TSize, VString (cf_largeFile cfg)),
        (''ttl'', TDuration, VDuration ttl), (''poll'', TDuration, VDuration poll),
        (''op-timeout'', TDuration, VDuration opTimeout),
        (''cache-dir'', TString, VString (cf_cacheDir cfg)),
        (''thumbnails'', TBool, VBool (cf_thumbnails cfg)),
        (''thumbnail-dir'', TString, VString (cf_thumbnailDir cfg)),
        (''deny-readers'', TString, VString (join_with '','' (cf_denyReaders cfg))),
        (''exclude'', TString, VString (join_with '','' (cf_exclude cfg))),
        (''upload-delay'', TDuration, VDuration uploadDelay),
        (''upload-delays'', TString, VString (join_with '','' (cf_uploadDelays cfg))),
        (''max-uploads'', TInt, VInt (cf_maxUploads cfg)), (''max-downloads'', TInt, VInt (cf_maxDownloads cfg)),
        (''foreground'', TBool, VBool (cf_foreground cfg)), (''log-level'', TString, VString (cf_logLevel cfg)),
        (''log-stderr'', TBool, VBool (cf_logStderr cfg))])"

definition registerLoginConfigFlags :: "conf \<Rightarrow> flag_set" where
  "registerLoginConfigFlags cfg =
     [(''no-browser'', TBool, VBool (cf_noBrowser cfg)), (''hv-method'', TString, VString (cf_hvMethod cfg))]"

definition mountFlags :: "scanners \<Rightarrow> string \<Rightarrow> conf \<Rightarrow> register_error + flag_set" where
  "mountFlags sc configPath cfg =
     and_then (registerMountConfigFlags sc cfg) (\<lambda>fs. Inr ([(''config'', TString, VString configPath),
        (''debug'', TBool, VBool False), (''no-tray'', TBool, VBool False)] @ fs))"

definition loginFlags :: "string \<Rightarrow> conf \<Rightarrow> flag_set" where
  "loginFlags configPath cfg = (''config'', TString, VString configPath) # registerLoginConfigFlags cfg"

definition showFlags :: "scanners \<Rightarrow> string \<Rightarrow> conf \<Rightarrow> register_error + flag_set" where
  "showFlags sc configPath cfg =
     and_then (registerMountConfigFlags sc cfg) (\<lambda>fs. Inr ([(''config'', TString, VString configPath),
        (''mountpoint'', TString, VString (cf_mountpoint cfg))] @ fs @ registerLoginConfigFlags cfg))"

definition trayFlags :: "string \<Rightarrow> conf \<Rightarrow> flag_set" where
  "trayFlags configPath cfg =
     [(''config'', TString, VString configPath), (''mountpoint'', TString, VString (cf_mountpoint cfg))]"

section \<open>Typing\<close>

text \<open>The type each configuration flag is registered with, wherever it is registered.\<close>

definition field_tys :: "(string \<times> flag_ty) list" where
  "field_tys = [(''mountpoint'', TString), (''ttl'', TDuration), (''poll'', TDuration), (''op-timeout'', TDuration),
     (''cache-dir'', TString), (''cache-size'', TSize), (''large-file'', TSize), (''thumbnails'', TBool),
     (''thumbnail-dir'', TString), (''deny-readers'', TString), (''max-uploads'', TInt), (''max-downloads'', TInt),
     (''foreground'', TBool), (''log-level'', TString), (''log-stderr'', TBool), (''exclude'', TString),
     (''upload-delay'', TDuration), (''upload-delays'', TString), (''hv-method'', TString), (''no-browser'', TBool)]"

definition well_registered :: "flag_set \<Rightarrow> bool" where
  "well_registered fs \<longleftrightarrow> list_all (\<lambda>(n, ty, d). has_ty d ty \<and> (map_of field_tys n = None \<or> map_of field_tys n = Some ty)) fs"

definition well_typed :: "flag_set \<Rightarrow> (string \<times> fval) list \<Rightarrow> bool" where
  "well_typed fs actual \<longleftrightarrow> list_all (\<lambda>(n, v). case map_of fs n of None \<Rightarrow> False | Some (ty, d) \<Rightarrow> has_ty v ty) actual"

lemma flag_Set_ty: "flag_Set sc ty s = Some v \<Longrightarrow> has_ty v ty"
  by (auto simp: flag_Set_def split: flag_ty.splits if_splits)

lemma parse_flags_typed:
  "parse_flags sc fs args actual = Inr (actual', rest) \<Longrightarrow> well_typed fs actual \<Longrightarrow> well_typed fs actual'"
proof (induction sc fs args actual rule: parse_flags.induct)
  case (2 sc fs s args actual)
  show ?case
  proof (cases "flag_word s")
    case (FlagWord name val)
    obtain ty dflt where m: "map_of fs name = Some (ty, dflt)" using "2.prems"(1) FlagWord by (cases "map_of fs name") auto
    have step: "well_typed fs ((name, x) # actual)" if "has_ty x ty" for x
      using "2.prems"(2) m that by (simp add: well_typed_def)
    show ?thesis
    proof (cases val)
      case None
      then show ?thesis using 2 FlagWord m step flag_Set_ty
        by (auto split: if_splits option.splits list.splits)
    next
      case (Some v)
      then show ?thesis using 2 FlagWord m step flag_Set_ty
        by (auto split: option.splits)
    qed
  qed (use 2 in auto)
qed simp

lemma map_of_well_typed:
  "well_typed fs actual \<Longrightarrow> (n, v) \<in> set actual \<Longrightarrow> \<exists>ty d. map_of fs n = Some (ty, d) \<and> has_ty v ty"
  by (auto simp: well_typed_def list_all_iff split: option.splits)

lemma registered_ty:
  assumes "well_registered fs" and "map_of fs n = Some (ty, d)" and "map_of field_tys n = Some t"
  shows "ty = t"
  using assms(1,3) map_of_SomeD [OF assms(2)] by (auto simp: well_registered_def list_all_iff)

lemma config_fields_keys: "map fst config_fields = map fst field_tys"
  by (simp add: config_fields_def field_tys_def)

text \<open>A setter takes every value of its flag's type.\<close>

lemma has_ty_cases:
  "has_ty v TString \<Longrightarrow> \<exists>s. v = VString s" "has_ty v TSize \<Longrightarrow> \<exists>s. v = VString s"
  "has_ty v TBool \<Longrightarrow> \<exists>b. v = VBool b" "has_ty v TInt \<Longrightarrow> \<exists>i. v = VInt i"
  "has_ty v TDuration \<Longrightarrow> \<exists>d. v = VDuration d"
  by (cases v; simp)+

lemma setter_total_all:
  "list_all (\<lambda>(n, key, setf). \<forall>v c. has_ty v (the (map_of field_tys n)) \<longrightarrow> setf v c \<noteq> None) config_fields"
  unfolding config_fields_def list.pred_inject case_prod_conv
  by (intro conjI TrueI allI impI; simp add: field_tys_def; drule has_ty_cases; elim exE; simp)

lemma setter_total:
  assumes "map_of config_fields n = Some (key, setf)" and "map_of field_tys n = Some ty" and "has_ty v ty"
  shows "\<exists>c'. setf v c = Some c'"
proof -
  have "(n, key, setf) \<in> set config_fields" by (rule map_of_SomeD [OF assms(1)])
  then have "has_ty v (the (map_of field_tys n)) \<longrightarrow> setf v c \<noteq> None"
    using setter_total_all by (auto simp: list_all_iff)
  then show ?thesis using assms(2,3) by simp
qed

lemma ApplyFlags_total:
  assumes "well_registered fs" and "\<forall>(n, g)\<in>set vs. \<forall>v. g = Some v \<longrightarrow> (\<exists>ty d. map_of fs n = Some (ty, d) \<and> has_ty v ty)"
  shows "\<exists>r. ApplyFlags vs cfg = Some r"
  using assms(2)
proof (induction vs arbitrary: cfg)
  case (Cons p vs)
  obtain n g where p: "p = (n, g)" by (cases p)
  show ?case
  proof (cases "\<exists>key setf v. map_of config_fields n = Some (key, setf) \<and> g = Some v")
    case True
    then obtain key setf v where s: "map_of config_fields n = Some (key, setf)" "g = Some v" by blast
    have "n \<in> set (map fst field_tys)" using s(1) config_fields_keys by (metis map_of_eq_None_iff option.distinct(1) set_map)
    then obtain t where t: "map_of field_tys n = Some t" by (metis map_of_eq_None_iff not_None_eq set_map)
    obtain ty d where v: "map_of fs n = Some (ty, d)" "has_ty v ty" using Cons.prems p s(2) by auto
    then have "has_ty v t" using registered_ty [OF assms(1) v(1) t] by simp
    then obtain c' where "setf v cfg = Some c'" using setter_total [OF s(1) t] by blast
    then show ?thesis using Cons p s by (auto split: option.splits)
  next
    case False
    then have "ApplyFlags (p # vs) cfg = ApplyFlags vs cfg" using p by (auto split: option.splits prod.splits)
    then show ?thesis using Cons by auto
  qed
qed simp

lemma and_then_registered:
  "registerMountConfigFlags sc cfg = Inr fs \<Longrightarrow> well_registered fs"
  by (auto simp: registerMountConfigFlags_def well_registered_def field_tys_def split: option.splits if_splits)

lemma well_registered_append: "well_registered (a @ b) \<longleftrightarrow> well_registered a \<and> well_registered b"
  by (simp add: well_registered_def)

lemma registered_sets:
  "mountFlags sc p cfg = Inr fs \<Longrightarrow> well_registered fs"
  "showFlags sc p cfg = Inr fs \<Longrightarrow> well_registered fs"
  "well_registered (loginFlags p cfg)" "well_registered (trayFlags p cfg)"
  by (auto simp: mountFlags_def showFlags_def and_then_Inr well_registered_append dest!: and_then_registered)
    (simp_all add: well_registered_def loginFlags_def trayFlags_def registerLoginConfigFlags_def field_tys_def)

lemma set_insert_name [simp]: "set (insert_name x ys) = insert x (set ys)"
  by (induction ys) auto

lemma distinct_insert_name: "distinct ys \<Longrightarrow> x \<notin> set ys \<Longrightarrow> distinct (insert_name x ys)"
  by (induction ys) auto

lemma set_sorted_names: "set (foldr insert_name ns []) = set ns"
  by (induction ns) auto

lemma distinct_sorted_names: "distinct ns \<Longrightarrow> distinct (foldr insert_name ns [])"
  by (induction ns) (auto simp: set_sorted_names intro: distinct_insert_name)

lemma Visit_names: "set (map fst (Visit actual)) = set (map fst actual)" "distinct (map fst (Visit actual))"
proof -
  have m: "map fst (Visit actual) = foldr insert_name (remdups (map fst actual)) []"
    by (simp add: Visit_def comp_def)
  show "set (map fst (Visit actual)) = set (map fst actual)" "distinct (map fst (Visit actual))"
    unfolding m by (simp_all only: set_sorted_names set_remdups distinct_sorted_names distinct_remdups)
qed

lemma Visit_values: "(n, v) \<in> set (Visit actual) \<Longrightarrow> map_of actual n = Some v"
proof -
  assume a: "(n, v) \<in> set (Visit actual)"
  then have "v = the (map_of actual n)" by (auto simp: Visit_def)
  moreover have "n \<in> set (map fst actual)" using a Visit_names(1) [of actual] by force
  ultimately show ?thesis by (metis map_of_eq_None_iff option.exhaust_sel set_map)
qed

end
