(* ===== verification/Cmd_Config.thy ===== *)
theory Cmd_Config
  imports Cmd_Flags
begin

text \<open>
  The \<open>config\<close> subcommands and the choice of mountpoint and configuration file
  (cmd/proton-drive-fs/config.go): what \<open>config show\<close> prints, with the source of every value, and
  the precedence of defaults, file and flags.
\<close>

section \<open>Mountpoint and configuration path\<close>

definition resolveMountpoint :: "string \<Rightarrow> conf \<Rightarrow> string option" where
  "resolveMountpoint arg cfg =
     (if arg \<noteq> [] then Some arg else if cf_mountpoint cfg \<noteq> [] then Some (cf_mountpoint cfg) else None)"

definition noMountpointError :: "string \<Rightarrow> string" where
  "noMountpointError configPath =
     ''error: no mountpoint given; pass one as an argument or set mountpoint in '' @ configPath"

fun resolveConfigPath :: "string \<Rightarrow> string list \<Rightarrow> string" where
  "resolveConfigPath dflt [] = dflt"
| "resolveConfigPath dflt (a # as) =
     (if (a = ''-config'' \<or> a = ''--config'') \<and> as \<noteq> [] then hd as
      else if prefix ''-config='' a then drop 8 a
      else if prefix ''--config='' a then drop 9 a
      else resolveConfigPath dflt as)"

section \<open>What \<open>config show\<close> prints\<close>

definition printed_keys :: "(string \<times> (conf \<Rightarrow> string)) list" where
  "printed_keys = [
     (''mountpoint'', \<lambda>c. quote (cf_mountpoint c)), (''ttl'', \<lambda>c. quote (cf_ttl c)), (''poll'', \<lambda>c. quote (cf_poll c)),
     (''op_timeout'', \<lambda>c. quote (cf_opTimeout c)), (''cache_dir'', \<lambda>c. quote (cf_cacheDir c)),
     (''cache_size'', \<lambda>c. quote (cf_cacheSize c)), (''large_file'', \<lambda>c. quote (cf_largeFile c)),
     (''thumbnails'', \<lambda>c. format_bool (cf_thumbnails c)), (''thumbnail_dir'', \<lambda>c. quote (cf_thumbnailDir c)),
     (''deny_readers'', \<lambda>c. QuoteArray (cf_denyReaders c)), (''exclude'', \<lambda>c. QuoteArray (cf_exclude c)),
     (''upload_delay'', \<lambda>c. quote (cf_uploadDelay c)), (''upload_delays'', \<lambda>c. QuoteArray (cf_uploadDelays c)),
     (''max_uploads'', \<lambda>c. itoa (cf_maxUploads c)), (''max_downloads'', \<lambda>c. itoa (cf_maxDownloads c)),
     (''log_level'', \<lambda>c. quote (cf_logLevel c)), (''log_stderr'', \<lambda>c. format_bool (cf_logStderr c)),
     (''foreground'', \<lambda>c. format_bool (cf_foreground c)), (''hv_method'', \<lambda>c. quote (cf_hvMethod c)),
     (''no_browser'', \<lambda>c. format_bool (cf_noBrowser c))]"

definition config_lines :: "conf \<Rightarrow> (string \<times> string) list" where
  "config_lines c = map (\<lambda>(key, f). (key, f c)) printed_keys"

definition value_source :: "string list \<Rightarrow> string list \<Rightarrow> string \<Rightarrow> string" where
  "value_source explicit fileKeys key =
     (if key \<in> set explicit then ''flag'' else if key \<in> set fileKeys then ''file'' else ''default'')"

definition printConfig :: "conf \<Rightarrow> string list \<Rightarrow> string list" where
  "printConfig cfg explicit =
     map (\<lambda>(key, v). key @ '' = '' @ v @ '' # '' @ value_source explicit (FileKeys cfg) key) (config_lines cfg)"

text \<open>The flags that were set, as \<open>Visit\<close> hands them to \<open>ApplyFlags\<close>.\<close>

definition visited :: "(string \<times> fval) list \<Rightarrow> (string \<times> fval option) list" where
  "visited actual = map (\<lambda>(n, v). (n, Some v)) (Visit actual)"

text \<open>A command: its exit status and output, or \<open>None\<close> for a panic, and the files after it.\<close>

definition runConfigShow :: "toml \<Rightarrow> config_faults \<Rightarrow> config_faults \<Rightarrow> config_faults \<Rightarrow> scanners \<Rightarrow> string \<Rightarrow> conf
    \<Rightarrow> string list \<Rightarrow> config_fs \<Rightarrow> (int \<times> string list) option \<times> config_fs" where
  "runConfigShow tm fi fu fl sc dflt d args s =
     (let path = resolveConfigPath dflt args
      in case LoadOrInit tm fi fu fl d path s of
           ((cfg, Some e), s1) \<Rightarrow> (Some (1, []), s1)
         | ((cfg, None), s1) \<Rightarrow>
             (case showFlags sc path cfg of
                Inl e \<Rightarrow> (Some (2, []), s1)
              | Inr fs \<Rightarrow>
                  (case parse_flags sc fs args [] of
                     Inl e \<Rightarrow> (Some (2, []), s1)
                   | Inr (actual, rest) \<Rightarrow>
                       (case ApplyFlags (visited actual) cfg of
                          None \<Rightarrow> (None, s1)
                        | Some (cfg', explicit) \<Rightarrow> (Some (0, printConfig cfg' explicit), s1)))))"

definition initFlags :: flag_set where
  "initFlags = [(''config'', TString, VString []), (''force'', TBool, VBool False)]"

definition runConfigInit :: "config_faults \<Rightarrow> scanners \<Rightarrow> string \<Rightarrow> conf \<Rightarrow> string list \<Rightarrow> config_fs
    \<Rightarrow> (int \<times> string list) \<times> config_fs" where
  "runConfigInit fi sc dflt d args s =
     (case parse_flags sc initFlags args [] of
        Inl e \<Rightarrow> ((2, []), s)
      | Inr (actual, rest) \<Rightarrow>
          (let p0 = the (as_string (the (flag_value initFlags actual ''config'')));
               path = (if p0 = [] then dflt else p0);
               force = the (as_bool (the (flag_value initFlags actual ''force'')))
           in case Init fi d path force s of
                (Inl e, s1) \<Rightarrow> ((1, []), s1)
              | (Inr _, s1) \<Rightarrow> ((0, [''wrote '' @ path]), s1)))"

definition config_usage :: string where
  "config_usage = ''usage: proton-drive-fs config <init|show> [args]''"

definition runConfigCmd :: "toml \<Rightarrow> config_faults \<Rightarrow> config_faults \<Rightarrow> config_faults \<Rightarrow> scanners \<Rightarrow> string \<Rightarrow> conf
    \<Rightarrow> string list \<Rightarrow> config_fs \<Rightarrow> (int \<times> string list) option \<times> config_fs" where
  "runConfigCmd tm fi fu fl sc dflt d args s =
     (case args of
        [] \<Rightarrow> (Some (2, [config_usage]), s)
      | a # as \<Rightarrow>
          if a = ''init'' then (case runConfigInit fi sc dflt d as s of (r, s1) \<Rightarrow> (Some r, s1))
          else if a = ''show'' then runConfigShow tm fi fu fl sc dflt d as s
          else (Some (2, [config_usage]), s))"

section \<open>Precedence\<close>

definition config_value :: "conf \<Rightarrow> string \<Rightarrow> string option" where
  "config_value c key = map_of (config_lines c) key"

text \<open>A setter changes the value of its own key only, to one that depends on the flag alone.\<close>

lemma option_map_Some_elim: "map_option f x = Some y \<Longrightarrow> (\<And>a. x = Some a \<Longrightarrow> y = f a \<Longrightarrow> P) \<Longrightarrow> P"
  by (cases x) auto

lemma config_value_proj: "config_value c k = map_option (\<lambda>f. f c) (map_of printed_keys k)"
proof -
  have "map_of (map (\<lambda>(key, f). (key, f c)) ps) k = map_option (\<lambda>f. f c) (map_of ps k)" for ps :: "(string \<times> (conf \<Rightarrow> string)) list"
    by (induction ps) auto
  then show ?thesis by (simp add: config_value_def config_lines_def)
qed

lemma setter_keys_all:
  "list_all (\<lambda>(n, key, setf). \<forall>v c c'. setf v c = Some c' \<longrightarrow>
     list_all (\<lambda>(k, f). k \<noteq> key \<longrightarrow> f c' = f c) printed_keys) config_fields"
  unfolding config_fields_def list.pred_inject case_prod_conv
  by (intro conjI TrueI allI impI; (elim option_map_Some_elim)?; simp add: printed_keys_def)

lemma setter_own_all:
  "list_all (\<lambda>(n, key, setf). \<forall>v c c' d. setf v c = Some c' \<longrightarrow>
     (\<exists>d'. setf v d = Some d' \<and> list_all (\<lambda>(k, f). k = key \<longrightarrow> f d' = f c') printed_keys)) config_fields"
  unfolding config_fields_def list.pred_inject case_prod_conv
  by (intro conjI TrueI allI impI; (elim option_map_Some_elim)?; simp add: printed_keys_def)

lemma setter_frame:
  assumes "map_of config_fields n = Some (key, setf)" and "setf v c = Some c'" and "k \<noteq> key"
  shows "config_value c' k = config_value c k"
proof -
  have "list_all (\<lambda>(k, f). k \<noteq> key \<longrightarrow> f c' = f c) printed_keys"
    using setter_keys_all map_of_SomeD [OF assms(1)] assms(2) by (fastforce simp: list_all_iff)
  then show ?thesis using assms(3)
    by (cases "map_of printed_keys k") (auto simp: config_value_proj list_all_iff dest: map_of_SomeD)
qed

lemma setter_own:
  assumes "map_of config_fields n = Some (key, setf)" and "setf v c = Some c'"
  shows "\<exists>d'. setf v d = Some d' \<and> config_value d' key = config_value c' key"
proof -
  have "\<forall>v c c' d. setf v c = Some c' \<longrightarrow>
     (\<exists>d'. setf v d = Some d' \<and> list_all (\<lambda>(k, f). k = key \<longrightarrow> f d' = f c') printed_keys)"
    using setter_own_all map_of_SomeD [OF assms(1)] by (auto simp only: list_all_iff case_prod_conv dest!: bspec)
  then obtain d' where d: "setf v d = Some d'" "list_all (\<lambda>(k, f). k = key \<longrightarrow> f d' = f c') printed_keys"
    using assms(2) by blast
  then show ?thesis
    by (intro exI [of _ d'], cases "map_of printed_keys key") (auto simp: config_value_proj list_all_iff dest: map_of_SomeD)
qed

lemma field_keys_inj:
  assumes "map_of config_fields n = Some (key, f)" and "map_of config_fields m = Some (key, g)"
  shows "n = m"
proof -
  have i: "inj_on (\<lambda>p. fst (snd p)) (set config_fields)"
    by (rule distinct_map [THEN iffD1, THEN conjunct2]) (simp add: config_fields_def)
  have "(n, key, f) \<in> set config_fields" "(m, key, g) \<in> set config_fields"
    using assms by (auto dest: map_of_SomeD)
  then show ?thesis using inj_onD [OF i, of "(n, key, f)" "(m, key, g)"] by simp
qed

lemma ApplyFlags_value:
  assumes "ApplyFlags vs cfg = Some (cfg', keys)" and "distinct (map fst vs)"
    and "map_of config_fields n = Some (key, setf)" and "\<forall>(m, g)\<in>set vs. g \<noteq> None"
  shows "case map_of vs n of
      None \<Rightarrow> key \<notin> set keys \<and> config_value cfg' key = config_value cfg key
    | Some g \<Rightarrow> key \<in> set keys \<and> (\<exists>c'. setf (the g) cfg = Some c' \<and> config_value cfg' key = config_value c' key)"
  using assms(1,2,4)
proof (induction vs arbitrary: cfg keys)
  case (Cons p vs)
  obtain m v where p: "p = (m, Some v)" using Cons.prems(3) by (cases p) auto
  show ?case
  proof (cases "map_of config_fields m")
    case None
    then have a: "ApplyFlags vs cfg = Some (cfg', keys)" using Cons.prems(1) p by simp
    have "m \<noteq> n" using None assms(3) by auto
    then show ?thesis using Cons.IH [OF a] Cons.prems(2,3) p by simp
  next
    case (Some e)
    obtain k f where e: "e = (k, f)" by (cases e)
    obtain c1 ks where c1: "f v cfg = Some c1" "ApplyFlags vs c1 = Some (cfg', ks)" "keys = k # ks"
      using Cons.prems(1) p Some e by (auto split: option.splits)
    have ih: "case map_of vs n of
        None \<Rightarrow> key \<notin> set ks \<and> config_value cfg' key = config_value c1 key
      | Some g \<Rightarrow> key \<in> set ks \<and> (\<exists>c'. setf (the g) c1 = Some c' \<and> config_value cfg' key = config_value c' key)"
      using Cons.IH [OF c1(2)] Cons.prems(2,3) p by simp
    show ?thesis
    proof (cases "m = n")
      case True
      then have "map_of vs n = None" using Cons.prems(2) p by (auto simp: map_of_eq_None_iff)
      moreover have "k = key" "f = setf" using True Some e assms(3) by auto
      ultimately show ?thesis using ih c1 True p by auto
    next
      case False
      then have "k \<noteq> key" using field_keys_inj [OF _ assms(3)] Some e by blast
      then have "config_value c1 key = config_value cfg key" using setter_frame Some e c1(1) by metis
      moreover have "\<exists>d'. setf u cfg = Some d' \<and> config_value d' key = config_value c' key"
        if "setf u c1 = Some c'" for u c' using setter_own [OF assms(3) that] .
      ultimately show ?thesis using ih c1(3) \<open>k \<noteq> key\<close> False p
        by (cases "map_of vs n") (simp, fastforce)
    qed
  qed
qed simp

lemma visited_names: "map fst (visited actual) = map fst (Visit actual)"
  by (auto simp: visited_def)

lemma map_of_visited:
  "map_of (visited actual) n = map_option Some (map_of actual n)"
proof (cases "map_of actual n")
  case None
  then have "n \<notin> set (map fst (visited actual))"
    unfolding visited_names Visit_names by (simp add: map_of_eq_None_iff)
  then have "map_of (visited actual) n = None" by (simp add: map_of_eq_None_iff)
  then show ?thesis using None by simp
next
  case (Some v)
  then have "n \<in> set (map fst (Visit actual))" unfolding Visit_names by (metis map_of_eq_None_iff option.distinct(1) set_map)
  then obtain w where w: "(n, w) \<in> set (Visit actual)" by auto
  then have "w = v" using Visit_values [OF w] Some by simp
  then have "(n, Some v) \<in> set (visited actual)" using w by (force simp: visited_def)
  moreover have "distinct (map fst (visited actual))" unfolding visited_names by (rule Visit_names(2))
  ultimately show ?thesis using Some by (simp add: map_of_is_SomeI)
qed


definition demo_scan :: scanners where
  "demo_scan = \<lparr>sc_int = atoi, sc_duration = (\<lambda>s. map_option seconds (atoi (trim_suffix s ''s''))), sc_scaled = (\<lambda>s m. map_option (\<lambda>x. x * m) (atoi s))\<rparr>"

definition demo_flags :: flag_set where
  "demo_flags = (case showFlags demo_scan ''/c'' (Defaults None) of Inr fs \<Rightarrow> fs | Inl _ \<Rightarrow> [])"

lemma demo_flags_ok: "showFlags demo_scan ''/c'' (Defaults None) = Inr demo_flags"
  by code_simp

lemma demo_parse:
  "parse_flags demo_scan demo_flags [''-ttl'', ''5s'', ''-foreground'', ''/mnt''] [] =
     Inr ([(''foreground'', VBool True), (''ttl'', VDuration (seconds 5))], [''/mnt''])"
  by code_simp


text \<open>The precedence of the configuration: for every documented key, a flag that was set decides
  the value alone and marks it as coming from a flag; a key whose flag was not set keeps the
  value the file or the defaults gave it.
\<close>

theorem flags_override_file:
  assumes "ApplyFlags (visited actual) cfg = Some (cfg', keys)" and "map_of config_fields n = Some (key, setf)"
  shows "case map_of actual n of
      None \<Rightarrow> value_source keys (FileKeys cfg) key \<noteq> ''flag'' \<and> config_value cfg' key = config_value cfg key
    | Some v \<Rightarrow> value_source keys (FileKeys cfg) key = ''flag'' \<and>
        (\<exists>c'. setf v (Defaults None) = Some c' \<and> config_value cfg' key = config_value c' key)"
proof -
  have d: "distinct (map fst (visited actual))" unfolding visited_names by (rule Visit_names(2))
  have g: "\<forall>(m, g)\<in>set (visited actual). g \<noteq> None" by (auto simp: visited_def)
  show ?thesis
  proof (cases "map_of actual n")
    case None
    then show ?thesis using ApplyFlags_value [OF assms(1) d assms(2) g] by (simp add: map_of_visited value_source_def)
  next
    case (Some v)
    then obtain c' where c: "key \<in> set keys" "setf v cfg = Some c'" "config_value cfg' key = config_value c' key"
      using ApplyFlags_value [OF assms(1) d assms(2) g] by (auto simp: map_of_visited)
    then show ?thesis using Some setter_own [OF assms(2) c(2), of "Defaults None"] by (auto simp: value_source_def)
  qed
qed

lemma demo_apply:
  "ApplyFlags (visited [(''max-uploads'', VInt 9)]) (Defaults None) = Some ((Defaults None)\<lparr>cf_maxUploads := 9\<rparr>, [''max_uploads''])"
  by code_simp

theorem flags_override_file_witness:
  "value_source [''max_uploads''] (FileKeys (Defaults None)) ''max_uploads'' = ''flag''"
proof -
  obtain setf where s: "map_of config_fields ''max-uploads'' = Some (''max_uploads'', setf)" by (simp add: config_fields_def)
  show ?thesis using flags_override_file [OF demo_apply s] by simp
qed

section \<open>Differences from the flag parser\<close>

text \<open>The path is looked up before the flags are parsed, and the two disagree on a repeated flag.\<close>

lemma repeated_config_flag:
  "resolveConfigPath ''d'' [''-config'', ''a'', ''-config'', ''b''] = ''a''"
  "parse_flags sc (trayFlags p c) [''-config'', ''a'', ''-config'', ''b''] [] =
     Inr ([(''config'', VString ''b''), (''config'', VString ''a'')], [])"
  by (simp_all add: flag_word_def trayFlags_def flag_Set_def)

text \<open>
  Logging in from \<open>mount\<close> parses mount's arguments with the login flags: any flag of mount that login
  does not know, such as the \<open>-foreground\<close> that reaching that code takes, ends the login.
\<close>

lemma login_rejects_foreground:
  "parse_flags sc (loginFlags p c) (''-foreground'' # args) [] = Inl (NotDefined ''foreground'')"
  by (simp add: flag_word_def loginFlags_def registerLoginConfigFlags_def)

end
