(* ===== verification/State_Files.thy ===== *)
theory State_Files
  imports Mount_State
begin

text \<open>
  The runtime files of the daemon (internal/state): where they live, the pause marker, the status
  snapshot with its replacement in one rename, the single-instance lock and the search for a running
  daemon. The JSON encoding of a status is a parameter with its round trip as a hypothesis.
\<close>

section \<open>Directories\<close>

text \<open>The environment variables, empty when unset, and \<open>os.UserHomeDir\<close>, \<open>None\<close> when it fails.\<close>

record environ =
  ev_runtimeDir :: string
  ev_stateHome :: string
  ev_home :: "string option"

definition home_or_empty :: "environ \<Rightarrow> string" where
  "home_or_empty e = (case ev_home e of None \<Rightarrow> [] | Some h \<Rightarrow> h)"

definition resolveDir :: "string \<Rightarrow> string \<Rightarrow> string \<Rightarrow> string" where
  "resolveDir runtimeDir stateHome home =
     (let b1 = (if runtimeDir = [] then stateHome else runtimeDir);
          base = (if b1 = [] then path_join [home, ''.local'', ''state''] else b1)
      in path_join [base, ''proton-drive-fs''])"

definition state_dir :: "environ \<Rightarrow> string option" where
  "state_dir e =
     (if ev_home e = None \<and> ev_runtimeDir e = [] \<and> ev_stateHome e = [] then None
      else Some (resolveDir (ev_runtimeDir e) (ev_stateHome e) (home_or_empty e)))"

definition persistentDir :: "environ \<Rightarrow> string \<Rightarrow> string option" where
  "persistentDir e sub =
     (if ev_home e = None \<and> ev_stateHome e = [] then None
      else Some (path_join [resolveDir [] (ev_stateHome e) (home_or_empty e), sub]))"

definition UnsavedDir :: "environ \<Rightarrow> string option" where
  "UnsavedDir e = persistentDir e ''unsaved''"

definition LocalDir :: "environ \<Rightarrow> string option" where
  "LocalDir e = persistentDir e ''local''"

definition PausePath :: "environ \<Rightarrow> string option" where
  "PausePath e = map_option (\<lambda>d. path_join [d, ''paused'']) (state_dir e)"

definition StatusPath :: "environ \<Rightarrow> string option" where
  "StatusPath e = map_option (\<lambda>d. path_join [d, ''status.json'']) (state_dir e)"

definition LockPath :: "environ \<Rightarrow> string option" where
  "LockPath e = map_option (\<lambda>d. path_join [d, ''mount.lock'']) (state_dir e)"

text \<open>What must outlive a reboot never goes to the session's runtime directory.\<close>

lemma persistent_ignores_runtime:
  "UnsavedDir (e\<lparr>ev_runtimeDir := r\<rparr>) = UnsavedDir e" "LocalDir (e\<lparr>ev_runtimeDir := r\<rparr>) = LocalDir e"
  by (simp_all add: UnsavedDir_def LocalDir_def persistentDir_def home_or_empty_def)

section \<open>The files\<close>

datatype state_error = SE_no_dir | SE_io string | SE_locked

record state_faults =
  sf_mkdir :: bool
  sf_open :: bool
  sf_write :: "string option"
  sf_rename :: bool
  sf_remove :: bool

text \<open>Path to content, and the process holding each file's lock.\<close>

record runtime_fs =
  rf_file :: "string \<Rightarrow> string option"
  rf_lock :: "string \<Rightarrow> nat option"

text \<open>The pause marker. An unreadable path counts as not paused.\<close>

definition Paused :: "environ \<Rightarrow> runtime_fs \<Rightarrow> bool" where
  "Paused e s = (case PausePath e of None \<Rightarrow> False | Some p \<Rightarrow> rf_file s p \<noteq> None)"

definition SetPaused :: "state_faults \<Rightarrow> environ \<Rightarrow> bool \<Rightarrow> runtime_fs \<Rightarrow> (state_error + unit) \<times> runtime_fs" where
  "SetPaused fl e paused s =
     (case PausePath e of
        None \<Rightarrow> (Inl SE_no_dir, s)
      | Some p \<Rightarrow>
          if \<not> paused then
            (if sf_remove fl \<and> rf_file s p \<noteq> None then (Inl (SE_io p), s)
             else (Inr (), s\<lparr>rf_file := (rf_file s)(p := None)\<rparr>))
          else if sf_mkdir fl then (Inl (SE_io (path_dir p)), s)
          else if sf_open fl then (Inl (SE_io p), s)
          else (Inr (), s\<lparr>rf_file := (rf_file s)(p \<mapsto> (case rf_file s p of Some t \<Rightarrow> t | None \<Rightarrow> []))\<rparr>))"

text \<open>The status snapshot. \<open>enc\<close> and \<open>dec\<close> are \<open>json.Marshal\<close> and \<open>json.Unmarshal\<close>.\<close>

definition StaleAfter :: nanos where "StaleAfter = seconds 10"

definition Fresh :: "nanos \<Rightarrow> status \<Rightarrow> bool" where
  "Fresh now st \<longleftrightarrow> 0 < ss_updated st \<and> now - seconds (ss_updated st) < StaleAfter"

definition ReadStatus :: "(string \<Rightarrow> status option) \<Rightarrow> environ \<Rightarrow> runtime_fs \<Rightarrow> status option" where
  "ReadStatus dec e s =
     (case StatusPath e of None \<Rightarrow> None
      | Some p \<Rightarrow> (case rf_file s p of None \<Rightarrow> None | Some t \<Rightarrow> dec t))"

text \<open>
  The new snapshot is written to a fresh temporary file, which is renamed over the old one; the
  deferred removal finds nothing once the rename succeeded. \<open>sf_write\<close> is what an interrupted write
  leaves in the temporary file.
\<close>

definition status_step :: "state_faults \<Rightarrow> string \<Rightarrow> string \<Rightarrow> string \<Rightarrow> runtime_fs \<Rightarrow> runtime_fs list \<times> (state_error + unit)" where
  "status_step fl p tmp data s =
     (let s1 = s\<lparr>rf_file := (rf_file s)(tmp \<mapsto> [])\<rparr>;
          drop_tmp = (\<lambda>x. x\<lparr>rf_file := (rf_file x)(tmp := None)\<rparr>)
      in case sf_write fl of
           Some part \<Rightarrow>
             (let s2 = s1\<lparr>rf_file := (rf_file s1)(tmp \<mapsto> part)\<rparr> in ([s1, s2, drop_tmp s2], Inl (SE_io tmp)))
         | None \<Rightarrow>
             (let s2 = s1\<lparr>rf_file := (rf_file s1)(tmp \<mapsto> data)\<rparr>
              in if sf_rename fl then ([s1, s2, drop_tmp s2], Inl (SE_io p))
                 else (let s3 = s2\<lparr>rf_file := (rf_file s2)(p \<mapsto> data, tmp := None)\<rparr>
                       in ([s1, s2, s3, drop_tmp s3], Inr ()))))"

definition WriteStatus :: "(status \<Rightarrow> string option) \<Rightarrow> state_faults \<Rightarrow> environ \<Rightarrow> string \<Rightarrow> status \<Rightarrow> runtime_fs
    \<Rightarrow> runtime_fs list \<times> (state_error + unit)" where
  "WriteStatus enc fl e tmp st s =
     (case StatusPath e of
        None \<Rightarrow> ([], Inl SE_no_dir)
      | Some p \<Rightarrow>
          if sf_mkdir fl then ([], Inl (SE_io (path_dir p)))
          else (case enc st of
                  None \<Rightarrow> ([], Inl (SE_io p))
                | Some data \<Rightarrow>
                    if sf_open fl then ([], Inl (SE_io tmp)) else status_step fl p tmp data s))"

definition final_state :: "runtime_fs list \<Rightarrow> runtime_fs \<Rightarrow> runtime_fs" where
  "final_state ss s = (if ss = [] then s else last ss)"

definition RemoveStatus :: "environ \<Rightarrow> runtime_fs \<Rightarrow> runtime_fs" where
  "RemoveStatus e s =
     (case StatusPath e of None \<Rightarrow> s | Some p \<Rightarrow> s\<lparr>rf_file := (rf_file s)(p := None)\<rparr>)"

section \<open>The single-instance lock\<close>

text \<open>
  \<open>flock\<close> with \<open>LOCK_EX | LOCK_NB\<close>: the lock belongs to the process that has the file open, and the
  kernel drops it when that process ends.
\<close>

definition AcquireLock :: "state_faults \<Rightarrow> environ \<Rightarrow> nat \<Rightarrow> runtime_fs \<Rightarrow> (state_error + unit) \<times> runtime_fs" where
  "AcquireLock fl e pid s =
     (case LockPath e of
        None \<Rightarrow> (Inl SE_no_dir, s)
      | Some p \<Rightarrow>
          if sf_mkdir fl then (Inl (SE_io (path_dir p)), s)
          else if sf_open fl then (Inl (SE_io p), s)
          else (let s1 = s\<lparr>rf_file := (rf_file s)(p \<mapsto> (case rf_file s p of Some t \<Rightarrow> t | None \<Rightarrow> []))\<rparr>
                in if rf_lock s p \<noteq> None then (Inl SE_locked, s1)
                   else (Inr (), s1\<lparr>rf_lock := (rf_lock s1)(p \<mapsto> pid)\<rparr>)))"

definition release_locks :: "nat \<Rightarrow> runtime_fs \<Rightarrow> runtime_fs" where
  "release_locks pid s = s\<lparr>rf_lock := (\<lambda>p. if rf_lock s p = Some pid then None else rf_lock s p)\<rparr>"

text \<open>Daemons starting and ending, in any order; a daemon runs while it holds the lock.\<close>

record daemons =
  dm_fs :: runtime_fs
  dm_running :: "nat set"

inductive daemon_step :: "environ \<Rightarrow> daemons \<Rightarrow> daemons \<Rightarrow> bool" for e where
  daemon_start: "AcquireLock fl e pid (dm_fs d) = (Inr (), s1) \<Longrightarrow> pid \<notin> dm_running d \<Longrightarrow>
     daemon_step e d (d\<lparr>dm_fs := s1, dm_running := insert pid (dm_running d)\<rparr>)"
| daemon_refused: "AcquireLock fl e pid (dm_fs d) = (Inl err, s1) \<Longrightarrow>
     daemon_step e d (d\<lparr>dm_fs := s1\<rparr>)"
| daemon_exit: "daemon_step e d (d\<lparr>dm_fs := release_locks pid (dm_fs d), dm_running := dm_running d - {pid}\<rparr>)"
| daemon_publish: "WriteStatus enc fl e tmp st (dm_fs d) = (ss, r) \<Longrightarrow>
     daemon_step e d (d\<lparr>dm_fs := final_state ss (dm_fs d)\<rparr>)"
| daemon_forget: "daemon_step e d (d\<lparr>dm_fs := RemoveStatus e (dm_fs d)\<rparr>)"

inductive daemon_reach :: "environ \<Rightarrow> daemons \<Rightarrow> bool" for e where
  reach_init: "daemon_reach e \<lparr>dm_fs = \<lparr>rf_file = f, rf_lock = Map.empty\<rparr>, dm_running = {}\<rparr>"
| reach_step: "daemon_reach e d \<Longrightarrow> daemon_step e d d' \<Longrightarrow> daemon_reach e d'"

section \<open>The running daemon\<close>

text \<open>\<open>signal0\<close>: the process exists; \<open>readlink\<close>: what \<open>/proc/<pid>/exe\<close> points to.\<close>

definition processAlive :: "(int \<Rightarrow> bool) \<Rightarrow> (string \<Rightarrow> string option) \<Rightarrow> string \<Rightarrow> int \<Rightarrow> bool" where
  "processAlive signal0 readlink daemonExeName pid =
     (if \<not> signal0 pid then False
      else (case readlink (''/proc/'' @ itoa pid @ ''/exe'') of
              None \<Rightarrow> False
            | Some exe \<Rightarrow> path_base exe = daemonExeName))"

definition FindRunningDaemon :: "(int \<Rightarrow> bool) \<Rightarrow> (string \<Rightarrow> string option) \<Rightarrow> string \<Rightarrow> status option \<Rightarrow> int \<times> string \<times> bool" where
  "FindRunningDaemon signal0 readlink name st =
     (case st of
        None \<Rightarrow> (0, [], False)
      | Some st \<Rightarrow>
          if ss_pid st \<le> 0 then (0, [], False)
          else (ss_pid st, ss_mountpoint st, processAlive signal0 readlink name (ss_pid st)))"

text \<open>A daemon whose binary an upgrade replaced is not recognised: the kernel then ends the link of
  \<open>/proc/<pid>/exe\<close> in \<open> (deleted)\<close>.\<close>

lemma replaced_binary_not_alive:
  "readlink (''/proc/'' @ itoa pid @ ''/exe'') = Some ''/usr/bin/proton-drive-fs (deleted)'' \<Longrightarrow>
     \<not> processAlive signal0 readlink ''proton-drive-fs'' pid"
proof -
  have "path_base ''/usr/bin/proton-drive-fs (deleted)'' = ''proton-drive-fs (deleted)''" by code_simp
  then show "readlink (''/proc/'' @ itoa pid @ ''/exe'') = Some ''/usr/bin/proton-drive-fs (deleted)'' \<Longrightarrow> ?thesis"
    by (simp add: processAlive_def)
qed

section \<open>Properties\<close>

lemma status_step_files:
  assumes "status_step fl p tmp data s = (ss, r)" and "p \<noteq> tmp"
  shows "\<forall>x\<in>set ss. rf_file x p = rf_file s p \<or> rf_file x p = Some data"
    and "rf_file (final_state ss s) p = (if r = Inr () then Some data else rf_file s p)"
    and "rf_file (final_state ss s) tmp = None"
    and "\<forall>q. q \<noteq> p \<and> q \<noteq> tmp \<longrightarrow> rf_file (final_state ss s) q = rf_file s q"
    and "rf_lock (final_state ss s) = rf_lock s"
  using assms by (auto simp: status_step_def final_state_def Let_def split: option.splits if_splits)

text \<open>C31. A reader never sees a half-written status: at every moment of \<open>WriteStatus\<close>, whatever fails
  in it, \<open>ReadStatus\<close> gives the snapshot published before or the new one; afterwards it gives the new
  one exactly when the call succeeded, and no temporary file is left.
\<close>

theorem WriteStatus_atomic:
  assumes "WriteStatus enc fl e tmp st s = (ss, r)" and roundtrip: "\<And>d. enc st = Some d \<Longrightarrow> dec d = Some st"
    and "StatusPath e \<noteq> Some tmp" and "rf_file s tmp = None"
  shows "(\<forall>x\<in>set ss. ReadStatus dec e x = ReadStatus dec e s \<or> ReadStatus dec e x = Some st)
    \<and> ReadStatus dec e (final_state ss s) = (if r = Inr () then Some st else ReadStatus dec e s)
    \<and> rf_file (final_state ss s) tmp = None"
proof (cases "StatusPath e")
  case None
  then show ?thesis using assms(1,4) by (auto simp: WriteStatus_def final_state_def ReadStatus_def)
next
  case (Some p)
  show ?thesis
  proof (cases "sf_mkdir fl \<or> enc st = None \<or> sf_open fl")
    case True
    then show ?thesis using assms(1,4) Some
      by (auto simp: WriteStatus_def final_state_def split: option.splits if_splits)
  next
    case False
    then obtain d where d: "enc st = Some d" "status_step fl p tmp d s = (ss, r)"
      using assms(1) Some by (auto simp: WriteStatus_def)
    have ne: "p \<noteq> tmp" using assms(3) Some by simp
    show ?thesis
      using status_step_files [OF d(2) ne] roundtrip [OF d(1)] Some by (auto simp: ReadStatus_def)
  qed
qed

definition demo_status :: status where
  "demo_status = \<lparr>ss_mountpoint = ''/m'', ss_version = ''1'', ss_pid = 7, ss_transfers = 0, ss_paused = False,
     ss_updated = 5, ss_queued = 0, ss_done = 0, ss_failed = 0, ss_current = [], ss_recent = []\<rparr>"

definition demo_environ :: environ where
  "demo_environ = \<lparr>ev_runtimeDir = ''/run'', ev_stateHome = [], ev_home = None\<rparr>"

definition demo_state_faults :: state_faults where
  "demo_state_faults = \<lparr>sf_mkdir = False, sf_open = False, sf_write = None, sf_rename = False, sf_remove = False\<rparr>"

theorem WriteStatus_atomic_witness:
  "ReadStatus (\<lambda>t. if t = ''s'' then Some demo_status else None) demo_environ
     (final_state (fst (WriteStatus (\<lambda>_. Some ''s'') demo_state_faults demo_environ ''/run/t'' demo_status \<lparr>rf_file = Map.empty, rf_lock = Map.empty\<rparr>))
       \<lparr>rf_file = Map.empty, rf_lock = Map.empty\<rparr>) = Some demo_status"
proof -
  let ?s = "\<lparr>rf_file = Map.empty, rf_lock = Map.empty\<rparr> :: runtime_fs"
  have p: "StatusPath demo_environ = Some ''/run/proton-drive-fs/status.json''" by code_simp
  have w: "WriteStatus (\<lambda>_. Some ''s'') demo_state_faults demo_environ ''/run/t'' demo_status ?s
      = (fst (WriteStatus (\<lambda>_. Some ''s'') demo_state_faults demo_environ ''/run/t'' demo_status ?s), Inr ())"
    by (simp add: WriteStatus_def p demo_state_faults_def status_step_def Let_def)
  have "StatusPath demo_environ \<noteq> Some ''/run/t''" using p by simp
  then show ?thesis
    using WriteStatus_atomic [OF w, of "\<lambda>t. if t = ''s'' then Some demo_status else None"] by simp
qed

lemma release_lock_one: "rf_lock (release_locks pid s) p = (if rf_lock s p = Some pid then None else rf_lock s p)"
  by (simp add: release_locks_def)

lemma WriteStatus_locks: "WriteStatus enc fl e tmp st s = (ss, r) \<Longrightarrow> rf_lock (final_state ss s) = rf_lock s"
  by (auto simp: WriteStatus_def final_state_def status_step_def Let_def split: option.splits if_splits)

lemma AcquireLock_locks:
  "AcquireLock fl e pid s = (r, s') \<Longrightarrow> LockPath e = Some p \<Longrightarrow>
     (if r = Inr () then rf_lock s p = None \<and> rf_lock s' p = Some pid else rf_lock s' p = rf_lock s p)"
  by (auto simp: AcquireLock_def Let_def split: if_splits)

lemma daemon_lock_inv:
  assumes "daemon_reach e d" and p: "LockPath e = Some p"
  shows "dm_running d = set_option (rf_lock (dm_fs d) p)"
  using assms(1)
proof (induction rule: daemon_reach.induct)
  case (reach_step d d')
  from reach_step(2) show ?case
  proof (cases rule: daemon_step.cases)
    case (daemon_start fl pid s1)
    then show ?thesis using AcquireLock_locks [OF daemon_start(2) p] reach_step.IH by simp
  next
    case (daemon_refused fl pid err s1)
    then show ?thesis using AcquireLock_locks [OF daemon_refused(2) p] reach_step.IH by simp
  next
    case (daemon_exit pid)
    then show ?thesis using reach_step.IH by (cases "rf_lock (dm_fs d) p") (auto simp: release_lock_one)
  next
    case (daemon_publish enc fl tmp st ss r)
    then show ?thesis using reach_step.IH WriteStatus_locks [OF daemon_publish(2)] by simp
  next
    case daemon_forget
    then show ?thesis using reach_step.IH by (simp add: RemoveStatus_def split: option.splits)
  qed
qed simp

text \<open>C32. One daemon at a time: however daemons start, are refused, publish their status and end, at
  most one of them is running, and it is the one that holds the lock.
\<close>

theorem single_daemon:
  assumes "daemon_reach e d"
  shows "(\<forall>a\<in>dm_running d. \<forall>b\<in>dm_running d. a = b) \<and> (\<forall>a\<in>dm_running d. \<exists>p. LockPath e = Some p \<and> rf_lock (dm_fs d) p = Some a)"
proof (cases "LockPath e")
  case None
  have "dm_running d = {}" using assms
  proof (induction rule: daemon_reach.induct)
    case (reach_step d d')
    from reach_step(2) show ?case
      using reach_step.IH None by (cases rule: daemon_step.cases) (auto simp: AcquireLock_def)
  qed simp
  then show ?thesis by simp
next
  case (Some p)
  show ?thesis using daemon_lock_inv [OF assms Some] Some by (cases "rf_lock (dm_fs d) p") auto
qed

lemma demo_daemon_start:
  "daemon_step demo_environ \<lparr>dm_fs = \<lparr>rf_file = Map.empty, rf_lock = Map.empty\<rparr>, dm_running = {}\<rparr>
     \<lparr>dm_fs = snd (AcquireLock demo_state_faults demo_environ 7 \<lparr>rf_file = Map.empty, rf_lock = Map.empty\<rparr>), dm_running = {7}\<rparr>"
proof -
  let ?s = "\<lparr>rf_file = Map.empty, rf_lock = Map.empty\<rparr> :: runtime_fs"
  have p: "LockPath demo_environ = Some ''/run/proton-drive-fs/mount.lock''" by code_simp
  have a: "AcquireLock demo_state_faults demo_environ 7 ?s = (Inr (), snd (AcquireLock demo_state_faults demo_environ 7 ?s))"
    by (simp add: AcquireLock_def p demo_state_faults_def Let_def)
  show ?thesis
    using daemon_start [of demo_state_faults demo_environ 7 "\<lparr>dm_fs = ?s, dm_running = {}\<rparr>"] a by simp
qed

theorem single_daemon_witness:
  "\<exists>p. LockPath demo_environ = Some p \<and>
     rf_lock (snd (AcquireLock demo_state_faults demo_environ 7 \<lparr>rf_file = Map.empty, rf_lock = Map.empty\<rparr>)) p = Some 7"
  using single_daemon [OF reach_step [OF reach_init demo_daemon_start]] by simp

end
