(* ===== verification/Cmd_Mount.thy ===== *)
theory Cmd_Mount
  imports Cmd_Config State_Files
begin

text \<open>
  The commands around a mount (cmd/proton-drive-fs/main.go, tray.go, autostart.go): reading
  /proc/self/mounts and mountinfo, the loops that wait for a mount, an unmount or the previous
  daemon's exit, the processes that hold a mount, and the systemd unit. Clocks, processes and
  helper programs are arguments; a loop that may not end is partial, and its ending is a theorem.
\<close>

section \<open>The mount table\<close>

text \<open>\<open>strings.NewReplacer\<close> with one-byte patterns replaces byte by byte.\<close>

definition escape_char :: "char \<Rightarrow> string" where
  "escape_char c =
     (if c = backslash then backslash # ''134'' else if c = CHR '' '' then backslash # ''040''
      else if c = tab then backslash # ''011'' else if c = newline then backslash # ''012'' else [c])"

definition escapeMountField :: "string \<Rightarrow> string" where
  "escapeMountField s = concat (map escape_char s)"

definition mount_fstype :: string where "mount_fstype = ''fuse.proton-drive-fs''"

definition mountedAt :: "string \<Rightarrow> string \<Rightarrow> bool" where
  "mountedAt procMounts mountpoint \<longleftrightarrow>
     list_ex (\<lambda>line. let f = fields_of line
                      in 3 \<le> length f \<and> f ! 1 = escapeMountField mountpoint \<and> f ! 2 = mount_fstype)
       (split_on newline procMounts)"

text \<open>\<open>absOrSelf\<close>: \<open>filepath.Abs\<close> from the working directory, the path itself when there is none.\<close>

definition absOrSelf :: "string option \<Rightarrow> string \<Rightarrow> string" where
  "absOrSelf cwd path =
     (if prefix [slash] path then path_clean path
      else (case cwd of None \<Rightarrow> path | Some d \<Rightarrow> path_join [d, path]))"

definition cmd_isMounted :: "string option \<Rightarrow> string option \<Rightarrow> string \<Rightarrow> bool" where
  "cmd_isMounted cwd mounts mountpoint =
     (case mounts of None \<Rightarrow> False | Some t \<Rightarrow> mountedAt t (absOrSelf cwd mountpoint))"

fun index_of :: "'a \<Rightarrow> 'a list \<Rightarrow> nat option" where
  "index_of x [] = None"
| "index_of x (y # ys) = (if x = y then Some 0 else map_option Suc (index_of x ys))"

definition connection_of_line :: "string \<Rightarrow> string \<Rightarrow> int option" where
  "connection_of_line escaped line =
     (let f = fields_of line
      in if length f < 5 \<or> f ! 4 \<noteq> escaped then None
         else (case index_of ''-'' f of
                 None \<Rightarrow> None
               | Some sep \<Rightarrow>
                   if length f \<le> sep + 1 \<or> \<not> prefix ''fuse'' (f ! (sep + 1)) then None
                   else (case cut_at (CHR '':'') (f ! 2) of
                           None \<Rightarrow> None
                         | Some (maj, minor) \<Rightarrow> atoi minor)))"

definition fuseConnectionID :: "string \<Rightarrow> string \<Rightarrow> int option" where
  "fuseConnectionID mountinfo mountpoint =
     (case List.map_filter (connection_of_line (escapeMountField mountpoint)) (split_on newline mountinfo) of
        [] \<Rightarrow> None | m # _ \<Rightarrow> Some m)"

section \<open>Processes that hold a mount\<close>

record proc_fs =
  pf_entries :: "string list option"
  pf_link :: "string \<Rightarrow> string option"
  pf_fds :: "string \<Rightarrow> string list option"
  pf_comm :: "string \<Rightarrow> string option"

definition under_mount :: "string \<Rightarrow> string \<Rightarrow> bool" where
  "under_mount absMountpoint target \<longleftrightarrow> target = absMountpoint \<or> prefix (absMountpoint @ [slash]) target"

definition link_under :: "(string \<Rightarrow> bool) \<Rightarrow> string option \<Rightarrow> bool" where
  "link_under inside l \<longleftrightarrow> (case l of None \<Rightarrow> False | Some t \<Rightarrow> inside t)"

definition processHolds :: "proc_fs \<Rightarrow> string \<Rightarrow> string \<Rightarrow> (string \<Rightarrow> bool) \<Rightarrow> bool" where
  "processHolds pf procRoot pid inside =
     (let base = path_join [procRoot, pid]
      in if list_ex (\<lambda>l. link_under inside (pf_link pf (path_join [base, l]))) [''cwd'', ''root'', ''exe''] then True
         else (case pf_fds pf (path_join [base, ''fd'']) of
                 None \<Rightarrow> False
               | Some fds \<Rightarrow> list_ex (\<lambda>fd. link_under inside (pf_link pf (path_join [base, ''fd'', fd]))) fds))"

definition mountHolders :: "proc_fs \<Rightarrow> string \<Rightarrow> string option \<Rightarrow> string \<Rightarrow> (int \<times> string) list" where
  "mountHolders pf procRoot cwd mountpoint =
     (let inside = under_mount (absOrSelf cwd mountpoint)
      in case pf_entries pf of
           None \<Rightarrow> []
         | Some entries \<Rightarrow>
             List.map_filter (\<lambda>e.
               case atoi e of
                 None \<Rightarrow> None
               | Some pid \<Rightarrow>
                   if \<not> processHolds pf procRoot e inside then None
                   else map_option (\<lambda>c. (pid, trim_space c)) (pf_comm pf (path_join [procRoot, e, ''comm'']))) entries)"

definition printHolders :: "(int \<times> string) list \<Rightarrow> string list" where
  "printHolders hs =
     (if hs = [] then [''  (no holders found in /proc; probably a process of another user)'']
      else map (\<lambda>(pid, comm). ''  '' @ itoa pid @ '' '' @ comm) hs)"

section \<open>Unmounting\<close>

text \<open>One run of fusermount: its output and whether it failed.\<close>

type_synonym run_result = "string \<times> bool"

definition notMounted :: "string \<Rightarrow> bool" where
  "notMounted out \<longleftrightarrow> contains_sub ''not found in'' out"

definition isBusy :: "run_result \<Rightarrow> bool" where
  "isBusy r \<longleftrightarrow> snd r \<and> contains_sub ''busy'' (to_lower (fst r))"

datatype unmount_end = Unmounted | AlreadyGone | UnmountFailed | GoLazy

text \<open>
  The loop of \<open>unmount\<close>: iteration \<open>n\<close> finds the clock at \<open>clock n\<close> and runs fusermount as
  \<open>attempt n\<close>. The first iteration does not look at the deadline.
\<close>

partial_function (option) unmount_loop ::
    "(nat \<Rightarrow> run_result) \<Rightarrow> (nat \<Rightarrow> nanos) \<Rightarrow> nanos \<Rightarrow> nat \<Rightarrow> (nat \<times> unmount_end) option" where
  "unmount_loop attempt clock deadline n =
     (if n \<noteq> 0 \<and> deadline \<le> clock n then Some (n, GoLazy)
      else if \<not> snd (attempt n) then Some (n, Unmounted)
      else if notMounted (fst (attempt n)) then Some (n, AlreadyGone)
      else if \<not> isBusy (attempt n) then Some (n, UnmountFailed)
      else unmount_loop attempt clock deadline (Suc n))"

definition unmountLazyWithHolders :: "(int \<times> string) list \<Rightarrow> run_result \<Rightarrow> string \<Rightarrow> int \<times> string list" where
  "unmountLazyWithHolders holders lazy mountpoint =
     (if snd lazy then (1, [])
      else (0, (''detached '' @ mountpoint @ '' lazily; it disappears once these processes release it:'') # printHolders holders))"

text \<open>The forced unmount: lazy, then the abort of the kernel connection; either is enough.\<close>

record abort_files =
  af_exists :: bool
  af_waiting :: "string option"
  af_written :: bool

definition abortFuseConnection :: "abort_files \<Rightarrow> bool" where
  "abortFuseConnection af \<longleftrightarrow> af_exists af \<and> af_written af"

definition runUnmountForce :: "string option \<Rightarrow> string option \<Rightarrow> run_result \<Rightarrow> (int \<Rightarrow> abort_files) \<Rightarrow> string \<Rightarrow> int" where
  "runUnmountForce cwd mountinfo lazy files mountpoint =
     (let info = (case mountinfo of None \<Rightarrow> [] | Some t \<Rightarrow> t);
          aborted = (case fuseConnectionID info (absOrSelf cwd mountpoint) of
                       None \<Rightarrow> False | Some minor \<Rightarrow> abortFuseConnection (files minor))
      in if \<not> snd lazy \<or> aborted then 0 else 1)"

definition fusermountName :: "bool \<Rightarrow> string" where
  "fusermountName found3 = (if found3 then ''fusermount3'' else ''fusermount'')"

definition unmountFlags :: "string \<Rightarrow> flag_set" where
  "unmountFlags configPath =
     [(''config'', TString, VString configPath), (''force'', TBool, VBool False), (''wait'', TDuration, VDuration (seconds 5))]"

record unmount_world =
  uw_attempt :: "nat \<Rightarrow> run_result"
  uw_clock :: "nat \<Rightarrow> nanos"
  uw_lazy :: run_result
  uw_proc :: proc_fs
  uw_cwd :: "string option"
  uw_mountinfo :: "string option"
  uw_abort :: "int \<Rightarrow> abort_files"

definition runUnmount :: "unmount_world \<Rightarrow> scanners \<Rightarrow> string \<Rightarrow> conf \<times> config_error option \<Rightarrow> string list \<Rightarrow> int option" where
  "runUnmount w sc configPath loaded args =
     (case loaded of
        (cfg, Some e) \<Rightarrow> Some 1
      | (cfg, None) \<Rightarrow>
          (case parse_flags sc (unmountFlags configPath) args [] of
             Inl e \<Rightarrow> Some 2
           | Inr (actual, rest) \<Rightarrow>
               if 1 < length rest then Some 2
               else (case resolveMountpoint (case rest of [] \<Rightarrow> [] | a # _ \<Rightarrow> a) cfg of
                       None \<Rightarrow> Some 2
                     | Some mountpoint \<Rightarrow>
                         if flag_value (unmountFlags configPath) actual ''force'' = Some (VBool True)
                         then Some (runUnmountForce (uw_cwd w) (uw_mountinfo w) (uw_lazy w) (uw_abort w) mountpoint)
                         else (let wait = the (as_duration (the (flag_value (unmountFlags configPath) actual ''wait'')))
                               in map_option (\<lambda>(n, r).
                                    case r of
                                      Unmounted \<Rightarrow> 0 | AlreadyGone \<Rightarrow> 0 | UnmountFailed \<Rightarrow> 1
                                    | GoLazy \<Rightarrow> fst (unmountLazyWithHolders
                                        (mountHolders (uw_proc w) ''/proc'' (uw_cwd w) mountpoint) (uw_lazy w) mountpoint))
                                  (unmount_loop (uw_attempt w) (uw_clock w) (uw_clock w 0 + wait) 0)))))"

section \<open>The previous daemon\<close>

datatype kill_signal = SIGTERM | SIGKILL

text \<open>
  Polling with signal 0 every 100 ms: poll \<open>n\<close> is at \<open>clock n\<close> and finds the process alive when
  \<open>alive n\<close>. Gives whether it exited, and the number of the next poll.
\<close>

partial_function (option) poll_exit ::
    "(nat \<Rightarrow> bool) \<Rightarrow> (nat \<Rightarrow> nanos) \<Rightarrow> nanos \<Rightarrow> nat \<Rightarrow> (bool \<times> nat) option" where
  "poll_exit alive clock deadline n =
     (if clock n < deadline then (if \<not> alive n then Some (True, n) else poll_exit alive clock deadline (Suc n))
      else Some (False, n))"

definition stopPreviousDaemon ::
    "int \<times> string \<times> bool \<Rightarrow> int \<Rightarrow> bool \<Rightarrow> (nat \<Rightarrow> bool) \<Rightarrow> (nat \<Rightarrow> nanos) \<Rightarrow> kill_signal list option" where
  "stopPreviousDaemon found self term_ok alive clock =
     (case found of (pid, mountpoint, running) \<Rightarrow>
        if \<not> running \<or> pid = self then Some []
        else if \<not> term_ok then Some []
        else (case poll_exit alive clock (clock 0 + seconds 5) 0 of
                None \<Rightarrow> None
              | Some (True, n) \<Rightarrow> Some [SIGTERM]
              | Some (False, n) \<Rightarrow>
                  if \<not> alive n then Some [SIGTERM]
                  else (case poll_exit alive clock (clock (Suc n) + seconds 2) (Suc n) of
                          None \<Rightarrow> None
                        | Some (_, m) \<Rightarrow> Some [SIGTERM, SIGKILL])))"

section \<open>Mounting in the background\<close>

definition detachedArgs :: "string list \<Rightarrow> string list" where
  "detachedArgs args = [''mount'', ''-foreground''] @ args"

definition journalTag :: string where "journalTag = ''proton-drive-fs''"

text \<open>The command line of the child: through systemd-cat when the journal is there.\<close>

definition detached_command :: "string \<Rightarrow> string option \<Rightarrow> bool \<Rightarrow> string list \<Rightarrow> string \<times> string list" where
  "detached_command exe catPath journald args =
     (case catPath of
        Some cat \<Rightarrow>
          if journald then (cat, [''-t'', journalTag, ''-p'', ''err'', ''--level-prefix=false'', exe] @ detachedArgs args)
          else (exe, detachedArgs args)
      | None \<Rightarrow> (exe, detachedArgs args))"

datatype mount_end = MountSeen | MountExited | MountTimedOut

text \<open>Poll \<open>n\<close>: the mount is in the table, the child has exited, the clock.\<close>

partial_function (option) mount_wait ::
    "(nat \<Rightarrow> bool) \<Rightarrow> (nat \<Rightarrow> bool) \<Rightarrow> (nat \<Rightarrow> nanos) \<Rightarrow> nanos \<Rightarrow> nat \<Rightarrow> (nat \<times> mount_end) option" where
  "mount_wait seen exited clock deadline n =
     (if seen n then Some (n, MountSeen)
      else if exited n then Some (n, MountExited)
      else if deadline < clock n then Some (n, MountTimedOut)
      else mount_wait seen exited clock deadline (Suc n))"

definition mountDetached :: "(nat \<Rightarrow> string option) \<Rightarrow> (nat \<Rightarrow> bool) \<Rightarrow> (nat \<Rightarrow> nanos) \<Rightarrow> string option \<Rightarrow> string \<Rightarrow> int option" where
  "mountDetached mounts exited clock cwd mountpoint =
     map_option (\<lambda>(n, r). if r = MountSeen then 0 else 1)
       (mount_wait (\<lambda>n. case mounts n of None \<Rightarrow> False | Some t \<Rightarrow> mountedAt t (absOrSelf cwd mountpoint))
          exited clock (clock 0 + seconds 30) 0)"

definition mountLogPath :: "environ \<Rightarrow> bool \<Rightarrow> string option" where
  "mountLogPath e mkdir_ok =
     (let base = (if ev_stateHome e \<noteq> [] then Some (ev_stateHome e)
                  else map_option (\<lambda>h. path_join [h, ''.local'', ''state'']) (ev_home e))
      in case base of
           None \<Rightarrow> None
         | Some b \<Rightarrow> (let d = path_join [b, ''proton-drive-fs'']
                      in if mkdir_ok then Some (path_join [d, ''mount.log'']) else None))"

definition trim_newlines :: "string \<Rightarrow> string" where
  "trim_newlines s = rev (dropWhile (\<lambda>c. c = newline) (rev s))"

definition printLastLines :: "string option \<Rightarrow> nat \<Rightarrow> string list" where
  "printLastLines data n =
     (case data of None \<Rightarrow> [] | Some t \<Rightarrow> take_last n (split_on newline (trim_newlines t)))"

definition reportMountFailure :: "string \<Rightarrow> string \<Rightarrow> string option \<Rightarrow> string list" where
  "reportMountFailure what logPath log_text =
     (if logPath = [] then [''error: '' @ what @ ''; see: journalctl --user -t '' @ journalTag @ '' -n 50'']
      else (''error: '' @ what @ ''; see '' @ logPath) # printLastLines log_text 20)"

definition hasDisplay :: "string \<Rightarrow> string \<Rightarrow> bool" where
  "hasDisplay display wayland \<longleftrightarrow> display \<noteq> [] \<or> wayland \<noteq> []"

section \<open>Status and tray\<close>

definition statusFromAPIOrFile :: "nanos \<Rightarrow> status option \<Rightarrow> status option \<Rightarrow> status option \<times> bool" where
  "statusFromAPIOrFile now api file =
     (case api of
        Some st \<Rightarrow> (Some st, True)
      | None \<Rightarrow> (file, (case file of None \<Rightarrow> False | Some st \<Rightarrow> Fresh now st)))"

definition yesNo :: "bool \<Rightarrow> string" where "yesNo b = (if b then ''yes'' else ''no'')"

definition printStatus :: "bool \<Rightarrow> status option \<times> bool \<Rightarrow> string \<Rightarrow> bool \<Rightarrow> string \<Rightarrow> string list" where
  "printStatus mounted st version paused mountpoint =
     (let fresh = snd st; s = the (fst st)
      in [''mounted: '' @ yesNo mounted,
          (if fresh then ''daemon: pid '' @ itoa (ss_pid s) @ '' version '' @ ss_version s else ''daemon: unknown''),
          ''binary: version '' @ version,
          ''transfers: '' @ itoa (if fresh then ss_transfers s else 0),
          ''paused: '' @ yesNo paused]
         @ (if fresh \<and> ss_version s \<noteq> version
            then [''warning: the running daemon is not this binary; run: proton-drive-fs unmount '' @ mountpoint
                    @ '' && proton-drive-fs mount '' @ mountpoint] else []))"

definition runStatus :: "string \<Rightarrow> string option \<Rightarrow> (string \<Rightarrow> string list) \<Rightarrow> scanners \<Rightarrow> conf \<times> config_error option
    \<Rightarrow> string list \<Rightarrow> (int \<times> string list) option" where
  "runStatus configPath cwd report sc loaded args =
     (case loaded of
        (cfg, Some e) \<Rightarrow> Some (1, [])
      | (cfg0, None) \<Rightarrow>
          (case parse_flags sc [(''config'', TString, VString configPath)] args [] of
             Inl e \<Rightarrow> Some (2, [])
           | Inr (actual, rest) \<Rightarrow>
               (case ApplyFlags (visited actual) cfg0 of
                  None \<Rightarrow> None
                | Some (cfg, _) \<Rightarrow>
                    if 1 < length rest then Some (2, [])
                    else (case resolveMountpoint (case rest of [] \<Rightarrow> [] | a # _ \<Rightarrow> a) cfg of
                            None \<Rightarrow> Some (2, [])
                          | Some m \<Rightarrow> Some (0, report (absOrSelf cwd m))))))"

definition resolveTrayMountpoint :: "string option \<Rightarrow> string \<Rightarrow> string \<Rightarrow> conf \<Rightarrow> string" where
  "resolveTrayMountpoint cwd remembered flagValue cfg =
     (case resolveMountpoint flagValue cfg of Some mp \<Rightarrow> absOrSelf cwd mp | None \<Rightarrow> remembered)"

section \<open>Reading back the kernel's table\<close>

lemma escape_char_inj: "escape_char c @ x = escape_char d @ y \<Longrightarrow> c = d \<and> x = y"
  by (auto simp: escape_char_def backslash_def tab_def newline_def split: if_splits)

lemma escape_char_ne [simp]: "escape_char c \<noteq> []"
  by (simp add: escape_char_def)

lemma escapeMountField_inj: "escapeMountField s = escapeMountField t \<longleftrightarrow> s = t"
proof
  show "escapeMountField s = escapeMountField t \<Longrightarrow> s = t"
  proof (induction s arbitrary: t)
    case Nil
    then show ?case by (cases t) (simp_all add: escapeMountField_def)
  next
    case (Cons c s)
    obtain d t' where t: "t = d # t'" using Cons.prems by (cases t) (simp_all add: escapeMountField_def)
    have "escape_char c @ escapeMountField s = escape_char d @ escapeMountField t'"
      using Cons.prems t by (simp add: escapeMountField_def)
    then show ?case using escape_char_inj Cons.IH t by blast
  qed
qed simp

lemma escapeMountField_Nil: "escapeMountField s = [] \<longleftrightarrow> s = []"
  by (cases s) (simp_all add: escapeMountField_def)

text \<open>One entry: device, mount point, type, and the rest of the line. The white space the kernel does
  not escape, a carriage return for one, does not occur.\<close>

type_synonym mount_entry = "string \<times> string \<times> string \<times> string"

definition odd_space :: "char \<Rightarrow> bool" where
  "odd_space c \<longleftrightarrow> is_space c \<and> c \<noteq> CHR '' '' \<and> c \<noteq> tab \<and> c \<noteq> newline"

definition word :: "string \<Rightarrow> bool" where
  "word w \<longleftrightarrow> w \<noteq> [] \<and> (\<forall>c\<in>set w. \<not> is_space c)"

definition entry_ok :: "mount_entry \<Rightarrow> bool" where
  "entry_ok e = (case e of (dev, mp, ty, rest) \<Rightarrow>
     word dev \<and> mp \<noteq> [] \<and> (\<forall>c\<in>set mp. \<not> odd_space c) \<and> word ty \<and> newline \<notin> set rest)"

definition kernel_line :: "mount_entry \<Rightarrow> string" where
  "kernel_line e = (case e of (dev, mp, ty, rest) \<Rightarrow> dev @ '' '' @ escapeMountField mp @ '' '' @ ty @ '' '' @ rest)"

definition kernel_table :: "mount_entry list \<Rightarrow> string" where
  "kernel_table es = concat (map (\<lambda>e. kernel_line e @ [newline]) es)"

lemma escape_word: "mp \<noteq> [] \<Longrightarrow> \<forall>c\<in>set mp. \<not> odd_space c \<Longrightarrow> word (escapeMountField mp)"
proof -
  assume a: "mp \<noteq> []" "\<forall>c\<in>set mp. \<not> odd_space c"
  have "\<not> is_space x" if "x \<in> set (escape_char c)" "\<not> odd_space c" for x c
    using that by (auto simp: escape_char_def odd_space_def backslash_def tab_def newline_def is_space_def split: if_splits)
  then show ?thesis using a by (auto simp: word_def escapeMountField_Nil escapeMountField_def)
qed

lemma fields_of_kernel_line:
  assumes "entry_ok (dev, mp, ty, rest)"
  shows "fields_of (kernel_line (dev, mp, ty, rest)) = dev # escapeMountField mp # ty # fields_of rest"
    and "newline \<notin> set (kernel_line (dev, mp, ty, rest))"
proof -
  have w: "word dev" "word (escapeMountField mp)" "word ty" using assms escape_word by (auto simp: entry_ok_def)
  have sp: "is_space (CHR '' '')" by (simp add: is_space_def)
  have f: "fields_of (w @ CHR '' '' # s) = w # fields_of s" if "word w" for w s
    using fields_of_word_space [OF _ _ sp, of w s] that by (simp add: word_def)
  show "fields_of (kernel_line (dev, mp, ty, rest)) = dev # escapeMountField mp # ty # fields_of rest"
    using w by (simp add: kernel_line_def f)
  have "newline \<notin> set w" if "word w" for w using that by (auto simp: word_def)
  then show "newline \<notin> set (kernel_line (dev, mp, ty, rest))"
    using w assms by (auto simp: kernel_line_def entry_ok_def newline_def)
qed

lemma split_on_table:
  "\<forall>l\<in>set ls. c \<notin> set l \<Longrightarrow> split_on c (concat (map (\<lambda>l. l @ [c]) ls)) = ls @ [[]]"
  by (induction ls) (simp_all add: split_on_append_sep)

lemma kernel_table_lines: "list_all entry_ok es \<Longrightarrow> split_on newline (kernel_table es) = map kernel_line es @ [[]]"
proof -
  assume "list_all entry_ok es"
  then have "\<forall>l\<in>set (map kernel_line es). newline \<notin> set l"
    using fields_of_kernel_line(2) by (fastforce simp: list_all_iff)
  then show ?thesis using split_on_table [of "map kernel_line es" newline] by (simp add: kernel_table_def comp_def)
qed



text \<open>A carriage return in the path is not escaped by the kernel and splits the field: never found.\<close>

lemma mountedAt_odd_space:
  assumes "c \<in> set mountpoint" and "odd_space c"
  shows "\<not> mountedAt text mountpoint"
proof
  assume "mountedAt text mountpoint"
  then obtain line where l: "3 \<le> length (fields_of line)" "fields_of line ! 1 = escapeMountField mountpoint"
    by (auto simp: mountedAt_def list_ex_iff Let_def)
  then have "\<forall>x\<in>set (escapeMountField mountpoint). \<not> is_space x"
    using fields_of_parts [of "fields_of line ! 1" line] by (metis One_nat_def Suc_leD Suc_le_eq nth_mem numeral_3_eq_3)
  moreover have "c \<in> set (escapeMountField mountpoint)"
    using assms by (force simp: escapeMountField_def escape_char_def odd_space_def is_space_def backslash_def)
  ultimately show False using assms(2) by (simp add: odd_space_def)
qed

section \<open>The loops end\<close>

text \<open>A clock that advances by a step between polls passes any deadline.\<close>

lemma clock_advances:
  assumes "\<And>n. clock n + d \<le> clock (Suc n)" and "0 \<le> (d::int)"
  shows "clock 0 + int n * d \<le> clock n"
proof (induction n)
  case (Suc n)
  then show ?case using assms(1) [of n] by (simp add: algebra_simps)
qed simp

text \<open>A poll loop that goes on only while a test holds stops at the first poll where it fails.\<close>

lemma first_stop:
  assumes "stop (n::nat)"
  obtains m where "m \<le> n" "stop m" "\<forall>k<m. \<not> stop k"
  using assms by (metis exists_least_iff linorder_not_le)

lemma unmount_loop_until:
  assumes "\<forall>k. n \<le> k \<and> k < m \<longrightarrow> (k \<noteq> 0 \<longrightarrow> clock k < deadline) \<and> snd (attempt k) \<and> \<not> notMounted (fst (attempt k)) \<and> isBusy (attempt k)"
    and "n \<le> m"
  shows "unmount_loop attempt clock deadline n = unmount_loop attempt clock deadline m"
  using assms(2,1)
proof (induction n rule: inc_induct)
  case (step k)
  have "unmount_loop attempt clock deadline k = unmount_loop attempt clock deadline (Suc k)"
    using step by (subst unmount_loop.simps) (auto simp: not_le)
  then show ?case using step by simp
qed simp

text \<open>\<open>unmount\<close> always ends, and gives up gently: with a clock that advances by the half second the loop
  sleeps, it returns within the wait; and it falls back to a lazy unmount only after the wait has
  passed with every single attempt refused as busy.
\<close>

theorem unmount_ends:
  assumes "\<And>n. clock n + 500000000 \<le> clock (Suc n)" and "0 \<le> wait"
  shows "\<exists>n r. unmount_loop attempt clock (clock 0 + wait) 0 = Some (n, r) \<and> int n * 500000000 \<le> wait + 500000000
    \<and> (r = GoLazy \<longrightarrow> 0 < n \<and> clock 0 + wait \<le> clock n \<and> (\<forall>k<n. isBusy (attempt k)))"
proof -
  let ?dl = "clock 0 + wait"
  let ?go = "\<lambda>k. (k \<noteq> 0 \<longrightarrow> clock k < ?dl) \<and> snd (attempt k) \<and> \<not> notMounted (fst (attempt k)) \<and> isBusy (attempt k)"
  let ?N = "Suc (nat (wait div 500000000))"
  have adv: "clock 0 + int n * 500000000 \<le> clock n" for n using clock_advances [of clock 500000000] assms(1) by simp
  have N: "int ?N = wait div 500000000 + 1" using assms(2) by (simp add: pos_imp_zdiv_nonneg_iff)
  have "wait \<le> int ?N * 500000000"
    unfolding N using mult_div_mod_eq [of 500000000 wait] pos_mod_bound [of 500000000 wait] by (simp add: algebra_simps)
  then have "\<not> ?go ?N" using adv [of ?N] by simp
  then obtain m where m: "m \<le> ?N" "\<not> ?go m" "\<forall>k<m. \<not> \<not> ?go k" by (rule first_stop)
  have u: "unmount_loop attempt clock ?dl 0 = unmount_loop attempt clock ?dl m"
    using m(3) by (intro unmount_loop_until) auto
  have b: "int m * 500000000 \<le> wait + 500000000"
  proof -
    have "int m \<le> 1 + wait div 500000000" using m(1) assms(2) by (simp add: pos_imp_zdiv_nonneg_iff)
    moreover have "500000000 * (wait div 500000000) \<le> wait"
      using mult_div_mod_eq [of 500000000 wait] pos_mod_sign [of 500000000 wait] by linarith
    ultimately show ?thesis by linarith
  qed
  have "\<exists>r. unmount_loop attempt clock ?dl m = Some (m, r) \<and> (r = GoLazy \<longrightarrow> m \<noteq> 0 \<and> ?dl \<le> clock m)"
    by (subst unmount_loop.simps) (use m(2) in \<open>auto simp: not_less\<close>)
  then obtain r where r: "unmount_loop attempt clock ?dl m = Some (m, r)" "r = GoLazy \<longrightarrow> m \<noteq> 0 \<and> ?dl \<le> clock m"
    by blast
  show ?thesis using u r b m(3) by (intro exI [of _ m] exI [of _ r]) auto
qed

theorem unmount_ends_witness:
  "\<exists>n r. unmount_loop (\<lambda>k. (''target is busy'', True)) (\<lambda>k. int k * 600000000) (0 + seconds 1) 0 = Some (n, r)"
  using unmount_ends [of "\<lambda>k. int k * 600000000" "seconds 1" "\<lambda>k. (''target is busy'', True)"] by auto

lemma poll_exit_until:
  assumes "\<forall>k. n \<le> k \<and> k < m \<longrightarrow> clock k < deadline \<and> alive k" and "n \<le> m"
  shows "poll_exit alive clock deadline n = poll_exit alive clock deadline m"
  using assms(2,1)
proof (induction n rule: inc_induct)
  case (step k)
  have "poll_exit alive clock deadline k = poll_exit alive clock deadline (Suc k)"
    using step by (subst poll_exit.simps) auto
  then show ?case using step by simp
qed simp

lemma poll_exit_ends:
  assumes adv: "\<And>n. clock n + 100000000 \<le> clock (Suc n)"
  shows "\<exists>x m. poll_exit alive clock deadline n = Some (x, m) \<and> n \<le> m \<and> (\<forall>k. n \<le> k \<and> k < m \<longrightarrow> alive k)
    \<and> (if x then clock m < deadline \<and> \<not> alive m else deadline \<le> clock m)"
proof -
  let ?stop = "\<lambda>k. n \<le> k \<and> \<not> (clock k < deadline \<and> alive k)"
  let ?N = "nat (deadline - clock n)"
  have "clock n + int j * 100000000 \<le> clock (n + j)" for j
    using clock_advances [of "\<lambda>j. clock (n + j)" 100000000 j] adv by simp
  from this [of ?N] have "deadline \<le> clock (n + ?N)" by linarith
  then have "?stop (n + ?N)" by simp
  then obtain m where m: "?stop m" "\<forall>k<m. \<not> ?stop k" using first_stop [of ?stop] by metis
  have u: "poll_exit alive clock deadline n = poll_exit alive clock deadline m"
    using m by (intro poll_exit_until) auto
  show ?thesis
    unfolding u using m by (subst poll_exit.simps) (auto simp: not_less)
qed

text \<open>C34. The previous daemon is stopped, and only killed as a last resort: the call returns; it signals
  nothing when no daemon runs or when the daemon found is this process; and SIGKILL follows only
  when the process still answered at every poll of at least five seconds after SIGTERM.
\<close>

theorem stopPreviousDaemon_gentle:
  assumes "\<And>n. clock n + 100000000 \<le> clock (Suc n)"
  shows "\<exists>sigs. stopPreviousDaemon (pid, mountpoint, running) self term_ok alive clock = Some sigs
    \<and> ((\<not> running \<or> pid = self) \<longrightarrow> sigs = [])
    \<and> (SIGKILL \<in> set sigs \<longrightarrow> running \<and> pid \<noteq> self \<and> sigs = [SIGTERM, SIGKILL]
         \<and> (\<exists>n. clock 0 + seconds 5 \<le> clock n \<and> (\<forall>k\<le>n. alive k)))"
proof -
  obtain x m where p: "poll_exit alive clock (clock 0 + seconds 5) 0 = Some (x, m)" "\<forall>k<m. alive k"
    "if x then clock m < clock 0 + seconds 5 \<and> \<not> alive m else clock 0 + seconds 5 \<le> clock m"
    using poll_exit_ends [of clock alive "clock 0 + seconds 5" 0] assms by auto
  obtain y k where q: "poll_exit alive clock (clock (Suc m) + seconds 2) (Suc m) = Some (y, k)"
    using poll_exit_ends [of clock alive "clock (Suc m) + seconds 2" "Suc m"] assms by auto
  have "\<forall>k\<le>m. alive k" if "alive m" using p(2) that by (metis le_neq_implies_less)
  then show ?thesis
    using p q by (cases x) (auto simp: stopPreviousDaemon_def)
qed

theorem stopPreviousDaemon_gentle_witness:
  "\<exists>sigs. stopPreviousDaemon (42, ''/m'', True) 7 True (\<lambda>_. True) (\<lambda>k. int k * 100000000) = Some sigs"
  using stopPreviousDaemon_gentle [of "\<lambda>k. int k * 100000000" 42 "''/m''" True 7 True "\<lambda>_. True"] by auto

text \<open>Waiting for the background mount ends too, with the table's word on success.\<close>

lemma mount_wait_until:
  assumes "\<forall>k. n \<le> k \<and> k < m \<longrightarrow> \<not> seen k \<and> \<not> exited k \<and> clock k \<le> deadline" and "n \<le> m"
  shows "mount_wait seen exited clock deadline n = mount_wait seen exited clock deadline m"
  using assms(2,1)
proof (induction n rule: inc_induct)
  case (step k)
  have "mount_wait seen exited clock deadline k = mount_wait seen exited clock deadline (Suc k)"
    using step by (subst mount_wait.simps) (auto simp: not_less)
  then show ?case using step by simp
qed simp

text \<open>A background mount reports the truth: with a clock that advances, the launcher returns, and it
  reports success exactly when the mount table showed the mount at some poll before the child had
  exited or thirty seconds had passed.
\<close>

theorem mountDetached_reports:
  assumes "\<And>n. clock n + 200000000 \<le> clock (Suc n)"
  shows "\<exists>r. mountDetached mounts exited clock cwd mountpoint = Some r \<and>
    (r = 0 \<longleftrightarrow> (\<exists>n. (\<exists>t. mounts n = Some t \<and> mountedAt t (absOrSelf cwd mountpoint))
        \<and> (\<forall>k<n. \<not> exited k \<and> clock k \<le> clock 0 + seconds 30)))"
proof -
  let ?dl = "clock 0 + seconds 30"
  let ?seen = "\<lambda>n. case mounts n of None \<Rightarrow> False | Some t \<Rightarrow> mountedAt t (absOrSelf cwd mountpoint)"
  let ?stop = "\<lambda>k. \<not> (\<not> ?seen k \<and> \<not> exited k \<and> clock k \<le> ?dl)"
  have adv: "clock 0 + int n * 200000000 \<le> clock n" for n using clock_advances [of clock 200000000] assms by simp
  have "?stop 151" using adv [of 151] by simp
  then obtain m where m: "m \<le> 151" "?stop m" "\<forall>k<m. \<not> ?stop k" by (rule first_stop)
  have u: "mount_wait ?seen exited clock ?dl 0 = mount_wait ?seen exited clock ?dl m"
    using m(3) by (intro mount_wait_until) auto
  have fin: "mount_wait ?seen exited clock ?dl m = Some (m, if ?seen m then MountSeen else if exited m then MountExited else MountTimedOut)"
    using m(2) by (subst mount_wait.simps) auto
  have iff: "?seen m \<longleftrightarrow> (\<exists>n. ?seen n \<and> (\<forall>k<n. \<not> exited k \<and> clock k \<le> ?dl))"
  proof
    assume "\<exists>n. ?seen n \<and> (\<forall>k<n. \<not> exited k \<and> clock k \<le> ?dl)"
    then obtain n where n: "?seen n" "\<forall>k<n. \<not> exited k \<and> clock k \<le> ?dl" by blast
    have "\<not> n < m" using n(1) m(3) by blast
    then show "?seen m" using m(2) n by (cases "n = m") (auto simp: not_less)
  qed (use m(3) in blast)
  have "mountDetached mounts exited clock cwd mountpoint = Some (if ?seen m then 0 else 1)"
    unfolding mountDetached_def u fin by simp
  moreover have "?seen n \<longleftrightarrow> (\<exists>t. mounts n = Some t \<and> mountedAt t (absOrSelf cwd mountpoint))" for n
    by (auto split: option.splits)
  ultimately show ?thesis using iff by auto
qed

theorem mountDetached_reports_witness:
  "\<exists>r. mountDetached (\<lambda>_. None) (\<lambda>_. True) (\<lambda>k. int k * 200000000) None ''/m'' = Some r"
  using mountDetached_reports [of "\<lambda>k. int k * 200000000" "\<lambda>_. None" "\<lambda>_. True" None "''/m''"] by auto

end
