(* ===== verification/Cmd_Autostart.thy ===== *)
theory Cmd_Autostart
  imports Cmd_Mount
begin

text \<open>
  Starting with the session (cmd/proton-drive-fs/autostart.go): the systemd user unit the binary
  embeds, the unit rendered for this binary, where it is installed, the \<open>autostart\<close> command and its
  undoing. systemctl and loginctl are what each run of them reports.
\<close>

section \<open>The unit\<close>

definition unit_lines :: "string list \<Rightarrow> string" where
  "unit_lines ls = concat (map (\<lambda>l. l @ [newline]) ls)"

text \<open>proton-drive-fs.service, embedded.\<close>

definition unitTemplate :: string where
  "unitTemplate = unit_lines [
     ''[Unit]'',
     ''Description=Proton Drive FS (mount + tray)'',
     ''# The key password lives in the OS keyring, which is only unlockable once the'',
     ''# graphical session is up; starting earlier exhausts the restart limit.'',
     ''# No PartOf: some desktops restart graphical-session.target on suspend or lock,'',
     ''# and that would take the mount down with it.'',
     ''# \"proton-drive-fs autostart -headless\" retargets this to default.target.'',
     ''After=network-online.target graphical-session.target'',
     ''ConditionPathExists=%h/.config/proton-drive-fs/session.json'',
     ''StartLimitIntervalSec=60'',
     ''StartLimitBurst=3'',
     [],
     ''[Service]'',
     ''Type=simple'',
     ''# The mount daemon shows a system tray icon automatically when a display server'',
     ''# is available; pass -no-tray to disable it.'',
     ''ExecStart=@BINDIR@/proton-drive-fs mount -foreground'',
     ''ExecStop=@BINDIR@/proton-drive-fs unmount'',
     ''Restart=on-failure'',
     ''RestartSec=5s'',
     [],
     ''[Install]'',
     ''WantedBy=graphical-session.target'']"

definition systemUnitPath :: string where "systemUnitPath = ''/usr/lib/systemd/user/proton-drive-fs.service''"
definition systemBinPath :: string where "systemBinPath = ''/usr/bin/proton-drive-fs''"

definition renderUnit :: "string \<Rightarrow> bool \<Rightarrow> string" where
  "renderUnit exe headless =
     (let unit' = replace_all ''@BINDIR@/proton-drive-fs'' exe unitTemplate
      in if \<not> headless then unit' else replace_first ''WantedBy=graphical-session.target'' ''WantedBy=default.target'' unit')"

definition userUnitPath :: "string option \<Rightarrow> string option" where
  "userUnitPath configDir = map_option (\<lambda>d. path_join [d, ''systemd'', ''user'', ''proton-drive-fs.service'']) configDir"

section \<open>Installing it\<close>

text \<open>\<open>as_exe\<close> is the binary's path with its links resolved, \<open>None\<close> when either call fails.\<close>

record autostart_world =
  as_configDir :: "string option"
  as_exe :: "string option"
  as_files :: "string \<Rightarrow> string option"
  as_removeFails :: bool
  as_mkdirFails :: bool
  as_write :: write_outcome

definition remove_unit :: "string \<Rightarrow> autostart_world \<Rightarrow> bool \<times> autostart_world" where
  "remove_unit path w =
     (if as_files w path = None then (True, w)
      else if as_removeFails w then (False, w)
      else (True, w\<lparr>as_files := (as_files w)(path := None)\<rparr>))"

definition installUnit :: "bool \<Rightarrow> autostart_world \<Rightarrow> bool \<times> autostart_world" where
  "installUnit headless w =
     (case userUnitPath (as_configDir w) of
        None \<Rightarrow> (False, w)
      | Some path \<Rightarrow>
          (case as_exe w of
             None \<Rightarrow> (False, w)
           | Some exe \<Rightarrow>
               if as_files w systemUnitPath \<noteq> None \<and> exe = systemBinPath \<and> \<not> headless then remove_unit path w
               else if as_mkdirFails w then (False, w)
               else (case as_write w of
                       Written \<Rightarrow> (True, w\<lparr>as_files := (as_files w)(path \<mapsto> renderUnit exe headless)\<rparr>)
                     | NotOpened \<Rightarrow> (False, w)
                     | Cut part \<Rightarrow> (False, w\<lparr>as_files := (as_files w)(path \<mapsto> part)\<rparr>))))"

text \<open>The commands run, in order: systemctl with its arguments, or loginctl.\<close>

datatype unit_call = Systemctl "string list" | EnableLinger

definition systemctl :: "string list \<Rightarrow> string list" where
  "systemctl args = [''systemctl'', ''--user''] @ args"

fun run_steps :: "(string list \<Rightarrow> bool) \<Rightarrow> string list list \<Rightarrow> unit_call list \<times> bool" where
  "run_steps works [] = ([], True)"
| "run_steps works (step # steps) =
     (if works (systemctl step) then (case run_steps works steps of (cs, r) \<Rightarrow> (Systemctl step # cs, r))
      else ([Systemctl step], False))"

definition removeAutostart :: "(string list \<Rightarrow> bool) \<Rightarrow> autostart_world \<Rightarrow> (int \<times> unit_call list) \<times> autostart_world" where
  "removeAutostart works w =
     (let disable = [''disable'', ''--now'', ''proton-drive-fs'']
      in case userUnitPath (as_configDir w) of
           None \<Rightarrow> ((1, [Systemctl disable]), w)
         | Some path \<Rightarrow>
             (case remove_unit path w of
                (False, w1) \<Rightarrow> ((1, [Systemctl disable]), w1)
              | (True, w1) \<Rightarrow>
                  ((if works (systemctl [''daemon-reload'']) then 0 else 1, [Systemctl disable, Systemctl [''daemon-reload'']]), w1)))"

definition autostartFlags :: flag_set where
  "autostartFlags = [(''headless'', TBool, VBool False), (''remove'', TBool, VBool False)]"

definition runAutostart :: "scanners \<Rightarrow> (string list \<Rightarrow> bool) \<Rightarrow> string list \<Rightarrow> autostart_world \<Rightarrow> (int \<times> unit_call list) \<times> autostart_world" where
  "runAutostart sc works args w =
     (case parse_flags sc autostartFlags args [] of
        Inl e \<Rightarrow> ((2, []), w)
      | Inr (actual, rest) \<Rightarrow>
          (let headless = the (as_bool (the (flag_value autostartFlags actual ''headless'')));
               remove = the (as_bool (the (flag_value autostartFlags actual ''remove'')))
           in if rest \<noteq> [] \<or> headless \<and> remove then ((2, []), w)
              else if remove then removeAutostart works w
              else (case installUnit headless w of
                      (False, w1) \<Rightarrow> ((1, []), w1)
                    | (True, w1) \<Rightarrow>
                        (case run_steps works [[''daemon-reload''], [''reenable'', ''proton-drive-fs''], [''restart'', ''proton-drive-fs'']] of
                           (cs, False) \<Rightarrow> ((1, cs), w1)
                         | (cs, True) \<Rightarrow> ((0, cs @ (if headless then [EnableLinger] else [])), w1)))))"

section \<open>What is installed\<close>

text \<open>The template around the two places the binary's path goes.\<close>

definition unit_top :: string where
  "unit_top = unit_lines [''[Unit]'', ''Description=Proton Drive FS (mount + tray)'', ''# The key password lives in the OS keyring, which is only unlockable once the'', ''# graphical session is up; starting earlier exhausts the restart limit.'', ''# No PartOf: some desktops restart graphical-session.target on suspend or lock,'', ''# and that would take the mount down with it.'', ''# \"proton-drive-fs autostart -headless\" retargets this to default.target.'', ''After=network-online.target graphical-session.target'', ''ConditionPathExists=%h/.config/proton-drive-fs/session.json'', ''StartLimitIntervalSec=60'', ''StartLimitBurst=3'', [], ''[Service]'', ''Type=simple'', ''# The mount daemon shows a system tray icon automatically when a display server''] @ ''# is available; pass -no-tray to disable it.''"

definition unit_head :: string where
  "unit_head = unit_top @ newline # ''ExecStart=''"

definition unit_middle :: string where
  "unit_middle = unit_lines ['' mount -foreground''] @ ''ExecStop=''"

definition unit_tail :: "string \<Rightarrow> string" where
  "unit_tail target = unit_lines ['' unmount'', ''Restart=on-failure'', ''RestartSec=5s'', [], ''[Install]'', ''WantedBy='' @ target]"

lemma replace_all_run: "old \<noteq> [] \<Longrightarrow> hd old \<notin> set a \<Longrightarrow> replace_all old new (a @ s) = a @ replace_all old new s"
proof (induction a)
  case (Cons x a)
  then have "x \<noteq> hd old" by auto
  from replace_all_skip [OF Cons.prems(1) this] show ?case using Cons by simp
qed simp

lemma unit_parts: "unitTemplate = unit_head @ ''@BINDIR@/proton-drive-fs'' @ unit_middle @ ''@BINDIR@/proton-drive-fs'' @ unit_tail ''graphical-session.target''"
  by code_simp

lemma unit_no_at: "CHR ''@'' \<notin> set unit_head" "CHR ''@'' \<notin> set unit_middle" "CHR ''@'' \<notin> set (unit_tail ''graphical-session.target'')"
  by code_simp+

lemma render_graphical: "renderUnit exe False = unit_head @ exe @ unit_middle @ exe @ unit_tail ''graphical-session.target''"
proof -
  let ?old = "''@BINDIR@/proton-drive-fs''" and ?tail = "unit_tail ''graphical-session.target''"
  have h: "?old \<noteq> []" "hd ?old = CHR ''@''" by simp_all
  note run = replace_all_run [of ?old, OF h(1), unfolded h(2)]
  have "replace_all ?old exe (unit_head @ ?old @ unit_middle @ ?old @ ?tail) = unit_head @ exe @ unit_middle @ exe @ replace_all ?old exe ?tail"
    by (simp only: run [OF unit_no_at(1)] run [OF unit_no_at(2)] replace_all_hit [OF h(1)])
  also have "replace_all ?old exe ?tail = ?tail" using run [OF unit_no_at(3), of exe "[]"] by (simp add: replace_all.simps)
  finally show ?thesis by (simp only: renderUnit_def unit_parts Let_def) simp
qed

text \<open>A text that cannot run across a character it does not hold is looked for on each side of it.\<close>

lemma replace_first_skip:
  assumes "c \<notin> set old" "\<not> sublist old a" "old \<noteq> []"
  shows "replace_first old new (a @ c # s) = a @ c # replace_first old new s"
  using assms(2)
proof (induction a)
  case Nil
  then show ?case using assms by (cases old) auto
next
  case (Cons x a)
  have "\<not> prefix old ((x # a) @ c # s)"
  proof
    assume p: "prefix old ((x # a) @ c # s)"
    then consider "prefix old (x # a)" | z where "old = (x # a) @ z" "prefix z (c # s)" "z \<noteq> []"
      by (metis append_Nil2 prefix_append prefix_order.dual_order.refl)
    then show False
    proof cases
      case 1 then show ?thesis using Cons.prems prefix_imp_sublist by blast
    next
      case 2 then show ?thesis using assms(1) by (cases z) auto
    qed
  qed
  then show ?case using Cons by (auto simp: sublist_Cons_right)
qed

lemma replace_first_hit: "old \<noteq> [] \<Longrightarrow> replace_first old new (old @ s) = new @ s"
  by (cases old) auto

lemma sublist_skip: "old \<noteq> [] \<Longrightarrow> x \<noteq> hd old \<Longrightarrow> sublist old (x # s) = sublist old s"
  by (cases old) (auto simp: sublist_Cons_right)

lemma sublist_without: "x \<in> set old \<Longrightarrow> x \<notin> set s \<Longrightarrow> \<not> sublist old s"
  using set_mono_sublist by blast

lemma unit_top_W: "CHR ''W'' \<notin> set unit_top"
  by (simp add: unit_top_def unit_lines_def newline_def)

lemma unit_top_clean: "\<not> sublist ''WantedBy=graphical-session.target'' unit_top"
  by (rule sublist_without [OF _ unit_top_W]) simp

text \<open>The unit runs this very binary to mount and to unmount, starts with the graphical session, or with the machine when
  headless, and nothing else of it depends on either.
\<close>

theorem renderUnit_runs_this:
  assumes "\<not> sublist ''WantedBy=graphical-session.target'' exe"
  shows "renderUnit exe headless = unit_head @ exe @ unit_middle @ exe
      @ unit_tail (if headless then ''default.target'' else ''graphical-session.target'')"
proof (cases headless)
  case True
  let ?old = "''WantedBy=graphical-session.target''" and ?new = "''WantedBy=default.target''"
  let ?foot = "unit_lines ['' unmount'', ''Restart=on-failure'', ''RestartSec=5s'', [], ''[Install]'']"
  have ne: "?old \<noteq> []" "CHR '' '' \<notin> set ?old" "newline \<notin> set ?old" by (simp_all add: newline_def)
  have e1: "\<not> sublist ?old (''ExecStart='' @ exe)" "\<not> sublist ?old (''ExecStop='' @ exe)"
    using assms by (simp_all add: sublist_skip)
  have m: "unit_middle = CHR '' '' # ''mount -foreground'' @ newline # ''ExecStop=''" by code_simp
  have t: "unit_tail x = CHR '' '' # ''unmount'' @ newline # ''Restart=on-failure'' @ newline # ''RestartSec=5s'' @ newline # newline # ''[Install]'' @ newline
      # ''WantedBy='' @ x @ [newline]" for x
    by (simp add: unit_tail_def unit_lines_def)
  have clean: "\<not> sublist ?old ''mount -foreground''" "\<not> sublist ?old ''unmount''" "\<not> sublist ?old ''Restart=on-failure''" "\<not> sublist ?old ''RestartSec=5s''"
    "\<not> sublist ?old []" "\<not> sublist ?old ''[Install]''"
    by (rule sublist_without [of "CHR ''W''"]; simp)+
  note sk = replace_first_skip [OF ne(3) _ ne(1)] replace_first_skip [OF ne(2) _ ne(1)]
  have "renderUnit exe True = replace_first ?old ?new (renderUnit exe False)" by (simp add: renderUnit_def Let_def)
  also have "renderUnit exe False = unit_top @ newline # (''ExecStart='' @ exe) @ CHR '' '' # ''mount -foreground'' @ newline
      # (''ExecStop='' @ exe) @ CHR '' '' # ''unmount'' @ newline # ''Restart=on-failure'' @ newline # ''RestartSec=5s'' @ newline # [] @ newline # ''[Install]'' @ newline
      # ?old @ [newline]"
    by (simp add: render_graphical unit_head_def m t)
  also have "replace_first ?old ?new \<dots> = unit_top @ newline # (''ExecStart='' @ exe) @ CHR '' '' # ''mount -foreground'' @ newline
      # (''ExecStop='' @ exe) @ CHR '' '' # ''unmount'' @ newline # ''Restart=on-failure'' @ newline # ''RestartSec=5s'' @ newline # [] @ newline # ''[Install]'' @ newline
      # ?new @ [newline]"
    by (simp only: sk unit_top_clean e1 clean replace_first_hit [OF ne(1)] not_False_eq_True simp_thms)
  finally show ?thesis using True by (simp add: unit_head_def m t)
qed (simp add: render_graphical)

theorem renderUnit_runs_this_witness:
  "renderUnit ''/opt/pdfs'' True = unit_head @ ''/opt/pdfs'' @ unit_middle @ ''/opt/pdfs'' @ unit_tail ''default.target''"
proof -
  have "\<not> sublist ''WantedBy=graphical-session.target'' ''/opt/pdfs''" by code_simp
  from renderUnit_runs_this [OF this, of True] show ?thesis by simp
qed

section \<open>After the command\<close>

text \<open>The unit systemd loads: the user's copy hides the packaged one.\<close>

definition loaded_unit :: "autostart_world \<Rightarrow> string \<Rightarrow> string option" where
  "loaded_unit w path = (case as_files w path of Some u \<Rightarrow> Some u | None \<Rightarrow> as_files w systemUnitPath)"

lemma installUnit_loads:
  assumes "installUnit headless w = (True, w')" "userUnitPath (as_configDir w) = Some path" "path \<noteq> systemUnitPath"
  shows "\<exists>exe. as_exe w = Some exe
    \<and> (loaded_unit w' path = Some (renderUnit exe headless)
       \<or> exe = systemBinPath \<and> \<not> headless \<and> loaded_unit w' path = as_files w systemUnitPath \<and> as_files w systemUnitPath \<noteq> None)"
  using assms by (auto simp: installUnit_def loaded_unit_def remove_unit_def split: option.splits if_splits write_outcome.splits)

lemma run_steps_all: "run_steps works steps = (cs, True) \<Longrightarrow> cs = map Systemctl steps \<and> (\<forall>s\<in>set steps. works (systemctl s))"
  by (induction steps arbitrary: cs) (auto split: if_splits prod.splits)


definition demo_autostart :: autostart_world where
  "demo_autostart = \<lparr>as_configDir = Some ''/c'', as_exe = Some ''/opt/pdfs'', as_files = Map.empty, as_removeFails = False,
     as_mkdirFails = False, as_write = Written\<rparr>"


end
