(* ===== verification/Auth_Session.thy ===== *)
theory Auth_Session
  imports Config_Load
begin

text \<open>
  Signing in and the saved session (internal/auth/auth.go, internal/auth/hv.go): the calls of a login in
  order, the session file with the key password in the OS keyring or, failing that, in the file, the
  restored client, logging out, the tray's check, and the parts of human verification. Proton's API,
  the JSON codec and the keyring service are parameters; base64 and the query encoding are written out.
\<close>

unbundle bit_operations_syntax

section \<open>Base64\<close>

definition b64_alphabet :: string where
  "b64_alphabet = ''ABCDEFGHIJKLMNOPQRSTUVWXYZabcdefghijklmnopqrstuvwxyz0123456789+/''"

definition b64_char :: "nat \<Rightarrow> char" where
  "b64_char n = b64_alphabet ! n"

fun char_index :: "char \<Rightarrow> string \<Rightarrow> nat option" where
  "char_index c [] = None"
| "char_index c (x # xs) = (if x = c then Some 0 else map_option Suc (char_index c xs))"

definition b64_val :: "char \<Rightarrow> nat option" where
  "b64_val c = char_index c b64_alphabet"

fun b64_encode :: "bytes \<Rightarrow> string" where
  "b64_encode [] = []"
| "b64_encode [a] = [b64_char (unat a div 4), b64_char (unat a mod 4 * 16), CHR ''='', CHR ''='']"
| "b64_encode [a, b] = [b64_char (unat a div 4), b64_char (unat a mod 4 * 16 + unat b div 16), b64_char (unat b mod 16 * 4), CHR ''='']"
| "b64_encode (a # b # c # r) =
     [b64_char (unat a div 4), b64_char (unat a mod 4 * 16 + unat b div 16),
      b64_char (unat b mod 16 * 4 + unat c div 64), b64_char (unat c mod 64)] @ b64_encode r"

definition b64_byte :: "nat \<Rightarrow> 8 word" where
  "b64_byte n = of_nat n"

fun b64_quads :: "string \<Rightarrow> bytes option" where
  "b64_quads [] = Some []"
| "b64_quads (a # b # c # d # r) =
     (case (b64_val a, b64_val b) of
        (Some x, Some y) \<Rightarrow>
          if c = CHR ''='' \<and> d = CHR ''='' \<and> r = [] then Some [b64_byte (x * 4 + y div 16)]
          else (case b64_val c of
                  None \<Rightarrow> None
                | Some z \<Rightarrow>
                    if d = CHR ''='' \<and> r = [] then Some [b64_byte (x * 4 + y div 16), b64_byte (y mod 16 * 16 + z div 4)]
                    else (case (b64_val d, b64_quads r) of
                            (Some w, Some bs) \<Rightarrow>
                              Some (b64_byte (x * 4 + y div 16) # b64_byte (y mod 16 * 16 + z div 4) # b64_byte (z mod 4 * 64 + w) # bs)
                          | _ \<Rightarrow> None))
      | _ \<Rightarrow> None)"
| "b64_quads _ = None"

definition b64_decode :: "string \<Rightarrow> bytes option" where
  "b64_decode s = b64_quads (filter (\<lambda>c. c \<noteq> CHR 0x0D \<and> c \<noteq> CHR 0x0A) s)"

section \<open>Logging in\<close>

record session =
  sn_username :: string
  sn_uid :: string
  sn_access :: string
  sn_refresh :: string
  sn_keyPass :: bytes
  sn_keyPassFile :: bytes

record auth_reply =
  au_uid :: string
  au_access :: string
  au_refresh :: string
  au_twoPassword :: bool
  au_twoFA :: int

definition hasTOTP :: int where "hasTOTP = 1"

datatype login_call = CallLogin | CallTotp | Call2FA string | CallUser | CallSalts | CallClose

record login_api =
  la_login :: "string \<Rightarrow> bytes \<Rightarrow> go_error + auth_reply"
  la_2fa :: "string \<Rightarrow> go_error option"
  la_user :: "go_error + string"
  la_salts :: "go_error + (bytes \<Rightarrow> string \<Rightarrow> go_error + bytes)"

section \<open>Human verification\<close>

record human_verification =
  hv_token :: string
  hv_methods :: "string list"

text \<open>\<open>json.Unmarshal\<close> matches field names without regard to case, leaves a field alone on null and fails on another type.\<close>

fun json_strings :: "json list \<Rightarrow> string list option" where
  "json_strings [] = Some []"
| "json_strings (JStr s # js) = map_option ((#) s) (json_strings js)"
| "json_strings (JNull # js) = map_option ((#) []) (json_strings js)"
| "json_strings (_ # js) = None"

fun hv_field :: "human_verification \<Rightarrow> string \<Rightarrow> json \<Rightarrow> human_verification option" where
  "hv_field h k v =
     (if to_lower k = to_lower ''HumanVerificationToken'' then
        (case v of JStr s \<Rightarrow> Some (h\<lparr>hv_token := s\<rparr>) | JNull \<Rightarrow> Some h | _ \<Rightarrow> None)
      else if to_lower k = to_lower ''HumanVerificationMethods'' then
        (case v of JArr js \<Rightarrow> map_option (\<lambda>ms. h\<lparr>hv_methods := ms\<rparr>) (json_strings js)
                 | JNull \<Rightarrow> Some (h\<lparr>hv_methods := []\<rparr>) | _ \<Rightarrow> None)
      else Some h)"

fun hv_fields :: "human_verification \<Rightarrow> (string \<times> json) list \<Rightarrow> human_verification option" where
  "hv_fields h [] = Some h"
| "hv_fields h ((k, v) # kvs) = (case hv_field h k v of None \<Rightarrow> None | Some h1 \<Rightarrow> hv_fields h1 kvs)"

definition parseHVDetails :: "json \<Rightarrow> human_verification option" where
  "parseHVDetails j =
     (case (case j of
              JObj kvs \<Rightarrow> hv_fields \<lparr>hv_token = [], hv_methods = []\<rparr> kvs
            | JNull \<Rightarrow> Some \<lparr>hv_token = [], hv_methods = []\<rparr>
            | _ \<Rightarrow> None) of
        None \<Rightarrow> None
      | Some h \<Rightarrow> if hv_token h = [] then None else Some h)"

definition asHumanVerification :: "go_error \<Rightarrow> human_verification option" where
  "asHumanVerification e =
     (case first_ptr (chain e) of
        None \<Rightarrow> None
      | Some a \<Rightarrow> if ae_code a \<noteq> codeHumanVerification then None else parseHVDetails (ae_details a))"

definition verifyOrigin :: string where "verifyOrigin = ''https://verify.proton.me''"

text \<open>\<open>url.QueryEscape\<close>.\<close>

definition query_plain :: "char \<Rightarrow> bool" where
  "query_plain c \<longleftrightarrow> (let n = of_char c :: nat in 48 \<le> n \<and> n \<le> 57 \<or> 65 \<le> n \<and> n \<le> 90 \<or> 97 \<le> n \<and> n \<le> 122) \<or> c \<in> set ''-_.~''"

definition query_char :: "char \<Rightarrow> string" where
  "query_char c =
     (if query_plain c then [c] else if c = CHR '' '' then ''+''
      else [CHR ''%'', ''0123456789ABCDEF'' ! (of_char c div 16), ''0123456789ABCDEF'' ! (of_char c mod 16)])"

definition query_escape :: "string \<Rightarrow> string" where
  "query_escape s = concat (map query_char s)"

definition CaptchaURL :: "string \<Rightarrow> string" where
  "CaptchaURL token = verifyOrigin @ ''/?methods='' @ query_escape ''captcha'' @ ''&token='' @ query_escape token"

datatype token_type = EmailTokenType | SMSTokenType

record verification_req =
  vr_username :: string
  vr_type :: token_type
  vr_address :: string
  vr_phone :: string

definition RequestVerificationCode :: "string \<Rightarrow> string \<Rightarrow> string \<Rightarrow> verification_req" where
  "RequestVerificationCode username method destination =
     (let req = \<lparr>vr_username = username, vr_type = EmailTokenType, vr_address = destination, vr_phone = []\<rparr>
      in if method = ''sms'' then req\<lparr>vr_type := SMSTokenType, vr_address := [], vr_phone := destination\<rparr> else req)"

definition FormatCodeToken :: "string \<Rightarrow> string \<Rightarrow> string" where
  "FormatCodeToken destination code = filter (\<lambda>c. \<not> is_space c) (destination @ '':'' @ code)"

text \<open>The headers of a request: \<open>Header.Set\<close> replaces what its name had.\<close>

definition hv_round_trip :: "string \<Rightarrow> string \<Rightarrow> (string \<rightharpoonup> string list) \<Rightarrow> (string \<rightharpoonup> string list)" where
  "hv_round_trip method token headers =
     headers(''X-Pm-Human-Verification-Token-Type'' \<mapsto> [method], ''X-Pm-Human-Verification-Token'' \<mapsto> [token])"

section \<open>The login itself\<close>

datatype login_error = LoginHV human_verification | LoginFailed go_error

text \<open>\<open>totp\<close> is the caller's prompt, \<open>None\<close> for nil. The answer comes with the calls made; the deferred close is the last.\<close>

definition login_rest :: "login_api \<Rightarrow> string \<Rightarrow> bytes \<Rightarrow> auth_reply \<Rightarrow> login_call list \<Rightarrow> login_call list \<times> (login_error + session)" where
  "login_rest api username password a calls =
     (case la_user api of
        Inl e \<Rightarrow> (calls @ [CallUser, CallClose], Inl (LoginFailed e))
      | Inr keyID \<Rightarrow>
          (case la_salts api of
             Inl e \<Rightarrow> (calls @ [CallUser, CallSalts, CallClose], Inl (LoginFailed e))
           | Inr saltFor \<Rightarrow>
               (case saltFor password keyID of
                  Inl e \<Rightarrow> (calls @ [CallUser, CallSalts, CallClose], Inl (LoginFailed e))
                | Inr keyPass \<Rightarrow>
                    (calls @ [CallUser, CallSalts, CallClose],
                     Inr \<lparr>sn_username = username, sn_uid = au_uid a, sn_access = au_access a, sn_refresh = au_refresh a,
                          sn_keyPass = keyPass, sn_keyPassFile = []\<rparr>))))"

definition login :: "login_api \<Rightarrow> (go_error + string) option \<Rightarrow> string \<Rightarrow> bytes \<Rightarrow> login_call list \<times> (login_error + session)" where
  "login api totp username password =
     (case la_login api username password of
        Inl e \<Rightarrow>
          ([CallLogin], Inl (case asHumanVerification e of Some hv \<Rightarrow> LoginHV hv | None \<Rightarrow> LoginFailed e))
      | Inr a \<Rightarrow>
          if au_twoPassword a then ([CallLogin, CallClose], Inl (LoginFailed (ErrMsg ''two-password mode not supported'')))
          else if au_twoFA a AND hasTOTP \<noteq> 0 then
            (case totp of
               None \<Rightarrow> ([CallLogin, CallClose], Inl (LoginFailed (ErrMsg ''account requires a TOTP code'')))
             | Some (Inl e) \<Rightarrow> ([CallLogin, CallTotp, CallClose], Inl (LoginFailed e))
             | Some (Inr code) \<Rightarrow>
                 (case la_2fa api code of
                    Some e \<Rightarrow> ([CallLogin, CallTotp, Call2FA code, CallClose], Inl (LoginFailed e))
                  | None \<Rightarrow> login_rest api username password a [CallLogin, CallTotp, Call2FA code]))
          else login_rest api username password a [CallLogin])"

section \<open>The session file\<close>

text \<open>What the JSON file holds; an empty key password is left out of it.\<close>

record session_disk =
  sd_username :: string
  sd_uid :: string
  sd_access :: string
  sd_refresh :: string
  sd_keyPass :: bytes

definition keyringService :: string where "keyringService = ''proton-drive-fs''"

record auth_world =
  aw_configDir :: "string option"
  aw_files :: "string \<Rightarrow> string option"
  aw_ring :: "string \<times> string \<Rightarrow> string option"
  aw_ringFails :: bool
  aw_mkdirFails :: bool
  aw_write :: write_outcome
  aw_removeFails :: bool

definition sessionDir :: "auth_world \<Rightarrow> string option" where
  "sessionDir w = map_option (\<lambda>b. path_join [b, ''proton-drive-fs'']) (aw_configDir w)"

definition sessionPath :: "auth_world \<Rightarrow> string option" where
  "sessionPath w = map_option (\<lambda>d. path_join [d, ''session.json'']) (sessionDir w)"

definition ring_set :: "string \<Rightarrow> string \<Rightarrow> auth_world \<Rightarrow> bool \<times> auth_world" where
  "ring_set user v w =
     (if aw_ringFails w then (False, w) else (True, w\<lparr>aw_ring := (aw_ring w)((keyringService, user) \<mapsto> v)\<rparr>))"

definition keyringGet :: "string \<Rightarrow> auth_world \<Rightarrow> string option" where
  "keyringGet user w = (if aw_ringFails w then None else aw_ring w (keyringService, user))"

definition session_write :: "string \<Rightarrow> string \<Rightarrow> auth_world \<Rightarrow> bool \<times> auth_world" where
  "session_write path data w =
     (case aw_write w of
        Written \<Rightarrow> (True, w\<lparr>aw_files := (aw_files w)(path \<mapsto> data)\<rparr>)
      | NotOpened \<Rightarrow> (False, w)
      | Cut part \<Rightarrow> (False, w\<lparr>aw_files := (aw_files w)(path \<mapsto> part)\<rparr>))"

definition to_disk :: "session \<Rightarrow> bool \<Rightarrow> session_disk" where
  "to_disk s usedKeyring = \<lparr>sd_username = sn_username s, sd_uid = sn_uid s, sd_access = sn_access s, sd_refresh = sn_refresh s,
     sd_keyPass = (if usedKeyring then [] else sn_keyPass s)\<rparr>"

definition Save :: "(session_disk \<Rightarrow> string option) \<Rightarrow> session \<Rightarrow> auth_world \<Rightarrow> bool option \<times> auth_world" where
  "Save enc s w =
     (case sessionPath w of
        None \<Rightarrow> (None, w)
      | Some path \<Rightarrow>
          if aw_mkdirFails w then (None, w)
          else (case ring_set (sn_username s) (b64_encode (sn_keyPass s)) w of
                  (usedKeyring, w1) \<Rightarrow>
                    (case enc (to_disk s usedKeyring) of
                       None \<Rightarrow> (None, w1)
                     | Some data \<Rightarrow>
                         (case session_write path data w1 of
                            (ok, w2) \<Rightarrow> (if ok then Some usedKeyring else None, w2)))))"

datatype load_error = NoConfigDir | NoSessionFile | BadSessionFile | NoKeyPassword | BadKeyPassword

definition Load_session :: "(string \<Rightarrow> session_disk option) \<Rightarrow> auth_world \<Rightarrow> load_error + session" where
  "Load_session dec w =
     (case sessionPath w of
        None \<Rightarrow> Inl NoConfigDir
      | Some path \<Rightarrow>
          (case aw_files w path of
             None \<Rightarrow> Inl NoSessionFile
           | Some data \<Rightarrow>
               (case dec data of
                  None \<Rightarrow> Inl BadSessionFile
                | Some d \<Rightarrow>
                    (let s = \<lparr>sn_username = sd_username d, sn_uid = sd_uid d, sn_access = sd_access d, sn_refresh = sd_refresh d,
                              sn_keyPass = sd_keyPass d, sn_keyPassFile = sd_keyPass d\<rparr>
                     in if sn_keyPass s \<noteq> [] then Inr s
                        else (case keyringGet (sn_username s) w of
                                None \<Rightarrow> Inl NoKeyPassword
                              | Some encoded \<Rightarrow>
                                  (case b64_decode encoded of
                                     None \<Rightarrow> Inl BadKeyPassword
                                   | Some kp \<Rightarrow> Inr (s\<lparr>sn_keyPass := kp\<rparr>)))))))"

text \<open>The tray's check: the stamp is the file's modification time and size.\<close>

record logged_in_check =
  lc_checked :: bool
  lc_stamp :: "int \<times> int"
  lc_loggedIn :: bool

definition check_start :: logged_in_check where
  "check_start = \<lparr>lc_checked = False, lc_stamp = (0, 0), lc_loggedIn = False\<rparr>"

text \<open>One call, given whether the path is known, the file's stamp and what \<open>Load\<close> would say; the answer and whether \<open>Load\<close> ran.\<close>

definition LoggedInCheck :: "bool \<times> (int \<times> int) option \<times> bool \<Rightarrow> logged_in_check \<Rightarrow> (bool \<times> bool) \<times> logged_in_check" where
  "LoggedInCheck obs c =
     (case obs of (path, stat, load_ok) \<Rightarrow>
        if \<not> path then ((False, False), c)
        else (case stat of
                None \<Rightarrow> ((False, False), c\<lparr>lc_checked := False\<rparr>)
              | Some st \<Rightarrow>
                  if lc_checked c \<and> st = lc_stamp c then ((lc_loggedIn c, False), c)
                  else ((load_ok, True), \<lparr>lc_checked = True, lc_stamp = st, lc_loggedIn = load_ok\<rparr>)))"

fun check_run :: "(bool \<times> (int \<times> int) option \<times> bool) list \<Rightarrow> logged_in_check \<Rightarrow> (bool \<times> bool) list" where
  "check_run [] c = []"
| "check_run (ob # obs) c = (case LoggedInCheck ob c of (r, c1) \<Rightarrow> r # check_run obs c1)"

section \<open>The restored client\<close>

definition Tokens :: "session \<Rightarrow> string \<times> string" where
  "Tokens s = (sn_uid s, sn_access s)"

text \<open>The handler \<open>Client\<close> installs for refreshed tokens: the result of its \<open>Save\<close> is dropped.\<close>

definition auth_handler :: "(session_disk \<Rightarrow> string option) \<Rightarrow> string \<Rightarrow> string \<Rightarrow> session \<times> auth_world \<Rightarrow> session \<times> auth_world" where
  "auth_handler enc access refresh sw =
     (case sw of (s, w) \<Rightarrow>
        let s1 = s\<lparr>sn_access := access, sn_refresh := refresh\<rparr> in (s1, snd (Save enc s1 w)))"

record 'k auth_keys =
  ak_merged :: "'k list"
  ak_byAddressID :: "(string \<times> 'k list) list"
  ak_addresses :: "string list"

record 'k client_api =
  ca_user :: "go_error option"
  ca_addresses :: "go_error + string list"
  ca_unlock :: "bytes \<Rightarrow> go_error + (string \<times> 'k list) list"
  ca_newRing :: "go_error option"
  ca_addKey :: "'k \<Rightarrow> go_error option"

fun add_keys :: "('k \<Rightarrow> go_error option) \<Rightarrow> 'k list \<Rightarrow> 'k list \<Rightarrow> go_error + 'k list" where
  "add_keys add merged [] = Inr merged"
| "add_keys add merged (k # ks) = (case add k of Some e \<Rightarrow> Inl e | None \<Rightarrow> add_keys add (merged @ [k]) ks)"

text \<open>\<open>closed\<close> tells whether the API client was closed before the return; the address keyrings come in the order a map gives them.\<close>

definition Client :: "'k client_api \<Rightarrow> session \<Rightarrow> bool \<times> (go_error + 'k auth_keys)" where
  "Client api s =
     (case ca_user api of
        Some e \<Rightarrow> (True, Inl e)
      | None \<Rightarrow>
          (case ca_addresses api of
             Inl e \<Rightarrow> (True, Inl e)
           | Inr addrs \<Rightarrow>
               (case ca_unlock api (sn_keyPass s) of
                  Inl e \<Rightarrow> (True, Inl e)
                | Inr krs \<Rightarrow>
                    (case ca_newRing api of
                       Some e \<Rightarrow> (True, Inl e)
                     | None \<Rightarrow>
                         (case add_keys (ca_addKey api) [] (concat (map snd krs)) of
                            Inl e \<Rightarrow> (True, Inl e)
                          | Inr merged \<Rightarrow> (False, Inr \<lparr>ak_merged = merged, ak_byAddressID = krs, ak_addresses = addrs\<rparr>))))))"

text \<open>\<open>authErr\<close> is the answer of \<open>AuthDelete\<close>.\<close>

definition Logout :: "go_error option \<Rightarrow> session \<Rightarrow> auth_world \<Rightarrow> go_error option \<times> auth_world" where
  "Logout authErr s w =
     (let w1 = (if aw_ringFails w then w else w\<lparr>aw_ring := (aw_ring w)((keyringService, sn_username s) := None)\<rparr>)
      in case sessionPath w1 of
           None \<Rightarrow> (Some (ErrMsg ''no config directory''), w1)
         | Some path \<Rightarrow>
             if aw_removeFails w1 then (if authErr = None \<and> aw_files w1 path \<noteq> None then Some (ErrWrap ''remove'' (ErrNet ''errno'')) else authErr, w1)
             else (authErr, w1\<lparr>aw_files := (aw_files w1)(path := None)\<rparr>))"

section \<open>Base64 and query round trips\<close>

lemma b64_table:
  "list_all (\<lambda>n. b64_val (b64_char n) = Some n \<and> b64_char n \<noteq> CHR ''='' \<and> b64_char n \<noteq> CHR 0x0D \<and> b64_char n \<noteq> CHR 0x0A) [0..<64]"
  by code_simp

lemma b64_val_char: "n < 64 \<Longrightarrow> b64_val (b64_char n) = Some n"
  and b64_char_ne: "n < 64 \<Longrightarrow> b64_char n \<noteq> CHR ''=''"
  and b64_char_plain: "n < 64 \<Longrightarrow> b64_char n \<noteq> CHR 0x0D \<and> b64_char n \<noteq> CHR 0x0A"
  using b64_table by (auto simp: list_all_iff)

lemma byte_lt: "unat (a :: 8 word) < 256"
  by (rule order.strict_trans2 [OF unsigned_less]) simp

lemma byte_divs:
  fixes a :: "8 word"
  shows "unat a div 4 < 64" "unat a div 16 < 16" "unat a div 64 < 4"
  using byte_lt [of a] by (simp_all add: less_mult_imp_div_less)

lemma byte_parts:
  fixes a b c :: "8 word"
  shows "unat a div 4 < 64" "unat a mod 4 * 16 + unat b div 16 < 64" "unat b mod 16 * 4 + unat c div 64 < 64" "unat c mod 64 < 64"
    "unat a mod 4 * 16 < 64" "unat b mod 16 * 4 < 64"
proof -
  have "unat a mod 4 < 4" "unat b mod 16 < 16" "unat c mod 64 < 64" by simp_all
  then show "unat a div 4 < 64" "unat a mod 4 * 16 + unat b div 16 < 64" "unat b mod 16 * 4 + unat c div 64 < 64"
    "unat c mod 64 < 64" "unat a mod 4 * 16 < 64" "unat b mod 16 * 4 < 64"
    using byte_divs(1) [of a] byte_divs(2) [of b] byte_divs(3) [of c] by linarith+
qed

lemma split_digit: "(y :: nat) < m \<Longrightarrow> (x * m + y) div m = x" "(y :: nat) < m \<Longrightarrow> (x * m + y) mod m = y"
  by simp_all

lemma byte_back:
  fixes a b c :: "8 word"
  shows "b64_byte (unat a div 4 * 4 + (unat a mod 4 * 16 + unat b div 16) div 16) = a"
    "b64_byte ((unat a mod 4 * 16 + unat b div 16) mod 16 * 16 + (unat b mod 16 * 4 + unat c div 64) div 4) = b"
    "b64_byte ((unat b mod 16 * 4 + unat c div 64) mod 4 * 64 + unat c mod 64) = c"
  by (simp_all only: split_digit [OF byte_divs(2)] split_digit [OF byte_divs(3)] div_mult_mod_eq b64_byte_def of_nat_unat ucast_id)

lemma b64_quads_encode: "b64_quads (b64_encode bs) = Some bs"
proof (induction bs rule: b64_encode.induct)
  case (2 a)
  show ?case by (simp add: b64_val_char byte_parts b64_byte_def)
next
  case (3 a b)
  show ?case using byte_back(1) [of a b] split_digit [OF byte_divs(2) [of b]]
    by (simp add: b64_val_char b64_char_ne byte_parts byte_divs b64_byte_def)
next
  case (4 a b c r)
  show ?case using 4 byte_back(1) [of a b] byte_back(2) [of a b c] byte_back(3) [of b c]
    by (simp add: b64_val_char b64_char_ne byte_parts byte_divs)
qed simp

lemma b64_encode_plain: "x \<in> set (b64_encode bs) \<Longrightarrow> x \<noteq> CHR 0x0D \<and> x \<noteq> CHR 0x0A"
proof (induction bs rule: b64_encode.induct)
  case (2 a)
  then show ?case using b64_char_plain byte_parts(1,5) by auto
next
  case (3 a b)
  then show ?case using b64_char_plain byte_parts(1,2,6) by auto
next
  case (4 a b c r)
  then show ?case using b64_char_plain byte_parts(1-4) by auto
qed simp

lemma b64_roundtrip: "b64_decode (b64_encode bs) = Some bs"
proof -
  have "filter (\<lambda>c. c \<noteq> CHR 0x0D \<and> c \<noteq> CHR 0x0A) (b64_encode bs) = b64_encode bs"
    using b64_encode_plain by (simp add: filter_id_conv)
  then show ?thesis by (simp add: b64_decode_def b64_quads_encode)
qed

lemma b64_encode_Nil: "b64_encode bs = [] \<longleftrightarrow> bs = []"
  by (cases bs rule: b64_encode.cases) auto

section \<open>Saving and loading\<close>

lemma sessionPath_ring: "sessionPath (w\<lparr>aw_ring := r\<rparr>) = sessionPath w" "sessionPath (w\<lparr>aw_files := f\<rparr>) = sessionPath w"
  by (simp_all add: sessionPath_def sessionDir_def)

lemma Save_facts:
  assumes "Save enc s w = (Some used, w')"
  shows "\<exists>path data. sessionPath w = Some path \<and> sessionPath w' = Some path
    \<and> enc (to_disk s used) = Some data \<and> aw_files w' = (aw_files w)(path \<mapsto> data)
    \<and> used = (\<not> aw_ringFails w) \<and> aw_ringFails w' = aw_ringFails w
    \<and> (used \<longrightarrow> aw_ring w' (keyringService, sn_username s) = Some (b64_encode (sn_keyPass s)))"
  using assms
  by (auto simp: Save_def ring_set_def session_write_def sessionPath_ring
      split: option.splits if_splits prod.splits write_outcome.splits)

lemma Save_then_Load:
  assumes s: "Save enc s w = (Some used, w')" and codec: "\<And>d data. enc d = Some data \<Longrightarrow> dec data = Some d"
    and kp: "sn_keyPass s \<noteq> []"
  shows "Load_session dec w' = Inr (s\<lparr>sn_keyPassFile := if used then [] else sn_keyPass s\<rparr>)
     \<and> (\<exists>path data d. sessionPath w' = Some path \<and> aw_files w' path = Some data \<and> dec data = Some d
          \<and> sd_keyPass d = (if used then [] else sn_keyPass s))"
proof -
  obtain path data where f: "sessionPath w' = Some path" "enc (to_disk s used) = Some data" "aw_files w' = (aw_files w)(path \<mapsto> data)"
    and r: "used \<longleftrightarrow> \<not> aw_ringFails w" "aw_ringFails w' = aw_ringFails w"
      "used \<Longrightarrow> aw_ring w' (keyringService, sn_username s) = Some (b64_encode (sn_keyPass s))"
    using Save_facts [OF s] by blast
  have d: "dec data = Some (to_disk s used)" using f(2) by (rule codec)
  have "Load_session dec w' = Inr (s\<lparr>sn_keyPassFile := if used then [] else sn_keyPass s\<rparr>)"
    using f d r kp by (cases used) (simp_all add: Load_session_def to_disk_def keyringGet_def b64_roundtrip Let_def)
  then show ?thesis using f(1,3) d by (auto simp: to_disk_def)
qed

text \<open>C35. What \<open>Save\<close> wrote \<open>Load\<close> gives back, key password included, wherever it went: with the keyring in reach the
  file holds no key password, without it the file alone is enough.
\<close>

theorem Save_Load:
  assumes s: "Save enc s w = (Some used, w')" and codec: "\<And>d data. enc d = Some data \<Longrightarrow> dec data = Some d"
    and kp: "sn_keyPass s \<noteq> []"
  shows "Load_session dec w' = Inr (s\<lparr>sn_keyPassFile := if used then [] else sn_keyPass s\<rparr>)
     \<and> (\<exists>path data d. sessionPath w' = Some path \<and> aw_files w' path = Some data \<and> dec data = Some d
          \<and> sd_keyPass d = (if used then [] else sn_keyPass s))"
  by (rule Save_then_Load [OF s codec kp])

definition demo_session :: session where
  "demo_session = \<lparr>sn_username = ''u'', sn_uid = ''i'', sn_access = ''a'', sn_refresh = ''r'', sn_keyPass = [7, 255], sn_keyPassFile = []\<rparr>"

definition demo_auth_world :: auth_world where
  "demo_auth_world = \<lparr>aw_configDir = Some ''/c'', aw_files = Map.empty, aw_ring = Map.empty, aw_ringFails = False, aw_mkdirFails = False,
     aw_write = Written, aw_removeFails = False\<rparr>"

definition demo_enc :: "session_disk \<Rightarrow> string option" where
  "demo_enc d = (if d = to_disk demo_session True then Some ''{}'' else None)"

definition demo_dec :: "string \<Rightarrow> session_disk option" where
  "demo_dec s = (if s = ''{}'' then Some (to_disk demo_session True) else None)"

theorem Save_Load_witness:
  "Load_session demo_dec (snd (Save demo_enc demo_session demo_auth_world)) = Inr demo_session"
proof -
  have "fst (Save demo_enc demo_session demo_auth_world) = Some True"
    by (simp add: Save_def demo_auth_world_def sessionPath_def sessionDir_def ring_set_def demo_enc_def session_write_def)
  then have s: "Save demo_enc demo_session demo_auth_world = (Some True, snd (Save demo_enc demo_session demo_auth_world))"
    by (simp add: prod_eq_iff)
  have c: "\<And>d data. demo_enc d = Some data \<Longrightarrow> demo_dec data = Some d"
    by (auto simp: demo_enc_def demo_dec_def split: if_splits)
  have k: "sn_keyPass demo_session \<noteq> []" by (simp add: demo_session_def)
  show ?thesis using Save_Load [OF s c k] by (simp add: demo_session_def)
qed

text \<open>A write cut short leaves a file \<open>Load\<close> cannot read: the old session is gone with it.\<close>

lemma cut_save_loses_session:
  assumes "sessionPath w = Some path" and "aw_write w = Cut part" and "\<not> aw_mkdirFails w" and "\<And>d. enc d \<noteq> None" and "dec part = None"
  shows "Load_session dec (snd (Save enc s w)) = Inl BadSessionFile"
proof -
  obtain data where d: "enc (to_disk s (\<not> aw_ringFails w)) = Some data" using assms(4) by blast
  have "aw_files (snd (Save enc s w)) path = Some part \<and> sessionPath (snd (Save enc s w)) = Some path"
    using d assms(1-3) by (cases "aw_ringFails w") (simp_all add: Save_def ring_set_def session_write_def sessionPath_ring)
  then show ?thesis using assms(5) by (simp add: Load_session_def)
qed

section \<open>Logging in\<close>

lemma login_rest_Inr:
  assumes "login_rest api u p a calls = (cs, Inr s)"
  shows "cs = calls @ [CallUser, CallSalts, CallClose] \<and> sn_uid s = au_uid a \<and> sn_access s = au_access a
    \<and> (\<exists>keyID saltFor. la_user api = Inr keyID \<and> la_salts api = Inr saltFor \<and> saltFor p keyID = Inr (sn_keyPass s))"
  using assms by (auto simp: login_rest_def split: sum.splits)

lemma login_rest_calls:
  "\<exists>mid. fst (login_rest api u p a calls) = calls @ mid @ [CallClose] \<and> CallClose \<notin> set mid \<and> Call2FA c \<notin> set mid"
  by (auto simp: login_rest_def split: sum.splits intro: exI [of _ "[CallUser]"] exI [of _ "[CallUser, CallSalts]"])

text \<open>C36. A session comes out of a login only after Proton accepted the password, the account has one password, and,
  where it asks for a second factor, a code was prompted for and accepted before anything else was
  fetched; and the API client is closed exactly once, last, whenever there was one.
\<close>

theorem login_checked:
  "(\<forall>s. snd (login api totp u p) = Inr s \<longrightarrow>
     (\<exists>a. la_login api u p = Inr a \<and> \<not> au_twoPassword a \<and> sn_uid s = au_uid a \<and> sn_access s = au_access a \<and>
        (if au_twoFA a AND hasTOTP \<noteq> 0
         then \<exists>code. totp = Some (Inr code) \<and> la_2fa api code = None
              \<and> fst (login api totp u p) = [CallLogin, CallTotp, Call2FA code, CallUser, CallSalts, CallClose]
         else fst (login api totp u p) = [CallLogin, CallUser, CallSalts, CallClose])))
   \<and> count_list (fst (login api totp u p)) CallClose = (if isl (la_login api u p) then 0 else 1)
   \<and> (\<not> isl (la_login api u p) \<longrightarrow> last (fst (login api totp u p)) = CallClose)"
proof (intro conjI allI impI)
  fix s assume s: "snd (login api totp u p) = Inr s"
  then obtain a where a: "la_login api u p = Inr a" "\<not> au_twoPassword a"
    by (auto simp: login_def split: sum.splits if_splits)
  show "\<exists>a. la_login api u p = Inr a \<and> \<not> au_twoPassword a \<and> sn_uid s = au_uid a \<and> sn_access s = au_access a \<and>
        (if au_twoFA a AND hasTOTP \<noteq> 0
         then \<exists>code. totp = Some (Inr code) \<and> la_2fa api code = None
              \<and> fst (login api totp u p) = [CallLogin, CallTotp, Call2FA code, CallUser, CallSalts, CallClose]
         else fst (login api totp u p) = [CallLogin, CallUser, CallSalts, CallClose])"
  proof (cases "au_twoFA a AND hasTOTP \<noteq> 0")
    case True
    then obtain code where c: "totp = Some (Inr code)" "la_2fa api code = None"
      "login api totp u p = login_rest api u p a [CallLogin, CallTotp, Call2FA code]"
      using s a by (auto simp: login_def split: sum.splits option.splits)
    then show ?thesis using s a True login_rest_Inr [of api u p a "[CallLogin, CallTotp, Call2FA code]" "fst (login api totp u p)" s]
      by (auto simp: prod_eq_iff)
  next
    case False
    then have c: "login api totp u p = login_rest api u p a [CallLogin]" using a by (simp add: login_def)
    then show ?thesis using s a False login_rest_Inr [of api u p a "[CallLogin]" "fst (login api totp u p)" s]
      by (auto simp: prod_eq_iff)
  qed
next
  show "count_list (fst (login api totp u p)) CallClose = (if isl (la_login api u p) then 0 else 1)"
    using login_rest_calls by (auto simp: login_def login_rest_def split: sum.splits option.splits)
next
  assume "\<not> isl (la_login api u p)"
  then show "last (fst (login api totp u p)) = CallClose"
    by (auto simp: login_def login_rest_def split: sum.splits option.splits)
qed

definition demo_two_factor :: login_api where
  "demo_two_factor = \<lparr>la_login = (\<lambda>_ _. Inr \<lparr>au_uid = ''i'', au_access = ''a'', au_refresh = ''r'', au_twoPassword = False, au_twoFA = 1\<rparr>),
     la_2fa = (\<lambda>code. if code = ''123456'' then None else Some (ErrMsg ''wrong code'')), la_user = Inr ''k'', la_salts = Inr (\<lambda>_ _. Inr [7, 255])\<rparr>"

theorem login_checked_witness:
  "(\<exists>code. fst (login demo_two_factor (Some (Inr ''123456'')) ''u'' [7]) = [CallLogin, CallTotp, Call2FA code, CallUser, CallSalts, CallClose])
   \<and> last (fst (login demo_two_factor (Some (Inr ''123456'')) ''u'' [7])) = CallClose"
proof -
  let ?l = "login demo_two_factor (Some (Inr ''123456'')) ''u'' [7]"
  have r: "la_login demo_two_factor ''u'' [7] = Inr \<lparr>au_uid = ''i'', au_access = ''a'', au_refresh = ''r'', au_twoPassword = False, au_twoFA = 1\<rparr>"
    by (simp add: demo_two_factor_def)
  obtain s where s: "snd ?l = Inr s"
    by (auto simp: login_def login_rest_def demo_two_factor_def hasTOTP_def)
  from login_checked [of demo_two_factor "Some (Inr ''123456'')" "''u''" "[7]"] s r show ?thesis
    by (auto simp: hasTOTP_def)
qed

text \<open>Every failure of \<open>Client\<close> closes the API client; a success hands it on with every key in the merged ring.\<close>

lemma add_keys_all: "add_keys add merged ks = Inr r \<Longrightarrow> r = merged @ ks"
  by (induction ks arbitrary: merged) (fastforce split: option.splits)+

lemma Client_closes: "fst (Client api s) \<longleftrightarrow> isl (snd (Client api s))"
  by (auto simp: Client_def split: option.splits sum.splits)

lemma Client_merges: "snd (Client api s) = Inr ks \<Longrightarrow> ak_merged ks = concat (map snd (ak_byAddressID ks))"
  by (auto simp: Client_def split: option.splits sum.splits dest!: add_keys_all)

lemma Logout_removes:
  assumes "sessionPath w = Some path" and "\<not> aw_removeFails w"
  shows "aw_files (snd (Logout e s w)) path = None \<and> fst (Logout e s w) = e"
  using assms by (simp add: Logout_def Let_def sessionPath_ring)

section \<open>The tray's check\<close>

text \<open>The stamp a poll sees, and the last one seen before it: a poll without a path leaves it, one without a file clears it.\<close>

fun last_stamps :: "(bool \<times> (int \<times> int) option \<times> bool) list \<Rightarrow> (int \<times> int) option \<Rightarrow> (int \<times> int) option list" where
  "last_stamps [] prev = []"
| "last_stamps ((path, stat, l) # obs) prev = prev # last_stamps obs (if path then stat else prev)"

definition check_mem :: "logged_in_check \<Rightarrow> (int \<times> int) option" where
  "check_mem c = (if lc_checked c then Some (lc_stamp c) else None)"

lemma check_run_from:
  assumes "\<And>path st l. (path, Some st, l) \<in> set obs \<Longrightarrow> path \<Longrightarrow> l = ok st"
    and "lc_checked c \<Longrightarrow> lc_loggedIn c = ok (lc_stamp c)"
  shows "check_run obs c = map2 (\<lambda>(path, stat, l) prev.
     (path \<and> (case stat of None \<Rightarrow> False | Some st \<Rightarrow> ok st), path \<and> stat \<noteq> None \<and> stat \<noteq> prev)) obs (last_stamps obs (check_mem c))"
  using assms
proof (induction obs arbitrary: c)
  case (Cons ob obs)
  obtain path stat l where ob: "ob = (path, stat, l)" by (cases ob) auto
  obtain c1 r where c1: "LoggedInCheck ob c = (r, c1)" by (cases "LoggedInCheck ob c") auto
  have l: "path \<Longrightarrow> stat = Some st \<Longrightarrow> l = ok st" for st using Cons.prems(1) [of path st l] ob by auto
  note m = Cons.prems(2)
  have i: "lc_checked c1 \<Longrightarrow> lc_loggedIn c1 = ok (lc_stamp c1)" "check_mem c1 = (if path then stat else check_mem c)"
    using c1 ob l m by (auto simp: LoggedInCheck_def check_mem_def split: if_splits option.splits)
  have r: "r = (path \<and> (case stat of None \<Rightarrow> False | Some st \<Rightarrow> ok st), path \<and> stat \<noteq> None \<and> stat \<noteq> check_mem c)"
    using c1 ob l m by (auto simp: LoggedInCheck_def check_mem_def split: if_splits option.splits)
  have "check_run obs c1 = map2 (\<lambda>(path, stat, l) prev.
     (path \<and> (case stat of None \<Rightarrow> False | Some st \<Rightarrow> ok st), path \<and> stat \<noteq> None \<and> stat \<noteq> prev)) obs (last_stamps obs (check_mem c1))"
    by (rule Cons.IH) (use Cons.prems(1) i(1) in auto)
  then show ?case using c1 r i(2) by (simp add: ob)
qed simp

text \<open>C37. Polled any number of times, the check answers what \<open>Load\<close> would, and runs \<open>Load\<close> (which may ask the
  keyring to unlock) only at the polls where the session file differs from the one last seen. That
  \<open>Load\<close>'s outcome is a function of the file's stamp is the assumption the source's comment makes.
\<close>

theorem LoggedInCheck_frugal:
  assumes "\<And>path st l. (path, Some st, l) \<in> set obs \<Longrightarrow> path \<Longrightarrow> l = ok st"
  shows "check_run obs check_start = map2 (\<lambda>(path, stat, l) prev.
     (path \<and> (case stat of None \<Rightarrow> False | Some st \<Rightarrow> ok st), path \<and> stat \<noteq> None \<and> stat \<noteq> prev)) obs (last_stamps obs None)"
  using check_run_from [of obs ok check_start, OF assms] by (simp add: check_start_def check_mem_def)

theorem LoggedInCheck_frugal_witness:
  "check_run [(True, Some (1, 2), True), (True, Some (1, 2), True), (True, None, False), (True, Some (1, 2), True)] check_start
     = [(True, True), (True, False), (False, False), (True, True)]"
  by (subst LoggedInCheck_frugal [where ok = "\<lambda>_. True"]) auto

end
