(* ===== verification/Local_Api.thy ===== *)
theory Local_Api
  imports State_Files
begin

text \<open>
  The daemon's local control API (internal/api): the socket's life, the routes and their handlers over
  the runtime files and the cache directory, the log stream, clearing the cache, and the client that
  calls all this through the socket. \<open>net/http\<close> routing by method and path is written out for clean
  paths; the JSON codec is taken to give back what it was given, so bodies are values here.
\<close>

section \<open>The cache directory\<close>

text \<open>A file with its size, or none when it cannot be read; a folder, readable or not, with its entries by name.\<close>

datatype cache_tree = CacheFile "int option" | CacheFolder bool "(string \<times> cache_tree) list"

fun dirStats :: "cache_tree \<Rightarrow> int \<times> int" and dirStats_all :: "(string \<times> cache_tree) list \<Rightarrow> int \<times> int" where
  "dirStats (CacheFile sz) = (case sz of None \<Rightarrow> (0, 0) | Some n \<Rightarrow> (1, n))"
| "dirStats (CacheFolder readable es) = (if readable then dirStats_all es else (0, 0))"
| "dirStats_all [] = (0, 0)"
| "dirStats_all ((n, t) # es) = (case (dirStats t, dirStats_all es) of ((a, x), (b, y)) \<Rightarrow> (a + b, x + y))"

text \<open>\<open>None\<close> is a missing directory. \<open>lstat\<close> is a failing \<open>Lstat\<close>; \<open>stuck\<close> what a failing \<open>RemoveAll\<close> leaves of an entry.\<close>

record cache_faults =
  cx_readDir :: bool
  cx_lstat :: "string \<Rightarrow> bool"
  cx_stuck :: "string \<Rightarrow> cache_tree option"

fun pathSize :: "cache_tree \<Rightarrow> int" where
  "pathSize (CacheFile sz) = (case sz of None \<Rightarrow> 0 | Some n \<Rightarrow> n)"
| "pathSize (CacheFolder r es) = snd (dirStats (CacheFolder r es))"

fun clear_entries :: "cache_faults \<Rightarrow> int \<Rightarrow> (string \<times> cache_tree) list \<Rightarrow> (int \<times> bool) \<times> (string \<times> cache_tree) list" where
  "clear_entries fl freed [] = ((freed, True), [])"
| "clear_entries fl freed ((n, t) # es) =
     (if cx_lstat fl n then ((freed, False), (n, t) # es)
      else (case cx_stuck fl n of
              Some rest \<Rightarrow> ((freed, False), (n, rest) # es)
            | None \<Rightarrow> clear_entries fl (freed + pathSize t) es))"

text \<open>The answer is the bytes freed and whether there was no error.\<close>

definition ClearCacheDir :: "cache_faults \<Rightarrow> string \<Rightarrow> (string \<times> cache_tree) list option \<Rightarrow> (int \<times> bool) \<times> (string \<times> cache_tree) list option" where
  "ClearCacheDir fl d dir =
     (if d = [] then ((0, True), dir)
      else case dir of
             None \<Rightarrow> ((0, True), None)
           | Some es \<Rightarrow>
               if cx_readDir fl then ((0, False), dir)
               else (case clear_entries fl 0 es of (r, es1) \<Rightarrow> (r, Some es1)))"

section \<open>Routes and handlers\<close>

datatype http_method = MethodGet | MethodHead | MethodPost | MethodOther

record api_request =
  rq_method :: http_method
  rq_path :: string
  rq_level :: string
  rq_follow :: string

datatype api_body =
    BodyStatus status
  | BodyTransfers "(string \<times> string \<times> int \<times> int \<times> int) list" "(string \<times> string \<times> string \<times> int \<times> int \<times> string) list"
  | BodyCache string int int
  | BodyFreed int
  | BodyPaused bool
  | BodyError string
  | BodyStream "string list" "string list"

record api_response =
  rs_code :: int
  rs_body :: api_body

definition writeJSON :: "api_body \<Rightarrow> api_response" where
  "writeJSON b = \<lparr>rs_code = 200, rs_body = b\<rparr>"

definition http_error :: "string \<Rightarrow> int \<Rightarrow> api_response" where
  "http_error msg code = \<lparr>rs_code = code, rs_body = BodyError msg\<rparr>"

record api_world =
  aw_runtime :: runtime_fs
  aw_cache :: "(string \<times> cache_tree) list option"

text \<open>What the mount gives the API. \<open>dp_clear\<close> is \<open>ClearCache\<close>, \<open>None\<close> for nil; the error is a message.\<close>

record api_deps =
  dp_Status :: status
  dp_CacheDir :: string
  dp_clear :: "((string \<times> cache_tree) list option \<Rightarrow> (string + int) \<times> (string \<times> cache_tree) list option) option"

definition handleStatus :: "api_deps \<Rightarrow> api_response" where
  "handleStatus d = writeJSON (BodyStatus (dp_Status d))"

definition handleTransfers :: "api_deps \<Rightarrow> api_response" where
  "handleTransfers d = writeJSON (BodyTransfers (ss_current (dp_Status d)) (ss_recent (dp_Status d)))"

definition handleCacheStats :: "api_deps \<Rightarrow> api_world \<Rightarrow> api_response" where
  "handleCacheStats d w =
     (if dp_CacheDir d = [] then writeJSON (BodyCache [] 0 0)
      else case aw_cache w of
             None \<Rightarrow> writeJSON (BodyCache (dp_CacheDir d) 0 0)
           | Some es \<Rightarrow> (case dirStats_all es of (n, b) \<Rightarrow> writeJSON (BodyCache (dp_CacheDir d) n b)))"

definition handleCacheClear :: "api_deps \<Rightarrow> api_world \<Rightarrow> api_response \<times> api_world" where
  "handleCacheClear d w =
     (case dp_clear d of
        None \<Rightarrow> (http_error ''no cache configured'' 404, w)
      | Some clear \<Rightarrow>
          (case clear (aw_cache w) of
             (Inl e, c) \<Rightarrow> (http_error e 500, w\<lparr>aw_cache := c\<rparr>)
           | (Inr freed, c) \<Rightarrow> (writeJSON (BodyFreed freed), w\<lparr>aw_cache := c\<rparr>)))"

definition handlePause :: "state_faults \<Rightarrow> environ \<Rightarrow> bool \<Rightarrow> api_world \<Rightarrow> api_response \<times> api_world" where
  "handlePause fl e pause w =
     (case SetPaused fl e pause (aw_runtime w) of
        (Inl _, fs) \<Rightarrow> (http_error ''pause'' 500, w\<lparr>aw_runtime := fs\<rparr>)
      | (Inr _, fs) \<Rightarrow> (writeJSON (BodyPaused pause), w\<lparr>aw_runtime := fs\<rparr>))"

definition journalPriorities :: "string list" where
  "journalPriorities = [''emerg'', ''alert'', ''crit'', ''err'', ''warning'', ''notice'', ''info'', ''debug'',
     ''0'', ''1'', ''2'', ''3'', ''4'', ''5'', ''6'', ''7'']"

definition validLevel :: "string \<Rightarrow> bool" where
  "validLevel level \<longleftrightarrow> level \<in> set journalPriorities"

text \<open>
  The journal: whether \<open>journalctl\<close> is installed, whether the connection can be flushed, whether the pipe
  or the start fails, what the process prints for given arguments, and how many events reach the client.
\<close>

record journal =
  jo_installed :: bool
  jo_flusher :: bool
  jo_pipe :: "string option"
  jo_start :: "string option"
  jo_lines :: "string list \<Rightarrow> string list"
  jo_writes :: nat

definition logs_args :: "string \<Rightarrow> string \<Rightarrow> string list" where
  "logs_args follow level =
     [''--user'', ''-t'', ''proton-drive-fs'', ''-o'', ''json'', ''-n'', ''200'']
     @ (if follow = ''1'' then [''-f''] else []) @ (if level \<noteq> [] then [''-p'', level] else [])"

definition sse_event :: "string \<Rightarrow> string" where
  "sse_event line = ''data: '' @ line @ [CHR 0x0A, CHR 0x0A]"

text \<open>A line beyond the scanner's megabyte ends the stream, and so does a write error.\<close>

definition scanMax :: nat where "scanMax = 1048576"

definition handleLogs :: "journal \<Rightarrow> api_request \<Rightarrow> api_response" where
  "handleLogs j r =
     (if rq_level r \<noteq> [] \<and> \<not> validLevel (rq_level r) then http_error ''invalid level'' 400
      else if \<not> jo_installed j then http_error ''journalctl not available'' 501
      else if \<not> jo_flusher j then http_error ''streaming unsupported'' 500
      else (case jo_pipe j of
              Some e \<Rightarrow> http_error e 500
            | None \<Rightarrow>
                (case jo_start j of
                   Some e \<Rightarrow> http_error e 500
                 | None \<Rightarrow>
                     let args = logs_args (rq_follow r) (rq_level r)
                     in \<lparr>rs_code = 200, rs_body = BodyStream args
                           (map sse_event (take (jo_writes j) (takeWhile (\<lambda>l. length l < scanMax) (jo_lines j args))))\<rparr>)))"

text \<open>\<open>registerRoutes\<close>: the pattern's method and path. \<open>GET\<close> also takes \<open>HEAD\<close>.\<close>

datatype route = RouteStatus | RouteTransfers | RouteCache | RouteClear | RoutePause | RouteResume | RouteLogs

definition routes :: "(http_method \<times> string \<times> route) list" where
  "routes = [(MethodGet, ''/v1/status'', RouteStatus), (MethodGet, ''/v1/transfers'', RouteTransfers), (MethodGet, ''/v1/cache'', RouteCache),
     (MethodPost, ''/v1/cache/clear'', RouteClear), (MethodPost, ''/v1/pause'', RoutePause), (MethodPost, ''/v1/resume'', RouteResume),
     (MethodGet, ''/v1/logs'', RouteLogs)]"

definition takes_method :: "http_method \<Rightarrow> http_method \<Rightarrow> bool" where
  "takes_method pat m \<longleftrightarrow> m = pat \<or> (pat = MethodGet \<and> m = MethodHead)"

definition run_route :: "state_faults \<Rightarrow> environ \<Rightarrow> journal \<Rightarrow> api_deps \<Rightarrow> api_request \<Rightarrow> route \<Rightarrow> api_world \<Rightarrow> api_response \<times> api_world" where
  "run_route fl e j d r rt w =
     (case rt of
        RouteStatus \<Rightarrow> (handleStatus d, w)
      | RouteTransfers \<Rightarrow> (handleTransfers d, w)
      | RouteCache \<Rightarrow> (handleCacheStats d w, w)
      | RouteClear \<Rightarrow> handleCacheClear d w
      | RoutePause \<Rightarrow> handlePause fl e True w
      | RouteResume \<Rightarrow> handlePause fl e False w
      | RouteLogs \<Rightarrow> (handleLogs j r, w))"

definition serve :: "state_faults \<Rightarrow> environ \<Rightarrow> journal \<Rightarrow> api_deps \<Rightarrow> api_request \<Rightarrow> api_world \<Rightarrow> api_response \<times> api_world" where
  "serve fl e j d r w =
     (case List.find (\<lambda>(m, p, rt). p = rq_path r \<and> takes_method m (rq_method r)) routes of
        Some (_, _, rt) \<Rightarrow> run_route fl e j d r rt w
      | None \<Rightarrow> if \<exists>x\<in>set routes. fst (snd x) = rq_path r then (http_error ''Method Not Allowed'' 405, w)
                else (http_error ''404 page not found'' 404, w))"

section \<open>The client\<close>

text \<open>
  \<open>doJSON\<close>: \<open>reach\<close> is the transport, failing when nobody listens or the five seconds pass; then the
  server may or may not have run the request (\<open>ran\<close>). A body of another shape decodes to zero values.
\<close>

datatype transport = Delivered | LostBefore | LostAfter

definition doJSON :: "transport \<Rightarrow> (api_request \<Rightarrow> api_world \<Rightarrow> api_response \<times> api_world) \<Rightarrow> http_method \<Rightarrow> string \<Rightarrow> api_world
    \<Rightarrow> (string + api_body) \<times> api_world" where
  "doJSON tr server m path w =
     (case tr of
        LostBefore \<Rightarrow> (Inl ''dial'', w)
      | _ \<Rightarrow>
          (case server \<lparr>rq_method = m, rq_path = path, rq_level = [], rq_follow = []\<rparr> w of
             (res, w1) \<Rightarrow>
               (if tr = LostAfter then Inl ''timeout''
                else if rs_code res \<noteq> 200 then Inl (''api '' @ path @ '': status '' @ itoa (rs_code res))
                else Inr (rs_body res), w1)))"

definition client_Status :: "transport \<Rightarrow> (api_request \<Rightarrow> api_world \<Rightarrow> api_response \<times> api_world) \<Rightarrow> api_world \<Rightarrow> (string + status) \<times> api_world" where
  "client_Status tr server w =
     (case doJSON tr server MethodGet ''/v1/status'' w of
        (Inr (BodyStatus s), w1) \<Rightarrow> (Inr s, w1)
      | (Inr _, w1) \<Rightarrow> (Inl ''decode'', w1)
      | (Inl e, w1) \<Rightarrow> (Inl e, w1))"

definition client_Cache :: "transport \<Rightarrow> (api_request \<Rightarrow> api_world \<Rightarrow> api_response \<times> api_world) \<Rightarrow> api_world \<Rightarrow> (string + (string \<times> int \<times> int)) \<times> api_world" where
  "client_Cache tr server w =
     (case doJSON tr server MethodGet ''/v1/cache'' w of
        (Inr (BodyCache d n b), w1) \<Rightarrow> (Inr (d, n, b), w1)
      | (Inr _, w1) \<Rightarrow> (Inl ''decode'', w1)
      | (Inl e, w1) \<Rightarrow> (Inl e, w1))"

definition client_ClearCache :: "transport \<Rightarrow> (api_request \<Rightarrow> api_world \<Rightarrow> api_response \<times> api_world) \<Rightarrow> api_world \<Rightarrow> (string + int) \<times> api_world" where
  "client_ClearCache tr server w =
     (case doJSON tr server MethodPost ''/v1/cache/clear'' w of
        (Inr (BodyFreed n), w1) \<Rightarrow> (Inr n, w1)
      | (Inr _, w1) \<Rightarrow> (Inl ''decode'', w1)
      | (Inl e, w1) \<Rightarrow> (Inl e, w1))"

definition client_SetPaused :: "transport \<Rightarrow> (api_request \<Rightarrow> api_world \<Rightarrow> api_response \<times> api_world) \<Rightarrow> bool \<Rightarrow> api_world \<Rightarrow> string option \<times> api_world" where
  "client_SetPaused tr server paused w =
     (case doJSON tr server MethodPost (if paused then ''/v1/pause'' else ''/v1/resume'') w of
        (Inr _, w1) \<Rightarrow> (None, w1)
      | (Inl e, w1) \<Rightarrow> (Some e, w1))"

section \<open>The socket\<close>

text \<open>What is at the socket's path: nothing, a socket nobody answers on, or one a daemon (by pid) listens on.\<close>

datatype socket_file = NoSocket | DeadSocket | LiveSocket nat

definition SocketPath :: "environ \<Rightarrow> string option" where
  "SocketPath e = map_option (\<lambda>d. path_join [d, ''api.sock'']) (state_dir e)"

definition removeStaleSocket :: "socket_file \<Rightarrow> socket_file" where
  "removeStaleSocket f = (if f = DeadSocket then NoSocket else f)"

record start_faults =
  st_mkdir :: bool
  st_listen :: bool
  st_chmod :: bool

datatype start_error = StartNoDir | StartMkdir | StartListen | StartChmod

definition Start :: "start_faults \<Rightarrow> environ \<Rightarrow> nat \<Rightarrow> socket_file \<Rightarrow> (start_error + unit) \<times> socket_file" where
  "Start fl e pid f =
     (case SocketPath e of
        None \<Rightarrow> (Inl StartNoDir, f)
      | Some p \<Rightarrow>
          if st_mkdir fl then (Inl StartMkdir, f)
          else let f1 = removeStaleSocket f
               in if f1 \<noteq> NoSocket \<or> st_listen fl then (Inl StartListen, f1)
                  else if st_chmod fl then (Inl StartChmod, NoSocket)
                  else (Inr (), LiveSocket pid))"

definition Close_server :: "socket_file \<Rightarrow> socket_file" where
  "Close_server f = NoSocket"

section \<open>What holds\<close>

text \<open>Clearing: what was freed and what is left never exceed what was there, and without an error nothing is left.\<close>

definition stuck_ok :: "cache_faults \<Rightarrow> (string \<times> cache_tree) list \<Rightarrow> bool" where
  "stuck_ok fl es \<longleftrightarrow> (\<forall>(n, t)\<in>set es. \<forall>rest. cx_stuck fl n = Some rest \<longrightarrow> snd (dirStats rest) \<le> snd (dirStats t))"

lemma pathSize_stats: "pathSize t = snd (dirStats t)"
  by (cases t) (auto split: option.splits)

lemma clear_entries_freed:
  assumes "clear_entries fl freed es = ((n, ok), rest)" and "stuck_ok fl es"
  shows "n + snd (dirStats_all rest) \<le> freed + snd (dirStats_all es) \<and> (ok \<longrightarrow> rest = [] \<and> n = freed + snd (dirStats_all es))
     \<and> (\<not> ok \<longrightarrow> rest \<noteq> [])"
  using assms
proof (induction fl freed es rule: clear_entries.induct)
  case (2 fl freed m t es)
  show ?case
  proof (cases "\<not> cx_lstat fl m \<and> cx_stuck fl m = None")
    case True
    then show ?thesis using 2 by (auto simp: stuck_ok_def pathSize_stats case_prod_beta)
  next
    case False
    then show ?thesis using "2.prems" by (auto simp: stuck_ok_def case_prod_beta split: if_splits)
  qed
qed simp

text \<open>Clearing the cache frees exactly what \<open>GET /v1/cache\<close> counted when it succeeds, and leaves the directory
  empty; when an entry cannot be removed it stops there, and what it reports as freed is gone.
\<close>

theorem ClearCacheDir_frees:
  assumes c: "ClearCacheDir fl d (Some es) = ((freed, ok), dir)" and d: "d \<noteq> []" and f: "stuck_ok fl es"
  shows "\<exists>rest. dir = Some rest \<and> freed + snd (dirStats_all rest) \<le> snd (dirStats_all es)
     \<and> (ok \<longrightarrow> rest = [] \<and> freed = snd (dirStats_all es)) \<and> (\<not> ok \<longrightarrow> freed = 0 \<and> rest = es \<or> rest \<noteq> [])"
proof (cases "cx_readDir fl")
  case True
  then show ?thesis using c d by (auto simp: ClearCacheDir_def)
next
  case False
  obtain rest where r: "clear_entries fl 0 es = ((freed, ok), rest)" "dir = Some rest"
    using c d False by (auto simp: ClearCacheDir_def split: prod.splits)
  show ?thesis using clear_entries_freed [OF r(1) f] r(2) by auto
qed

theorem ClearCacheDir_frees_witness:
  "ClearCacheDir \<lparr>cx_readDir = False, cx_lstat = (\<lambda>_. False), cx_stuck = (\<lambda>n. if n = ''b'' then Some (CacheFile (Some 1)) else None)\<rparr>
     ''/c'' (Some [(''a'', CacheFile (Some 3)), (''b'', CacheFolder True [(''x'', CacheFile (Some 4))])])
     = ((3, False), Some [(''b'', CacheFile (Some 1))])
   \<and> 3 + snd (dirStats_all [(''b'', CacheFile (Some 1))]) \<le> snd (dirStats_all [(''a'', CacheFile (Some 3)), (''b'', CacheFolder True [(''x'', CacheFile (Some 4))])])"
proof -
  let ?fl = "\<lparr>cx_readDir = False, cx_lstat = (\<lambda>_. False), cx_stuck = (\<lambda>n. if n = ''b'' then Some (CacheFile (Some 1)) else None)\<rparr>"
  let ?es = "[(''a'', CacheFile (Some 3)), (''b'', CacheFolder True [(''x'', CacheFile (Some 4))])]"
  have c: "ClearCacheDir ?fl ''/c'' (Some ?es) = ((3, False), Some [(''b'', CacheFile (Some 1))])"
    by (simp add: ClearCacheDir_def)
  have "stuck_ok ?fl ?es" by (simp add: stuck_ok_def)
  from ClearCacheDir_frees [OF c _ this] c show ?thesis by simp
qed

definition api_posts :: "string list" where
  "api_posts = [''/v1/cache/clear'', ''/v1/pause'', ''/v1/resume'']"

text \<open>Anything but the three POSTs leaves the files alone.\<close>

lemma serve_reads:
  assumes "rq_method r \<noteq> MethodPost \<or> rq_path r \<notin> set api_posts"
  shows "snd (serve fl e j d r w) = w"
proof -
  have post: "rt \<in> {RouteClear, RoutePause, RouteResume} \<Longrightarrow> (m, p, rt) \<in> set routes \<Longrightarrow> m = MethodPost \<and> p \<in> set api_posts" for m p rt
    by (auto simp: routes_def api_posts_def)
  have keep: "rt \<notin> {RouteClear, RoutePause, RouteResume} \<Longrightarrow> snd (run_route fl e j d r rt w) = w" for rt
    by (cases rt) (simp_all add: run_route_def)
  show ?thesis
  proof (cases "List.find (\<lambda>(m, p, rt). p = rq_path r \<and> takes_method m (rq_method r)) routes")
    case None
    then show ?thesis by (simp add: serve_def)
  next
    case (Some x)
    obtain m p rt where x: "x = (m, p, rt)" by (cases x) auto
    have "(m, p, rt) \<in> set routes" "p = rq_path r" "takes_method m (rq_method r)"
      using find_Some_mem [OF Some] x by auto
    then have "rt \<notin> {RouteClear, RoutePause, RouteResume}"
      using post [of rt m p] assms by (auto simp: takes_method_def)
    then show ?thesis using Some x keep by (simp add: serve_def)
  qed
qed

lemma serve_pause:
  "serve fl e j d \<lparr>rq_method = MethodPost, rq_path = (if p then ''/v1/pause'' else ''/v1/resume''), rq_level = l, rq_follow = f\<rparr> w = handlePause fl e p w"
  by (cases p) (simp_all add: serve_def routes_def takes_method_def run_route_def)

lemma serve_status:
  "serve fl e j d \<lparr>rq_method = MethodGet, rq_path = ''/v1/status'', rq_level = l, rq_follow = f\<rparr> w = (handleStatus d, w)"
  by (simp add: serve_def routes_def takes_method_def run_route_def)

lemma SetPaused_Paused: "SetPaused fl e p fs = (Inr u, fs') \<Longrightarrow> Paused e fs' = p"
  by (auto simp: SetPaused_def Paused_def split: option.splits if_splits)

lemma client_SetPaused_ok:
  assumes "client_SetPaused tr (serve fl e j d) p w = (None, w')"
  shows "Paused e (aw_runtime w') = p \<and> aw_cache w' = aw_cache w"
proof -
  have t: "tr = Delivered"
    using assms by (cases tr) (simp_all add: client_SetPaused_def doJSON_def case_prod_beta)
  obtain u fs where s: "SetPaused fl e p (aw_runtime w) = (Inr u, fs)"
    using assms unfolding t client_SetPaused_def doJSON_def
    by (cases "SetPaused fl e p (aw_runtime w)"; cases "fst (SetPaused fl e p (aw_runtime w))")
       (auto simp: serve_pause handlePause_def http_error_def writeJSON_def)
  have "w' = w\<lparr>aw_runtime := fs\<rparr>"
    using assms unfolding t client_SetPaused_def doJSON_def by (simp add: serve_pause handlePause_def s writeJSON_def)
  then show ?thesis using SetPaused_Paused [OF s] by simp
qed

text \<open>Pausing through the API is pausing: when the client reports no error the marker is as asked, so \<open>Paused\<close>
  agrees, and the cache is untouched; the status it fetches is the live one, and fetching changes nothing.
\<close>

theorem api_pause_and_status:
  "(fst (client_SetPaused tr (serve fl e j d) p w) = None
      \<longrightarrow> Paused e (aw_runtime (snd (client_SetPaused tr (serve fl e j d) p w))) = p
          \<and> aw_cache (snd (client_SetPaused tr (serve fl e j d) p w)) = aw_cache w)
   \<and> client_Status Delivered (serve fl e j d) w = (Inr (dp_Status d), w)
   \<and> snd (client_Status tr (serve fl e j d) w) = w"
proof (intro conjI impI)
  assume "fst (client_SetPaused tr (serve fl e j d) p w) = None"
  then have eq: "client_SetPaused tr (serve fl e j d) p w = (None, snd (client_SetPaused tr (serve fl e j d) p w))"
    by (simp add: prod_eq_iff)
  show "Paused e (aw_runtime (snd (client_SetPaused tr (serve fl e j d) p w))) = p" using client_SetPaused_ok [OF eq] by simp
  show "aw_cache (snd (client_SetPaused tr (serve fl e j d) p w)) = aw_cache w" using client_SetPaused_ok [OF eq] by simp
next
  show "client_Status Delivered (serve fl e j d) w = (Inr (dp_Status d), w)"
    by (simp add: client_Status_def doJSON_def serve_status handleStatus_def writeJSON_def)
  show "snd (client_Status tr (serve fl e j d) w) = w"
    by (cases tr) (simp_all add: client_Status_def doJSON_def serve_status handleStatus_def writeJSON_def)
qed

theorem api_pause_and_status_witness:
  "Paused demo_environ (aw_runtime (snd (client_SetPaused Delivered
     (serve demo_state_faults demo_environ \<lparr>jo_installed = False, jo_flusher = True, jo_pipe = None, jo_start = None, jo_lines = (\<lambda>_. []), jo_writes = 0\<rparr>
        \<lparr>dp_Status = demo_status, dp_CacheDir = [], dp_clear = None\<rparr>) True
     \<lparr>aw_runtime = \<lparr>rf_file = Map.empty, rf_lock = Map.empty\<rparr>, aw_cache = None\<rparr>)))"
proof -
  let ?j = "\<lparr>jo_installed = False, jo_flusher = True, jo_pipe = None, jo_start = None, jo_lines = (\<lambda>_. []), jo_writes = 0\<rparr>"
  let ?d = "\<lparr>dp_Status = demo_status, dp_CacheDir = [], dp_clear = None\<rparr>"
  let ?w = "\<lparr>aw_runtime = \<lparr>rf_file = Map.empty, rf_lock = Map.empty\<rparr>, aw_cache = None\<rparr>"
  have p: "PausePath demo_environ = Some ''/run/proton-drive-fs/paused''" by code_simp
  have "fst (client_SetPaused Delivered (serve demo_state_faults demo_environ ?j ?d) True ?w) = None"
    using serve_pause [of demo_state_faults demo_environ ?j ?d True "[]" "[]" ?w]
    by (simp add: client_SetPaused_def doJSON_def handlePause_def SetPaused_def p demo_state_faults_def writeJSON_def)
  then show ?thesis using api_pause_and_status [of Delivered demo_state_faults demo_environ ?j ?d True ?w] by simp
qed

text \<open>Starting never takes a socket from a daemon that answers, and a crash's leftover is no obstacle.\<close>

lemma Start_spec:
  "snd (Start fl e pid (LiveSocket q)) = LiveSocket q" "isl (fst (Start fl e pid (LiveSocket q)))"
  "SocketPath e \<noteq> None \<Longrightarrow> \<not> st_mkdir fl \<Longrightarrow> \<not> st_listen fl \<Longrightarrow> \<not> st_chmod fl \<Longrightarrow> f \<noteq> LiveSocket q
     \<Longrightarrow> (\<forall>q. f \<noteq> LiveSocket q) \<Longrightarrow> Start fl e pid f = (Inr (), LiveSocket pid)"
  by (cases f; auto simp: Start_def removeStaleSocket_def Let_def split: option.splits)+

text \<open>A level that is not a journal priority never reaches the command line.\<close>

lemma handleLogs_args:
  "rs_body (handleLogs j r) = BodyStream args evs \<Longrightarrow> rq_level r = [] \<or> validLevel (rq_level r)"
  by (auto simp: handleLogs_def http_error_def Let_def split: if_splits option.splits)

end
