(* ===== verification/Logx.thy ===== *)
theory Logx
  imports Go_Strings Complex_Main
begin

text \<open>
  Logging (internal/logx): the handler that never blocks its caller, with its queue, its one writer and
  its drop count as steps; groups and attributes; the journal's message, priority and field names; the
  setup that replaces one writer by the next; and \<open>FormatSize\<close> with its floating-point rounding. Times
  and source positions are left out of a record, values are the strings \<open>slog.Value.String\<close> gives.
\<close>

section \<open>Records and handlers\<close>

text \<open>\<open>slog\<close>'s levels.\<close>

definition levelDebug :: int where "levelDebug = - 4"
definition levelInfo :: int where "levelInfo = 0"
definition levelWarn :: int where "levelWarn = 4"
definition levelError :: int where "levelError = 8"

type_synonym attr = "string \<times> string"

record log_record =
  lr_level :: int
  lr_message :: string
  lr_attrs :: "attr list"

definition chanCap :: nat where "chanCap = 4096"

definition prefixAttrs :: "string \<Rightarrow> attr list \<Rightarrow> attr list" where
  "prefixAttrs grp attrs = map (\<lambda>(k, v). (grp @ ''.'' @ k, v)) attrs"

definition regroup :: "log_record \<Rightarrow> string \<Rightarrow> log_record" where
  "regroup r grp = r\<lparr>lr_attrs := prefixAttrs grp (lr_attrs r)\<rparr>"

record handler =
  ha_level :: int
  ha_attrs :: "attr list"
  ha_group :: string

definition Enabled :: "handler \<Rightarrow> int \<Rightarrow> bool" where
  "Enabled h level \<longleftrightarrow> ha_level h \<le> level"

definition WithAttrs :: "attr list \<Rightarrow> handler \<Rightarrow> handler" where
  "WithAttrs attrs h =
     (if attrs = [] then h
      else let attrs1 = (if ha_group h \<noteq> [] then prefixAttrs (ha_group h) attrs else attrs)
           in h\<lparr>ha_attrs := ha_attrs h @ attrs1\<rparr>)"

definition WithGroup :: "string \<Rightarrow> handler \<Rightarrow> handler" where
  "WithGroup name h =
     (if name = [] then h
      else h\<lparr>ha_group := (if ha_group h \<noteq> [] then ha_group h @ ''.'' @ name else name)\<rparr>)"

text \<open>The record \<open>Handle\<close> queues.\<close>

definition handled_record :: "handler \<Rightarrow> log_record \<Rightarrow> log_record" where
  "handled_record h r =
     (let r1 = (if ha_group h \<noteq> [] then regroup r (ha_group h) else r)
      in r1\<lparr>lr_attrs := lr_attrs r1 @ ha_attrs h\<rparr>)"

section \<open>The queue and its writer\<close>

text \<open>
  \<open>co_sent\<close> is what reached the sink, a record or a report of so many dropped; \<open>co_dropped\<close> is the
  counter, \<open>co_all\<close> every record given to \<open>Handle\<close>. The writer is running, draining after the quit signal,
  or done.
\<close>

datatype writer_state = WriterRunning | WriterDraining | WriterDone

record log_core =
  co_queue :: "log_record list"
  co_sent :: "(log_record + nat) list"
  co_dropped :: nat
  co_all :: "log_record list"
  co_quit :: bool
  co_writer :: writer_state

text \<open>How a sink entry comes out as a record.\<close>

definition sink_record :: "log_record + nat \<Rightarrow> log_record" where
  "sink_record x = (case x of Inl r \<Rightarrow> r | Inr n \<Rightarrow> \<lparr>lr_level = levelWarn, lr_message = ''log records dropped'', lr_attrs = [(''count'', itoa (int n))]\<rparr>)"

definition core_Handle :: "log_record \<Rightarrow> log_core \<Rightarrow> log_core" where
  "core_Handle r c =
     (let c1 = c\<lparr>co_all := co_all c @ [r]\<rparr>
      in if length (co_queue c) < chanCap then c1\<lparr>co_queue := co_queue c @ [r]\<rparr>
         else c1\<lparr>co_dropped := Suc (co_dropped c)\<rparr>)"

definition reportDropped :: "log_core \<Rightarrow> log_core" where
  "reportDropped c =
     (if co_dropped c = 0 then c
      else c\<lparr>co_dropped := 0, co_sent := co_sent c @ [Inr (co_dropped c)]\<rparr>)"

inductive log_step :: "log_core \<Rightarrow> log_core \<Rightarrow> bool" where
  handle: "log_step c (core_Handle r c)"
| writes: "co_writer c \<noteq> WriterDone \<Longrightarrow> co_queue c = r # q \<Longrightarrow> log_step c (c\<lparr>co_queue := q, co_sent := co_sent c @ [Inl r]\<rparr>)"
| ticks: "co_writer c = WriterRunning \<Longrightarrow> log_step c (reportDropped c)"
| stops: "log_step c (c\<lparr>co_quit := True\<rparr>)"
| drains: "co_writer c = WriterRunning \<Longrightarrow> co_quit c \<Longrightarrow> log_step c (c\<lparr>co_writer := WriterDraining\<rparr>)"
| ends: "co_writer c = WriterDraining \<Longrightarrow> co_queue c = [] \<Longrightarrow> log_step c (c\<lparr>co_writer := WriterDone\<rparr>)"

definition newAsyncCore :: log_core where
  "newAsyncCore = \<lparr>co_queue = [], co_sent = [], co_dropped = 0, co_all = [], co_quit = False, co_writer = WriterRunning\<rparr>"

text \<open>Setup: the sinks it chooses between, and the writer running after it, \<open>None\<close> before any.\<close>

datatype log_sink = JournaldSink string | TextSink int bool

record setup_options =
  so_level :: int
  so_tag :: string
  so_forceStderr :: bool

definition defaultTag :: string where "defaultTag = ''proton-drive-fs''"

definition setup_sink :: "bool \<Rightarrow> setup_options \<Rightarrow> log_sink \<times> int" where
  "setup_sink journald_available o' =
     (let tag = (if so_tag o' = [] then defaultTag else so_tag o')
      in if \<not> so_forceStderr o' \<and> journald_available then (JournaldSink tag, levelDebug)
         else (TextSink (so_level o') (so_level o' \<le> levelDebug), so_level o'))"

text \<open>The loggers by number; \<open>lg_default\<close> is slog's, \<open>lg_running\<close> those whose writer has not been stopped.\<close>

record loggers =
  lg_default :: nat
  lg_running :: "nat set"
  lg_previous :: "nat option"
  lg_next :: nat

definition Setup_logger :: "loggers \<Rightarrow> loggers" where
  "Setup_logger l =
     (let n = lg_next l
      in \<lparr>lg_default = n,
          lg_running = insert n (case lg_previous l of None \<Rightarrow> lg_running l | Some p \<Rightarrow> lg_running l - {p}),
          lg_previous = Some n, lg_next = Suc n\<rparr>)"

section \<open>The journal\<close>

definition levelToPriority :: "int \<Rightarrow> nat" where
  "levelToPriority level =
     (if levelError \<le> level then 3 else if levelWarn \<le> level then 4 else if levelInfo \<le> level then 6 else 7)"

definition field_char :: "char \<Rightarrow> bool" where
  "field_char c \<longleftrightarrow> (let n = of_char c :: nat in 65 \<le> n \<and> n \<le> 90 \<or> 48 \<le> n \<and> n \<le> 57 \<or> c = CHR ''_'')"

definition is_digit :: "char \<Rightarrow> bool" where
  "is_digit c \<longleftrightarrow> (let n = of_char c :: nat in 48 \<le> n \<and> n \<le> 57)"

definition sanitizeFieldName :: "string \<Rightarrow> string" where
  "sanitizeFieldName key =
     (let name = map (\<lambda>c. if field_char (upper_char c) then upper_char c else CHR ''_'') key
      in if name = [] \<or> hd name = CHR ''_'' \<or> is_digit (hd name) then ''F_'' @ name else name)"

definition reservedFields :: "string list" where
  "reservedFields = [''MESSAGE'', ''PRIORITY'', ''SYSLOG_IDENTIFIER'']"

definition reservedFieldName :: "string \<Rightarrow> string" where
  "reservedFieldName name = (if name \<in> set reservedFields then ''ATTR_'' @ name else name)"

definition journaldFieldName :: "string \<Rightarrow> string" where
  "journaldFieldName key = reservedFieldName (sanitizeFieldName key)"

definition quote_value :: "string \<Rightarrow> string" where
  "quote_value v = (if CHR '' '' \<in> set v \<or> CHR 0x09 \<in> set v then [CHR 0x22] @ v @ [CHR 0x22] else v)"

fun add_attr :: "string \<times> (string \<rightharpoonup> string) \<Rightarrow> attr \<Rightarrow> string \<times> (string \<rightharpoonup> string)" where
  "add_attr (msg, vars) (k, v) = (msg @ '' '' @ k @ ''='' @ quote_value v, vars(journaldFieldName k \<mapsto> v))"

definition buildJournaldMessage :: "log_record \<Rightarrow> (string \<rightharpoonup> string) \<Rightarrow> string \<times> (string \<rightharpoonup> string)" where
  "buildJournaldMessage r vars = foldl add_attr (lr_message r, vars) (lr_attrs r)"

text \<open>\<open>source\<close> is the function, file and line of a record's program counter, when there is one. What is sent: message, priority and fields.\<close>

definition journald_writeRecord :: "string \<Rightarrow> (string \<times> string \<times> int) option \<Rightarrow> log_record \<Rightarrow> string \<times> nat \<times> (string \<rightharpoonup> string)" where
  "journald_writeRecord tag source r =
     (case buildJournaldMessage r [''SYSLOG_IDENTIFIER'' \<mapsto> tag] of
        (msg, vars) \<Rightarrow>
          (msg, levelToPriority (lr_level r),
           case source of
             Some (f, file, line) \<Rightarrow>
               if lr_level r \<le> levelDebug \<and> f \<noteq> []
               then vars(''CODE_FUNC'' \<mapsto> f, ''CODE_FILE'' \<mapsto> file, ''CODE_LINE'' \<mapsto> itoa line) else vars
           | None \<Rightarrow> vars))"

section \<open>Sizes\<close>

text \<open>Rounding to the nearest integer, ties to even; a 64-bit integer as a \<open>float64\<close>; \<open>%.1f\<close> of a rational.\<close>

definition round_even :: "rat \<Rightarrow> int" where
  "round_even x =
     (let f = \<lfloor>x\<rfloor>; d = x - of_int f
      in if d < 1 / 2 then f else if 1 / 2 < d then f + 1 else if even f then f else f + 1)"

fun bit_length :: "nat \<Rightarrow> nat" where
  "bit_length n = (if n = 0 then 0 else Suc (bit_length (n div 2)))"

declare bit_length.simps [simp del]

definition to_float :: "int \<Rightarrow> rat" where
  "to_float n =
     (let b = bit_length (nat \<bar>n\<bar>)
      in if b \<le> 53 then of_int n else of_int (round_even (of_int n / 2 ^ (b - 53))) * 2 ^ (b - 53))"

definition fmt_1 :: "rat \<Rightarrow> string" where
  "fmt_1 x = (let t = round_even (x * 10) in itoa (t div 10) @ ''.'' @ itoa (t mod 10))"

function size_div :: "int \<Rightarrow> int \<Rightarrow> nat \<Rightarrow> int \<times> nat" where
  "size_div n d e = (if n < 1024 then (d, e) else size_div (n div 1024) (d * 1024) (Suc e))"
  by pat_completeness auto
termination
proof (relation "measure (\<lambda>(n, d, e). nat n)", goal_cases)
  case (2 n d e)
  then have "n div 1024 < n" by (intro int_div_less_self) simp_all
  then show ?case using 2 by simp
qed simp

declare size_div.simps [simp del]

definition FormatSize :: "int \<Rightarrow> string" where
  "FormatSize bytes =
     (if bytes < 1024 then itoa bytes @ '' B''
      else case size_div (bytes div 1024) 1024 0 of
             (d, e) \<Rightarrow> fmt_1 (to_float bytes / of_int d) @ '' '' @ [''KMGTPE'' ! e] @ ''iB'')"

section \<open>What holds\<close>

text \<open>The unit letter is always there: a 64-bit count never needs more than six units.\<close>

lemma div_1024_less: "n < 1024 * x \<Longrightarrow> n div 1024 < (x :: int)"
proof -
  assume "n < 1024 * x"
  moreover have "n = n div 1024 * 1024 + n mod 1024" "0 \<le> n mod 1024" by simp_all
  ultimately show ?thesis by linarith
qed

lemma size_div_unit: "0 \<le> n \<Longrightarrow> n < 1024 ^ Suc k \<Longrightarrow> snd (size_div n d e) \<le> e + k"
proof (induction k arbitrary: n d e)
  case 0
  then show ?case by (simp add: size_div.simps)
next
  case (Suc k)
  show ?case
  proof (cases "n < 1024")
    case True
    then show ?thesis by (simp add: size_div.simps)
  next
    case False
    have "n div 1024 < 1024 ^ Suc k" using Suc.prems(2) by (intro div_1024_less) simp
    moreover have "0 \<le> n div 1024" using Suc.prems(1) by simp
    ultimately have "snd (size_div (n div 1024) (d * 1024) (Suc e)) \<le> Suc e + k" by (rule Suc.IH [rotated])
    then show ?thesis using False by (subst size_div.simps) simp
  qed
qed

lemma FormatSize_unit:
  assumes "1024 \<le> bytes" and "bytes < 9223372036854775808"
  shows "snd (size_div (bytes div 1024) 1024 0) < length ''KMGTPE''"
proof -
  have "bytes div 1024 < 1024 ^ Suc 5" using assms(2) by (intro div_1024_less) simp
  moreover have "0 \<le> bytes div 1024" using assms(1) by simp
  ultimately have "snd (size_div (bytes div 1024) 1024 0) \<le> 5" using size_div_unit [of "bytes div 1024" 5 1024 0] by simp
  then show ?thesis by simp
qed

definition written :: "(log_record + nat) list \<Rightarrow> log_record list" where
  "written xs = concat (map (\<lambda>x. case x of Inl r \<Rightarrow> [r] | Inr _ \<Rightarrow> []) xs)"

definition reported :: "(log_record + nat) list \<Rightarrow> nat" where
  "reported xs = sum_list (map (\<lambda>x. case x of Inl _ \<Rightarrow> 0 | Inr n \<Rightarrow> n) xs)"

definition log_inv :: "log_core \<Rightarrow> bool" where
  "log_inv c \<longleftrightarrow> length (co_queue c) \<le> chanCap \<and> subseq (written (co_sent c) @ co_queue c) (co_all c)
     \<and> length (co_all c) = length (written (co_sent c) @ co_queue c) + co_dropped c + reported (co_sent c)"

lemma written_snoc: "written (xs @ [Inl r]) = written xs @ [r]" "written (xs @ [Inr n]) = written xs"
  "reported (xs @ [Inl r]) = reported xs" "reported (xs @ [Inr n]) = reported xs + n"
  by (simp_all add: written_def reported_def)

lemma subseq_snoc_both: "subseq xs ys \<Longrightarrow> subseq (xs @ [r]) (ys @ [r])"
  by (rule list_emb_append_mono) simp_all

lemma subseq_snoc_right: "subseq xs ys \<Longrightarrow> subseq xs (ys @ [r])"
  using list_emb_append_mono [of "(=)" xs ys "[]" "[r]"] by simp

lemma log_inv_step: "log_step c c' \<Longrightarrow> log_inv c \<Longrightarrow> log_inv c'"
proof (induction rule: log_step.induct)
  case (handle c r)
  then show ?case
    using subseq_snoc_both [of "written (co_sent c) @ co_queue c" "co_all c" r]
    by (simp add: core_Handle_def Let_def log_inv_def subseq_snoc_right)
next
  case (ticks c)
  then show ?case by (simp add: reportDropped_def log_inv_def written_snoc)
qed (simp_all add: log_inv_def written_snoc)

interpretation log_runs: kept_invariant log_step log_inv
  by unfold_locales (rule log_inv_step)

text \<open>C40. Whatever interleaving of callers, writer, ticks and stop: every record handed to the logger is written,
  queued, or counted as dropped; those written and queued keep the order they came in; and the queue
  never exceeds its bound.
\<close>

theorem log_accounts:
  assumes "log_step\<^sup>*\<^sup>* newAsyncCore c"
  shows "length (co_all c) = length (written (co_sent c)) + length (co_queue c) + co_dropped c + reported (co_sent c)
     \<and> subseq (written (co_sent c) @ co_queue c) (co_all c) \<and> length (co_queue c) \<le> chanCap"
proof -
  have "log_inv newAsyncCore" by (simp add: log_inv_def newAsyncCore_def written_def reported_def)
  from log_runs.along [OF assms this] show ?thesis by (simp add: log_inv_def)
qed

theorem log_accounts_witness:
  "\<exists>c. log_step\<^sup>*\<^sup>* newAsyncCore c \<and> co_sent c = [Inl \<lparr>lr_level = 0, lr_message = ''m'', lr_attrs = []\<rparr>] \<and> length (co_all c) = 1"
proof -
  let ?r = "\<lparr>lr_level = 0, lr_message = ''m'', lr_attrs = []\<rparr>"
  let ?c1 = "core_Handle ?r newAsyncCore"
  let ?c2 = "?c1\<lparr>co_queue := [], co_sent := co_sent ?c1 @ [Inl ?r]\<rparr>"
  have 1: "log_step newAsyncCore ?c1" by (rule log_step.handle)
  have 2: "log_step ?c1 ?c2"
    by (rule log_step.writes) (simp_all add: core_Handle_def newAsyncCore_def chanCap_def Let_def)
  have r: "log_step\<^sup>*\<^sup>* newAsyncCore ?c2" using 1 2 by (meson converse_rtranclp_into_rtranclp r_into_rtranclp)
  have "co_sent ?c2 = [Inl ?r]" "co_queue ?c2 = []" "co_dropped ?c2 = 0"
    by (simp_all add: core_Handle_def newAsyncCore_def chanCap_def Let_def)
  then show ?thesis using log_accounts [OF r] r by (intro exI [of _ ?c2]) (simp add: written_def reported_def)
qed

text \<open>After Setup exactly one writer is running, that of the default logger.\<close>

lemma Setup_one_writer:
  assumes "lg_running l = (case lg_previous l of None \<Rightarrow> {} | Some p \<Rightarrow> {p})" and "\<forall>n\<in>lg_running l. n < lg_next l"
  shows "lg_running (Setup_logger l) = {lg_default (Setup_logger l)}"
  using assms by (auto simp: Setup_logger_def Let_def split: option.splits)

text \<open>A field name as the journal takes it: upper-case letters, digits and underscores, a letter first.\<close>

definition journal_name :: "string \<Rightarrow> bool" where
  "journal_name n \<longleftrightarrow> n \<noteq> [] \<and> (\<forall>c\<in>set n. field_char c) \<and> hd n \<noteq> CHR ''_'' \<and> \<not> is_digit (hd n)"

lemma sanitize_journal: "journal_name (sanitizeFieldName key)"
proof -
  let ?n = "map (\<lambda>c. if field_char (upper_char c) then upper_char c else CHR ''_'') key"
  have f: "\<forall>c\<in>set ?n. field_char c" by (auto simp: field_char_def)
  have h: "field_char (CHR ''F'')" "field_char (CHR ''_'')" "\<not> is_digit (CHR ''F'')" by (simp_all add: field_char_def is_digit_def Let_def)
  have g: "journal_name (''F_'' @ n)" if "\<forall>c\<in>set n. field_char c" for n
    using that h by (simp add: journal_name_def)
  show ?thesis
  proof (cases "?n = [] \<or> hd ?n = CHR ''_'' \<or> is_digit (hd ?n)")
    case True
    then have "sanitizeFieldName key = ''F_'' @ ?n" by (simp only: sanitizeFieldName_def Let_def if_True)
    then show ?thesis using g [OF f] by (simp only:)
  next
    case False
    then have "sanitizeFieldName key = ?n" by (simp only: sanitizeFieldName_def Let_def if_False)
    then show ?thesis using f False unfolding journal_name_def by (simp only:) blast
  qed
qed

text \<open>No attribute of a log line can write a field the journal entry sets itself: every attribute's field has a
  valid name other than the message, priority and identifier, so \<open>SYSLOG_IDENTIFIER\<close> is always the tag.
\<close>

lemma field_name_safe: "journal_name (journaldFieldName key) \<and> journaldFieldName key \<notin> set reservedFields"
proof (cases "sanitizeFieldName key \<in> set reservedFields")
  case True
  have "sanitizeFieldName key = ''MESSAGE'' \<or> sanitizeFieldName key = ''PRIORITY'' \<or> sanitizeFieldName key = ''SYSLOG_IDENTIFIER''"
    using True by (simp add: reservedFields_def)
  then show ?thesis
    by (elim disjE) (simp_all add: journaldFieldName_def reservedFieldName_def reservedFields_def journal_name_def field_char_def is_digit_def)
next
  case False
  then show ?thesis using sanitize_journal [of key] by (simp add: journaldFieldName_def reservedFieldName_def)
qed

lemma add_attrs_other:
  "(\<And>k v. (k, v) \<in> set as \<Longrightarrow> journaldFieldName k \<noteq> f) \<Longrightarrow> snd (foldl add_attr (m, vars) as) f = vars f"
proof (induction as arbitrary: m vars)
  case (Cons a as)
  obtain k v where a: "a = (k, v)" by (cases a)
  have "snd (foldl add_attr (add_attr (m, vars) a) as) f = snd (add_attr (m, vars) a) f"
    using Cons.IH [of "fst (add_attr (m, vars) a)" "snd (add_attr (m, vars) a)"] Cons.prems by fastforce
  then show ?case using Cons.prems [of k v] a by simp
qed simp

lemma add_attrs_dom:
  "dom (snd (foldl add_attr (m, vars) as)) = dom vars \<union> (\<lambda>(k, v). journaldFieldName k) ` set as"
proof (induction as arbitrary: m vars)
  case (Cons a as)
  obtain k v where a: "a = (k, v)" by (cases a)
  have "dom (snd (foldl add_attr (add_attr (m, vars) a) as))
      = dom (snd (add_attr (m, vars) a)) \<union> (\<lambda>(k, v). journaldFieldName k) ` set as"
    using Cons.IH [of "fst (add_attr (m, vars) a)" "snd (add_attr (m, vars) a)"] by simp
  then show ?case using a by auto
qed simp

theorem journal_fields_safe:
  "snd (snd (journald_writeRecord tag source r)) ''SYSLOG_IDENTIFIER'' = Some tag
   \<and> ''MESSAGE'' \<notin> dom (snd (snd (journald_writeRecord tag source r)))
   \<and> ''PRIORITY'' \<notin> dom (snd (snd (journald_writeRecord tag source r)))
   \<and> (\<forall>f\<in>dom (snd (snd (journald_writeRecord tag source r))). journal_name f)"
proof -
  let ?v = "snd (foldl add_attr (lr_message r, [''SYSLOG_IDENTIFIER'' \<mapsto> tag]) (lr_attrs r))"
  have res: "journaldFieldName k \<noteq> f" if "f \<in> set reservedFields" for k f using field_name_safe [of k] that by auto
  have id: "?v ''SYSLOG_IDENTIFIER'' = Some tag"
    using add_attrs_other [of "lr_attrs r" "''SYSLOG_IDENTIFIER''"] res [of "''SYSLOG_IDENTIFIER''"] by (simp add: reservedFields_def)
  have d: "dom ?v = insert ''SYSLOG_IDENTIFIER'' ((\<lambda>(k, v). journaldFieldName k) ` set (lr_attrs r))"
    by (simp add: add_attrs_dom)
  have m: "''MESSAGE'' \<notin> dom ?v" "''PRIORITY'' \<notin> dom ?v"
    unfolding d using res [of "''MESSAGE''"] res [of "''PRIORITY''"] by (auto simp: reservedFields_def dest: sym)
  have n: "journal_name ''SYSLOG_IDENTIFIER''" "journal_name ''CODE_FUNC''" "journal_name ''CODE_FILE''" "journal_name ''CODE_LINE''"
    by (simp_all add: journal_name_def field_char_def is_digit_def)
  have j: "\<forall>f\<in>dom ?v. journal_name f" unfolding d using n(1) field_name_safe by auto
  show ?thesis
    using id m j n
    by (auto simp: journald_writeRecord_def buildJournaldMessage_def split: option.splits prod.splits)
qed

end
