(* ===== verification/Tray.thy ===== *)
theory Tray
  imports Local_Api Logx Cmd_Mount
begin

text \<open>
  The tray icon (internal/tray/tray.go): what icon, status line, tooltip and menu a round of detection
  asks for; the app that sends only differences over D-Bus, with the screen those calls produce; the
  poll loop; the clicks; and the fallbacks from the local API to the files. The systray library is the
  calls it is given; processes started are effects.
\<close>

definition maxCurrentLines :: nat where "maxCurrentLines = 3"
definition maxRecentItems :: nat where "maxRecentItems = 10"

section \<open>What to show\<close>

datatype tray_state = StateLoggedOut | StatePaused | StateUnmounted | StateSyncing | StateOnline

definition pickState :: "bool \<Rightarrow> bool \<Rightarrow> bool \<Rightarrow> int \<Rightarrow> bool \<Rightarrow> tray_state" where
  "pickState loggedIn mounted paused transfers fresh' =
     (if \<not> loggedIn then StateLoggedOut
      else if paused then StatePaused
      else if \<not> mounted then StateUnmounted
      else if fresh' \<and> 0 < transfers then StateSyncing
      else StateOnline)"

datatype tray_icon = IconOnline | IconSyncing | IconPaused | IconIdle

definition icon :: "tray_state \<Rightarrow> tray_icon" where
  "icon s = (case s of StateOnline \<Rightarrow> IconOnline | StateSyncing \<Rightarrow> IconSyncing | StatePaused \<Rightarrow> IconPaused | _ \<Rightarrow> IconIdle)"

type_synonym current_transfer = "string \<times> string \<times> int \<times> int \<times> int"
type_synonym recent_transfer = "string \<times> string \<times> string \<times> int \<times> int \<times> string"

record snapshot =
  sp_loggedIn :: bool
  sp_mounted :: bool
  sp_paused :: bool
  sp_transfers :: int
  sp_fresh :: bool
  sp_queued :: int
  sp_done :: int
  sp_failed :: int
  sp_current :: "current_transfer list"
  sp_recent :: "recent_transfer list"
  sp_ownVersion :: string
  sp_daemonVersion :: string

definition snapshot_state :: "snapshot \<Rightarrow> tray_state" where
  "snapshot_state sn = pickState (sp_loggedIn sn) (sp_mounted sn) (sp_paused sn) (sp_transfers sn) (sp_fresh sn)"

definition uploading :: "snapshot \<Rightarrow> bool" where
  "uploading sn \<longleftrightarrow> sp_done sn + sp_failed sn < sp_queued sn"

definition daemonMismatch :: "snapshot \<Rightarrow> bool" where
  "daemonMismatch sn \<longleftrightarrow> sp_fresh sn \<and> sp_daemonVersion sn \<noteq> [] \<and> sp_ownVersion sn \<noteq> [] \<and> sp_daemonVersion sn \<noteq> sp_ownVersion sn"

definition statusLine :: "snapshot \<Rightarrow> string \<Rightarrow> string" where
  "statusLine sn mountpoint =
     (if \<not> sp_loggedIn sn then ''Not logged in''
      else if mountpoint = [] then ''No mountpoint configured''
      else if \<not> sp_mounted sn then ''Not mounted''
      else ''Mounted at '' @ mountpoint
           @ (if sp_paused sn then '' (paused)''
              else if sp_fresh sn \<and> uploading sn then '', syncing '' @ itoa (sp_done sn) @ ''/'' @ itoa (sp_queued sn)
              else if sp_fresh sn \<and> 0 < sp_transfers sn then '' (syncing)'' else [])
           @ (if sp_fresh sn \<and> 0 < sp_failed sn then '', '' @ itoa (sp_failed sn) @ '' failed'' else [])
           @ (if daemonMismatch sn then '' (daemon '' @ sp_daemonVersion sn @ '', restart needed)'' else []))"

definition transferLine :: "current_transfer \<Rightarrow> string" where
  "transferLine t =
     (case t of (path, action, done', size', started) \<Rightarrow>
        (let verb = (if action = ''download'' then ''Downloading'' else ''Uploading'')
         in if size' \<le> 0 then verb @ '' '' @ path
            else verb @ '' '' @ path @ '' '' @ itoa (wrap64 (done' * 100) sdiv size') @ ''%''))"

definition tooltipFor :: "snapshot \<Rightarrow> string \<Rightarrow> string" where
  "tooltipFor sn mountpoint =
     (case sp_current sn of
        [] \<Rightarrow> statusLine sn mountpoint
      | t # ts \<Rightarrow> transferLine t @ (if ts \<noteq> [] then '' and '' @ itoa (int (length ts)) @ '' more'' else []))"

text \<open>The cross and the check mark, in UTF-8.\<close>

definition recentLine :: "recent_transfer \<Rightarrow> string" where
  "recentLine rt =
     (case rt of (path, action, st, n, finished, err) \<Rightarrow>
        if st = ''failed'' then [CHR 0xE2, CHR 0x9C, CHR 0x97] @ '' '' @ path @ '': '' @ err
        else [CHR 0xE2, CHR 0x9C, CHR 0x93] @ '' '' @ path @ '' ('' @ FormatSize n @ '')'')"

definition refreshInterval :: "snapshot \<Rightarrow> nanos" where
  "refreshInterval sn = (if sp_current sn \<noteq> [] then seconds 1 else seconds 2)"

record menuVisibility =
  mv_Mount :: bool
  mv_Unmount :: bool
  mv_Restart :: bool
  mv_Pause :: bool
  mv_OpenFolder :: bool
  mv_Login :: bool
  mv_Logout :: bool

definition visibilityFor :: "bool \<Rightarrow> bool \<Rightarrow> bool \<Rightarrow> menuVisibility" where
  "visibilityFor loggedIn mounted configured =
     \<lparr>mv_Mount = loggedIn \<and> \<not> mounted \<and> configured, mv_Unmount = mounted \<and> configured, mv_Restart = mounted \<and> configured,
      mv_Pause = mounted \<and> configured, mv_OpenFolder = mounted \<and> configured, mv_Login = \<not> loggedIn, mv_Logout = loggedIn\<rparr>"

section \<open>Sending it\<close>

datatype menu_item =
    ItStatus | ItCurrent nat | ItRecentSub | ItRecent nat | ItMount | ItUnmount | ItRestart | ItPause | ItResume
  | ItOpenFolder | ItLogin | ItLogout

datatype tray_call = SetTitle menu_item string | ShowItem menu_item | HideItem menu_item | SetTooltip string | SetIcon tray_icon

text \<open>\<open>None\<close> is a title or visibility not sent yet.\<close>

record sentItem =
  sI_title :: "string option"
  sI_visible :: "bool option"

record app =
  ap_mountpoint :: string
  ap_shown :: "tray_state option"
  ap_hintUntil :: nanos
  ap_recentPaths :: "nat \<Rightarrow> string"
  ap_sent :: "menu_item \<Rightarrow> sentItem"
  ap_tooltip :: string

definition setTitle :: "menu_item \<Rightarrow> string \<Rightarrow> app \<Rightarrow> app \<times> tray_call list" where
  "setTitle item title a =
     (if sI_title (ap_sent a item) = Some title then (a, [])
      else (a\<lparr>ap_sent := (ap_sent a)(item := (ap_sent a item)\<lparr>sI_title := Some title\<rparr>)\<rparr>, [SetTitle item title]))"

definition showIf :: "menu_item \<Rightarrow> bool \<Rightarrow> app \<Rightarrow> app \<times> tray_call list" where
  "showIf item sh a =
     (if sI_visible (ap_sent a item) = Some sh then (a, [])
      else (a\<lparr>ap_sent := (ap_sent a)(item := (ap_sent a item)\<lparr>sI_visible := Some sh\<rparr>)\<rparr>,
            [if sh then ShowItem item else HideItem item]))"

definition setTooltip :: "string \<Rightarrow> app \<Rightarrow> app \<times> tray_call list" where
  "setTooltip t a = (if t = ap_tooltip a then (a, []) else (a\<lparr>ap_tooltip := t\<rparr>, [SetTooltip t]))"

definition setIcon :: "tray_state \<Rightarrow> app \<Rightarrow> app \<times> tray_call list" where
  "setIcon s a = (if ap_shown a = Some s then (a, []) else (a\<lparr>ap_shown := Some s\<rparr>, [SetIcon (icon s)]))"

text \<open>The calls \<open>apply\<close> makes, in order, as a list of what each asks for.\<close>

datatype wish = WTitle menu_item string | WShow menu_item bool | WTooltip string | WIcon tray_state

fun grant :: "wish \<Rightarrow> app \<Rightarrow> app \<times> tray_call list" where
  "grant (WTitle it t) a = setTitle it t a"
| "grant (WShow it b) a = showIf it b a"
| "grant (WTooltip t) a = setTooltip t a"
| "grant (WIcon s) a = setIcon s a"

fun perform :: "wish list \<Rightarrow> app \<Rightarrow> app \<times> tray_call list" where
  "perform [] a = (a, [])"
| "perform (w # ws) a = (case grant w a of (a1, c1) \<Rightarrow> (case perform ws a1 of (a2, c2) \<Rightarrow> (a2, c1 @ c2)))"

definition applyCurrent :: "current_transfer list \<Rightarrow> wish list" where
  "applyCurrent cur =
     concat (map (\<lambda>i. if length cur \<le> i then [WShow (ItCurrent i) False]
                      else [WTitle (ItCurrent i) (transferLine (cur ! i)), WShow (ItCurrent i) True]) [0..<maxCurrentLines])"

definition applyRecent :: "recent_transfer list \<Rightarrow> wish list" where
  "applyRecent recent =
     (if recent = [] then [WShow ItRecentSub False]
      else WShow ItRecentSub True
           # concat (map (\<lambda>i. if length recent \<le> i then [WShow (ItRecent i) False]
                              else [WTitle (ItRecent i) (recentLine (recent ! i)), WShow (ItRecent i) True]) [0..<maxRecentItems]))"

definition recent_paths :: "recent_transfer list \<Rightarrow> (nat \<Rightarrow> string) \<Rightarrow> nat \<Rightarrow> string" where
  "recent_paths recent old =
     (if recent = [] then old
      else (\<lambda>i. if maxRecentItems \<le> i then old i else if length recent \<le> i then [] else fst (recent ! i)))"

definition menu_wishes :: "snapshot \<Rightarrow> string \<Rightarrow> wish list" where
  "menu_wishes sn mountpoint =
     (let v = visibilityFor (sp_loggedIn sn) (sp_mounted sn) (mountpoint \<noteq> [])
      in [WShow ItMount (mv_Mount v), WShow ItUnmount (mv_Unmount v), WShow ItRestart (mv_Restart v),
          WShow ItPause (mv_Pause v \<and> \<not> sp_paused sn), WShow ItResume (mv_Pause v \<and> sp_paused sn),
          WShow ItOpenFolder (mv_OpenFolder v), WShow ItLogin (mv_Login v), WShow ItLogout (mv_Logout v)])"

definition apply_wishes :: "nanos \<Rightarrow> snapshot \<Rightarrow> app \<Rightarrow> wish list" where
  "apply_wishes now sn a =
     [WIcon (snapshot_state sn)]
     @ (if ap_hintUntil a \<le> now then [WTitle ItStatus (statusLine sn (ap_mountpoint a))] else [])
     @ [WTooltip (tooltipFor sn (ap_mountpoint a))]
     @ menu_wishes sn (ap_mountpoint a) @ applyCurrent (sp_current sn) @ applyRecent (sp_recent sn)"

definition apply_snapshot :: "nanos \<Rightarrow> snapshot \<Rightarrow> app \<Rightarrow> app \<times> tray_call list" where
  "apply_snapshot now sn a =
     (case perform (apply_wishes now sn a) a of
        (a1, calls) \<Rightarrow> (a1\<lparr>ap_recentPaths := recent_paths (sp_recent sn) (ap_recentPaths a1)\<rparr>, calls))"

definition hint :: "nanos \<Rightarrow> string \<Rightarrow> app \<Rightarrow> app \<times> tray_call list" where
  "hint now text' a = setTitle ItStatus text' (a\<lparr>ap_hintUntil := now + seconds 10\<rparr>)"

section \<open>Polling\<close>

text \<open>\<open>readStatus\<close>: the API's answer, else the file's; a failing API and no file give the zero status.\<close>

definition zero_status :: status where
  "zero_status = \<lparr>ss_mountpoint = [], ss_version = [], ss_pid = 0, ss_transfers = 0, ss_paused = False, ss_updated = 0, ss_queued = 0,
     ss_done = 0, ss_failed = 0, ss_current = [], ss_recent = []\<rparr>"

definition readStatus :: "nanos \<Rightarrow> status option \<Rightarrow> status option \<Rightarrow> status \<times> bool" where
  "readStatus now api file =
     (case api of
        Some st \<Rightarrow> (st, True)
      | None \<Rightarrow> (case file of None \<Rightarrow> (zero_status, False) | Some st \<Rightarrow> (st, Fresh now st)))"

record poll_state =
  ps_loggedIn :: bool
  ps_lastCheck :: "nanos option"

record facts =
  fa_now :: nanos
  fa_loggedIn :: bool
  fa_mounted :: bool
  fa_paused :: bool
  fa_api :: "status option"
  fa_file :: "status option"

definition poll_check :: "facts \<Rightarrow> poll_state \<Rightarrow> bool \<times> poll_state" where
  "poll_check f p =
     (let due = (case ps_lastCheck p of None \<Rightarrow> True | Some t \<Rightarrow> seconds 5 \<le> fa_now f - t)
      in if due then (True, \<lparr>ps_loggedIn = fa_loggedIn f, ps_lastCheck = Some (fa_now f)\<rparr>) else (False, p))"

definition poll_snapshot :: "string \<Rightarrow> facts \<Rightarrow> poll_state \<Rightarrow> snapshot" where
  "poll_snapshot ownVersion f p =
     (case readStatus (fa_now f) (fa_api f) (fa_file f) of
        (st, fresh') \<Rightarrow>
          \<lparr>sp_loggedIn = ps_loggedIn p, sp_mounted = fa_mounted f, sp_paused = fa_paused f, sp_transfers = ss_transfers st,
           sp_fresh = fresh', sp_queued = ss_queued st, sp_done = ss_done st, sp_failed = ss_failed st,
           sp_current = ss_current st, sp_recent = ss_recent st, sp_ownVersion = ownVersion, sp_daemonVersion = ss_version st\<rparr>)"

text \<open>One round of the loop, ending at the next tick or at a refresh (\<open>refreshed\<close>), which forces the check; with how long the ticker is set to.\<close>

definition poll_round :: "string \<Rightarrow> facts \<Rightarrow> bool \<Rightarrow> poll_state \<times> app \<Rightarrow> (poll_state \<times> app) \<times> tray_call list \<times> nanos" where
  "poll_round ownVersion f refreshed pa =
     (case pa of (p, a) \<Rightarrow>
        (case poll_check f p of
           (_, p1) \<Rightarrow>
             (let sn = poll_snapshot ownVersion f p1
              in case apply_snapshot (fa_now f) sn a of
                   (a1, calls) \<Rightarrow>
                     ((if refreshed then p1\<lparr>ps_lastCheck := None\<rparr> else p1, a1), calls, refreshInterval sn))))"

text \<open>\<open>signal\<close>: the refresh channel holds one.\<close>

definition signal_refresh :: "bool \<Rightarrow> bool" where
  "signal_refresh pending = True"

section \<open>Clicks\<close>

definition terminals :: "string list" where
  "terminals = [''x-terminal-emulator'', ''kitty'', ''alacritty'', ''foot'', ''gnome-terminal'', ''konsole'', ''xterm'']"

fun first_terminal :: "(string \<Rightarrow> string option) \<Rightarrow> string list \<Rightarrow> string list \<Rightarrow> string list option" where
  "first_terminal lookPath [] cmdArgs = None"
| "first_terminal lookPath (term # ts) cmdArgs =
     (case lookPath term of
        None \<Rightarrow> first_terminal lookPath ts cmdArgs
      | Some path \<Rightarrow> Some ([path, if path_base term = ''gnome-terminal'' then ''--'' else ''-e''] @ cmdArgs))"

definition terminalCommand :: "(string \<Rightarrow> string option) \<Rightarrow> string \<Rightarrow> string list \<Rightarrow> string list option" where
  "terminalCommand lookPath preferred cmdArgs =
     first_terminal lookPath (if preferred \<noteq> [] then preferred # terminals else terminals) cmdArgs"

definition firstLine :: "string \<Rightarrow> string" where
  "firstLine s =
     (let line = trim_space (case cut_at (CHR 0x0A) s of None \<Rightarrow> s | Some (a, _) \<Rightarrow> a)
      in if line = [] then ''(no output)'' else line)"

text \<open>
  What a click does, in order: commands of this binary that are waited for, commands started, a
  message parked on the status line, a refresh asked of the poll, and the quit path.
\<close>

datatype tray_effect =
    RunSelf "string list" | StartCommand "string list" | Hint string | Signal | ShowAbout | CallOnQuit | QuitTray

record tray_options =
  to_Mountpoint :: string
  to_LogPath :: string
  to_ConfigPath :: string
  to_Embedded :: bool

record desktop =
  de_exe :: "string option"
  de_run :: "string list \<Rightarrow> bool \<times> string"
  de_lookPath :: "string \<Rightarrow> string option"
  de_terminal :: string
  de_journal :: bool

definition runSelf :: "desktop \<Rightarrow> string list \<Rightarrow> tray_effect list" where
  "runSelf d args =
     (if de_exe d = None then []
      else (case de_run d args of (ok, out) \<Rightarrow> [RunSelf args] @ (if ok then [] else [Hint (firstLine out)]) @ [Signal]))"

definition restartMount :: "desktop \<Rightarrow> tray_options \<Rightarrow> tray_effect list" where
  "restartMount d opts = runSelf d [''unmount'', to_Mountpoint opts] @ runSelf d [''mount'', to_Mountpoint opts]"

definition configDir :: "tray_options \<Rightarrow> string" where
  "configDir opts = (if to_ConfigPath opts = [] then [] else path_dir (to_ConfigPath opts))"

definition showLogs :: "desktop \<Rightarrow> tray_options \<Rightarrow> tray_effect list" where
  "showLogs d opts =
     (let journal = [''journalctl'', ''--user'', ''-t'', ''proton-drive-fs'', ''-f'']
      in if de_journal d
         then (case terminalCommand (de_lookPath d) (de_terminal d) journal of
                 None \<Rightarrow> [Hint (''Run: '' @ join_with '' '' journal)]
               | Some argv \<Rightarrow> [StartCommand argv])
         else [StartCommand [''xdg-open'', to_LogPath opts]])"

definition startLogin :: "desktop \<Rightarrow> tray_effect list" where
  "startLogin d =
     (case de_exe d of
        None \<Rightarrow> []
      | Some exe \<Rightarrow>
          (case terminalCommand (de_lookPath d) (de_terminal d) [exe, ''login''] of
             None \<Rightarrow> [Hint ''Run: proton-drive-fs login'']
           | Some argv \<Rightarrow> [StartCommand argv]))"

definition openRecentAt :: "tray_options \<Rightarrow> app \<Rightarrow> nat \<Rightarrow> tray_effect list" where
  "openRecentAt opts a i =
     (let p = ap_recentPaths a i
      in if p = [] then [] else [StartCommand [''xdg-open'', path_dir (path_join [to_Mountpoint opts, p])]])"

definition stopDaemon :: "desktop \<Rightarrow> tray_options \<Rightarrow> tray_effect list" where
  "stopDaemon d opts =
     (if to_Mountpoint opts = [] then [] else if de_exe d = None then [] else [RunSelf [''unmount'', to_Mountpoint opts]])"

definition onExit :: "desktop \<Rightarrow> tray_options \<Rightarrow> tray_effect list" where
  "onExit d opts = (if to_Embedded opts then [] else stopDaemon d opts)"

definition changelogURL :: string where
  "changelogURL = ''https://github.com/khaosdoctor/proton-drive-linux-fs/releases/latest''"

datatype click =
    ClickMount | ClickUnmount | ClickRestart | ClickOpenFolder | ClickOpenLogs | ClickOpenConfig | ClickLogin | ClickLogout
  | ClickAbout | ClickChangelog | ClickDashboard | ClickRecent nat | ClickQuit

definition on_click :: "desktop \<Rightarrow> tray_options \<Rightarrow> app \<Rightarrow> click \<Rightarrow> tray_effect list" where
  "on_click d opts a c =
     (case c of
        ClickMount \<Rightarrow> runSelf d [''mount'', to_Mountpoint opts]
      | ClickUnmount \<Rightarrow> runSelf d [''unmount'', to_Mountpoint opts]
      | ClickRestart \<Rightarrow> restartMount d opts
      | ClickOpenFolder \<Rightarrow> [StartCommand [''xdg-open'', to_Mountpoint opts]]
      | ClickOpenLogs \<Rightarrow> showLogs d opts
      | ClickOpenConfig \<Rightarrow> [StartCommand [''xdg-open'', configDir opts]]
      | ClickLogin \<Rightarrow> startLogin d
      | ClickLogout \<Rightarrow> runSelf d [''logout'']
      | ClickAbout \<Rightarrow> [ShowAbout]
      | ClickChangelog \<Rightarrow> [StartCommand [''xdg-open'', changelogURL]]
      | ClickDashboard \<Rightarrow> [StartCommand [''proton-drive-fs-gui'']]
      | ClickRecent i \<Rightarrow> openRecentAt opts a i
      | ClickQuit \<Rightarrow> (if to_Embedded opts then [CallOnQuit] else stopDaemon d opts) @ [QuitTray])"

text \<open>The menu \<open>onReady\<close> builds: title, tooltip and the click, with what is disabled or hidden at first.\<close>

datatype menu_entry =
    Entry string string "click option"
  | Disabled string bool
  | Submenu string string "(string \<times> click) list"
  | PauseEntry string string bool
  | Separator

definition onReady :: "desktop \<Rightarrow> tray_options \<Rightarrow> tray_call list \<times> menu_entry list" where
  "onReady d opts =
     (let mp = to_Mountpoint opts
      in ([SetIcon IconIdle, SetTooltip ''Proton Drive FS''],
          [Disabled ''Checking'' True] @ replicate maxCurrentLines (Disabled [] False)
          @ [Submenu ''Recent'' ''The last few finished transfers'' (map (\<lambda>i. ([], ClickRecent i)) [0..<maxRecentItems]), Separator,
             Entry ''Mount'' (''Mount Proton Drive at '' @ mp) (Some ClickMount),
             Entry ''Unmount'' (''Unmount '' @ mp) (Some ClickUnmount),
             Entry ''Restart mount'' ''Unmount and remount, to pick up a rebuild'' (Some ClickRestart),
             PauseEntry ''Pause syncing'' ''Stop polling Proton for remote changes'' True,
             PauseEntry ''Resume syncing'' ''Poll Proton for remote changes again'' False,
             Entry ''Open folder'' (''Open '' @ mp @ '' in the file manager'') (Some ClickOpenFolder),
             Entry ''Open logs'' ''Show the mount log'' (Some ClickOpenLogs)]
          @ (if configDir opts \<noteq> []
             then [Entry ''Open config folder'' (''Open '' @ configDir opts @ '' in the file manager'') (Some ClickOpenConfig)] else [])
          @ [Separator, Entry ''Log in'' ''Log in to Proton in a terminal'' (Some ClickLogin),
             Entry ''Log out'' ''Revoke the saved session'' (Some ClickLogout), Separator,
             Entry ''About proton-drive-fs'' ''Version, links and third-party licenses'' (Some ClickAbout),
             Entry ''Changelog'' ''Open the latest release notes on GitHub'' (Some ClickChangelog)]
          @ (if de_lookPath d ''proton-drive-fs-gui'' \<noteq> None
             then [Entry ''Open dashboard'' ''Open the proton-drive-fs-gui dashboard'' (Some ClickDashboard)] else [])
          @ [Entry ''Quit'' ''Unmount Proton Drive and close the tray icon'' (Some ClickQuit)]))"

text \<open>The pause clicks: the API first, the marker file when it does not answer with a success.\<close>

definition setPausedViaAPIOrFile :: "transport \<Rightarrow> (api_request \<Rightarrow> api_world \<Rightarrow> api_response \<times> api_world) \<Rightarrow> bool \<Rightarrow> state_faults \<Rightarrow> environ \<Rightarrow> bool \<Rightarrow> api_world
    \<Rightarrow> (state_error + unit) \<times> api_world" where
  "setPausedViaAPIOrFile tr server client_ok fl e paused w =
     (case (if client_ok then client_SetPaused tr server paused w else (Some ''no client'', w)) of
        (None, w1) \<Rightarrow> (Inr (), w1)
      | (Some _, w1) \<Rightarrow> (case SetPaused fl e paused (aw_runtime w1) of (r, fs) \<Rightarrow> (r, w1\<lparr>aw_runtime := fs\<rparr>)))"

section \<open>The remembered mount point\<close>

definition tray_configPath :: "string \<Rightarrow> string option \<Rightarrow> string option" where
  "tray_configPath xdg home =
     (if xdg \<noteq> [] then Some (path_join [xdg, ''proton-drive-fs'', ''tray.json''])
      else map_option (\<lambda>h. path_join [path_join [h, ''.config''], ''proton-drive-fs'', ''tray.json'']) home)"

definition LoadMountpoint :: "(string \<Rightarrow> string option) \<Rightarrow> string option \<Rightarrow> (string \<Rightarrow> string option) \<Rightarrow> string" where
  "LoadMountpoint dec path files =
     (case path of
        None \<Rightarrow> []
      | Some p \<Rightarrow> (case files p of None \<Rightarrow> [] | Some data \<Rightarrow> (case dec data of None \<Rightarrow> [] | Some m \<Rightarrow> m)))"

definition SaveMountpoint :: "(string \<Rightarrow> string) \<Rightarrow> string option \<Rightarrow> bool \<Rightarrow> write_outcome \<Rightarrow> string \<Rightarrow> (string \<Rightarrow> string option) \<Rightarrow> bool \<times> (string \<Rightarrow> string option)" where
  "SaveMountpoint enc path mkdir_fails wr mountpoint files =
     (case path of
        None \<Rightarrow> (False, files)
      | Some p \<Rightarrow>
          if mkdir_fails then (False, files)
          else (case wr of
                  Written \<Rightarrow> (True, files(p \<mapsto> enc mountpoint))
                | NotOpened \<Rightarrow> (False, files)
                | Cut part \<Rightarrow> (False, files(p \<mapsto> part))))"

section \<open>The screen shows the snapshot\<close>

text \<open>What the panel shows: the last thing it was told of each item and of the icon.\<close>

record screen =
  sc_title :: "menu_item \<Rightarrow> string"
  sc_visible :: "menu_item \<Rightarrow> bool"
  sc_tooltip :: string
  sc_icon :: tray_icon

fun apply_call :: "tray_call \<Rightarrow> screen \<Rightarrow> screen" where
  "apply_call (SetTitle it t) s = s\<lparr>sc_title := (sc_title s)(it := t)\<rparr>"
| "apply_call (ShowItem it) s = s\<lparr>sc_visible := (sc_visible s)(it := True)\<rparr>"
| "apply_call (HideItem it) s = s\<lparr>sc_visible := (sc_visible s)(it := False)\<rparr>"
| "apply_call (SetTooltip t) s = s\<lparr>sc_tooltip := t\<rparr>"
| "apply_call (SetIcon i) s = s\<lparr>sc_icon := i\<rparr>"

text \<open>The app's memory of what it sent agrees with the screen; an empty tooltip is one never sent.\<close>

definition tells :: "app \<Rightarrow> screen \<Rightarrow> bool" where
  "tells a s \<longleftrightarrow>
     (\<forall>it t. sI_title (ap_sent a it) = Some t \<longrightarrow> sc_title s it = t)
   \<and> (\<forall>it b. sI_visible (ap_sent a it) = Some b \<longrightarrow> sc_visible s it = b)
   \<and> (ap_tooltip a \<noteq> [] \<longrightarrow> sc_tooltip s = ap_tooltip a)
   \<and> (\<forall>x. ap_shown a = Some x \<longrightarrow> sc_icon s = icon x)"

text \<open>A wish is settled when asking again sends nothing.\<close>

fun settled :: "app \<Rightarrow> wish \<Rightarrow> bool" where
  "settled a (WTitle it t) = (sI_title (ap_sent a it) = Some t)"
| "settled a (WShow it b) = (sI_visible (ap_sent a it) = Some b)"
| "settled a (WTooltip t) = (t = ap_tooltip a \<and> t \<noteq> [])"
| "settled a (WIcon x) = (ap_shown a = Some x)"

datatype wish_key = KeyTitle menu_item | KeyShow menu_item | KeyTooltip | KeyIcon

fun wkey :: "wish \<Rightarrow> wish_key" where
  "wkey (WTitle it t) = KeyTitle it"
| "wkey (WShow it b) = KeyShow it"
| "wkey (WTooltip t) = KeyTooltip"
| "wkey (WIcon x) = KeyIcon"

lemmas grant_defs = setTitle_def showIf_def setTooltip_def setIcon_def

lemma grant_settled: "settled a w \<Longrightarrow> grant w a = (a, [])"
  by (cases w) (auto simp: grant_defs)

lemma grant_settles:
  assumes "tells a s" "grant w a = (a1, c)" "w \<noteq> WTooltip []"
  shows "settled a1 w" "tells a1 (fold apply_call c s)" "wkey w' \<noteq> wkey w \<Longrightarrow> settled a1 w' = settled a w'"
    "ap_mountpoint a1 = ap_mountpoint a" "ap_hintUntil a1 = ap_hintUntil a"
proof -
  show "settled a1 w" "ap_mountpoint a1 = ap_mountpoint a" "ap_hintUntil a1 = ap_hintUntil a"
    using assms by (cases w; auto simp: grant_defs split: if_splits)+
  show "tells a1 (fold apply_call c s)" using assms by (cases w) (auto simp: grant_defs tells_def split: if_splits)
  show "settled a1 w' = settled a w'" if "wkey w' \<noteq> wkey w"
    using assms(2) that by (cases w; cases w') (auto simp: grant_defs split: if_splits)
qed

lemma perform_settled: "(\<And>w. w \<in> set ws \<Longrightarrow> settled a w) \<Longrightarrow> perform ws a = (a, [])"
  by (induction ws) (simp_all add: grant_settled)

lemma perform_settles:
  assumes "tells a s" "perform ws a = (a1, c)" "WTooltip [] \<notin> set ws" "distinct (map wkey ws)"
  shows "(\<forall>w\<in>set ws. settled a1 w) \<and> tells a1 (fold apply_call c s)
       \<and> (\<forall>w. wkey w \<notin> wkey ` set ws \<longrightarrow> settled a1 w = settled a w)
       \<and> ap_mountpoint a1 = ap_mountpoint a \<and> ap_hintUntil a1 = ap_hintUntil a"
  using assms
proof (induction ws arbitrary: a s c)
  case (Cons w ws)
  obtain a2 c2 c3 where g: "grant w a = (a2, c2)" and p: "perform ws a2 = (a1, c3)" and c: "c = c2 @ c3"
    using Cons.prems(2) by (auto split: prod.splits)
  have ne: "w \<noteq> WTooltip []" using Cons.prems(3) by auto
  note st = grant_settles [OF Cons.prems(1) g ne]
  have "wkey w \<notin> wkey ` set ws" using Cons.prems(4) by simp
  then show ?case using Cons.IH [OF st(2) p] Cons.prems(3,4) st unfolding c by simp
qed simp

lemma tells_shows:
  assumes "tells a s" "settled a w"
  shows "case w of WTitle it t \<Rightarrow> sc_title s it = t | WShow it b \<Rightarrow> sc_visible s it = b | WTooltip t \<Rightarrow> sc_tooltip s = t | WIcon x \<Rightarrow> sc_icon s = icon x"
  using assms by (cases w) (auto simp: tells_def)

lemma distinct_concat_blocks:
  assumes "\<And>i. distinct (map f (g i))" "\<And>i j. i \<noteq> j \<Longrightarrow> f ` set (g i) \<inter> f ` set (g j) = {}"
  shows "distinct (map f (concat (map g [0..<n])))"
proof (induction n)
  case (Suc n)
  have "f ` set (g i) \<inter> f ` set (g n) = {}" if "i < n" for i using assms(2) [of i n] that by simp
  then have "f ` set (concat (map g [0..<n])) \<inter> f ` set (g n) = {}" by fastforce
  then show ?case using Suc assms(1) [of n] by (simp add: image_Un)
qed simp

lemma statusLine_ne: "statusLine sn m \<noteq> []"
  by (simp add: statusLine_def)

lemma tooltipFor_ne: "tooltipFor sn m \<noteq> []"
  by (cases "sp_current sn") (auto simp: tooltipFor_def statusLine_ne transferLine_def Let_def split: if_splits)

text \<open>The blocks of \<open>apply\<close> speak of different things: the icon and status, the menu, the current lines, the recent ones.\<close>

fun item_block :: "menu_item \<Rightarrow> nat" where
  "item_block ItStatus = 0"
| "item_block (ItCurrent i) = 2"
| "item_block ItRecentSub = 3"
| "item_block (ItRecent i) = 3"
| "item_block it = 1"

fun key_block :: "wish_key \<Rightarrow> nat" where
  "key_block (KeyTitle it) = item_block it"
| "key_block (KeyShow it) = item_block it"
| "key_block k = 0"

lemma distinct_blocks:
  assumes "distinct (map f xs)" "distinct (map f ys)" "\<forall>x\<in>set xs. h (f x) = (n :: nat)" "\<forall>y\<in>set ys. n < h (f y)"
  shows "distinct (map f (xs @ ys))"
  using assms by (fastforce simp: image_iff)

lemma blocks_current: "w \<in> set (applyCurrent cur) \<Longrightarrow> key_block (wkey w) = 2"
  by (auto simp: applyCurrent_def split: if_splits)

lemma blocks_recent: "w \<in> set (applyRecent rs) \<Longrightarrow> key_block (wkey w) = 3"
  by (auto simp: applyRecent_def split: if_splits)

lemma blocks_menu: "w \<in> set (menu_wishes sn m) \<Longrightarrow> key_block (wkey w) = 1"
  by (auto simp: menu_wishes_def Let_def)

lemma distinct_current: "distinct (map wkey (applyCurrent cur))"
  unfolding applyCurrent_def by (rule distinct_concat_blocks) auto

lemma distinct_recent: "distinct (map wkey (applyRecent rs))"
proof (cases "rs = []")
  case False
  have "distinct (map wkey (concat (map (\<lambda>i. if length rs \<le> i then [WShow (ItRecent i) False]
      else [WTitle (ItRecent i) (recentLine (rs ! i)), WShow (ItRecent i) True]) [0..<maxRecentItems])))"
    by (rule distinct_concat_blocks) auto
  then show ?thesis using False by (auto simp: applyRecent_def simp del: map_concat map_map split: if_splits)
qed (simp add: applyRecent_def)

lemma apply_wishes_distinct: "distinct (map wkey (apply_wishes now sn a))"
proof -
  let ?h = "[WIcon (snapshot_state sn)] @ (if ap_hintUntil a \<le> now then [WTitle ItStatus (statusLine sn (ap_mountpoint a))] else [])
     @ [WTooltip (tooltipFor sn (ap_mountpoint a))]"
  let ?m = "menu_wishes sn (ap_mountpoint a)" and ?c = "applyCurrent (sp_current sn)" and ?r = "applyRecent (sp_recent sn)"
  have cr: "distinct (map wkey (?c @ ?r))"
    by (rule distinct_blocks [of _ _ _ key_block 2, OF distinct_current distinct_recent]) (auto simp: blocks_current blocks_recent)
  have m: "distinct (map wkey ?m)" by (simp add: menu_wishes_def Let_def)
  have mcr: "distinct (map wkey (?m @ ?c @ ?r))"
    by (rule distinct_blocks [of _ _ _ key_block 1, OF m cr]) (auto simp: blocks_menu blocks_current blocks_recent)
  have "distinct (map wkey (?h @ ?m @ ?c @ ?r))"
    by (rule distinct_blocks [of _ _ _ key_block 0, OF _ mcr]) (auto simp: blocks_menu blocks_current blocks_recent)
  then show ?thesis by (simp add: apply_wishes_def)
qed

lemma apply_wishes_tooltip: "WTooltip [] \<notin> set (apply_wishes now sn a)"
  using tooltipFor_ne [of sn "ap_mountpoint a"]
  by (auto simp: apply_wishes_def menu_wishes_def applyCurrent_def applyRecent_def Let_def split: if_splits)

lemma mem_current: "i < maxCurrentLines \<Longrightarrow> WShow (ItCurrent i) (i < length cur) \<in> set (applyCurrent cur)
    \<and> (i < length cur \<longrightarrow> WTitle (ItCurrent i) (transferLine (cur ! i)) \<in> set (applyCurrent cur))"
  by (auto simp: applyCurrent_def intro!: bexI [of _ i])

lemma mem_recent: "WShow ItRecentSub (rs \<noteq> []) \<in> set (applyRecent rs)
    \<and> (rs \<noteq> [] \<longrightarrow> i < maxRecentItems \<longrightarrow> WShow (ItRecent i) (i < length rs) \<in> set (applyRecent rs)
        \<and> (i < length rs \<longrightarrow> WTitle (ItRecent i) (recentLine (rs ! i)) \<in> set (applyRecent rs)))"
  by (auto simp: applyRecent_def intro!: bexI [of _ i])

lemma settled_recentPaths: "settled (a\<lparr>ap_recentPaths := r\<rparr>) w = settled a w"
  by (cases w) simp_all

lemma apply_settles:
  assumes "tells a s" "apply_snapshot now sn a = (a1, calls)"
  shows "tells a1 (fold apply_call calls s) \<and> (\<forall>w \<in> set (apply_wishes now sn a). settled a1 w)
       \<and> ap_mountpoint a1 = ap_mountpoint a \<and> ap_hintUntil a1 = ap_hintUntil a"
proof -
  obtain a2 where p: "perform (apply_wishes now sn a) a = (a2, calls)"
    and a1: "a1 = a2\<lparr>ap_recentPaths := recent_paths (sp_recent sn) (ap_recentPaths a2)\<rparr>"
    using assms(2) by (auto simp: apply_snapshot_def split: prod.splits)
  show ?thesis
    using perform_settles [OF assms(1) p apply_wishes_tooltip apply_wishes_distinct]
    unfolding a1 by (simp add: settled_recentPaths tells_def)
qed

text \<open>C15. After a round of detection the panel shows that round, though only differences were sent: icon, status line
  (unless a hint is parked), tooltip, menu items, the first transfers and the recent ones; and the same round again sends nothing.
\<close>

theorem apply_shows:
  assumes "tells a s" "apply_snapshot now sn a = (a1, calls)"
  shows "tells a1 (fold apply_call calls s)
    \<and> (let s1 = fold apply_call calls s; v = visibilityFor (sp_loggedIn sn) (sp_mounted sn) (ap_mountpoint a \<noteq> [])
       in sc_icon s1 = icon (snapshot_state sn)
        \<and> (ap_hintUntil a \<le> now \<longrightarrow> sc_title s1 ItStatus = statusLine sn (ap_mountpoint a))
        \<and> sc_tooltip s1 = tooltipFor sn (ap_mountpoint a)
        \<and> map (sc_visible s1) [ItMount, ItUnmount, ItRestart, ItPause, ItResume, ItOpenFolder, ItLogin, ItLogout]
            = [mv_Mount v, mv_Unmount v, mv_Restart v, mv_Pause v \<and> \<not> sp_paused sn, mv_Pause v \<and> sp_paused sn, mv_OpenFolder v, mv_Login v, mv_Logout v]
        \<and> (\<forall>i < maxCurrentLines. sc_visible s1 (ItCurrent i) = (i < length (sp_current sn))
             \<and> (i < length (sp_current sn) \<longrightarrow> sc_title s1 (ItCurrent i) = transferLine (sp_current sn ! i)))
        \<and> sc_visible s1 ItRecentSub = (sp_recent sn \<noteq> [])
        \<and> (sp_recent sn \<noteq> [] \<longrightarrow> (\<forall>i < maxRecentItems. sc_visible s1 (ItRecent i) = (i < length (sp_recent sn))
             \<and> (i < length (sp_recent sn) \<longrightarrow> sc_title s1 (ItRecent i) = recentLine (sp_recent sn ! i)))))
    \<and> ((ap_hintUntil a \<le> now \<longleftrightarrow> ap_hintUntil a \<le> later) \<longrightarrow> snd (apply_snapshot later sn a1) = [])"
proof -
  let ?s = "fold apply_call calls s" and ?W = "set (apply_wishes now sn a)"
  note st = apply_settles [OF assms]
  have show1: "w \<in> ?W \<Longrightarrow> case w of WTitle it t \<Rightarrow> sc_title ?s it = t | WShow it b \<Rightarrow> sc_visible ?s it = b
      | WTooltip t \<Rightarrow> sc_tooltip ?s = t | WIcon x \<Rightarrow> sc_icon ?s = icon x" for w
    using st tells_shows [of a1 ?s w] by blast
  have cur: "set (applyCurrent (sp_current sn)) \<subseteq> ?W" and rec: "set (applyRecent (sp_recent sn)) \<subseteq> ?W"
    and men: "set (menu_wishes sn (ap_mountpoint a)) \<subseteq> ?W"
    and stat: "ap_hintUntil a \<le> now \<Longrightarrow> WTitle ItStatus (statusLine sn (ap_mountpoint a)) \<in> ?W"
    and tip: "WTooltip (tooltipFor sn (ap_mountpoint a)) \<in> ?W" and ic: "WIcon (snapshot_state sn) \<in> ?W"
    by (auto simp: apply_wishes_def)
  have again: "snd (apply_snapshot later sn a1) = []" if "ap_hintUntil a \<le> now \<longleftrightarrow> ap_hintUntil a \<le> later"
  proof -
    have "apply_wishes later sn a1 = apply_wishes now sn a" using st that by (simp add: apply_wishes_def)
    then show ?thesis using st perform_settled [of "apply_wishes later sn a1" a1] by (simp add: apply_snapshot_def)
  qed
  have vis: "WShow it b \<in> set (menu_wishes sn (ap_mountpoint a)) \<Longrightarrow> sc_visible ?s it = b" for it b
    using show1 [of "WShow it b"] men by auto
  let ?v = "visibilityFor (sp_loggedIn sn) (sp_mounted sn) (ap_mountpoint a \<noteq> [])"
  have menu: "map (sc_visible ?s) [ItMount, ItUnmount, ItRestart, ItPause, ItResume, ItOpenFolder, ItLogin, ItLogout]
      = [mv_Mount ?v, mv_Unmount ?v, mv_Restart ?v, mv_Pause ?v \<and> \<not> sp_paused sn, mv_Pause ?v \<and> sp_paused sn, mv_OpenFolder ?v, mv_Login ?v, mv_Logout ?v]"
    unfolding list.map by (intro arg_cong2 [of _ _ _ _ "(#)"] vis refl; simp add: menu_wishes_def Let_def)
  have icur: "sc_visible ?s (ItCurrent i) = (i < length (sp_current sn))
      \<and> (i < length (sp_current sn) \<longrightarrow> sc_title ?s (ItCurrent i) = transferLine (sp_current sn ! i))" if "i < maxCurrentLines" for i
    using show1 [of "WShow (ItCurrent i) (i < length (sp_current sn))"] show1 [of "WTitle (ItCurrent i) (transferLine (sp_current sn ! i))"]
      mem_current [OF that, of "sp_current sn"] cur by auto
  have irec: "sc_visible ?s (ItRecent i) = (i < length (sp_recent sn))
      \<and> (i < length (sp_recent sn) \<longrightarrow> sc_title ?s (ItRecent i) = recentLine (sp_recent sn ! i))"
    if "i < maxRecentItems" "sp_recent sn \<noteq> []" for i
    using show1 [of "WShow (ItRecent i) (i < length (sp_recent sn))"] show1 [of "WTitle (ItRecent i) (recentLine (sp_recent sn ! i))"]
      mem_recent [of "sp_recent sn" i] rec that by auto
  have rsub: "sc_visible ?s ItRecentSub = (sp_recent sn \<noteq> [])"
    using show1 [of "WShow ItRecentSub (sp_recent sn \<noteq> [])"] mem_recent [of "sp_recent sn"] rec by auto
  show ?thesis
    using st show1 [OF ic] show1 [OF tip] show1 [OF stat] menu icur irec rsub again
    unfolding Let_def by simp
qed

definition demo_app :: app where
  "demo_app = \<lparr>ap_mountpoint = ''/home/u/Drive'', ap_shown = None, ap_hintUntil = 0, ap_recentPaths = (\<lambda>_. []),
     ap_sent = (\<lambda>_. \<lparr>sI_title = None, sI_visible = None\<rparr>), ap_tooltip = []\<rparr>"

definition demo_snapshot :: snapshot where
  "demo_snapshot = \<lparr>sp_loggedIn = True, sp_mounted = True, sp_paused = False, sp_transfers = 1, sp_fresh = True, sp_queued = 3, sp_done = 1,
     sp_failed = 0, sp_current = [(''/a.txt'', ''upload'', 40, 100, 0)], sp_recent = [], sp_ownVersion = ''v1'', sp_daemonVersion = ''v1''\<rparr>"

definition demo_screen :: screen where
  "demo_screen = \<lparr>sc_title = (\<lambda>_. ''Checking''), sc_visible = (\<lambda>_. True), sc_tooltip = ''Proton Drive FS'', sc_icon = IconIdle\<rparr>"

theorem apply_shows_witness:
  "sc_icon (fold apply_call (snd (apply_snapshot 5 demo_snapshot demo_app)) demo_screen) = IconSyncing
   \<and> snd (apply_snapshot 7 demo_snapshot (fst (apply_snapshot 5 demo_snapshot demo_app))) = []"
proof -
  have t: "tells demo_app demo_screen" by (simp add: tells_def demo_app_def)
  have i: "icon (snapshot_state demo_snapshot) = IconSyncing" by code_simp
  have h: "ap_hintUntil demo_app = 0" by (simp add: demo_app_def)
  show ?thesis
    using apply_shows [OF t, of 5 demo_snapshot "fst (apply_snapshot 5 demo_snapshot demo_app)" "snd (apply_snapshot 5 demo_snapshot demo_app)" 7] i h
    by (simp add: Let_def)
qed

section \<open>Pausing, polling, and what the icon promises\<close>

text \<open>C17. A pause click that reports success has paused: whether the daemon answered, answered and was not heard, or was
  not there at all, the marker is then as asked.
\<close>

theorem tray_pause_sticks:
  assumes "setPausedViaAPIOrFile tr (serve dfl e j d) client_ok fl e p w = (Inr u, w')"
  shows "Paused e (aw_runtime w') = p \<and> aw_cache w' = aw_cache w"
proof -
  have cache: "aw_cache (snd (client_SetPaused tr (serve dfl e j d) p w)) = aw_cache w"
    by (cases tr; cases "handlePause dfl e p w")
       (auto simp: client_SetPaused_def doJSON_def serve_pause handlePause_def split: prod.splits sum.splits)
  show ?thesis
  proof (cases "client_ok \<and> fst (client_SetPaused tr (serve dfl e j d) p w) = None")
    case True
    then obtain w1 where c: "client_SetPaused tr (serve dfl e j d) p w = (None, w1)" by (cases "client_SetPaused tr (serve dfl e j d) p w") auto
    then have "w' = w1" using assms True by (simp add: setPausedViaAPIOrFile_def)
    then show ?thesis using client_SetPaused_ok [OF c] by simp
  next
    case False
    obtain w1 where w1: "aw_cache w1 = aw_cache w"
      and r: "setPausedViaAPIOrFile tr (serve dfl e j d) client_ok fl e p w
        = (case SetPaused fl e p (aw_runtime w1) of (r, fs) \<Rightarrow> (r, w1\<lparr>aw_runtime := fs\<rparr>))"
    proof (cases client_ok)
      case True
      then obtain y w1 where "client_SetPaused tr (serve dfl e j d) p w = (Some y, w1)"
        using False by (cases "client_SetPaused tr (serve dfl e j d) p w") auto
      then show ?thesis using that [of w1] cache True by (simp add: setPausedViaAPIOrFile_def)
    next
      case False
      then show ?thesis using that [of w] by (simp add: setPausedViaAPIOrFile_def)
    qed
    then obtain fs where "SetPaused fl e p (aw_runtime w1) = (Inr u, fs)" "w' = w1\<lparr>aw_runtime := fs\<rparr>"
      using assms by (cases "SetPaused fl e p (aw_runtime w1)") auto
    then show ?thesis using SetPaused_Paused w1 by fastforce
  qed
qed

theorem tray_pause_sticks_witness:
  "Paused demo_environ (aw_runtime (snd (setPausedViaAPIOrFile LostBefore
     (serve demo_state_faults demo_environ \<lparr>jo_installed = False, jo_flusher = True, jo_pipe = None, jo_start = None, jo_lines = (\<lambda>_. []), jo_writes = 0\<rparr>
        \<lparr>dp_Status = demo_status, dp_CacheDir = [], dp_clear = None\<rparr>) True demo_state_faults demo_environ True
     \<lparr>aw_runtime = \<lparr>rf_file = Map.empty, rf_lock = Map.empty\<rparr>, aw_cache = None\<rparr>)))"
proof -
  let ?j = "\<lparr>jo_installed = False, jo_flusher = True, jo_pipe = None, jo_start = None, jo_lines = (\<lambda>_. []), jo_writes = 0\<rparr>"
  let ?d = "\<lparr>dp_Status = demo_status, dp_CacheDir = [], dp_clear = None\<rparr>"
  let ?w = "\<lparr>aw_runtime = \<lparr>rf_file = Map.empty, rf_lock = Map.empty\<rparr>, aw_cache = None\<rparr>"
  let ?r = "setPausedViaAPIOrFile LostBefore (serve demo_state_faults demo_environ ?j ?d) True demo_state_faults demo_environ True ?w"
  have p: "PausePath demo_environ = Some ''/run/proton-drive-fs/paused''" by code_simp
  have "?r = (Inr (), snd ?r)"
    by (simp add: setPausedViaAPIOrFile_def client_SetPaused_def doJSON_def SetPaused_def p demo_state_faults_def)
  then show ?thesis using tray_pause_sticks [of LostBefore demo_state_faults demo_environ ?j ?d True demo_state_faults True ?w "()" "snd ?r"] by simp
qed

text \<open>The session is looked at again only five seconds after the last look, unless a click asked for a refresh.\<close>

lemma poll_check_spacing:
  "poll_check f p = (True, p1) \<Longrightarrow> fst (poll_check f2 p1) \<Longrightarrow> seconds 5 \<le> fa_now f2 - fa_now f"
  by (auto simp: poll_check_def Let_def split: if_splits)

lemma poll_refresh_checks:
  "poll_round v f True (p, a) = ((p1, a1), calls, interval) \<Longrightarrow> fst (poll_check f2 p1)"
  by (auto simp: poll_round_def Let_def poll_check_def split: prod.splits if_splits)

text \<open>
  Unlike the icon and the status line, the tooltip does not ask whether the snapshot is fresh: the
  transfers of a status file its daemon left behind are still shown as running, logged in or not.
\<close>

lemma tooltip_ignores_freshness:
  "sp_current sn = t # ts \<Longrightarrow> tooltipFor (sn\<lparr>sp_fresh := fr, sp_loggedIn := li, sp_mounted := mo\<rparr>) mp = tooltipFor sn mp"
  by (simp add: tooltipFor_def)

lemma dead_daemon_still_transfers:
  assumes "fa_api f = None" "fa_file f = Some st" "\<not> Fresh (fa_now f) st"
  shows "\<not> sp_fresh (poll_snapshot v f p) \<and> sp_current (poll_snapshot v f p) = ss_current st"
  using assms by (simp add: poll_snapshot_def readStatus_def)

text \<open>No item whose click uses the mount point is shown while there is none.\<close>

lemma nothing_to_act_on:
  "let v = visibilityFor li mo False in \<not> mv_Mount v \<and> \<not> mv_Unmount v \<and> \<not> mv_Restart v \<and> \<not> mv_Pause v \<and> \<not> mv_OpenFolder v"
  by (simp add: visibilityFor_def Let_def)

lemma quit_without_mountpoint: "to_Mountpoint opts = [] \<Longrightarrow> \<not> to_Embedded opts \<Longrightarrow> on_click d opts a ClickQuit = [QuitTray]"
  by (simp add: on_click_def stopDaemon_def)

text \<open>The tray's own mount point survives a restart when the write went through.\<close>

lemma Save_Load_Mountpoint:
  assumes "\<And>m. dec (enc m) = Some m" "SaveMountpoint enc path mk wr mp fsys = (True, fsys')"
  shows "LoadMountpoint dec path fsys' = mp"
  using assms by (auto simp: SaveMountpoint_def LoadMountpoint_def split: option.splits if_splits write_outcome.splits)

end
