(* ===== verification/Thumbs.thy ===== *)
theory Thumbs
  imports Api_Errors
begin

text \<open>
  The preview cache (internal/thumbs/thumbs.go): the PNG text chunks that carry a preview's URI and
  time, the reader that skips over everything else, scaling, and \<open>Write\<close>, \<open>Fresh\<close> and \<open>Remove\<close> over a
  map of files whose calls may fail. Byte strings are strings. Image decoding, scaling, PNG encoding and
  md5 are parameters.
\<close>

unbundle bit_operations_syntax

section \<open>Text chunks\<close>

definition be32 :: "nat \<Rightarrow> string" where
  "be32 n = [char_of (n div 16777216 mod 256), char_of (n div 65536 mod 256), char_of (n div 256 mod 256), char_of (n mod 256)]"

definition un_be32 :: "string \<Rightarrow> nat" where
  "un_be32 s = foldl (\<lambda>a c. a * 256 + of_char c) 0 s"

text \<open>\<open>crc32.ChecksumIEEE\<close>, bit by bit with the reflected polynomial.\<close>

fun crc_bits :: "nat \<Rightarrow> 32 word \<Rightarrow> 32 word" where
  "crc_bits 0 c = c"
| "crc_bits (Suc n) c = crc_bits n (if c AND 1 = 1 then drop_bit 1 c XOR 0xEDB88320 else drop_bit 1 c)"

definition crc32 :: "string \<Rightarrow> 32 word" where
  "crc32 s = NOT (foldl (\<lambda>c b. crc_bits 8 (c XOR of_nat (of_char b))) (- 1) s)"

definition maxTextChunk :: nat where "maxTextChunk = 65536"

definition textChunk :: "string \<Rightarrow> string \<Rightarrow> string option" where
  "textChunk keyword v =
     (if keyword = [] \<or> 79 < length keyword then None
      else (let payload = ''tEXt'' @ keyword @ [CHR 0x00] @ v
            in Some (be32 (length payload - 4) @ payload @ be32 (unat (crc32 payload)))))"

text \<open>The offset of the IEND chunk in what follows the signature.\<close>

function iend_offset :: "string \<Rightarrow> nat option" where
  "iend_offset s =
     (if length s < 8 then None
      else if take 4 (drop 4 s) = ''IEND'' then Some 0
      else (let n = un_be32 (take 4 s)
            in if length s < 12 + n then None else map_option (\<lambda>k. 12 + n + k) (iend_offset (drop (12 + n) s))))"
  by pat_completeness auto
termination by (relation "measure length") auto

declare iend_offset.simps [simp del]

definition pngSignatureLen :: nat where "pngSignatureLen = 8"

definition findIEND :: "string \<Rightarrow> nat option" where
  "findIEND data = map_option (\<lambda>k. pngSignatureLen + k) (iend_offset (drop pngSignatureLen data))"

fun text_chunks :: "(string \<times> string) list \<Rightarrow> string option" where
  "text_chunks [] = Some []"
| "text_chunks ((k, v) # kvs) =
     (case textChunk k v of None \<Rightarrow> None | Some c \<Rightarrow> map_option (\<lambda>r. c @ r) (text_chunks kvs))"

definition insertPNGText :: "string \<Rightarrow> (string \<times> string) list \<Rightarrow> string option" where
  "insertPNGText data kvs =
     (case findIEND data of
        None \<Rightarrow> None
      | Some iend \<Rightarrow> map_option (\<lambda>cs. take iend data @ cs @ drop iend data) (text_chunks kvs))"

text \<open>
  The reader moves forward only, so its position is the rest of the file: a seek drops bytes, past the
  end of the file all of them, and the next read fails.
\<close>

function read_chunks :: "string \<Rightarrow> string \<Rightarrow> string option" where
  "read_chunks keyword s =
     (if length s < 8 then None
      else (let n = un_be32 (take 4 s); typ = take 4 (drop 4 s); rest = drop 8 s
            in if typ = ''IEND'' then None
               else if typ \<noteq> ''tEXt'' \<or> maxTextChunk < n then read_chunks keyword (drop (n + 4) rest)
               else if length rest < n + 4 then None
               else (case cut_at (CHR 0x00) (take n rest) of
                       Some (key, v) \<Rightarrow> if key = keyword then Some v else read_chunks keyword (drop (n + 4) rest)
                     | None \<Rightarrow> read_chunks keyword (drop (n + 4) rest))))"
  by pat_completeness auto
termination by (relation "measure (\<lambda>(k, s). length s)") auto

declare read_chunks.simps [simp del]

definition readPNGText :: "string \<Rightarrow> string \<Rightarrow> string option" where
  "readPNGText keyword data = read_chunks keyword (drop pngSignatureLen data)"

section \<open>What is inserted is read\<close>

lemma un_be32_be32: "n < 4294967296 \<Longrightarrow> un_be32 (be32 n) = n"
proof -
  assume n: "n < 4294967296"
  have d: "n div 16777216 mod 256 = n div 16777216" using n by (simp add: less_mult_imp_div_less)
  have "((n div 16777216 * 256 + n div 65536 mod 256) * 256 + n div 256 mod 256) * 256 + n mod 256 = n"
  proof -
    have "n div 16777216 = n div 65536 div 256" "n div 65536 = n div 256 div 256" by (simp_all add: div_mult2_eq [symmetric])
    then show ?thesis by (metis div_mult_mod_eq)
  qed
  then show ?thesis by (simp add: un_be32_def be32_def d)
qed

lemma length_be32 [simp]: "length (be32 n) = 4"
  by (simp add: be32_def)

text \<open>One chunk in front of what follows: read if it is a fitting text chunk, skipped otherwise.\<close>

lemma textChunk_parts:
  assumes "textChunk k v = Some c" and "length k + 1 + length v < 4294967296"
  shows "c = be32 (length k + 1 + length v) @ ''tEXt'' @ (k @ [CHR 0x00] @ v) @ be32 (unat (crc32 (''tEXt'' @ k @ [CHR 0x00] @ v)))"
  using assms by (auto simp: textChunk_def Let_def split: if_splits)

lemma read_chunks_text:
  assumes c: "textChunk k v = Some c" and len: "length k + 1 + length v < 4294967296" and k: "CHR 0x00 \<notin> set k"
  shows "read_chunks keyword (c @ s) =
     (if k = keyword \<and> length k + 1 + length v \<le> maxTextChunk then Some v else read_chunks keyword s)"
proof -
  let ?n = "length k + 1 + length v"
  obtain crc where crc: "length crc = 4" "c = be32 ?n @ ''tEXt'' @ (k @ [CHR 0x00] @ v) @ crc"
    using textChunk_parts [OF c len] by (metis length_be32)
  have parts: "take 4 (c @ s) = be32 ?n" "take 4 (drop 4 (c @ s)) = ''tEXt''"
    "drop 8 (c @ s) = (k @ [CHR 0x00] @ v) @ crc @ s" "8 \<le> length (c @ s)"
    by (simp_all add: crc)
  have lA: "length (k @ [CHR 0x00] @ v) = ?n" by simp
  have rest: "drop (?n + 4) ((k @ [CHR 0x00] @ v) @ crc @ s) = s" "take ?n ((k @ [CHR 0x00] @ v) @ crc @ s) = k @ [CHR 0x00] @ v"
    unfolding lA [symmetric] using crc(1) by (simp_all only: drop_append take_append) simp_all
  have cut: "cut_at (CHR 0x00) (k @ [CHR 0x00] @ v) = Some (k, v)" using cut_at_append [OF k, of v] by simp
  have l: "\<not> length ((k @ [CHR 0x00] @ v) @ crc @ s) < ?n + 4" using crc(1) by simp
  show ?thesis
    unfolding read_chunks.simps [of keyword "c @ s"] Let_def parts(1-3) un_be32_be32 [OF len] rest cut if_not_P [OF l]
      if_not_P [OF parts(4) [unfolded not_less [symmetric]]] option.case prod.case by auto
qed

lemma read_chunks_inserted:
  assumes "text_chunks kvs = Some cs" and "\<forall>(k, v)\<in>set kvs. CHR 0x00 \<notin> set k \<and> length k + 1 + length v < 4294967296"
  shows "read_chunks keyword (cs @ s) =
     (case List.find (\<lambda>(k, v). k = keyword \<and> length k + 1 + length v \<le> maxTextChunk) kvs of
        Some (k, v) \<Rightarrow> Some v | None \<Rightarrow> read_chunks keyword s)"
  using assms
proof (induction kvs arbitrary: cs)
  case (Cons kv kvs)
  obtain k v where kv: "kv = (k, v)" by (cases kv)
  obtain c r where c: "textChunk k v = Some c" "text_chunks kvs = Some r" "cs = c @ r"
    using Cons.prems(1) kv by (auto split: option.splits)
  have p: "length k + 1 + length v < 4294967296" "CHR 0x00 \<notin> set k" using Cons.prems(2) kv by auto
  have "read_chunks keyword (cs @ s) = read_chunks keyword (c @ (r @ s))" using c(3) by simp
  then show ?case
    using Cons.IH [OF c(2)] Cons.prems(2) kv
    by (cases "k = keyword \<and> length k + 1 + length v \<le> maxTextChunk")
      (simp_all only: read_chunks_text [OF c(1) p], auto)
qed simp

lemma take_drop_front: "m + i \<le> j \<Longrightarrow> j \<le> length s \<Longrightarrow> take m (drop i (take j s @ y)) = take m (drop i s)"
  by (auto simp: drop_take min_def)

text \<open>The chunks before IEND are passed over in the new file as in the old one.\<close>

lemma read_chunks_walk:
  assumes "iend_offset s = Some k" and "read_chunks keyword s = None"
  shows "read_chunks keyword (take k s @ x) = read_chunks keyword x \<and> read_chunks keyword (drop k s) = None \<and> k + 8 \<le> length s"
  using assms
proof (induction s arbitrary: k rule: iend_offset.induct)
  case (1 s)
  let ?n = "un_be32 (take 4 s)"
  show ?case
  proof (cases "take 4 (drop 4 s) = ''IEND''")
    case True
    then have "k = 0" "8 \<le> length s" using "1.prems"(1) by (auto simp: iend_offset.simps [of s] split: if_splits)
    then show ?thesis using "1.prems"(2) by simp
  next
    case False
    have len: "\<not> length s < 8" "\<not> length s < 12 + ?n"
      using "1.prems"(1) False by (auto simp: iend_offset.simps [of s] Let_def split: if_splits)
    obtain k' where k': "iend_offset (drop (12 + ?n) s) = Some k'" "k = 12 + ?n + k'"
      using "1.prems"(1) False len by (auto simp: iend_offset.simps [of s] Let_def)
    have d8: "drop (?n + 4) (drop 8 s) = drop (12 + ?n) s" by (simp add: add.commute)
    have l8: "\<not> length (drop 8 s) < ?n + 4" using len by simp
    have old: "(if take 4 (drop 4 s) \<noteq> ''tEXt'' \<or> maxTextChunk < ?n then read_chunks keyword (drop (12 + ?n) s)
        else (case cut_at (CHR 0x00) (take ?n (drop 8 s)) of
                Some (key, v) \<Rightarrow> if key = keyword then Some v else read_chunks keyword (drop (12 + ?n) s)
              | None \<Rightarrow> read_chunks keyword (drop (12 + ?n) s))) = None"
      using "1.prems"(2) unfolding read_chunks.simps [of keyword s] Let_def d8 if_not_P [OF len(1)] if_not_P [OF False] if_not_P [OF l8] .
    then have r: "read_chunks keyword (drop (12 + ?n) s) = None" by (auto split: if_splits option.splits)
    note ih = "1.IH" [OF len(1) False refl len(2) k'(1) r]
    have t: "take k s @ x = take (12 + ?n) s @ (take k' (drop (12 + ?n) s) @ x)" using k'(2) by (simp add: take_add)
    let ?s' = "take (12 + ?n) s @ (take k' (drop (12 + ?n) s) @ x)"
    have len': "12 + ?n \<le> length s" using len by simp
    have h: "take 4 ?s' = take 4 s" "take 4 (drop 4 ?s') = take 4 (drop 4 s)" "\<not> length ?s' < 8"
      "drop (?n + 4) (drop 8 ?s') = take k' (drop (12 + ?n) s) @ x" "take ?n (drop 8 ?s') = take ?n (drop 8 s)"
      "\<not> length (drop 8 ?s') < ?n + 4"
      using take_drop_front [of 4 0 "12 + ?n" s] take_drop_front [of 4 4 "12 + ?n" s] take_drop_front [of ?n 8 "12 + ?n" s] len'
      by simp_all
    have "read_chunks keyword ?s' = read_chunks keyword (take k' (drop (12 + ?n) s) @ x)"
      unfolding read_chunks.simps [of keyword ?s'] Let_def h if_not_P [OF h(3)] if_not_P [OF False] if_not_P [OF h(6)]
      using old by (auto split: if_splits option.splits)
    moreover have "k + 8 \<le> length s" using ih k'(2) len' unfolding length_drop by linarith
    ultimately show ?thesis using ih t k'(2) by (simp add: add.commute)
  qed
qed

lemma readPNGText_insert:
  assumes "insertPNGText data kvs = Some out" and "readPNGText keyword data = None"
    and "\<forall>(k, v)\<in>set kvs. CHR 0x00 \<notin> set k \<and> length k + 1 + length v < 4294967296"
  shows "readPNGText keyword out =
     map_option snd (List.find (\<lambda>(k, v). k = keyword \<and> length k + 1 + length v \<le> maxTextChunk) kvs)"
proof -
  obtain k cs where k: "iend_offset (drop 8 data) = Some k" "text_chunks kvs = Some cs"
    and out: "out = take (8 + k) data @ cs @ drop (8 + k) data"
    using assms(1) by (auto simp: insertPNGText_def findIEND_def pngSignatureLen_def split: option.splits)
  have n: "read_chunks keyword (drop 8 data) = None" using assms(2) by (simp add: readPNGText_def pngSignatureLen_def)
  have w: "read_chunks keyword (take k (drop 8 data) @ x) = read_chunks keyword x"
    "read_chunks keyword (drop k (drop 8 data)) = None" "k + 8 \<le> length (drop 8 data)" for x
    using read_chunks_walk [OF k(1) n] by blast+
  have "drop 8 out = take k (drop 8 data) @ cs @ drop k (drop 8 data)"
    using w(3) by (simp add: out take_drop add.commute)
  then have "readPNGText keyword out = read_chunks keyword (cs @ drop k (drop 8 data))"
    by (simp only: readPNGText_def pngSignatureLen_def w(1))
  then show ?thesis
    unfolding read_chunks_inserted [OF k(2) assms(3)] using w(2) by (auto split: option.splits)
qed

section \<open>Scaling\<close>

text \<open>An image library: decoding, the size of an image, scaling to a size, PNG encoding.\<close>

record 'i imaging =
  im_decode :: "string \<Rightarrow> 'i option"
  im_size :: "'i \<Rightarrow> int \<times> int"
  im_scale :: "'i \<Rightarrow> int \<Rightarrow> int \<Rightarrow> 'i"
  im_encode :: "'i \<Rightarrow> string option"

definition normalSize :: int where "normalSize = 128"
definition largeSize :: int where "largeSize = 256"

definition fit_size :: "int \<Rightarrow> int \<Rightarrow> int \<Rightarrow> int \<times> int" where
  "fit_size mx w h =
     (let (w1, h1) = (if h \<le> w then (mx, h * mx sdiv w) else (w * mx sdiv h, mx))
      in (if w1 < 1 then 1 else w1, if h1 < 1 then 1 else h1))"

definition fit :: "'i imaging \<Rightarrow> 'i \<Rightarrow> int \<Rightarrow> 'i" where
  "fit im src mx =
     (case im_size im src of (w, h) \<Rightarrow>
        if w \<le> 0 \<or> h \<le> 0 \<or> (w \<le> mx \<and> h \<le> mx) then src
        else (case fit_size mx w h of (w1, h1) \<Rightarrow> im_scale im src w1 h1))"

lemma div_le_scale: "0 < w \<Longrightarrow> h \<le> w \<Longrightarrow> 0 \<le> h \<Longrightarrow> 0 \<le> m \<Longrightarrow> h * m div w \<le> (m::int)"
proof -
  assume a: "0 < w" "h \<le> w" "0 \<le> h" "0 \<le> m"
  have le: "h * m \<le> w * m" using a by (simp add: mult_right_mono)
  show ?thesis using zdiv_mono1 [OF le a(1)] a(1) by simp
qed

lemma fit_size_bounds:
  assumes "0 < w" and "0 < h" and "0 < mx" and "fit_size mx w h = (w1, h1)"
  shows "1 \<le> w1 \<and> w1 \<le> mx \<and> 1 \<le> h1 \<and> h1 \<le> mx \<and> (w1 = mx \<or> h1 = mx)"
  using assms div_le_scale [of w h mx] div_le_scale [of h w mx]
  by (auto simp: fit_size_def Let_def sdiv_nonneg split: if_splits)

section \<open>The store\<close>

text \<open>
  \<open>url.URL.String\<close> of a file URL: the path bytes that are not letters, digits or one of the marks
  below come out as a percent sign and two upper-case hexadecimal digits.
\<close>

definition path_mark :: "char \<Rightarrow> bool" where
  "path_mark c \<longleftrightarrow> c \<in> set ''-_.~$&+,/:;=@''"

definition alnum :: "char \<Rightarrow> bool" where
  "alnum c \<longleftrightarrow> (let n = of_char c :: nat in 48 \<le> n \<and> n \<le> 57 \<or> 65 \<le> n \<and> n \<le> 90 \<or> 97 \<le> n \<and> n \<le> 122)"

definition escape_path :: "string \<Rightarrow> string" where
  "escape_path p = concat (map (\<lambda>c. if alnum c \<or> path_mark c then [c]
     else [CHR ''%'', ''0123456789ABCDEF'' ! (of_char c div 16), ''0123456789ABCDEF'' ! (of_char c mod 16)]) p)"

record thumb_store =
  ts_dir :: string
  ts_mountpoint :: string

definition New_store :: "string \<Rightarrow> string option \<Rightarrow> thumb_store option" where
  "New_store d abs_mountpoint = map_option (\<lambda>m. \<lparr>ts_dir = d, ts_mountpoint = m\<rparr>) abs_mountpoint"

definition store_URI :: "thumb_store \<Rightarrow> string \<Rightarrow> string" where
  "store_URI s relPath = ''file://'' @ escape_path (path_join [ts_mountpoint s, relPath])"

text \<open>\<open>md5hex\<close> is the hexadecimal md5 of a string.\<close>

definition fileName :: "(string \<Rightarrow> string) \<Rightarrow> thumb_store \<Rightarrow> string \<Rightarrow> string" where
  "fileName md5hex s relPath = md5hex (store_URI s relPath) @ ''.png''"

definition size_path :: "(string \<Rightarrow> string) \<Rightarrow> thumb_store \<Rightarrow> string \<Rightarrow> string \<Rightarrow> string" where
  "size_path md5hex s d relPath = path_join [path_join [ts_dir s, d], fileName md5hex s relPath]"

type_synonym thumb_files = "string \<Rightarrow> string option"

definition store_Fresh :: "(string \<Rightarrow> string) \<Rightarrow> thumb_store \<Rightarrow> string \<Rightarrow> int \<Rightarrow> thumb_files \<Rightarrow> bool" where
  "store_Fresh md5hex s relPath mtime files =
     (case files (size_path md5hex s ''large'' relPath) of
        None \<Rightarrow> False
      | Some data \<Rightarrow>
          (case readPNGText ''Thumb::MTime'' data of
             None \<Rightarrow> False
           | Some recorded \<Rightarrow> recorded = itoa mtime))"

definition encodePNG :: "'i imaging \<Rightarrow> 'i \<Rightarrow> (string \<times> string) list \<Rightarrow> string option" where
  "encodePNG im img kvs = (case im_encode im img of None \<Rightarrow> None | Some d \<Rightarrow> insertPNGText d kvs)"

text \<open>
  A call that fails before the rename, and what it leaves: nothing, since the temporary file is removed
  on every path. \<open>tf_cut\<close> is a failing write, chmod or close.
\<close>

datatype thumb_fault = NoFault | FailBefore | FailAfterTemp

definition writeAtomic :: "thumb_fault \<Rightarrow> string \<Rightarrow> string \<Rightarrow> string \<Rightarrow> string \<Rightarrow> thumb_files \<Rightarrow> bool \<times> thumb_files" where
  "writeAtomic fl tmp d name data files =
     (case fl of
        FailBefore \<Rightarrow> (False, files)
      | FailAfterTemp \<Rightarrow> (False, files(tmp := None))
      | NoFault \<Rightarrow> (True, files(path_join [d, name] \<mapsto> data, tmp := None)))"

definition thumb_text :: "thumb_store \<Rightarrow> string \<Rightarrow> int \<Rightarrow> int \<Rightarrow> (string \<times> string) list" where
  "thumb_text s relPath mtime sz =
     [(''Thumb::URI'', store_URI s relPath), (''Thumb::MTime'', itoa mtime)]
     @ (if 0 < sz then [(''Thumb::Size'', itoa sz)] else [])"

definition store_sizes :: "(string \<times> int) list" where
  "store_sizes = [(''normal'', normalSize), (''large'', largeSize)]"

datatype thumb_error = UndecodableImage | EncodeFailed | WriteFailed

fun write_sizes :: "(nat \<Rightarrow> thumb_fault) \<Rightarrow> (nat \<Rightarrow> string) \<Rightarrow> 'i imaging \<Rightarrow> (string \<Rightarrow> string) \<Rightarrow> thumb_store \<Rightarrow> string
    \<Rightarrow> (string \<times> string) list \<Rightarrow> 'i \<Rightarrow> nat \<Rightarrow> (string \<times> int) list \<Rightarrow> thumb_files \<Rightarrow> thumb_error option \<times> thumb_files" where
  "write_sizes fl tmp im md5hex s relPath kvs src n [] files = (None, files)"
| "write_sizes fl tmp im md5hex s relPath kvs src n ((d, mx) # sizes) files =
     (case encodePNG im (fit im src mx) kvs of
        None \<Rightarrow> (Some EncodeFailed, files)
      | Some data \<Rightarrow>
          (case writeAtomic (fl n) (tmp n) (path_join [ts_dir s, d]) (fileName md5hex s relPath) data files of
             (False, files1) \<Rightarrow> (Some WriteFailed, files1)
           | (True, files1) \<Rightarrow> write_sizes fl tmp im md5hex s relPath kvs src (Suc n) sizes files1))"

definition store_Write :: "(nat \<Rightarrow> thumb_fault) \<Rightarrow> (nat \<Rightarrow> string) \<Rightarrow> 'i imaging \<Rightarrow> (string \<Rightarrow> string) \<Rightarrow> thumb_store \<Rightarrow> string
    \<Rightarrow> int \<Rightarrow> int \<Rightarrow> string \<Rightarrow> thumb_files \<Rightarrow> thumb_error option \<times> thumb_files" where
  "store_Write fl tmp im md5hex s relPath mtime sz img files =
     (case im_decode im img of
        None \<Rightarrow> (Some UndecodableImage, files)
      | Some src \<Rightarrow> write_sizes fl tmp im md5hex s relPath (thumb_text s relPath mtime sz) src 0 store_sizes files)"

definition cacheSizes :: "string list" where
  "cacheSizes = [''normal'', ''large'', ''x-large'', ''xx-large'']"

definition store_Remove :: "(string \<Rightarrow> string) \<Rightarrow> thumb_store \<Rightarrow> string \<Rightarrow> thumb_files \<Rightarrow> thumb_files" where
  "store_Remove md5hex s relPath files =
     foldl (\<lambda>f d. f(size_path md5hex s d relPath := None)) files cacheSizes"

lemma Remove_not_fresh: "\<not> store_Fresh md5hex s relPath mtime (store_Remove md5hex s relPath files)"
  by (simp add: store_Fresh_def store_Remove_def cacheSizes_def)

lemma nat_digits_inj: "nat_digits a = nat_digits b \<longleftrightarrow> a = b"
  by (metis option.inject parse_nat_digits)

lemma itoa_eq: "itoa a = itoa b \<longleftrightarrow> a = b"
proof
  have ne: "nat_digits n \<noteq> CHR ''-'' # x" for n x
    using nat_digits_chars [of "CHR ''-''" n] by auto
  show "itoa a = itoa b \<Longrightarrow> a = b"
    using ne nat_digits_inj by (auto simp: itoa_def split: if_splits) (metis ne)+
qed simp

lemma size_path_large: "size_path md5hex s d relPath = path_join [path_join [ts_dir s, d], fileName md5hex s relPath]"
  by (simp add: size_path_def)

lemma length_nat_digits: "n < 10 ^ Suc k \<Longrightarrow> length (nat_digits n) \<le> Suc k"
proof (induction k arbitrary: n)
  case 0
  then show ?case by (simp add: nat_digits.simps)
next
  case (Suc k)
  have "n div 10 < 10 ^ Suc k" using Suc.prems by (simp add: less_mult_imp_div_less)
  then show ?case using Suc.IH [of "n div 10"] by (subst nat_digits.simps) simp
qed

lemma length_itoa: "\<bar>i\<bar> < 9223372036854775808 \<Longrightarrow> length (itoa i) \<le> 20"
proof -
  assume i: "\<bar>i\<bar> < 9223372036854775808"
  have "nat \<bar>i\<bar> < 10 ^ Suc 18" using i by simp
  then have "length (nat_digits (nat \<bar>i\<bar>)) \<le> 19" using length_nat_digits [of "nat \<bar>i\<bar>" 18] by simp
  then show ?thesis by (auto simp: itoa_def abs_if split: if_splits)
qed

lemma write_sizes_large:
  assumes "write_sizes fl tmp im md5hex s relPath kvs src 0 store_sizes files = (None, files')"
    and "\<And>n. tmp n \<noteq> size_path md5hex s ''large'' relPath"
  obtains data where "encodePNG im (fit im src largeSize) kvs = Some data"
    and "files' (size_path md5hex s ''large'' relPath) = Some data"
  using assms(1) assms(2) [THEN not_sym] by (auto simp: store_sizes_def writeAtomic_def size_path_def split: option.splits prod.splits bool.splits thumb_fault.splits)

text \<open>A preview is fresh exactly for the time it was written with: once \<open>Write\<close> succeeds, \<open>Fresh\<close> answers
  yes for that modification time and no for any other, through the text chunk it inserted. That the
  encoder puts no such chunk of its own into a PNG is its documented behaviour; that a temporary name
  is none of the cache's names is \<open>CreateTemp\<close>'s.
\<close>

theorem Fresh_after_Write:
  assumes w: "store_Write fl tmp im md5hex s relPath mtime sz img files = (None, files')"
    and png: "\<And>i d. im_encode im i = Some d \<Longrightarrow> readPNGText ''Thumb::MTime'' d = None"
    and uri: "length (store_URI s relPath) < 4000000000" and t: "\<bar>mtime\<bar> < 9223372036854775808" "\<bar>sz\<bar> < 9223372036854775808"
    and tmp: "\<And>n. tmp n \<noteq> size_path md5hex s ''large'' relPath"
  shows "store_Fresh md5hex s relPath t' files' \<longleftrightarrow> t' = mtime"
proof -
  let ?kvs = "thumb_text s relPath mtime sz"
  obtain src where src: "write_sizes fl tmp im md5hex s relPath ?kvs src 0 store_sizes files = (None, files')"
    using w by (auto simp: store_Write_def split: option.splits)
  obtain data where d: "encodePNG im (fit im src largeSize) ?kvs = Some data"
    "files' (size_path md5hex s ''large'' relPath) = Some data"
    using write_sizes_large [OF src tmp] .
  obtain raw where raw: "im_encode im (fit im src largeSize) = Some raw" "insertPNGText raw ?kvs = Some data"
    using d(1) by (auto simp: encodePNG_def split: option.splits)
  have l: "length (itoa mtime) \<le> 20" "length (itoa sz) \<le> 20" using length_itoa t by auto
  have ok: "\<forall>(k, v)\<in>set ?kvs. CHR 0x00 \<notin> set k \<and> length k + 1 + length v < 4294967296"
    using uri l by (auto simp: thumb_text_def)
  have "readPNGText ''Thumb::MTime'' data = Some (itoa mtime)"
    unfolding readPNGText_insert [OF raw(2) png [OF raw(1)] ok] using l by (simp add: thumb_text_def maxTextChunk_def)
  then show ?thesis using d(2) by (auto simp: store_Fresh_def itoa_eq)
qed

text \<open>A small PNG skeleton: the signature and an IEND chunk.\<close>

definition demo_png :: string where
  "demo_png = replicate 8 (CHR 0x00) @ be32 0 @ ''IEND'' @ be32 0"

definition demo_imaging :: "unit imaging" where
  "demo_imaging = \<lparr>im_decode = (\<lambda>_. Some ()), im_size = (\<lambda>_. (100, 100)), im_scale = (\<lambda>i _ _. i), im_encode = (\<lambda>_. Some demo_png)\<rparr>"

definition demo_store :: thumb_store where
  "demo_store = \<lparr>ts_dir = ''/t'', ts_mountpoint = ''/m''\<rparr>"

theorem Fresh_after_Write_witness:
  "store_Fresh (\<lambda>u. ''h'') demo_store ''a'' 7
     (snd (store_Write (\<lambda>_. NoFault) (\<lambda>_. ''/t/tmp'') demo_imaging (\<lambda>u. ''h'') demo_store ''a'' 7 0 [] (\<lambda>_. None)))"
proof -
  let ?w = "store_Write (\<lambda>_. NoFault) (\<lambda>_. ''/t/tmp'') demo_imaging (\<lambda>u. ''h'') demo_store ''a'' 7 0 [] (\<lambda>_. None)"
  have r: "drop 8 demo_png = be32 0 @ ''IEND'' @ be32 0" by (simp add: demo_png_def)
  have n: "readPNGText ''Thumb::MTime'' demo_png = None"
    unfolding readPNGText_def pngSignatureLen_def r read_chunks.simps [of _ "be32 0 @ ''IEND'' @ be32 0"] by (simp add: be32_def Let_def)
  have iend: "findIEND demo_png = Some 8"
    unfolding findIEND_def pngSignatureLen_def r iend_offset.simps [of "be32 0 @ ''IEND'' @ be32 0"] by (simp add: be32_def Let_def)
  obtain cs where "text_chunks (thumb_text demo_store ''a'' 7 0) = Some cs"
    by (simp add: thumb_text_def textChunk_def Let_def)
  then have "insertPNGText demo_png (thumb_text demo_store ''a'' 7 0) \<noteq> None"
    by (simp add: insertPNGText_def iend)
  then obtain d where d: "insertPNGText demo_png (thumb_text demo_store ''a'' 7 0) = Some d" by blast
  have "fst ?w = None"
    by (simp add: store_Write_def store_sizes_def encodePNG_def writeAtomic_def d demo_imaging_def)
  then have w: "?w = (None, snd ?w)" by (metis prod.collapse)
  have p: "size_path (\<lambda>u. ''h'') demo_store ''large'' ''a'' = ''/t/large/h.png''" by code_simp
  have u: "length (store_URI demo_store ''a'') < 4000000000"
  proof -
    have "store_URI demo_store ''a'' = ''file:///m/a''" by code_simp
    then show ?thesis by simp
  qed
  show ?thesis
    by (rule iffD2 [OF Fresh_after_Write [OF w]]) (simp_all add: demo_imaging_def n u p split: if_splits)
qed

text \<open>A preview keeps within its size and its shape: a scaled image is at least one pixel and at most the
  limit on either edge, with one edge at the limit, and an image that fits is left alone.
\<close>

theorem fit_bounds:
  assumes scale: "\<And>i w h. im_size im (im_scale im i w h) = (w, h)" and "im_size im src = (w, h)" and "0 < w" and "0 < h" and "0 < mx"
  shows "case im_size im (fit im src mx) of (w1, h1) \<Rightarrow>
    1 \<le> w1 \<and> w1 \<le> mx \<and> 1 \<le> h1 \<and> h1 \<le> mx \<and> (if w \<le> mx \<and> h \<le> mx then fit im src mx = src else w1 = mx \<or> h1 = mx)"
proof (cases "w \<le> mx \<and> h \<le> mx")
  case True
  then show ?thesis using assms by (simp add: fit_def)
next
  case False
  obtain w1 h1 where f: "fit_size mx w h = (w1, h1)" by (cases "fit_size mx w h")
  have "im_size im (fit im src mx) = (w1, h1)" using assms(2-4) False f scale by (auto simp: fit_def)
  then show ?thesis using fit_size_bounds [OF assms(3-5) f] False by auto
qed

theorem fit_bounds_witness:
  "fit_size 256 1000 1 = (256, 1) \<and>
   (case im_size \<lparr>im_decode = (\<lambda>_. None), im_size = (\<lambda>i. i), im_scale = (\<lambda>_ w h. (w, h)), im_encode = (\<lambda>_. None)\<rparr>
      (fit \<lparr>im_decode = (\<lambda>_. None), im_size = (\<lambda>i. i), im_scale = (\<lambda>_ w h. (w, h)), im_encode = (\<lambda>_. None)\<rparr> (1000, 1) 256)
    of (w1, h1) \<Rightarrow> w1 \<le> 256 \<and> 1 \<le> h1)"
proof -
  have "fit_size 256 1000 1 = (256, 1)" by code_simp
  then show ?thesis
    using fit_bounds [of "\<lparr>im_decode = (\<lambda>_. None), im_size = (\<lambda>i. i), im_scale = (\<lambda>_ w h. (w, h)), im_encode = (\<lambda>_. None)\<rparr>" "(1000, 1)" 1000 1 256]
    by auto
qed

text \<open>The URI of a name with parentheses: \<open>url.URL\<close> escapes them, which GIO does not.\<close>

lemma URI_parentheses: "store_URI demo_store ''a (1).jpg'' = ''file:///m/a%20%281%29.jpg''"
  by code_simp

end
