(* ===== verification/Cmd_Run.thy ===== *)
theory Cmd_Run
  imports Cmd_Autostart Auth_Session Tray Thumbs
begin

text \<open>
  The commands that string the rest together (cmd/proton-drive-fs/main.go and tray.go): the dispatch,
  \<open>login\<close> with its prompts and the human verification, \<open>logout\<close>, \<open>tray\<close>, and the body of \<open>mount\<close>, from its
  flags to the served file system. Other components' operations are called as they are modelled in
  their theories; the terminal, the network and the file system calls are what each call reports.
\<close>

section \<open>Dispatch\<close>

datatype subcommand =
    CmdLogin | CmdMount | CmdStatus | CmdUnmount | CmdTray | CmdLogout | CmdAutostart | CmdVersion | CmdAbout | CmdConfig

definition subcommands :: "(string \<times> subcommand) list" where
  "subcommands = [(''login'', CmdLogin), (''mount'', CmdMount), (''status'', CmdStatus), (''unmount'', CmdUnmount), (''tray'', CmdTray),
     (''logout'', CmdLogout), (''autostart'', CmdAutostart), (''version'', CmdVersion), (''about'', CmdAbout), (''config'', CmdConfig)]"

definition run_main :: "(subcommand \<Rightarrow> string list \<Rightarrow> int) \<Rightarrow> string list \<Rightarrow> int" where
  "run_main command args =
     (case args of
        [] \<Rightarrow> 2
      | a # as \<Rightarrow> (case map_of subcommands a of None \<Rightarrow> 2 | Some c \<Rightarrow> command c as))"

section \<open>Login\<close>

text \<open>\<open>prompt\<close> on what standard input still holds; a last line without a newline is an error.\<close>

definition prompt :: "string \<Rightarrow> string option \<times> string" where
  "prompt input = (case cut_at newline input of None \<Rightarrow> (None, []) | Some (line, rest) \<Rightarrow> (Some (trim_space line), rest))"

definition pickHVMethod :: "string list \<Rightarrow> string \<Rightarrow> string option" where
  "pickHVMethod offered forced =
     (if forced \<noteq> [] then (if forced \<in> set offered then Some forced else None)
      else List.find (\<lambda>m. m \<in> set offered) [''email'', ''sms'', ''captcha''])"

text \<open>What the login does outside: browser, code requests, the logins tried with their verification headers.\<close>

datatype login_effect = OpenBrowser string | SendCode verification_req | TryLogin "(string \<times> string) option" | SaveSession

record login_world =
  lw_password :: "bytes option"
  lw_api :: "(string \<times> string) option \<Rightarrow> login_api"
  lw_sendCode :: "verification_req \<Rightarrow> go_error option"
  lw_enc :: "session_disk \<Rightarrow> string option"

text \<open>A login with the headers \<open>hv\<close>; the two-factor code is read from the same input when the login asks for it.\<close>

definition try_login :: "login_world \<Rightarrow> (string \<times> string) option \<Rightarrow> string \<Rightarrow> bytes \<Rightarrow> string \<Rightarrow> (login_error + session) \<times> string" where
  "try_login lw hv username password input =
     (case prompt input of
        (code, rest) \<Rightarrow>
          (case login (lw_api lw hv) (Some (case code of None \<Rightarrow> Inl (ErrMsg ''EOF'') | Some c \<Rightarrow> Inr c)) username password of
             (calls, r) \<Rightarrow> (r, if CallTotp \<in> set calls then rest else input)))"

definition verifyHuman :: "login_world \<Rightarrow> human_verification \<Rightarrow> string \<Rightarrow> bytes \<Rightarrow> string \<Rightarrow> bool \<Rightarrow> string
    \<Rightarrow> login_effect list \<times> (login_error + session) \<times> string" where
  "verifyHuman lw hv username password forced openBrowser input =
     (case pickHVMethod (hv_methods hv) forced of
        None \<Rightarrow> ([], Inl (LoginFailed (ErrMsg ''no verification method'')), input)
      | Some method \<Rightarrow>
          if method = ''captcha'' then
            (let e = (if openBrowser then [OpenBrowser (CaptchaURL (hv_token hv))] else [])
             in case prompt input of
                  (None, rest) \<Rightarrow> (e, Inl (LoginFailed (ErrMsg ''EOF'')), rest)
                | (Some _, rest) \<Rightarrow>
                    (case try_login lw (Some (''captcha'', hv_token hv)) username password rest of
                       (r, rest1) \<Rightarrow> (e @ [TryLogin (Some (''captcha'', hv_token hv))], r, rest1)))
          else
            (case prompt input of
               (None, rest) \<Rightarrow> ([], Inl (LoginFailed (ErrMsg ''EOF'')), rest)
             | (Some d, rest) \<Rightarrow>
                 (let destination = (if d = [] then username else d); req = RequestVerificationCode username method destination
                  in case lw_sendCode lw req of
                       Some e \<Rightarrow> ([SendCode req], Inl (LoginFailed e), rest)
                     | None \<Rightarrow>
                         (case prompt rest of
                            (None, rest1) \<Rightarrow> ([SendCode req], Inl (LoginFailed (ErrMsg ''EOF'')), rest1)
                          | (Some code, rest1) \<Rightarrow>
                              (let headers = Some (method, FormatCodeToken destination code)
                               in case try_login lw headers username password rest1 of
                                    (r, rest2) \<Rightarrow> ([SendCode req, TryLogin headers], r, rest2))))))"

definition login_session :: "login_world \<Rightarrow> string \<Rightarrow> bytes \<Rightarrow> string \<Rightarrow> bool \<Rightarrow> string \<Rightarrow> login_effect list \<times> (login_error + session)" where
  "login_session lw username password forced openBrowser input =
     (case try_login lw None username password input of
        (Inl (LoginHV hv), rest) \<Rightarrow>
          (case verifyHuman lw hv username password forced openBrowser rest of (e, r, _) \<Rightarrow> (TryLogin None # e, r))
      | (r, rest) \<Rightarrow> ([TryLogin None], r))"

text \<open>A flag's value at its type; the registered flags always have one.\<close>

definition flag_str :: "flag_set \<Rightarrow> (string \<times> fval) list \<Rightarrow> string \<Rightarrow> string" where
  "flag_str fs actual n = the (as_string (the (flag_value fs actual n)))"
definition flag_bool :: "flag_set \<Rightarrow> (string \<times> fval) list \<Rightarrow> string \<Rightarrow> bool" where
  "flag_bool fs actual n = the (as_bool (the (flag_value fs actual n)))"
definition flag_int :: "flag_set \<Rightarrow> (string \<times> fval) list \<Rightarrow> string \<Rightarrow> int" where
  "flag_int fs actual n = the (as_int (the (flag_value fs actual n)))"
definition flag_dur :: "flag_set \<Rightarrow> (string \<times> fval) list \<Rightarrow> string \<Rightarrow> nanos" where
  "flag_dur fs actual n = the (as_duration (the (flag_value fs actual n)))"

text \<open>\<open>None\<close> is a panic; \<open>ApplyFlags\<close> makes none.\<close>

definition runLogin :: "login_world \<Rightarrow> scanners \<Rightarrow> string \<Rightarrow> conf \<times> config_error option \<Rightarrow> string list \<Rightarrow> string \<Rightarrow> auth_world
    \<Rightarrow> (int option \<times> login_effect list) \<times> auth_world" where
  "runLogin lw sc configPath loaded args input w =
     (case loaded of
        (_, Some _) \<Rightarrow> ((Some 1, []), w)
      | (cfg, None) \<Rightarrow>
          (case parse_flags sc (loginFlags configPath cfg) args [] of
             Inl _ \<Rightarrow> ((Some 2, []), w)
           | Inr (actual, rest) \<Rightarrow>
               if ApplyFlags (visited actual) cfg = None then ((None, []), w)
               else (case prompt input of
                       (None, _) \<Rightarrow> ((Some 1, []), w)
                     | (Some username, input1) \<Rightarrow>
                         if username = [] then ((Some 2, []), w)
                         else (case lw_password lw of
                                 None \<Rightarrow> ((Some 1, []), w)
                               | Some password \<Rightarrow>
                                   (case login_session lw username password (flag_str (loginFlags configPath cfg) actual ''hv-method'')
                                           (\<not> flag_bool (loginFlags configPath cfg) actual ''no-browser'') input1 of
                                      (e, Inl _) \<Rightarrow> ((Some 1, e), w)
                                    | (e, Inr s) \<Rightarrow>
                                        (case Save (lw_enc lw) s w of
                                           (None, w1) \<Rightarrow> ((Some 1, e @ [SaveSession]), w1)
                                         | (Some _, w1) \<Rightarrow> ((Some 0, e @ [SaveSession]), w1)))))))"

definition runLogout :: "(string \<Rightarrow> session_disk option) \<Rightarrow> go_error option \<Rightarrow> auth_world \<Rightarrow> int \<times> auth_world" where
  "runLogout dec authErr w =
     (case Load_session dec w of
        Inl _ \<Rightarrow> (1, w)
      | Inr s \<Rightarrow> (case Logout authErr s w of (e, w1) \<Rightarrow> (if e = None then 0 else 1, w1)))"

definition runVersion :: "string \<Rightarrow> int \<times> string list" where
  "runVersion version = (0, [version])"

section \<open>The tray command\<close>

record tray_env =
  te_cwd :: "string option"
  te_remembered :: string
  te_saveFails :: bool
  te_logPath :: "string option"

datatype tray_cmd_effect = Remember string | RunTray tray_options

definition runTray :: "tray_env \<Rightarrow> scanners \<Rightarrow> string \<Rightarrow> conf \<times> config_error option \<Rightarrow> string list \<Rightarrow> int option \<times> tray_cmd_effect list" where
  "runTray env sc configPath loaded args =
     (case loaded of
        (_, Some _) \<Rightarrow> (Some 1, [])
      | (cfg0, None) \<Rightarrow>
          (let fs = [(''config'', TString, VString configPath), (''mountpoint'', TString, VString (cf_mountpoint cfg0))]
           in case parse_flags sc fs args [] of
                Inl _ \<Rightarrow> (Some 2, [])
              | Inr (actual, rest) \<Rightarrow>
                  (case ApplyFlags (visited actual) cfg0 of
                     None \<Rightarrow> (None, [])
                   | Some (cfg, _) \<Rightarrow>
                       (let mp = resolveTrayMountpoint (te_cwd env) (te_remembered env) (flag_str fs actual ''mountpoint'') cfg;
                            e = (if mp \<noteq> [] then [Remember mp] else [])
                        in case te_logPath env of
                             None \<Rightarrow> (Some 1, e)
                           | Some logPath \<Rightarrow>
                               (Some 0, e @ [RunTray \<lparr>to_Mountpoint = mp, to_LogPath = logPath, to_ConfigPath = configPath, to_Embedded = False\<rparr>])))))"

section \<open>Mount\<close>

datatype stat_result = StatDir | StatFile | StatMissing | StatFailed

datatype mount_action =
    MakeMountpoint string | Detach "string list" string | SetupLog log_level bool | StopDaemon "kill_signal list" | TakeLock
  | LogIn "login_effect list" | RestoreClient session | OpenDrive | OpenCache string int | Limits int int | OpenThumbs string
  | ShowTray tray_options | Serve string options

record mount_env =
  me_cwd :: "string option"
  me_stat :: "string \<Rightarrow> stat_result"
  me_mkdirFails :: bool
  me_mounts :: "nat \<Rightarrow> string option"
  me_exited :: "nat \<Rightarrow> bool"
  me_clock :: "nat \<Rightarrow> nanos"
  me_previous :: "int \<times> string \<times> bool"
  me_self :: int
  me_termOk :: bool
  me_alive :: "nat \<Rightarrow> bool"
  me_lockFree :: bool
  me_terminal :: bool
  me_stdin :: string
  me_login :: login_world
  me_dec :: "string \<Rightarrow> session_disk option"
  me_restoreFails :: bool
  me_driveFails :: bool
  me_cacheFails :: bool
  me_display :: "string \<times> string"
  me_logPath :: "string option"
  me_serveFails :: bool
  me_revoked :: bool

definition act :: "mount_action list \<Rightarrow> mount_action list \<times> int option \<Rightarrow> mount_action list \<times> int option" where
  "act as r = (as @ fst r, snd r)"

definition abs_path :: "string option \<Rightarrow> string \<Rightarrow> string option" where
  "abs_path cwd p = (if prefix [slash] p then Some (path_clean p) else map_option (\<lambda>d. path_join [d, p]) cwd)"

definition mount_opts :: "flag_set \<Rightarrow> (string \<times> fval) list \<Rightarrow> options" where
  "mount_opts fs actual =
     \<lparr>op_ttl = flag_dur fs actual ''ttl'', op_poll = flag_dur fs actual ''poll'', op_opTimeout = flag_dur fs actual ''op-timeout'',
      op_metaTimeout = 0, op_maxUploads = flag_int fs actual ''max-uploads'',
      op_exclude = SplitComma (flag_str fs actual ''exclude''), op_uploadDelay = flag_dur fs actual ''upload-delay'',
      op_uploadDelays = SplitComma (flag_str fs actual ''upload-delays''), op_denyReaders = SplitComma (flag_str fs actual ''deny-readers'')\<rparr>"

text \<open>From a session to the end of the served mount.\<close>

definition serve_session :: "mount_env \<Rightarrow> flag_set \<Rightarrow> (string \<times> fval) list \<Rightarrow> string \<Rightarrow> string \<Rightarrow> int \<Rightarrow> int \<Rightarrow> session \<Rightarrow> mount_action list \<times> int option" where
  "serve_session env fs actual configPath mountpoint cacheLimit largeLimit s =
     act [RestoreClient s]
       (if me_restoreFails env then ([], Some 1)
        else act [OpenDrive]
          (if me_driveFails env then ([], Some 1)
           else act [OpenCache (flag_str fs actual ''cache-dir'') cacheLimit]
             (if me_cacheFails env then ([], Some 1)
              else act [Limits largeLimit (flag_int fs actual ''max-downloads'')]
                (let thumbs = flag_bool fs actual ''thumbnails'' \<and> flag_str fs actual ''thumbnail-dir'' \<noteq> []
                 in act (if thumbs then [OpenThumbs (flag_str fs actual ''thumbnail-dir'')] else [])
                   (if thumbs \<and> New_store (flag_str fs actual ''thumbnail-dir'') (abs_path (me_cwd env) mountpoint) = None then ([], Some 1)
                    else act (if \<not> flag_bool fs actual ''no-tray'' \<and> hasDisplay (fst (me_display env)) (snd (me_display env))
                              then [ShowTray \<lparr>to_Mountpoint = mountpoint,
                                      to_LogPath = (case me_logPath env of None \<Rightarrow> [] | Some l \<Rightarrow> l),
                                      to_ConfigPath = configPath, to_Embedded = True\<rparr>] else [])
                      (act [Serve mountpoint (mount_opts fs actual)]
                        ([], Some (if me_serveFails env then 1 else if me_revoked env then 1 else 0))))))))"

text \<open>The daemon: the previous one is stopped and the lock taken before the sizes and the session are looked at.\<close>

definition mount_daemon :: "mount_env \<Rightarrow> scanners \<Rightarrow> flag_set \<Rightarrow> (string \<times> fval) list \<Rightarrow> string \<Rightarrow> conf \<Rightarrow> string list \<Rightarrow> string \<Rightarrow> log_level
    \<Rightarrow> auth_world \<Rightarrow> (mount_action list \<times> int option) \<times> auth_world" where
  "mount_daemon env sc fs actual configPath cfg0 args mountpoint level w =
     (let pre = act [SetupLog level (flag_bool fs actual ''log-stderr'')]
      in case stopPreviousDaemon (me_previous env) (me_self env) (me_termOk env) (me_alive env) (me_clock env) of
           None \<Rightarrow> (pre ([], None), w)
         | Some sigs \<Rightarrow>
             (let pre = (\<lambda>r. pre (act [StopDaemon sigs, TakeLock] r))
              in if \<not> me_lockFree env then (pre ([], Some 1), w)
                 else (case (parseCacheSize sc (flag_str fs actual ''cache-size''), parseCacheSize sc (flag_str fs actual ''large-file'')) of
                         (None, _) \<Rightarrow> (pre ([], Some 2), w)
                       | (_, None) \<Rightarrow> (pre ([], Some 2), w)
                       | (Some cacheLimit, Some largeLimit) \<Rightarrow>
                           (case Load_session (me_dec env) w of
                              Inr s \<Rightarrow> (pre (serve_session env fs actual configPath mountpoint cacheLimit largeLimit s), w)
                            | Inl _ \<Rightarrow>
                                if \<not> me_terminal env then (pre ([], Some 1), w)
                                else (case runLogin (me_login env) sc configPath (cfg0, None) args (me_stdin env) w of
                                        ((code, e), w1) \<Rightarrow>
                                          if code \<noteq> Some 0 then (pre ([LogIn e], code), w1)
                                          else (case Load_session (me_dec env) w1 of
                                                  Inl _ \<Rightarrow> (pre ([LogIn e], Some 1), w1)
                                                | Inr s \<Rightarrow>
                                                    (pre (act [LogIn e] (serve_session env fs actual configPath mountpoint cacheLimit largeLimit s)), w1)))))))"

definition runMount :: "mount_env \<Rightarrow> scanners \<Rightarrow> string \<Rightarrow> conf \<times> config_error option \<Rightarrow> string list \<Rightarrow> auth_world
    \<Rightarrow> (mount_action list \<times> int option) \<times> auth_world" where
  "runMount env sc configPath loaded args w =
     (case loaded of
        (_, Some _) \<Rightarrow> (([], Some 1), w)
      | (cfg0, None) \<Rightarrow>
          (case mountFlags sc configPath cfg0 of
             Inl _ \<Rightarrow> (([], Some 2), w)
           | Inr fs \<Rightarrow>
               (case parse_flags sc fs args [] of
                  Inl _ \<Rightarrow> (([], Some 2), w)
                | Inr (actual, rest) \<Rightarrow>
                    (case (ApplyFlags (visited actual) cfg0, parseLogLevel (flag_str fs actual ''log-level'')) of
                       (None, _) \<Rightarrow> (([], None), w)
                     | (Some _, None) \<Rightarrow> (([], Some 2), w)
                     | (Some (cfg, _), Some level) \<Rightarrow>
                         (case resolveMountpoint (case rest of [] \<Rightarrow> [] | a # _ \<Rightarrow> a) cfg of
                            None \<Rightarrow> (([], Some 2), w)
                          | Some mountpoint \<Rightarrow>
                              (let made = (if me_stat env mountpoint = StatMissing then [MakeMountpoint mountpoint] else [])
                               in if me_stat env mountpoint = StatFailed then (([], Some 1), w)
                                  else if me_stat env mountpoint = StatMissing \<and> me_mkdirFails env then ((made, Some 1), w)
                                  else if me_stat env mountpoint = StatFile then (([], Some 1), w)
                                  else if \<not> flag_bool fs actual ''foreground''
                                  then ((made @ [Detach (detachedArgs args) mountpoint],
                                         mountDetached (me_mounts env) (me_exited env) (me_clock env) (me_cwd env) mountpoint), w)
                                  else (case mount_daemon env sc fs actual configPath cfg0 args mountpoint level w of
                                          (r, w1) \<Rightarrow> (act made r, w1))))))))"

section \<open>What login leaves\<close>

lemma pickHVMethod_offered:
  "pickHVMethod offered forced = Some m \<Longrightarrow> m \<in> set offered \<and> (forced \<noteq> [] \<longrightarrow> m = forced) \<and> (forced = [] \<longrightarrow> m \<in> {''email'', ''sms'', ''captcha''})"
  by (auto simp: pickHVMethod_def split: if_splits)

text \<open>The verified login carries the method picked and a token of the right kind: the one Proton handed out for a CAPTCHA, else the destination the code was asked for and the code.\<close>

lemma verifyHuman_headers:
  assumes "verifyHuman lw hv username password forced browser input = (e, r, rest)" "TryLogin h \<in> set e"
  shows "\<exists>m. pickHVMethod (hv_methods hv) forced = Some m
    \<and> (m = ''captcha'' \<and> h = Some (m, hv_token hv)
       \<or> m \<noteq> ''captcha'' \<and> (\<exists>dest code. (dest \<noteq> [] \<or> dest = username) \<and> h = Some (m, FormatCodeToken dest code)
            \<and> SendCode (RequestVerificationCode username m dest) \<in> set e))"
proof -
  obtain m where m: "pickHVMethod (hv_methods hv) forced = Some m"
    using assms by (cases "pickHVMethod (hv_methods hv) forced") (auto simp: verifyHuman_def)
  show ?thesis
  proof (cases "m = ''captcha''")
    case True
    then show ?thesis using assms m by (auto simp: verifyHuman_def Let_def split: option.splits if_splits prod.splits)
  next
    case False
    obtain d rest0 where p: "prompt input = (Some d, rest0)"
      using assms m False by (cases "prompt input"; cases "fst (prompt input)") (auto simp: verifyHuman_def)
    let ?dest = "if d = [] then username else d"
    have c: "lw_sendCode lw (RequestVerificationCode username m ?dest) = None"
      using assms m False p by (cases "lw_sendCode lw (RequestVerificationCode username m ?dest)") (auto simp: verifyHuman_def Let_def)
    obtain code rest1 where q: "prompt rest0 = (Some code, rest1)"
      using assms m False p c by (cases "prompt rest0"; cases "fst (prompt rest0)") (auto simp: verifyHuman_def Let_def)
    have "e = [SendCode (RequestVerificationCode username m ?dest), TryLogin (Some (m, FormatCodeToken ?dest code))]"
      using assms(1) m False p c q by (simp add: verifyHuman_def Let_def split: prod.splits)
    then have "h = Some (m, FormatCodeToken ?dest code)" "SendCode (RequestVerificationCode username m ?dest) \<in> set e"
      using assms(2) by simp_all
    moreover have "?dest \<noteq> [] \<or> ?dest = username" by simp
    ultimately show ?thesis using m False by blast
  qed
qed

lemma runLogin_zero:
  assumes "runLogin lw sc configPath loaded args input w = ((Some 0, e), w')"
  shows "\<exists>s used e' username password forced browser rest.
    login_session lw username password forced browser rest = (e', Inr s) \<and> lw_password lw = Some password \<and> username \<noteq> []
    \<and> Save (lw_enc lw) s w = (Some used, w') \<and> e = e' @ [SaveSession]"
  using assms by (auto simp: runLogin_def split: prod.splits option.splits sum.splits if_splits) blast+


section \<open>The order of mount\<close>

lemma act_simps [simp]: "fst (act as r) = as @ fst r" "snd (act as r) = snd r"
  by (simp_all add: act_def)

lemma act_eq [simp]: "act as r = (acts, code) \<longleftrightarrow> acts = as @ fst r \<and> code = snd r"
  by (auto simp: act_def)

fun is_serve :: "mount_action \<Rightarrow> bool" where
  "is_serve (Serve _ _) = True"
| "is_serve _ = False"

lemma serve_mem: "\<forall>a\<in>A. \<not> is_serve a \<Longrightarrow> Serve mp opts \<notin> A"
  by auto

lemma serve_session_shape:
  "\<exists>pre. (fst (serve_session env fs actual cp mp cl ll s) = RestoreClient s # pre \<and> snd (serve_session env fs actual cp mp cl ll s) = Some 1
        \<and> (\<forall>a\<in>set pre. \<not> is_serve a))
     \<or> (fst (serve_session env fs actual cp mp cl ll s) = RestoreClient s # pre @ [Serve mp (mount_opts fs actual)]
        \<and> (\<forall>a\<in>set pre. \<not> is_serve a)
        \<and> snd (serve_session env fs actual cp mp cl ll s) = Some (if me_serveFails env \<or> me_revoked env then 1 else 0))"
proof -
  let ?t = "flag_bool fs actual ''thumbnails'' \<and> flag_str fs actual ''thumbnail-dir'' \<noteq> []"
  consider "me_restoreFails env" | "\<not> me_restoreFails env" "me_driveFails env" | "\<not> me_restoreFails env" "\<not> me_driveFails env" "me_cacheFails env"
    | "\<not> me_restoreFails env" "\<not> me_driveFails env" "\<not> me_cacheFails env"
      "?t \<and> New_store (flag_str fs actual ''thumbnail-dir'') (abs_path (me_cwd env) mp) = None"
    | "\<not> me_restoreFails env" "\<not> me_driveFails env" "\<not> me_cacheFails env"
      "\<not> (?t \<and> New_store (flag_str fs actual ''thumbnail-dir'') (abs_path (me_cwd env) mp) = None)"
    by blast
  then show ?thesis
  proof cases
    case 4
    then show ?thesis by (auto simp: serve_session_def Let_def)
  next
    case 5
    let ?pre = "[OpenDrive, OpenCache (flag_str fs actual ''cache-dir'') cl, Limits ll (flag_int fs actual ''max-downloads'')]
      @ (if ?t then [OpenThumbs (flag_str fs actual ''thumbnail-dir'')] else [])
      @ (if \<not> flag_bool fs actual ''no-tray'' \<and> hasDisplay (fst (me_display env)) (snd (me_display env))
         then [ShowTray \<lparr>to_Mountpoint = mp, to_LogPath = (case me_logPath env of None \<Rightarrow> [] | Some l \<Rightarrow> l), to_ConfigPath = cp, to_Embedded = True\<rparr>] else [])"
    have "fst (serve_session env fs actual cp mp cl ll s) = RestoreClient s # ?pre @ [Serve mp (mount_opts fs actual)]"
      "snd (serve_session env fs actual cp mp cl ll s) = Some (if me_serveFails env \<or> me_revoked env then 1 else 0)"
      using 5 by (auto simp: serve_session_def Let_def)
    moreover have "\<forall>a\<in>set ?pre. \<not> is_serve a" by auto
    ultimately show ?thesis by blast
  qed (auto simp: serve_session_def Let_def)
qed

text \<open>The daemon either stops short of serving, with an error, or goes through a session it loaded.\<close>

lemma mount_daemon_shape:
  assumes "mount_daemon env sc fs actual cp cfg args mp level w = ((acts, code), w')"
  shows "(\<forall>a\<in>set acts. \<not> is_serve a) \<and> code \<noteq> Some 0
    \<or> (\<exists>log sigs mid s cl ll. acts = SetupLog level log # StopDaemon sigs # TakeLock # mid @ fst (serve_session env fs actual cp mp cl ll s)
        \<and> code = snd (serve_session env fs actual cp mp cl ll s) \<and> (\<forall>a\<in>set mid. \<not> is_serve a)
        \<and> Load_session (me_dec env) w' = Inr s \<and> me_lockFree env)"
proof -
  define log where "log = flag_bool fs actual ''log-stderr''"
  show ?thesis
  proof (cases "stopPreviousDaemon (me_previous env) (me_self env) (me_termOk env) (me_alive env) (me_clock env)")
    case None
    then show ?thesis using assms by (auto simp: mount_daemon_def Let_def)
  next
    case (Some sigs)
    let ?pre = "[SetupLog level log, StopDaemon sigs, TakeLock]"
    consider "\<not> me_lockFree env" | "parseCacheSize sc (flag_str fs actual ''cache-size'') = None \<or> parseCacheSize sc (flag_str fs actual ''large-file'') = None"
      | cl ll where "me_lockFree env" "parseCacheSize sc (flag_str fs actual ''cache-size'') = Some cl" "parseCacheSize sc (flag_str fs actual ''large-file'') = Some ll"
      by fastforce
    then show ?thesis
    proof cases
      case 1
      then show ?thesis using assms Some by (auto simp: mount_daemon_def Let_def)
    next
      case 2
      then show ?thesis using assms Some by (auto simp: mount_daemon_def Let_def split: option.splits if_splits)
    next
      case 3
      show ?thesis
      proof (cases "Load_session (me_dec env) w")
        case (Inr s)
        then have "acts = ?pre @ [] @ fst (serve_session env fs actual cp mp cl ll s) \<and> code = snd (serve_session env fs actual cp mp cl ll s) \<and> w' = w"
          using assms Some 3 by (auto simp: mount_daemon_def Let_def log_def)
        then show ?thesis using Inr 3(1)
          by (intro disjI2 exI [of _ log] exI [of _ sigs] exI [of _ "[]"] exI [of _ s] exI [of _ cl] exI [of _ ll]) simp
      next
        case (Inl err)
        obtain c e w1 where l: "runLogin (me_login env) sc cp (cfg, None) args (me_stdin env) w = ((c, e), w1)"
          by (metis prod.collapse)
        show ?thesis
        proof (cases "me_terminal env \<and> c = Some 0 \<and> (\<exists>s. Load_session (me_dec env) w1 = Inr s)")
          case True
          then obtain s where s: "Load_session (me_dec env) w1 = Inr s" by blast
          then have "acts = ?pre @ [LogIn e] @ fst (serve_session env fs actual cp mp cl ll s) \<and> code = snd (serve_session env fs actual cp mp cl ll s) \<and> w' = w1"
            using assms unfolding mount_daemon_def Let_def log_def using Some 3 Inl l True by simp
          moreover have "\<forall>a\<in>set [LogIn e]. \<not> is_serve a" by simp
          ultimately show ?thesis using s 3(1)
            by (intro disjI2 exI [of _ log] exI [of _ sigs] exI [of _ "[LogIn e]"] exI [of _ s] exI [of _ cl] exI [of _ ll]) simp
        next
          case False
          then show ?thesis using assms Some 3 Inl l
            by (cases "Load_session (me_dec env) w1") (auto simp: mount_daemon_def Let_def split: if_splits)
        qed
      qed
    qed
  qed
qed

lemma runMount_shape:
  assumes "runMount env sc cp loaded args w = ((acts, code), w')"
  shows "(\<forall>a\<in>set acts. \<not> is_serve a) \<and> (code = Some 0 \<longrightarrow> (\<exists>mp. acts \<noteq> [] \<and> last acts = Detach (detachedArgs args) mp))
    \<or> (\<exists>made fs actual cfg mp level acts'. (\<forall>a\<in>set made. \<not> is_serve a) \<and> acts = made @ acts'
        \<and> mount_daemon env sc fs actual cp cfg args mp level w = ((acts', code), w'))"
proof -
  obtain cfg0 err where ld: "loaded = (cfg0, err)" by fastforce
  show ?thesis
  proof (cases "err = None \<and> (\<exists>fs. mountFlags sc cp cfg0 = Inr fs \<and> (\<exists>actual rest. parse_flags sc fs args [] = Inr (actual, rest)
      \<and> (\<exists>cfg ex level mp. ApplyFlags (visited actual) cfg0 = Some (cfg, ex) \<and> parseLogLevel (flag_str fs actual ''log-level'') = Some level
           \<and> resolveMountpoint (case rest of [] \<Rightarrow> [] | a # _ \<Rightarrow> a) cfg = Some mp)))")
    case False
    then show ?thesis using assms unfolding ld runMount_def
      by (auto split: option.splits sum.splits)
  next
    case True
    then obtain fs actual rest cfg ex level mp where t: "err = None" "mountFlags sc cp cfg0 = Inr fs" "parse_flags sc fs args [] = Inr (actual, rest)"
      "ApplyFlags (visited actual) cfg0 = Some (cfg, ex)" "parseLogLevel (flag_str fs actual ''log-level'') = Some level"
      "resolveMountpoint (case rest of [] \<Rightarrow> [] | a # _ \<Rightarrow> a) cfg = Some mp"
      by blast
    let ?made = "if me_stat env mp = StatMissing then [MakeMountpoint mp] else []"
    have quiet: "\<forall>a\<in>set ?made. \<not> is_serve a" by simp
    obtain r w1 where d: "mount_daemon env sc fs actual cp cfg0 args mp level w = (r, w1)" by fastforce
    consider (stop) "(\<forall>a\<in>set acts. \<not> is_serve a) \<and> code = Some 1"
      | (det) "acts = ?made @ [Detach (detachedArgs args) mp]"
      | (go) "acts = ?made @ fst r" "code = snd r" "w' = w1"
      using assms unfolding ld runMount_def t d by (auto simp: Let_def t d split: if_splits)
    then show ?thesis
    proof cases
      case go
      then have "mount_daemon env sc fs actual cp cfg0 args mp level w = ((fst r, code), w')" using d by simp
      then show ?thesis using go(1) quiet by blast
    next
      case det
      then show ?thesis using quiet by auto
    qed auto
  qed
qed


definition demo_login :: login_world where
  "demo_login = \<lparr>lw_password = Some [7], lw_api = (\<lambda>_. \<lparr>la_login = (\<lambda>_ _. Inr \<lparr>au_uid = ''i'', au_access = ''a'', au_refresh = ''r'', au_twoPassword = False, au_twoFA = 0\<rparr>),
       la_2fa = (\<lambda>_. None), la_user = Inr ''k'', la_salts = Inr (\<lambda>_ _. Inr [7, 255])\<rparr>), lw_sendCode = (\<lambda>_. None), lw_enc = demo_enc\<rparr>"

text \<open>A typed \<open>u\<close> and a password, no second factor.\<close>

definition demo_input :: string where
  "demo_input = ''u'' @ [newline]"

definition demo_conf :: "conf \<times> config_error option" where
  "demo_conf = (Defaults None, None)"

definition demo_mount_env :: mount_env where
  "demo_mount_env = \<lparr>me_cwd = Some ''/home/u'', me_stat = (\<lambda>_. StatDir), me_mkdirFails = False, me_mounts = (\<lambda>_. None), me_exited = (\<lambda>_. True),
     me_clock = (\<lambda>_. 0), me_previous = (0, [], False), me_self = 9, me_termOk = True, me_alive = (\<lambda>_. False), me_lockFree = True,
     me_terminal = False, me_stdin = [], me_login = demo_login, me_dec = demo_dec, me_restoreFails = False, me_driveFails = False,
     me_cacheFails = False, me_display = ([], []), me_logPath = None, me_serveFails = False, me_revoked = False\<rparr>"

definition saved_world :: auth_world where
  "saved_world = snd (Save demo_enc demo_session demo_auth_world)"

definition demo_mounted :: "(mount_action list \<times> int option) \<times> auth_world" where
  "demo_mounted = runMount demo_mount_env demo_scan ''/c'' demo_conf [''-foreground'', ''/mnt/d''] saved_world"

lemma demo_mounted_serves: "\<exists>opts. Serve ''/mnt/d'' opts \<in> set (fst (fst demo_mounted))"
proof -
  have "is_serve (last (fst (fst demo_mounted))) \<and> (case last (fst (fst demo_mounted)) of Serve m _ \<Rightarrow> m = ''/mnt/d'' | _ \<Rightarrow> False) \<and> fst (fst demo_mounted) \<noteq> []" by code_simp
  then show ?thesis using last_in_set [of "fst (fst demo_mounted)"] by (cases "last (fst (fst demo_mounted))") auto
qed



text \<open>
  A mount that cannot serve has already taken the running one down: without a saved session the
  daemon stops its predecessor first and only then finds out.
\<close>

lemma failed_mount_stops_daemon:
  assumes "stopPreviousDaemon (me_previous env) (me_self env) (me_termOk env) (me_alive env) (me_clock env) = Some sigs"
    "Load_session (me_dec env) w = Inl err" "\<not> me_terminal env" "me_lockFree env"
  shows "fst (fst (mount_daemon env sc fs actual configPath cfg args mountpoint level w))
     = [SetupLog level (flag_bool fs actual ''log-stderr''), StopDaemon sigs, TakeLock]
    \<and> snd (fst (mount_daemon env sc fs actual configPath cfg args mountpoint level w)) \<in> {Some 1, Some 2}"
  using assms by (auto simp: mount_daemon_def Let_def split: option.splits)

lemma running_daemon_stopped: "stopPreviousDaemon (7, ''/old'', True) 9 True (\<lambda>_. False) (\<lambda>_. 0) = Some [SIGTERM]"
  by (simp add: stopPreviousDaemon_def poll_exit.simps [of _ _ _ 0])

text \<open>Mount's own login is given mount's arguments: the \<open>-foreground\<close> that leads there ends it with status 2.\<close>

lemma mount_login_rejected:
  "runLogin lw sc configPath (cfg, None) (''-foreground'' # args) input w = ((Some 2, []), w)"
  by (simp add: runLogin_def login_rejects_foreground del: parse_flags.simps)

lemma run_main_usage: "run_main command [] = 2 \<and> (map_of subcommands a = None \<longrightarrow> run_main command (a # as) = 2)"
  by (simp add: run_main_def)

end
