(* ===== verification/Thumb_Registry.thy ===== *)
theory Thumb_Registry
  imports Api_Errors "HOL-Library.AList"
begin

text \<open>
  The thumbnailers installed on the system (internal/thumbs/registry.go): reading the
  \<open>.thumbnailer\<close> files into a map from MIME types to command lines, the command line of one run, the
  outcome of \<open>Generate\<close>, and the executable names the mount refuses. The MIME table
  (\<open>mime.TypeByExtension\<close>), the directories and the run of a command are parameters. The registry is
  an association list; Go gives the entries of a map in any order, so the lemmas speak of the set of
  \<open>ProcessNames\<close> only.
\<close>

section \<open>Reading the files\<close>

text \<open>
  \<open>bufio.Scanner\<close> over lines: a line of 65536 bytes or more ends the scan, an empty last line is no
  line. The carriage return it drops is white space to the trimming below.
\<close>

definition maxScanTokenSize :: nat where "maxScanTokenSize = 65536"

fun scan_tokens :: "string list \<Rightarrow> string list" where
  "scan_tokens [] = []"
| "scan_tokens (l # ls) =
     (if maxScanTokenSize \<le> length l \<or> (l = [] \<and> ls = []) then [] else l # scan_tokens ls)"

definition scan_lines :: "string \<Rightarrow> string list" where
  "scan_lines s = scan_tokens (split_on (CHR 0x0A) s)"

record entry_scan =
  es_exec :: string
  es_mime :: string
  es_try :: string
  es_in :: bool

definition entry_step :: "entry_scan \<Rightarrow> string \<Rightarrow> entry_scan" where
  "entry_step s raw =
     (let line = trim_space raw
      in if line = ''[Thumbnailer Entry]'' then s\<lparr>es_in := True\<rparr>
         else if prefix ''['' line then s\<lparr>es_in := False\<rparr>
         else if \<not> es_in s then s
         else (case cut_at (CHR ''='') line of
                 None \<Rightarrow> s
               | Some (k, v) \<Rightarrow>
                   if k = ''Exec'' then s\<lparr>es_exec := v\<rparr>
                   else if k = ''MimeType'' then s\<lparr>es_mime := v\<rparr>
                   else if k = ''TryExec'' then s\<lparr>es_try := v\<rparr>
                   else s))"

type_synonym registry = "(string \<times> string) list"

definition set_mime :: "string \<Rightarrow> registry \<Rightarrow> string \<Rightarrow> registry" where
  "set_mime cmd r part = (let mt = trim_space part in if mt = [] then r else AList.update mt cmd r)"

definition loadFile :: "(string \<Rightarrow> bool) \<Rightarrow> string option \<Rightarrow> registry \<Rightarrow> registry" where
  "loadFile lookPath content r =
     (case content of
        None \<Rightarrow> r
      | Some s \<Rightarrow>
          let e = foldl entry_step \<lparr>es_exec = [], es_mime = [], es_try = [], es_in = False\<rparr> (scan_lines s)
          in if es_exec e = [] \<or> es_mime e = [] then r
             else if es_try e \<noteq> [] \<and> \<not> lookPath (es_try e) then r
             else foldl (set_mime (es_exec e)) r (split_on (CHR '';'') (es_mime e)))"

record thumbnailer_dirs =
  td_readDir :: "string \<Rightarrow> string list option"
  td_open :: "string \<Rightarrow> string option"
  td_lookPath :: "string \<Rightarrow> bool"

definition loadDir :: "thumbnailer_dirs \<Rightarrow> registry \<Rightarrow> string \<Rightarrow> registry" where
  "loadDir w r d =
     (case td_readDir w d of
        None \<Rightarrow> r
      | Some names \<Rightarrow>
          foldl (\<lambda>r n. loadFile (td_lookPath w) (td_open w (path_join [d, n])) r) r
            (filter (suffix ''.thumbnailer'') names))"

definition defaultThumbnailerDirs :: "string list" where
  "defaultThumbnailerDirs = [''/usr/share/thumbnailers'', ''/usr/local/share/thumbnailers'']"

definition LoadRegistry :: "thumbnailer_dirs \<Rightarrow> string option \<Rightarrow> registry" where
  "LoadRegistry w home =
     foldl (loadDir w) []
       (defaultThumbnailerDirs
        @ (case home of None \<Rightarrow> [] | Some h \<Rightarrow> [path_join [h, ''.local'', ''share'', ''thumbnailers'']]))"

section \<open>Running one\<close>

text \<open>\<open>mime\<close> is \<open>mime.TypeByExtension\<close>; a nil registry is \<open>None\<close>, and the empty string no template.\<close>

definition strip_params :: "string \<Rightarrow> string" where
  "strip_params mt = (case cut_at (CHR '';'') mt of None \<Rightarrow> mt | Some (a, _) \<Rightarrow> trim_space a)"

definition ForExt :: "(string \<Rightarrow> string) \<Rightarrow> registry option \<Rightarrow> string \<Rightarrow> string" where
  "ForExt mime r ext =
     (case r of
        None \<Rightarrow> []
      | Some m \<Rightarrow>
          if m = [] \<or> ext = [] then []
          else let mt = mime ext
               in if mt = [] then []
                  else (case map_of m (strip_params mt) of None \<Rightarrow> [] | Some e \<Rightarrow> e))"

definition expand_exec :: "string \<Rightarrow> string \<Rightarrow> string \<Rightarrow> int \<Rightarrow> string" where
  "expand_exec tpl input out sz =
     (let l1 = replace_all ''%i'' input tpl;
          l2 = replace_all ''%o'' out l1;
          l3 = replace_all ''%s'' (itoa sz) l2;
          l4 = replace_all ''%u'' (''file://'' @ input) l3
      in replace_all ''%%'' ''%'' l4)"

datatype generate_error = NoThumbnailer string | NoTempFile | EmptyExec string | RunFailed string go_error | NoOutput | EmptyOutput string

text \<open>\<open>tmp\<close> is the name \<open>CreateTemp\<close> gives, \<open>run\<close> the process with its arguments, \<open>out\<close> the output file read back.\<close>

record generate_world =
  gw_mime :: "string \<Rightarrow> string"
  gw_tmp :: "string option"
  gw_run :: "string list \<Rightarrow> go_error option"
  gw_out :: "string list \<Rightarrow> string option"

definition Generate :: "generate_world \<Rightarrow> registry option \<Rightarrow> string \<Rightarrow> string \<Rightarrow> int \<Rightarrow> (generate_error + string) \<times> string list option" where
  "Generate w r ext input sz =
     (let tpl = ForExt (gw_mime w) r ext
      in if tpl = [] then (Inl (NoThumbnailer ext), None)
         else (case gw_tmp w of
                 None \<Rightarrow> (Inl NoTempFile, None)
               | Some out \<Rightarrow>
                   (case fields_of (expand_exec tpl input out sz) of
                      [] \<Rightarrow> (Inl (EmptyExec ext), None)
                    | prog # args \<Rightarrow>
                        (case gw_run w (prog # args) of
                           Some e \<Rightarrow> (Inl (RunFailed (path_base prog) e), Some (prog # args))
                         | None \<Rightarrow>
                             (case gw_out w (prog # args) of
                                None \<Rightarrow> (Inl NoOutput, Some (prog # args))
                              | Some d \<Rightarrow> (if d = [] then Inl (EmptyOutput ext) else Inr d, Some (prog # args)))))))"

section \<open>Who may not read\<close>

definition execBasename :: "string \<Rightarrow> string" where
  "execBasename execLine = (case fields_of execLine of [] \<Rightarrow> [] | f # _ \<Rightarrow> path_base f)"

definition add_process_name :: "string list \<Rightarrow> string \<Rightarrow> string list" where
  "add_process_name names te =
     (let n = execBasename te in if n \<noteq> [] \<and> n \<notin> set names then names @ [n] else names)"

definition ProcessNames :: "registry option \<Rightarrow> string list" where
  "ProcessNames r = (case r of None \<Rightarrow> [] | Some m \<Rightarrow> foldl add_process_name [] (map snd m))"

section \<open>What the names and the command line are\<close>

lemma set_add_process_names:
  "set (foldl add_process_name ns tes) = set ns \<union> (execBasename ` set tes - {[]})"
  by (induction tes arbitrary: ns) (auto simp: add_process_name_def Let_def)

lemma distinct_add_process_names: "distinct ns \<Longrightarrow> distinct (foldl add_process_name ns tes)"
  by (induction tes arbitrary: ns) (auto simp: add_process_name_def Let_def)

text \<open>So the order in which a Go map is walked changes only the order of the names.\<close>

lemma ProcessNames_set:
  "set (ProcessNames (Some m)) = execBasename ` (snd ` set m) - {[]} \<and> distinct (ProcessNames (Some m))"
  by (simp add: ProcessNames_def set_add_process_names distinct_add_process_names)

lemma replace_all_Nil: "replace_all old new [] = []"
  by (subst replace_all.simps) simp

lemma replace_all_miss: "\<not> prefix old (x # xs) \<Longrightarrow> replace_all old new (x # xs) = x # replace_all old new xs"
  by (subst replace_all.simps) auto

lemma replace_all_keeps:
  "old \<noteq> [] \<Longrightarrow> hd old \<notin> set pre \<Longrightarrow> replace_all old new (pre @ s) = pre @ replace_all old new s"
  by (induction pre) (auto simp: replace_all_skip)

text \<open>The template's first word stays the first word when it has no percent sign.\<close>

definition heads :: "string \<Rightarrow> string \<Rightarrow> bool" where
  "heads pre s \<longleftrightarrow> (\<exists>rest. s = pre @ rest \<and> (rest = [] \<or> is_space (hd rest)))"

lemma heads_replace:
  assumes h: "heads pre s" and p: "CHR ''%'' \<notin> set pre"
  shows "heads pre (replace_all (CHR ''%'' # old) new s)"
proof -
  obtain rest where r: "s = pre @ rest" "rest = [] \<or> is_space (hd rest)" using h by (auto simp: heads_def)
  have "replace_all (CHR ''%'' # old) new s = pre @ replace_all (CHR ''%'' # old) new rest"
    using replace_all_keeps [of "CHR ''%'' # old" pre new rest] p r(1) by simp
  moreover have "replace_all (CHR ''%'' # old) new rest = [] \<or> is_space (hd (replace_all (CHR ''%'' # old) new rest))"
  proof (cases rest)
    case Nil
    then show ?thesis by (simp add: replace_all_Nil)
  next
    case (Cons x xs)
    then have "is_space x" using r(2) by simp
    then have "x \<noteq> CHR ''%''" by (auto simp: is_space_def)
    then show ?thesis using Cons \<open>is_space x\<close> by (simp add: replace_all_skip)
  qed
  ultimately show ?thesis by (auto simp: heads_def)
qed

lemma heads_expand: "heads pre tpl \<Longrightarrow> CHR ''%'' \<notin> set pre \<Longrightarrow> heads pre (expand_exec tpl input out sz)"
  by (simp add: expand_exec_def Let_def heads_replace)

lemma fields_acc_head:
  "fields_acc acc s = f # fs \<Longrightarrow> (acc = [] \<longrightarrow> (\<exists>sp. list_all is_space sp \<and> heads (sp @ f) s))
     \<and> (acc \<noteq> [] \<longrightarrow> (\<exists>w. f = rev acc @ w \<and> heads w s))"
proof (induction s arbitrary: acc)
  case Nil
  then show ?case by (auto simp: heads_def split: if_splits)
next
  case (Cons x xs)
  show ?case
  proof (cases "is_space x")
    case sp: True
    show ?thesis
    proof (cases "acc = []")
      case True
      then have "fields_acc [] xs = f # fs" using Cons.prems sp by simp
      then obtain w where w: "list_all is_space w" "heads (w @ f) xs" using Cons.IH [of "[]"] by auto
      then have "list_all is_space (x # w)" "heads ((x # w) @ f) (x # xs)" using sp by (auto simp: heads_def)
      then show ?thesis using True by blast
    next
      case False
      then have "f = rev acc" using Cons.prems sp by simp
      then show ?thesis using False sp by (auto simp: heads_def)
    qed
  next
    case False
    then have "fields_acc (x # acc) xs = f # fs" using Cons.prems by simp
    then obtain w where w: "f = rev (x # acc) @ w" "heads w xs" using Cons.IH [of "x # acc"] by auto
    have "heads (x # w) (x # xs)" using w(2) by (auto simp: heads_def)
    then show ?thesis using w(1) by (auto intro!: exI [of _ "x # w"] exI [of _ "[]"])
  qed
qed

lemma fields_of_heads:
  assumes "heads (sp @ f) s" and "list_all is_space sp" and "f \<noteq> []" and "\<forall>c\<in>set f. \<not> is_space c"
  shows "\<exists>fs. fields_of s = f # fs"
proof -
  obtain rest where r: "s = sp @ f @ rest" "rest = [] \<or> is_space (hd rest)"
    using assms(1) by (auto simp: heads_def)
  have "fields_acc [] (sp @ t) = fields_acc [] t" for t
    using assms(2) by (induction sp) auto
  then have "fields_of s = fields_of (f @ rest)" by (simp add: fields_of_def r(1))
  also have "\<exists>fs. fields_of (f @ rest) = f # fs"
    using r(2) assms(3,4) fields_of_word_space [of f] fields_of_word [of f] by (cases rest) auto
  finally show ?thesis .
qed

lemma not_space_percent: "\<not> is_space (CHR ''%'')"
  by (simp add: is_space_def)

lemma spaces_no_percent: "list_all is_space s \<Longrightarrow> CHR ''%'' \<notin> set s"
  using not_space_percent by (induction s) auto

lemma expand_first_word:
  assumes "fields_of tpl = f # fs" and "CHR ''%'' \<notin> set f"
  shows "\<exists>gs. fields_of (expand_exec tpl input out sz) = f # gs"
proof -
  obtain sp where sp: "list_all is_space sp" "heads (sp @ f) tpl"
    using fields_acc_head [of "[]" tpl f fs] assms(1) by (auto simp: fields_of_def)
  have "CHR ''%'' \<notin> set sp" using sp(1) by (rule spaces_no_percent)
  then have "heads (sp @ f) (expand_exec tpl input out sz)"
    using heads_expand [OF sp(2)] assms(2) by simp
  moreover have "f \<noteq> [] \<and> (\<forall>c\<in>set f. \<not> is_space c)"
    using fields_of_parts [of f tpl] assms(1) by simp
  ultimately show ?thesis using fields_of_heads sp(1) by blast
qed

lemma expand_blank:
  assumes "fields_of tpl = []"
  shows "fields_of (expand_exec tpl input out sz) = []"
proof -
  have "fields_acc acc s = [] \<Longrightarrow> acc = [] \<and> list_all is_space s" for acc s
    by (induction s arbitrary: acc) (auto split: if_splits)
  then have b: "list_all is_space tpl" using assms by (simp add: fields_of_def)
  then have np: "CHR ''%'' \<notin> set tpl" by (rule spaces_no_percent)
  have "replace_all (CHR ''%'' # x) new tpl = tpl" for x new
    using replace_all_keeps [of "CHR ''%'' # x" tpl new "[]"] np by (simp add: replace_all_Nil)
  then show ?thesis using assms by (simp add: expand_exec_def Let_def)
qed

lemma path_base_ne: "path_base p \<noteq> []"
  by (simp add: path_base_def Let_def)

lemma ForExt_in:
  assumes "ForExt mime r ext \<noteq> []"
  shows "\<exists>m. r = Some m \<and> ForExt mime r ext \<in> snd ` set m"
proof -
  obtain m e where "r = Some m" "map_of m (strip_params (mime ext)) = Some e" "ForExt mime r ext = e"
    using assms by (auto simp: ForExt_def Let_def split: option.splits if_splits)
  then show ?thesis by (force dest: map_of_SomeD)
qed

lemma Generate_argv:
  assumes "Generate w r ext input sz = (res, Some argv)"
  shows "\<exists>out. fields_of (expand_exec (ForExt (gw_mime w) r ext) input out sz) = argv \<and> argv \<noteq> []"
  using assms unfolding Generate_def Let_def
  by (cases "gw_tmp w"; cases "fields_of (expand_exec (ForExt (gw_mime w) r ext) input (the (gw_tmp w)) sz)")
     (auto split: if_splits option.splits intro: exI [of _ "the (gw_tmp w)"])

text \<open>
  Whenever \<open>Generate\<close> starts a process, its executable's name is among \<open>ProcessNames\<close>, provided the
  template's first word holds no substitution.
\<close>

lemma Generate_runs_registered:
  assumes g: "Generate w r ext input sz = (res, Some argv)"
    and first: "\<forall>f\<in>set (take 1 (fields_of (ForExt (gw_mime w) r ext))). CHR ''%'' \<notin> set f"
  shows "path_base (hd argv) \<in> set (ProcessNames r)"
proof -
  let ?t = "ForExt (gw_mime w) r ext"
  have t: "?t \<noteq> []" using g by (auto simp: Generate_def Let_def)
  obtain out where argv: "fields_of (expand_exec ?t input out sz) = argv" "argv \<noteq> []"
    using Generate_argv [OF g] by blast
  then have out: "fields_of (expand_exec ?t input out sz) \<noteq> []" "hd (fields_of (expand_exec ?t input out sz)) = hd argv"
    by simp_all
  obtain f fs where f: "fields_of ?t = f # fs" using out(1) expand_blank by (cases "fields_of ?t") auto
  have "hd argv = f" using expand_first_word [OF f, of input out sz] first f out(2) by auto
  then have e: "execBasename ?t = path_base (hd argv)" using f by (simp add: execBasename_def)
  obtain m where m: "r = Some m" "?t \<in> snd ` set m" using ForExt_in [OF t] by blast
  have "execBasename ?t \<in> execBasename ` (snd ` set m)" using m(2) by (rule imageI)
  then have "execBasename ?t \<in> execBasename ` (snd ` set m) - {[]}" using e path_base_ne by simp
  then show ?thesis using m(1) e ProcessNames_set by simp
qed

definition demo_registry :: registry where
  "demo_registry = [(''video/mp4'', ''/usr/bin/thumb -s %s %i %o'')]"

definition demo_generate :: generate_world where
  "demo_generate = \<lparr>gw_mime = \<lambda>e. ''video/mp4; q=1'', gw_tmp = Some ''/tmp/o.png'', gw_run = \<lambda>_. None, gw_out = \<lambda>_. Some ''PNG''\<rparr>"

lemma demo_ForExt: "ForExt (gw_mime demo_generate) (Some demo_registry) ''.mp4'' = ''/usr/bin/thumb -s %s %i %o''"
  by (simp add: ForExt_def demo_generate_def demo_registry_def strip_params_def trim_space_def is_space_def)

lemma demo_run:
  "\<exists>gs. Generate demo_generate (Some demo_registry) ''.mp4'' ''/tmp/i.mp4'' 256 = (Inr ''PNG'', Some (''/usr/bin/thumb'' # gs))
     \<and> fields_of ''/usr/bin/thumb -s %s %i %o'' = ''/usr/bin/thumb'' # fields_of ''-s %s %i %o''"
proof -
  have t: "''/usr/bin/thumb -s %s %i %o'' = ''/usr/bin/thumb'' @ CHR '' '' # ''-s %s %i %o''" by simp
  have f: "fields_of ''/usr/bin/thumb -s %s %i %o'' = ''/usr/bin/thumb'' # fields_of ''-s %s %i %o''"
    unfolding t by (rule fields_of_word_space) (simp_all add: is_space_def)
  have nop: "CHR ''%'' \<notin> set ''/usr/bin/thumb''" by simp
  obtain gs where gs: "fields_of (expand_exec ''/usr/bin/thumb -s %s %i %o'' ''/tmp/i.mp4'' ''/tmp/o.png'' 256) = ''/usr/bin/thumb'' # gs"
    using expand_first_word [OF f nop] by blast
  have "Generate demo_generate (Some demo_registry) ''.mp4'' ''/tmp/i.mp4'' 256 = (Inr ''PNG'', Some (''/usr/bin/thumb'' # gs))"
    unfolding Generate_def demo_ForExt Let_def by (simp add: demo_generate_def gs)
  then show ?thesis using f by blast
qed

text \<open>
  The template's meaning: each code stands for its value and everything else for itself. The five
  replacements in a row agree with it when the paths hold no percent sign and the template none of its
  own (\<open>%%\<close>).
\<close>

datatype exec_token = Lit char | Code char

fun render_token :: "exec_token \<Rightarrow> string" where
  "render_token (Lit c) = [c]"
| "render_token (Code c) = [CHR ''%'', c]"

fun token_ok :: "exec_token \<Rightarrow> bool" where
  "token_ok (Lit c) \<longleftrightarrow> c \<noteq> CHR ''%''"
| "token_ok (Code c) \<longleftrightarrow> c \<noteq> CHR ''%''"

fun token_value :: "string \<Rightarrow> string \<Rightarrow> int \<Rightarrow> exec_token \<Rightarrow> string" where
  "token_value input out sz (Lit c) = [c]"
| "token_value input out sz (Code c) =
     (if c = CHR ''i'' then input else if c = CHR ''o'' then out else if c = CHR ''s'' then itoa sz
      else if c = CHR ''u'' then ''file://'' @ input else [CHR ''%'', c])"

abbreviation render_exec :: "exec_token list \<Rightarrow> string" where
  "render_exec ts \<equiv> concat (map render_token ts)"

fun put_token :: "char \<Rightarrow> string \<Rightarrow> exec_token \<Rightarrow> exec_token list" where
  "put_token x new (Lit c) = [Lit c]"
| "put_token x new (Code c) = (if c = x then map Lit new else [Code c])"

abbreviation put_tokens :: "char \<Rightarrow> string \<Rightarrow> exec_token list \<Rightarrow> exec_token list" where
  "put_tokens x new ts \<equiv> concat (map (put_token x new) ts)"

lemma render_Lits: "render_exec (map Lit s) = s" "concat (map (render_token \<circ> Lit) s) = s"
  by (induction s) auto

lemma replace_code:
  "list_all token_ok ts \<Longrightarrow> replace_all [CHR ''%'', x] new (render_exec ts) = render_exec (put_tokens x new ts)"
proof (induction ts)
  case Nil
  then show ?case by (simp add: replace_all_Nil)
next
  case (Cons t ts)
  show ?case
  proof (cases t)
    case (Lit c)
    then show ?thesis using Cons by (simp add: replace_all_skip)
  next
    case (Code c)
    show ?thesis
    proof (cases "c = x")
      case True
      then show ?thesis using Cons Code replace_all_hit [of "[CHR ''%'', x]" new "render_exec ts"]
        by (simp add: render_Lits)
    next
      case False
      then show ?thesis using Cons Code by (simp add: replace_all_skip replace_all_miss)
    qed
  qed
qed

lemma replace_percent: "list_all token_ok ts \<Longrightarrow> replace_all ''%%'' new (render_exec ts) = render_exec ts"
proof (induction ts)
  case Nil
  then show ?case by (simp add: replace_all_Nil)
next
  case (Cons t ts)
  then show ?case by (cases t) (auto simp: replace_all_skip replace_all_miss dest: not_sym)
qed

lemma put_tokens_ok:
  "list_all token_ok ts \<Longrightarrow> CHR ''%'' \<notin> set new \<Longrightarrow> list_all token_ok (put_tokens x new ts)"
proof (induction ts)
  case (Cons t ts)
  then show ?case by (cases t) (auto simp: list_all_iff)
qed simp

lemma put_Lits: "put_tokens x new (map Lit s) = map Lit s" "concat (map (put_token x new \<circ> Lit) s) = map Lit s"
  by (induction s) auto

lemma itoa_no_percent: "CHR ''%'' \<notin> set (itoa i)"
proof -
  have "CHR ''%'' \<notin> set (nat_digits n)" for n using nat_digits_chars [of "CHR ''%''" n] by auto
  then show ?thesis by (simp add: itoa_def)
qed

lemma four_puts:
  "render_exec (put_tokens (CHR ''u'') (''file://'' @ input) (put_tokens (CHR ''s'') (itoa sz)
     (put_tokens (CHR ''o'') out (put_tokens (CHR ''i'') input ts)))) = concat (map (token_value input out sz) ts)"
proof (induction ts)
  case (Cons t ts)
  show ?case
  proof (cases t)
    case (Code c)
    have "render_exec (put_tokens (CHR ''u'') (''file://'' @ input) (put_tokens (CHR ''s'') (itoa sz)
       (put_tokens (CHR ''o'') out (put_token (CHR ''i'') input (Code c))))) = token_value input out sz (Code c)"
      by (auto simp: put_Lits render_Lits)
    then show ?thesis using Cons Code by simp
  qed (use Cons in simp)
qed simp

text \<open>Without a percent sign in the two paths, and in a template without \<open>%%\<close>, the command line is the template
  with every code replaced by its value at once: no value is scanned for codes again.
\<close>

theorem expand_exec_exact:
  assumes "list_all token_ok ts" and "CHR ''%'' \<notin> set input" and "CHR ''%'' \<notin> set out"
  shows "expand_exec (render_exec ts) input out sz = concat (map (token_value input out sz) ts)"
proof -
  have ok1: "list_all token_ok (put_tokens (CHR ''i'') input ts)" by (rule put_tokens_ok [OF assms(1,2)])
  have ok2: "list_all token_ok (put_tokens (CHR ''o'') out (put_tokens (CHR ''i'') input ts))"
    by (rule put_tokens_ok [OF ok1 assms(3)])
  have ok3: "list_all token_ok (put_tokens (CHR ''s'') (itoa sz) (put_tokens (CHR ''o'') out (put_tokens (CHR ''i'') input ts)))"
    by (rule put_tokens_ok [OF ok2 itoa_no_percent])
  have f: "CHR ''%'' \<notin> set (''file://'' @ input)" using assms(2) by simp
  show ?thesis
    unfolding expand_exec_def Let_def replace_code [OF assms(1)] replace_code [OF ok1] replace_code [OF ok2]
      replace_code [OF ok3] replace_percent [OF put_tokens_ok [OF ok3 f]]
    by (rule four_puts)
qed

theorem expand_exec_exact_witness:
  "expand_exec ''a %i'' ''/x'' ''/y'' 256 = ''a /x''"
  using expand_exec_exact [of "[Lit (CHR ''a''), Lit (CHR '' ''), Code (CHR ''i'')]" "''/x''" "''/y''" 256] by simp

text \<open>An escaped percent sign before a code letter is not literal: \<open>%i\<close> is replaced before \<open>%%\<close>.\<close>

lemma percent_escape_replaced: "expand_exec ''%%i'' ''/x'' ''/y'' 256 = ''%/x''"
proof -
  have a: "replace_all ''%i'' ''/x'' ''%%i'' = ''%/x''"
    using replace_all_hit [of "''%i''" "''/x''" "[]"]
    by (subst replace_all_miss) (simp_all add: replace_all_Nil)
  have "replace_all [CHR ''%'', c] new ''%/x'' = ''%/x''" if "c \<noteq> CHR ''/''" for c new
    using that by (simp add: replace_all_miss replace_all_skip replace_all_Nil)
  then show ?thesis by (simp add: expand_exec_def a Let_def)
qed

end
