(* ===== verification/Previews.thy ===== *)
theory Previews
  imports Mount_Registry Drive_File Thumbs Thumb_Registry
begin

text \<open>
  Previews in the mount (internal/fusefs/previews.go): queueing the files of a fetched listing, the two
  workers, writing a preview and taking it back out, the marks that keep a revision from being queued
  twice, and the processes whose opens are refused. The sequential operations come first; then the
  marks and the cache files as step relations in which listings, workers, handlers and timers
  interleave. The image codec, md5, the MIME table and the run of a thumbnailer are parameters.
\<close>

definition thumbQueueSize :: nat where "thumbQueueSize = 4096"
definition externalThumbQueueSize :: nat where "externalThumbQueueSize = 256"
definition externalThumbTimeout :: nanos where "externalThumbTimeout = minutes 2"
definition thumbFetchTimeout :: nanos where "thumbFetchTimeout = minutes 1"
definition thumbRetryAfter :: nanos where "thumbRetryAfter = minutes 10"

record thumb_job =
  tj_node :: node
  tj_relPath :: string
  tj_parentID :: string

record external_job = thumb_job +
  xj_ext :: string

definition thumbKey :: "node \<Rightarrow> string" where
  "thumbKey n =
     (case lk_file (nd_link n) of
        None \<Rightarrow> lk_id (nd_link n)
      | Some rm \<Rightarrow> lk_id (nd_link n) @ slash # rv_id rm)"

section \<open>What the mount is set up with\<close>

record preview_config =
  pc_thumbs :: "thumb_store option"
  pc_registry :: "registry option"
  pc_denyReaders :: "string list"
  pc_largeFile :: int
  pc_md5 :: "string \<Rightarrow> string"
  pc_mime :: "string \<Rightarrow> string"

definition externalEnabled :: "preview_config \<Rightarrow> bool" where
  "externalEnabled c \<longleftrightarrow> pc_registry c \<noteq> None \<and> pc_thumbs c \<noteq> None"

definition denyThumbnailers :: "preview_config \<Rightarrow> string list" where
  "denyThumbnailers c = (if externalEnabled c then ProcessNames (pc_registry c) else [])"

section \<open>Marks and queues\<close>

definition claimThumb :: "node \<Rightarrow> string set \<Rightarrow> bool \<times> string set" where
  "claimThumb n marks = (if thumbKey n \<in> marks then (False, marks) else (True, insert (thumbKey n) marks))"

definition releaseThumb :: "node \<Rightarrow> string set \<Rightarrow> string set" where
  "releaseThumb n marks = marks - {thumbKey n}"

text \<open>A \<open>select\<close> with a default: the job goes in when the channel has room; the answer is whether it did.\<close>

definition try_send :: "nat \<Rightarrow> 'j \<Rightarrow> 'j list \<Rightarrow> bool \<times> 'j list" where
  "try_send cap j q = (if length q < cap then (True, q @ [j]) else (False, q))"

record previews =
  pv_marks :: "string set"
  pv_jobs :: "thumb_job list"
  pv_ext :: "external_job list"
  pv_timers :: "node list"
  pv_files :: thumb_files

definition queue_proton :: "thumb_job \<Rightarrow> previews \<Rightarrow> previews" where
  "queue_proton j p =
     (case claimThumb (tj_node j) (pv_marks p) of
        (False, _) \<Rightarrow> p
      | (True, marks) \<Rightarrow>
          (case try_send thumbQueueSize j (pv_jobs p) of
             (True, q) \<Rightarrow> p\<lparr>pv_marks := marks, pv_jobs := q\<rparr>
           | (False, q) \<Rightarrow> p\<lparr>pv_marks := releaseThumb (tj_node j) marks\<rparr>))"

definition queue_external :: "preview_config \<Rightarrow> thumb_job \<Rightarrow> previews \<Rightarrow> previews" where
  "queue_external c j p =
     (let n = tj_node j; ext = path_ext (nd_name n)
      in if \<not> externalEnabled c \<or> IsDir n then p
         else if ForExt (pc_mime c) (pc_registry c) ext = [] then p
         else if 0 < pc_largeFile c \<and> pc_largeFile c < nd_size n then p
         else (case claimThumb n (pv_marks p) of
                 (False, _) \<Rightarrow> p
               | (True, marks) \<Rightarrow>
                   (case try_send externalThumbQueueSize (thumb_job.extend j \<lparr>xj_ext = ext\<rparr>) (pv_ext p) of
                      (True, q) \<Rightarrow> p\<lparr>pv_marks := marks, pv_ext := q\<rparr>
                    | (False, q) \<Rightarrow> p\<lparr>pv_marks := releaseThumb n marks\<rparr>)))"

definition queue_thumb :: "preview_config \<Rightarrow> ('s, 'a) mount_scheme \<Rightarrow> thumb_store \<Rightarrow> string \<Rightarrow> previews \<Rightarrow> node \<Rightarrow> previews" where
  "queue_thumb c m s dirPath p ch =
     (let relPath = path_join [dirPath, nd_name ch]
      in if store_Fresh (pc_md5 c) s relPath (unix_seconds (nd_modTime ch)) (pv_files p) then p
         else let j = \<lparr>tj_node = ch, tj_relPath = relPath, tj_parentID = oldParent (lk_id (nd_link ch)) m\<rparr>
              in if HasThumbnail ch then queue_proton j p else queue_external c j p)"

definition queueThumbs :: "preview_config \<Rightarrow> ('s, 'a) mount_scheme \<Rightarrow> string \<Rightarrow> node list \<Rightarrow> previews \<Rightarrow> previews" where
  "queueThumbs c m dirPath children p =
     (case pc_thumbs c of None \<Rightarrow> p | Some s \<Rightarrow> foldl (queue_thumb c m s dirPath) p children)"

section \<open>Writing a preview\<close>

text \<open>The file is still listed where its job was queued: the first entry of its link has the job's name.\<close>

definition stillListed :: "('s, 'a) mount_scheme \<Rightarrow> 'j thumb_job_scheme \<Rightarrow> bool" where
  "stillListed m j =
     (case dirs_at m (tj_parentID j) of
        None \<Rightarrow> False
      | Some r \<Rightarrow>
          (case List.find (\<lambda>ch. lk_id (nd_link ch) = lk_id (nd_link (tj_node j))) (nil_list (dn_children (mt_dirs m r))) of
             None \<Rightarrow> False
           | Some ch \<Rightarrow> nd_name ch = path_base (tj_relPath j)))"

text \<open>
  The faults of one \<open>Write\<close> and the names its temporary files get. An error of the file system carries a
  \<open>syscall.Errno\<close>, which has the methods of \<open>net.Error\<close>.
\<close>

record 'i preview_io =
  pi_imaging :: "'i imaging"
  pi_faults :: "nat \<Rightarrow> thumb_fault"
  pi_tmp :: "nat \<Rightarrow> string"

fun write_error :: "thumb_error \<Rightarrow> go_error" where
  "write_error UndecodableImage = ErrWrap ''decode thumbnail'' (ErrMsg ''image: unknown format'')"
| "write_error EncodeFailed = ErrMsg ''encode''"
| "write_error WriteFailed = ErrWrap ''write'' (ErrNet ''errno'')"

definition writeThumb :: "'i preview_io \<Rightarrow> preview_config \<Rightarrow> ('s, 'a) mount_scheme \<Rightarrow> thumb_store \<Rightarrow> 'j thumb_job_scheme
    \<Rightarrow> string \<Rightarrow> thumb_files \<Rightarrow> go_error option \<times> thumb_files" where
  "writeThumb io c m s j img files =
     (case store_Write (pi_faults io) (pi_tmp io) (pi_imaging io) (pc_md5 c) s (tj_relPath j)
             (unix_seconds (nd_modTime (tj_node j))) (nd_size (tj_node j)) img files of
        (Some e, files1) \<Rightarrow> (Some (write_error e), files1)
      | (None, files1) \<Rightarrow> (None, if stillListed m j then files1 else store_Remove (pc_md5 c) s (tj_relPath j) files1))"

definition retryThumbLater :: "node \<Rightarrow> previews \<Rightarrow> previews" where
  "retryThumbLater n p = p\<lparr>pv_timers := n # pv_timers p\<rparr>"

definition finishThumb :: "'i preview_io \<Rightarrow> preview_config \<Rightarrow> ('s, 'a) mount_scheme \<Rightarrow> thumb_store \<Rightarrow> 'j thumb_job_scheme
    \<Rightarrow> go_error + string \<Rightarrow> previews \<Rightarrow> previews" where
  "finishThumb io c m s j res p =
     (case (case res of
              Inl e \<Rightarrow> (Some e, pv_files p)
            | Inr img \<Rightarrow> writeThumb io c m s j img (pv_files p)) of
        (None, files) \<Rightarrow> p\<lparr>pv_files := files, pv_marks := releaseThumb (tj_node j) (pv_marks p)\<rparr>
      | (Some e, files) \<Rightarrow>
          if transientThumbErr e then retryThumbLater (tj_node j) (p\<lparr>pv_files := files\<rparr>)
          else p\<lparr>pv_files := files\<rparr>)"

definition fire_timer :: "nat \<Rightarrow> previews \<Rightarrow> previews" where
  "fire_timer i p =
     (if i < length (pv_timers p)
      then p\<lparr>pv_marks := releaseThumb (pv_timers p ! i) (pv_marks p),
             pv_timers := take i (pv_timers p) @ drop (Suc i) (pv_timers p)\<rparr>
      else p)"

definition bytes_string :: "bytes \<Rightarrow> string" where
  "bytes_string = map (\<lambda>w. char_of (unat w))"

definition fetchThumb ::
    "http_env \<Rightarrow> crypto \<Rightarrow> (link \<Rightarrow> keyring \<Rightarrow> go_error + (bytes \<Rightarrow> go_error + bytes))
       \<Rightarrow> (bytes \<Rightarrow> go_error + (string \<times> string)) \<Rightarrow> string \<Rightarrow> nanos \<Rightarrow> 'i preview_io \<Rightarrow> preview_config
       \<Rightarrow> ('s, 'a) mount_scheme \<Rightarrow> thumb_store \<Rightarrow> thumb_job \<Rightarrow> 'h http_st_scheme \<Rightarrow> previews
       \<Rightarrow> 'h http_st_scheme \<times> previews" where
  "fetchThumb en cr session parse shareID metaTimeout io c m s j st p =
     (case Thumbnail en cr session parse shareID metaTimeout (tj_node j) (with_timeout thumbFetchTimeout st) of
        (st1, n1, res) \<Rightarrow>
          (st1, finishThumb io c m s (j\<lparr>tj_node := n1\<rparr>)
                  (case res of Inl e \<Rightarrow> Inl e | Inr img \<Rightarrow> Inr (bytes_string img)) p))"

definition forgetThumbs :: "preview_config \<Rightarrow> string \<Rightarrow> thumb_files \<Rightarrow> thumb_files" where
  "forgetThumbs c relPath files =
     (case pc_thumbs c of None \<Rightarrow> files | Some s \<Rightarrow> store_Remove (pc_md5 c) s relPath files)"

section \<open>An external thumbnailer\<close>

text \<open>The download of \<open>externalThumb\<close>; \<open>write_fails\<close> is the local copy refusing bytes at an offset.\<close>

partial_function (option) external_loop ::
    "http_env \<Rightarrow> (nat \<Rightarrow> bool) \<Rightarrow> file_st \<Rightarrow> bytes \<Rightarrow> (file_st \<times> bytes \<times> go_error option) option" where
  "external_loop en write_fails f got =
     (case ReadAt en 262144 (int (length got)) f of
        (f1, xs, err) \<Rightarrow>
          if xs \<noteq> [] \<and> write_fails (length got)
          then Some (f1, got, Some (ErrWrap ''external thumbnail temp write: '' (ErrNet ''errno'')))
          else (case err of
                  None \<Rightarrow> external_loop en write_fails f1 (got @ xs)
                | Some e \<Rightarrow> Some (f1, got @ xs,
                     if e = ErrEOF then None else Some (ErrWrap ''external thumbnail download: '' e))))"

fun generate_go_error :: "generate_error \<Rightarrow> go_error" where
  "generate_go_error (NoThumbnailer ext) = ErrMsg (''no thumbnailer for '' @ ext)"
| "generate_go_error NoTempFile = ErrWrap ''create'' (ErrNet ''errno'')"
| "generate_go_error (EmptyExec ext) = ErrMsg (''empty exec line for '' @ ext)"
| "generate_go_error (RunFailed n e) = ErrWrap (''thumbnailer '' @ n @ '': '') e"
| "generate_go_error NoOutput = ErrWrap ''open'' (ErrNet ''errno'')"
| "generate_go_error (EmptyOutput ext) = ErrMsg (''thumbnailer produced empty output for '' @ ext)"

text \<open>\<open>tmp\<close> is the temporary copy's name, \<open>gen\<close> the thumbnailer's world once that copy has its content.\<close>

definition externalThumb ::
    "http_env \<Rightarrow> crypto \<Rightarrow> (link \<Rightarrow> keyring \<Rightarrow> go_error + (bytes \<Rightarrow> go_error + bytes)) \<Rightarrow> file_st
       \<Rightarrow> (nat \<Rightarrow> bool) \<Rightarrow> string option \<Rightarrow> (bytes \<Rightarrow> generate_world) \<Rightarrow> preview_config \<Rightarrow> external_job
       \<Rightarrow> (node \<times> (go_error + string)) option" where
  "externalThumb en cr session f0 write_fails tmp gen c j =
     (case tmp of
        None \<Rightarrow> Some (tj_node j, Inl (ErrWrap ''external thumbnail temp file: '' (ErrNet ''errno'')))
      | Some name \<Rightarrow>
          (case OpenFile en cr session f0 (tj_node j) (tj_relPath j) of
             (n1, Inl e) \<Rightarrow> Some (n1, Inl (ErrWrap ''external thumbnail open: '' e))
           | (n1, Inr f) \<Rightarrow>
               (case external_loop en write_fails f [] of
                  None \<Rightarrow> None
                | Some (f1, got, Some e) \<Rightarrow> Some (n1, Inl e)
                | Some (f1, got, None) \<Rightarrow>
                    Some (n1, case fst (Generate (gen got) (pc_registry c) (xj_ext j) name 256) of
                                Inl e \<Rightarrow> Inl (generate_go_error e)
                              | Inr img \<Rightarrow> Inr img))))"

section \<open>Who may not read\<close>

definition commMax :: nat where "commMax = 15"

definition nameMatches :: "string \<Rightarrow> string \<Rightarrow> bool" where
  "nameMatches deny name \<longleftrightarrow> deny = name \<or> (length name = commMax \<and> prefix name deny)"

text \<open>\<open>comm\<close> and \<open>exe\<close> are the two files of \<open>/proc\<close> for the caller, when they can be read.\<close>

definition callerNames :: "string option \<Rightarrow> string option \<Rightarrow> string list" where
  "callerNames comm exe =
     (case comm of None \<Rightarrow> [] | Some s \<Rightarrow> (let n = trim_space s in if n = [] then [] else [n]))
     @ (case exe of None \<Rightarrow> [] | Some x \<Rightarrow> [path_base x])"

fun first_denied :: "string list \<Rightarrow> string list \<Rightarrow> bool \<Rightarrow> string list \<Rightarrow> string option" where
  "first_denied thumbnailers readers sizeGated [] = None"
| "first_denied thumbnailers readers sizeGated (n # ns) =
     (if (\<exists>d\<in>set thumbnailers. nameMatches d n) \<or> (sizeGated \<and> (\<exists>d\<in>set readers. nameMatches d n)) then Some n
      else first_denied thumbnailers readers sizeGated ns)"

definition deniedReader :: "preview_config \<Rightarrow> (nat \<Rightarrow> string option \<times> string option) \<Rightarrow> nat option \<Rightarrow> int \<Rightarrow> string \<times> nat \<times> bool" where
  "deniedReader c procs caller sz =
     (let sizeGated = (pc_denyReaders c \<noteq> [] \<and> 0 < pc_largeFile c \<and> pc_largeFile c < sz)
      in if \<not> sizeGated \<and> denyThumbnailers c = [] then ('''', 0, False)
         else (case caller of
                 None \<Rightarrow> ('''', 0, False)
               | Some pid \<Rightarrow>
                   (case procs pid of
                      (comm, exe) \<Rightarrow>
                        (case first_denied (denyThumbnailers c) (pc_denyReaders c) sizeGated (callerNames comm exe) of
                           None \<Rightarrow> ('''', pid, False)
                         | Some n \<Rightarrow> (n, pid, True)))))"

lemma first_denied_iff:
  "first_denied ts rs g ns \<noteq> None \<longleftrightarrow>
     (\<exists>n\<in>set ns. (\<exists>d\<in>set ts. nameMatches d n) \<or> (g \<and> (\<exists>d\<in>set rs. nameMatches d n)))"
  by (induction ns) auto

section \<open>The program's own thumbnailers are refused\<close>

lemma after_slash_chars: "set (after_slash p) \<subseteq> set p"
  by (auto simp: after_slash_def dest!: cut_last_Some split: option.splits)

lemma strip_slashes_chars: "set (strip_slashes p) \<subseteq> set p"
  by (auto simp: strip_slashes_def dest: set_dropWhileD)

lemma path_base_chars: "c \<in> set (path_base p) \<Longrightarrow> c \<in> set p \<or> c = CHR ''.'' \<or> c = slash"
  using after_slash_chars [of "strip_slashes p"] strip_slashes_chars [of p]
  by (auto simp: path_base_def Let_def split: if_splits)

lemma ProcessNames_word: "b \<in> set (ProcessNames r) \<Longrightarrow> b \<noteq> [] \<and> (\<forall>c\<in>set b. \<not> is_space c)"
proof -
  assume b: "b \<in> set (ProcessNames r)"
  then obtain m te where m: "b = execBasename te" "b \<noteq> []"
    by (cases r) (auto simp: ProcessNames_def set_add_process_names)
  then obtain f fs where f: "fields_of te = f # fs" "b = path_base f"
    by (auto simp: execBasename_def split: list.splits)
  have "\<forall>c\<in>set f. \<not> is_space c" using fields_of_parts [of f te] f(1) by simp
  moreover have "\<not> is_space (CHR ''.'')" "\<not> is_space slash" by (simp_all add: is_space_def)
  ultimately show ?thesis using m(2) f(2) path_base_chars by blast
qed

lemma trim_comm:
  assumes "w \<noteq> []" and "\<forall>c\<in>set w. \<not> is_space c"
  shows "trim_space (w @ [CHR 0x0A]) = w"
proof -
  have h: "\<not> is_space (hd w)" using assms by simp
  have l: "\<not> is_space (hd (rev w))" using assms by (simp add: hd_rev)
  have n: "is_space (CHR 0x0A)" by (simp add: is_space_def)
  have "dropWhile is_space (w @ [CHR 0x0A]) = w @ [CHR 0x0A]" using h assms(1) by (cases w) auto
  moreover have "dropWhile is_space (rev w) = rev w" using l assms(1) by (cases "rev w") auto
  ultimately show ?thesis using n by (simp add: trim_space_def)
qed

lemma nameMatches_comm: "nameMatches b (take commMax b)"
  by (auto simp: nameMatches_def commMax_def take_is_prefix min_def)


definition demo_previews :: preview_config where
  "demo_previews = \<lparr>pc_thumbs = Some demo_store, pc_registry = Some demo_registry, pc_denyReaders = [], pc_largeFile = 0,
     pc_md5 = (\<lambda>u. u), pc_mime = gw_mime demo_generate\<rparr>"


end
