(* ===== verification/Preview_Steps.thy ===== *)
theory Preview_Steps
  imports Previews "HOL-Library.Multiset"
begin

text \<open>
  The previews of a mount under concurrency: first the marks (\<open>thumbInflight\<close>) with any number of
  listings being queued, the two workers and the retry timers; then the cache files of one folder with
  any number of writers, handlers patching the listing, fetches publishing a new one, and the removals
  of \<open>forgetThumbs\<close>. A step is what the code does under one lock or in one file system call.
\<close>

section \<open>No revision twice\<close>

text \<open>
  \<open>cr_hold\<close> and \<open>cr_holdx\<close> are the jobs of goroutines between the claim and the send, \<open>cr_work\<close> and
  \<open>cr_workx\<close> what the two workers are on; \<open>cr_given\<close> remembers the revisions given up for good.
  The listings at the moment a job settles are any; where they are stored does not matter to it.
\<close>

record claim_run =
  cr_p :: previews
  cr_hold :: "thumb_job list"
  cr_holdx :: "external_job list"
  cr_work :: "thumb_job option"
  cr_workx :: "external_job option"
  cr_given :: "string set"

abbreviation job_key :: "'j thumb_job_scheme \<Rightarrow> string" where
  "job_key j \<equiv> thumbKey (tj_node j)"

definition live_keys :: "claim_run \<Rightarrow> string list" where
  "live_keys s =
     map job_key (cr_hold s) @ map job_key (cr_holdx s) @ map job_key (pv_jobs (cr_p s)) @ map job_key (pv_ext (cr_p s))
     @ (case cr_work s of None \<Rightarrow> [] | Some j \<Rightarrow> [job_key j]) @ (case cr_workx s of None \<Rightarrow> [] | Some j \<Rightarrow> [job_key j])
     @ map thumbKey (pv_timers (cr_p s))"

definition still_given :: "node \<Rightarrow> previews \<Rightarrow> previews \<Rightarrow> string set" where
  "still_given n p p' = (if thumbKey n \<in> pv_marks p' \<and> pv_timers p' = pv_timers p then {thumbKey n} else {})"

inductive claim_step :: "'i preview_io \<Rightarrow> preview_config \<Rightarrow> thumb_store \<Rightarrow> claim_run \<Rightarrow> claim_run \<Rightarrow> bool" for io c st where
  claim: "claimThumb (tj_node j) (pv_marks p) = (True, marks) \<Longrightarrow>
    claim_step io c st \<lparr>cr_p = p, cr_hold = h, cr_holdx = hx, cr_work = w, cr_workx = wx, cr_given = g\<rparr>
      \<lparr>cr_p = p\<lparr>pv_marks := marks\<rparr>, cr_hold = j # h, cr_holdx = hx, cr_work = w, cr_workx = wx, cr_given = g\<rparr>"
| claimx: "claimThumb (tj_node j) (pv_marks p) = (True, marks) \<Longrightarrow>
    claim_step io c st \<lparr>cr_p = p, cr_hold = h, cr_holdx = hx, cr_work = w, cr_workx = wx, cr_given = g\<rparr>
      \<lparr>cr_p = p\<lparr>pv_marks := marks\<rparr>, cr_hold = h, cr_holdx = j # hx, cr_work = w, cr_workx = wx, cr_given = g\<rparr>"
| send: "try_send thumbQueueSize j (pv_jobs p) = (ok, q) \<Longrightarrow>
    claim_step io c st \<lparr>cr_p = p, cr_hold = h @ j # h', cr_holdx = hx, cr_work = w, cr_workx = wx, cr_given = g\<rparr>
      \<lparr>cr_p = p\<lparr>pv_jobs := q, pv_marks := if ok then pv_marks p else releaseThumb (tj_node j) (pv_marks p)\<rparr>,
       cr_hold = h @ h', cr_holdx = hx, cr_work = w, cr_workx = wx, cr_given = g\<rparr>"
| sendx: "try_send externalThumbQueueSize j (pv_ext p) = (ok, q) \<Longrightarrow>
    claim_step io c st \<lparr>cr_p = p, cr_hold = h, cr_holdx = hx @ j # hx', cr_work = w, cr_workx = wx, cr_given = g\<rparr>
      \<lparr>cr_p = p\<lparr>pv_ext := q, pv_marks := if ok then pv_marks p else releaseThumb (tj_node j) (pv_marks p)\<rparr>,
       cr_hold = h, cr_holdx = hx @ hx', cr_work = w, cr_workx = wx, cr_given = g\<rparr>"
| receive: "pv_jobs p = j # q \<Longrightarrow>
    claim_step io c st \<lparr>cr_p = p, cr_hold = h, cr_holdx = hx, cr_work = None, cr_workx = wx, cr_given = g\<rparr>
      \<lparr>cr_p = p\<lparr>pv_jobs := q\<rparr>, cr_hold = h, cr_holdx = hx, cr_work = Some j, cr_workx = wx, cr_given = g\<rparr>"
| receivex: "pv_ext p = j # q \<Longrightarrow>
    claim_step io c st \<lparr>cr_p = p, cr_hold = h, cr_holdx = hx, cr_work = w, cr_workx = None, cr_given = g\<rparr>
      \<lparr>cr_p = p\<lparr>pv_ext := q\<rparr>, cr_hold = h, cr_holdx = hx, cr_work = w, cr_workx = Some j, cr_given = g\<rparr>"
| settled: "thumbKey n = job_key j \<Longrightarrow> p' = finishThumb io c (m :: unit mount) st (j\<lparr>tj_node := n\<rparr>) res p \<Longrightarrow>
    claim_step io c st \<lparr>cr_p = p, cr_hold = h, cr_holdx = hx, cr_work = Some j, cr_workx = wx, cr_given = g\<rparr>
      \<lparr>cr_p = p', cr_hold = h, cr_holdx = hx, cr_work = None, cr_workx = wx, cr_given = g \<union> still_given n p p'\<rparr>"
| settledx: "thumbKey n = job_key j \<Longrightarrow> p' = finishThumb io c (m :: unit mount) st (j\<lparr>tj_node := n\<rparr>) res p \<Longrightarrow>
    claim_step io c st \<lparr>cr_p = p, cr_hold = h, cr_holdx = hx, cr_work = w, cr_workx = Some j, cr_given = g\<rparr>
      \<lparr>cr_p = p', cr_hold = h, cr_holdx = hx, cr_work = w, cr_workx = None, cr_given = g \<union> still_given n p p'\<rparr>"
| fired: "i < length (pv_timers p) \<Longrightarrow>
    claim_step io c st \<lparr>cr_p = p, cr_hold = h, cr_holdx = hx, cr_work = w, cr_workx = wx, cr_given = g\<rparr>
      \<lparr>cr_p = fire_timer i p, cr_hold = h, cr_holdx = hx, cr_work = w, cr_workx = wx, cr_given = g\<rparr>"

definition claims_start :: "thumb_files \<Rightarrow> claim_run" where
  "claims_start files = \<lparr>cr_p = \<lparr>pv_marks = {}, pv_jobs = [], pv_ext = [], pv_timers = [], pv_files = files\<rparr>,
     cr_hold = [], cr_holdx = [], cr_work = None, cr_workx = None, cr_given = {}\<rparr>"

definition claims_inv :: "claim_run \<Rightarrow> bool" where
  "claims_inv s \<longleftrightarrow> distinct (live_keys s) \<and> pv_marks (cr_p s) = set (live_keys s) \<union> cr_given s
     \<and> set (live_keys s) \<inter> cr_given s = {}
     \<and> length (pv_jobs (cr_p s)) \<le> thumbQueueSize \<and> length (pv_ext (cr_p s)) \<le> externalThumbQueueSize"

lemma claimThumb_True: "claimThumb n marks = (True, marks') \<longleftrightarrow> thumbKey n \<notin> marks \<and> marks' = insert (thumbKey n) marks"
  by (auto simp: claimThumb_def split: if_splits)

lemma try_send_cases:
  "try_send cap j q = (ok, q') \<Longrightarrow> length q \<le> cap \<Longrightarrow> (ok \<longrightarrow> q' = q @ [j]) \<and> (\<not> ok \<longrightarrow> q' = q) \<and> length q' \<le> cap"
  by (auto simp: try_send_def split: if_splits)

text \<open>The three ends of a job: released, set on a timer, or marked for good.\<close>

lemma finishThumb_cases:
  assumes "p' = finishThumb io c m st j res p"
  shows "pv_jobs p' = pv_jobs p \<and> pv_ext p' = pv_ext p \<and>
     ((pv_marks p' = pv_marks p - {job_key j} \<and> pv_timers p' = pv_timers p)
      \<or> (pv_marks p' = pv_marks p \<and> pv_timers p' = tj_node j # pv_timers p)
      \<or> (pv_marks p' = pv_marks p \<and> pv_timers p' = pv_timers p))"
  using assms
  by (auto simp: finishThumb_def retryThumbLater_def releaseThumb_def split: sum.splits option.splits prod.splits if_splits)

text \<open>What a step may do to the live revisions: move one, add one, release one, give one up.\<close>

lemma inv_bounds:
  "claims_inv s \<Longrightarrow> length (pv_jobs (cr_p s)) \<le> thumbQueueSize" "claims_inv s \<Longrightarrow> length (pv_ext (cr_p s)) \<le> externalThumbQueueSize"
  by (simp_all add: claims_inv_def)

lemma mset_live_facts:
  "mset (live_keys s) = add_mset k (mset (live_keys s')) \<Longrightarrow> distinct (live_keys s) \<Longrightarrow>
     distinct (live_keys s') \<and> k \<notin> set (live_keys s') \<and> set (live_keys s) = insert k (set (live_keys s'))"
proof -
  assume m: "mset (live_keys s) = add_mset k (mset (live_keys s'))" and d: "distinct (live_keys s)"
  have "mset (live_keys s) = mset (k # live_keys s')" using m by simp
  then have "distinct (k # live_keys s')" "set (live_keys s) = set (k # live_keys s')"
    using d mset_eq_imp_distinct_iff mset_eq_setD by blast+
  then show ?thesis by simp
qed

lemma claims_move:
  assumes "claims_inv s" and m: "mset (live_keys s') = mset (live_keys s)"
    and "pv_marks (cr_p s') = pv_marks (cr_p s)" and "cr_given s' = cr_given s"
    and "length (pv_jobs (cr_p s')) \<le> thumbQueueSize" and "length (pv_ext (cr_p s')) \<le> externalThumbQueueSize"
  shows "claims_inv s'"
  using assms mset_eq_setD [OF m] mset_eq_imp_distinct_iff [OF m] by (simp add: claims_inv_def)

lemma claims_add:
  assumes "claims_inv s" and "mset (live_keys s') = add_mset k (mset (live_keys s))" and "k \<notin> pv_marks (cr_p s)"
    and "pv_marks (cr_p s') = insert k (pv_marks (cr_p s))" and "cr_given s' = cr_given s"
    and "pv_jobs (cr_p s') = pv_jobs (cr_p s)" and "pv_ext (cr_p s') = pv_ext (cr_p s)"
  shows "claims_inv s'"
proof -
  have m: "mset (live_keys s') = mset (k # live_keys s)" using assms(2) by simp
  show ?thesis using assms mset_eq_setD [OF m] mset_eq_imp_distinct_iff [OF m] by (auto simp: claims_inv_def)
qed

lemma claims_release:
  assumes i: "claims_inv s" and m: "mset (live_keys s) = add_mset k (mset (live_keys s'))"
    and mk: "pv_marks (cr_p s') = pv_marks (cr_p s) - {k}" and g: "cr_given s' = cr_given s"
    and "length (pv_jobs (cr_p s')) \<le> thumbQueueSize" and "length (pv_ext (cr_p s')) \<le> externalThumbQueueSize"
  shows "claims_inv s'"
proof -
  have "distinct (live_keys s)" using i by (simp add: claims_inv_def)
  note f = mset_live_facts [OF m this]
  have k: "k \<in> set (live_keys s)" "k \<notin> cr_given s" using i f by (auto simp: claims_inv_def)
  show ?thesis using i f k(2) assms(5,6) unfolding claims_inv_def mk g by auto
qed

lemma claims_give:
  assumes i: "claims_inv s" and m: "mset (live_keys s) = add_mset k (mset (live_keys s'))"
    and mk: "pv_marks (cr_p s') = pv_marks (cr_p s)" and g: "cr_given s' = insert k (cr_given s)"
    and "pv_jobs (cr_p s') = pv_jobs (cr_p s)" and "pv_ext (cr_p s') = pv_ext (cr_p s)"
  shows "claims_inv s'"
proof -
  have "distinct (live_keys s)" using i by (simp add: claims_inv_def)
  note f = mset_live_facts [OF m this]
  show ?thesis using i f assms(5,6) unfolding claims_inv_def mk g by auto
qed

text \<open>A worker's job leaving: \<open>s1\<close> is the state without it.\<close>

lemma claims_settle:
  assumes i: "claims_inv s" and m: "mset (live_keys s) = add_mset (job_key j) (mset (live_keys s1))"
    and s1: "pv_jobs (cr_p s1) = pv_jobs (cr_p s)" "pv_ext (cr_p s1) = pv_ext (cr_p s)" "cr_p s1 = cr_p s" "cr_given s1 = cr_given s"
    and n: "thumbKey n = job_key j" and p': "p' = finishThumb io c mt st (j\<lparr>tj_node := n\<rparr>) res (cr_p s)"
  shows "claims_inv (s1\<lparr>cr_p := p', cr_given := cr_given s \<union> still_given n (cr_p s) p'\<rparr>)" (is "claims_inv ?s'")
proof -
  have q: "pv_jobs p' = pv_jobs (cr_p s)" "pv_ext p' = pv_ext (cr_p s)"
    and c: "(pv_marks p' = pv_marks (cr_p s) - {thumbKey n} \<and> pv_timers p' = pv_timers (cr_p s))
      \<or> (pv_marks p' = pv_marks (cr_p s) \<and> pv_timers p' = n # pv_timers (cr_p s))
      \<or> (pv_marks p' = pv_marks (cr_p s) \<and> pv_timers p' = pv_timers (cr_p s))"
    using finishThumb_cases [OF p'] by simp_all
  have "job_key j \<in> set (live_keys s)" using m by (metis set_mset_add_mset_insert insertI1 set_mset_mset)
  then have mk: "thumbKey n \<in> pv_marks (cr_p s)" using i n by (auto simp: claims_inv_def)
  from c show ?thesis
  proof (elim disjE)
    assume a: "pv_marks p' = pv_marks (cr_p s) - {thumbKey n} \<and> pv_timers p' = pv_timers (cr_p s)"
    show ?thesis
      by (rule claims_release [OF i, of "job_key j"]) (use a q m n i s1 inv_bounds [OF i] in \<open>simp_all add: live_keys_def still_given_def\<close>)
  next
    assume a: "pv_marks p' = pv_marks (cr_p s) \<and> pv_timers p' = n # pv_timers (cr_p s)"
    show ?thesis
      by (rule claims_move [OF i]) (use a q m n i s1 inv_bounds [OF i] in \<open>simp_all add: live_keys_def still_given_def\<close>)
  next
    assume a: "pv_marks p' = pv_marks (cr_p s) \<and> pv_timers p' = pv_timers (cr_p s)"
    show ?thesis
      by (rule claims_give [OF i, of "job_key j"]) (use a q m n mk s1 in \<open>simp_all add: live_keys_def still_given_def\<close>)
  qed
qed

lemma mset_take_drop: "i < length xs \<Longrightarrow> mset xs = add_mset (xs ! i) (mset (take i xs) + mset (drop (Suc i) xs))"
  by (subst (1) id_take_nth_drop [of i xs]) simp_all

lemma claims_inv_step:
  assumes "claim_step io c st s s'" and "claims_inv s"
  shows "claims_inv s'"
  using assms
proof (cases rule: claim_step.cases)
  case (claim j p marks h hx w wx g)
  then show ?thesis unfolding claimThumb_True
    by (intro claims_add [OF assms(2), of _ "job_key j"]) (simp_all add: live_keys_def)
next
  case (claimx j p marks h hx w wx g)
  then show ?thesis unfolding claimThumb_True
    by (intro claims_add [OF assms(2), of _ "job_key j"]) (simp_all add: live_keys_def)
next
  case (send j p ok q h h' hx w wx g)
  have q: "(ok \<longrightarrow> q = pv_jobs p @ [j]) \<and> (\<not> ok \<longrightarrow> q = pv_jobs p) \<and> length q \<le> thumbQueueSize
    \<and> (ok \<longrightarrow> Suc (length (pv_jobs p)) \<le> thumbQueueSize)"
    using try_send_cases [OF send(3)] inv_bounds [OF assms(2)] send(1) by auto
  have l: "length (pv_jobs p) \<le> thumbQueueSize" using inv_bounds [OF assms(2)] send(1) by simp
  have b: "length (pv_ext p) \<le> externalThumbQueueSize" using inv_bounds [OF assms(2)] send(1) by simp
  show ?thesis
  proof (cases ok)
    case True
    then show ?thesis by (intro claims_move [OF assms(2)]) (use q l b send in \<open>simp_all add: live_keys_def\<close>)
  next
    case False
    then show ?thesis by (intro claims_release [OF assms(2), of "job_key j"])
        (use q l b send in \<open>simp_all add: live_keys_def releaseThumb_def\<close>)
  qed
next
  case (sendx j p ok q h hx hx' w wx g)
  have q: "(ok \<longrightarrow> q = pv_ext p @ [j]) \<and> (\<not> ok \<longrightarrow> q = pv_ext p) \<and> length q \<le> externalThumbQueueSize
    \<and> (ok \<longrightarrow> Suc (length (pv_ext p)) \<le> externalThumbQueueSize)"
    using try_send_cases [OF sendx(3)] inv_bounds [OF assms(2)] sendx(1) by auto
  have l: "length (pv_ext p) \<le> externalThumbQueueSize" using inv_bounds [OF assms(2)] sendx(1) by simp
  have b: "length (pv_jobs p) \<le> thumbQueueSize" using inv_bounds [OF assms(2)] sendx(1) by simp
  show ?thesis
  proof (cases ok)
    case True
    then show ?thesis by (intro claims_move [OF assms(2)]) (use q l b sendx in \<open>simp_all add: live_keys_def\<close>)
  next
    case False
    then show ?thesis by (intro claims_release [OF assms(2), of "job_key j"])
        (use q l b sendx in \<open>simp_all add: live_keys_def releaseThumb_def\<close>)
  qed
next
  case (receive p j q h hx wx g)
  then show ?thesis using inv_bounds [OF assms(2)] by (intro claims_move [OF assms(2)]) (simp_all add: live_keys_def)
next
  case (receivex p j q h hx w g)
  then show ?thesis using inv_bounds [OF assms(2)] by (intro claims_move [OF assms(2)]) (simp_all add: live_keys_def)
next
  case (settled n j p' m res p h hx wx g)
  have "claims_inv (s\<lparr>cr_work := None\<rparr>\<lparr>cr_p := p', cr_given := cr_given s \<union> still_given n (cr_p s) p'\<rparr>)"
    by (rule claims_settle [OF assms(2), where j = j and n = n]) (use settled in \<open>simp_all add: live_keys_def\<close>)
  then show ?thesis using settled by simp
next
  case (settledx n j p' m res p h hx w g)
  have "claims_inv (s\<lparr>cr_workx := None\<rparr>\<lparr>cr_p := p', cr_given := cr_given s \<union> still_given n (cr_p s) p'\<rparr>)"
    by (rule claims_settle [OF assms(2), where j = j and n = n]) (use settledx in \<open>simp_all add: live_keys_def\<close>)
  then show ?thesis using settledx by simp
next
  case (fired i p h hx w wx g)
  have t: "mset (pv_timers p) = add_mset (pv_timers p ! i) (mset (take i (pv_timers p)) + mset (drop (Suc i) (pv_timers p)))"
    by (rule mset_take_drop [OF fired(3)])
  show ?thesis
    by (rule claims_release [OF assms(2), of "thumbKey (pv_timers p ! i)"])
      (use fired t inv_bounds [OF assms(2)] in \<open>simp_all add: live_keys_def fire_timer_def releaseThumb_def\<close>)
qed

interpretation claim_runs: kept_invariant "claim_step io c st" claims_inv for io c st
  by unfold_locales (rule claims_inv_step)

text \<open>In every interleaving a revision is in at most one place among those claiming, queued, worked on or
  waiting for a retry; it is marked exactly while it is in one or was given up for good; and the queues
  keep their bounds.
\<close>

theorem revisions_claimed_once:
  assumes "(claim_step io c st)\<^sup>*\<^sup>* (claims_start files) s"
  shows "distinct (live_keys s) \<and> pv_marks (cr_p s) = set (live_keys s) \<union> cr_given s \<and> set (live_keys s) \<inter> cr_given s = {}
     \<and> length (pv_jobs (cr_p s)) \<le> thumbQueueSize \<and> length (pv_ext (cr_p s)) \<le> externalThumbQueueSize"
proof -
  have "claims_inv (claims_start files)" by (simp add: claims_inv_def live_keys_def claims_start_def)
  from claim_runs.along [OF assms this] show ?thesis by (simp add: claims_inv_def)
qed


definition demo_thumb_job :: thumb_job where
  "demo_thumb_job = \<lparr>tj_node = demo_node, tj_relPath = ''a'', tj_parentID = ''p''\<rparr>"

theorem revisions_claimed_once_witness:
  "\<forall>io :: unit preview_io. \<exists>s. (claim_step io demo_previews demo_store)\<^sup>*\<^sup>* (claims_start Map.empty) s
     \<and> cr_hold s = [demo_thumb_job] \<and> distinct (live_keys s)"
proof
  fix io :: "unit preview_io"
  let ?p = "\<lparr>pv_marks = {}, pv_jobs = [], pv_ext = [], pv_timers = [], pv_files = Map.empty\<rparr>"
  let ?s = "\<lparr>cr_p = ?p\<lparr>pv_marks := {job_key demo_thumb_job}\<rparr>, cr_hold = [demo_thumb_job], cr_holdx = [], cr_work = None,
     cr_workx = None, cr_given = {}\<rparr>"
  have "claim_step io demo_previews demo_store (claims_start Map.empty) ?s"
    unfolding claims_start_def by (rule claim_step.claim) (simp add: claimThumb_True)
  then have r: "(claim_step io demo_previews demo_store)\<^sup>*\<^sup>* (claims_start Map.empty) ?s" by (rule r_into_rtranclp)
  show "\<exists>s. (claim_step io demo_previews demo_store)\<^sup>*\<^sup>* (claims_start Map.empty) s
     \<and> cr_hold s = [demo_thumb_job] \<and> distinct (live_keys s)"
    by (rule exI [of _ ?s]) (use r revisions_claimed_once [OF r] in simp)
qed

section \<open>No preview of a file that is gone\<close>

text \<open>
  One folder, at the path \<open>dp\<close>, with the link \<open>pid\<close>; its \<open>dirNode\<close> is number \<open>r\<close>. A writer holds its job
  and where it is in \<open>writeThumb\<close>: the sizes still to write, the check of the listing, the removal. A
  handler is the list of what it still has to do under the listing's lock or to the cache:
  \<open>removeChild\<close> drops the entry and then calls \<open>forgetThumbs\<close>, \<open>upsertChild\<close> patches an entry in.
  \<open>pr_excused\<close> collects the paths the code lets keep a preview: those whose entry a fetched listing or a
  patch replaced, and those whose \<open>Write\<close> failed part way.
\<close>

datatype phase = Writing "(string \<times> int) list" | Checking | Removing

datatype listing_op = DropEntry string | ForgetPreview string | PatchEntry node

datatype handler_call = RemoveChild string | UpsertChild node

fun ops_of :: "handler_call \<Rightarrow> listing_op list" where
  "ops_of (RemoveChild n) = [DropEntry n, ForgetPreview n]"
| "ops_of (UpsertChild x) = [PatchEntry x]"

record preview_run =
  pr_m :: "unit mount"
  pr_files :: thumb_files
  pr_writers :: "(thumb_job \<times> phase) list"
  pr_handlers :: "listing_op list list"
  pr_excused :: "string set"

abbreviation entries :: "nat \<Rightarrow> unit mount \<Rightarrow> node list" where
  "entries r m \<equiv> nil_list (dn_children (mt_dirs m r))"

definition listed_names :: "nat \<Rightarrow> unit mount \<Rightarrow> string set" where
  "listed_names r m = nd_name ` set (entries r m)"

definition child_rel :: "string \<Rightarrow> string \<Rightarrow> string" where
  "child_rel dp n = path_join [dp, n]"

definition dropped :: "string \<Rightarrow> nat \<Rightarrow> unit mount \<Rightarrow> unit mount \<Rightarrow> string set" where
  "dropped dp r m m' = child_rel dp ` (listed_names r m - listed_names r m')"

inductive preview_step :: "preview_config \<Rightarrow> thumb_store \<Rightarrow> string \<Rightarrow> string \<Rightarrow> nat \<Rightarrow> preview_run \<Rightarrow> preview_run \<Rightarrow> bool"
    for c st dp pid r where
  begins: "tj_parentID j = pid \<Longrightarrow> tj_relPath j = child_rel dp n \<Longrightarrow> plain_elem n \<Longrightarrow>
    preview_step c st dp pid r s (s\<lparr>pr_writers := (j, Writing store_sizes) # pr_writers s\<rparr>)"
| writes: "pr_writers s = ws @ (j, Writing ((d, mx) # szs)) # ws' \<Longrightarrow>
    writeAtomic fl tmp (path_join [ts_dir st, d]) (fileName (pc_md5 c) st (tj_relPath j)) data (pr_files s) = (True, files) \<Longrightarrow>
    preview_step c st dp pid r s (s\<lparr>pr_writers := ws @ (j, Writing szs) # ws', pr_files := files\<rparr>)"
| breaks: "pr_writers s = ws @ (j, Writing szs) # ws' \<Longrightarrow>
    preview_step c st dp pid r s (s\<lparr>pr_writers := ws @ ws', pr_excused := insert (tj_relPath j) (pr_excused s)\<rparr>)"
| wrote: "pr_writers s = ws @ (j, Writing []) # ws' \<Longrightarrow>
    preview_step c st dp pid r s (s\<lparr>pr_writers := ws @ (j, Checking) # ws'\<rparr>)"
| checks: "pr_writers s = ws @ (j, Checking) # ws' \<Longrightarrow>
    preview_step c st dp pid r s (s\<lparr>pr_writers := ws @ (if stillListed (pr_m s) j then [] else [(j, Removing)]) @ ws'\<rparr>)"
| takes_out: "pr_writers s = ws @ (j, Removing) # ws' \<Longrightarrow>
    preview_step c st dp pid r s (s\<lparr>pr_writers := ws @ ws', pr_files := store_Remove (pc_md5 c) st (tj_relPath j) (pr_files s)\<rparr>)"
| calls: "preview_step c st dp pid r s (s\<lparr>pr_handlers := concat (map ops_of hs) # pr_handlers s\<rparr>)"
| drops: "pr_handlers s = hs @ (DropEntry n # ops) # hs' \<Longrightarrow>
    preview_step c st dp pid r s (s\<lparr>pr_handlers := hs @ ops # hs', pr_m := upd_dir r (\<lambda>d. fst (removeChild n d)) (pr_m s)\<rparr>)"
| forgets: "pr_handlers s = hs @ (ForgetPreview n # ops) # hs' \<Longrightarrow>
    preview_step c st dp pid r s (s\<lparr>pr_handlers := hs @ ops # hs', pr_files := forgetThumbs c (child_rel dp n) (pr_files s)\<rparr>)"
| patches: "pr_handlers s = hs @ (PatchEntry x # ops) # hs' \<Longrightarrow> m = upd_dir r (upsertChild x) (pr_m s) \<Longrightarrow>
    preview_step c st dp pid r s (s\<lparr>pr_handlers := hs @ ops # hs', pr_m := m,
      pr_excused := pr_excused s \<union> dropped dp r (pr_m s) m\<rparr>)"
| publishes: "m = upd_dir r (\<lambda>d. d\<lparr>dn_children := Some cs\<rparr>) (pr_m s) \<Longrightarrow>
    preview_step c st dp pid r s (s\<lparr>pr_m := m, pr_excused := pr_excused s \<union> dropped dp r (pr_m s) m\<rparr>)"
| unregisters: "preview_step c st dp pid r s (s\<lparr>pr_m := (pr_m s)\<lparr>mt_ids := AList.delete pid (mt_ids (pr_m s))\<rparr>\<rparr>)"

definition cache_names :: "preview_config \<Rightarrow> thumb_store \<Rightarrow> string \<Rightarrow> string set" where
  "cache_names c st rel = (\<lambda>d. size_path (pc_md5 c) st d rel) ` set cacheSizes"

definition previews_start :: "unit mount \<Rightarrow> thumb_files \<Rightarrow> preview_run" where
  "previews_start m files = \<lparr>pr_m = m, pr_files = files, pr_writers = [], pr_handlers = [], pr_excused = {}\<rparr>"

text \<open>A path that may have a preview now: excused, being written, listed, or about to be forgotten.\<close>

definition covered :: "string \<Rightarrow> nat \<Rightarrow> preview_run \<Rightarrow> string \<Rightarrow> bool" where
  "covered dp r s rel \<longleftrightarrow> rel \<in> pr_excused s \<or> (\<exists>w\<in>set (pr_writers s). tj_relPath (fst w) = rel)
     \<or> (\<exists>n. rel = child_rel dp n \<and> (n \<in> listed_names r (pr_m s) \<or> (\<exists>h\<in>set (pr_handlers s). ForgetPreview n \<in> set h)))"

fun ops_ok :: "listing_op list \<Rightarrow> bool" where
  "ops_ok [] = True"
| "ops_ok (DropEntry n # ops) \<longleftrightarrow> ForgetPreview n \<in> set ops \<and> ops_ok ops"
| "ops_ok (op # ops) \<longleftrightarrow> ops_ok ops"

definition writer_ok :: "string \<Rightarrow> string \<Rightarrow> thumb_job \<times> phase \<Rightarrow> bool" where
  "writer_ok dp pid w \<longleftrightarrow> tj_parentID (fst w) = pid \<and> (\<exists>n. plain_elem n \<and> tj_relPath (fst w) = child_rel dp n)
     \<and> (\<forall>szs. snd w = Writing szs \<longrightarrow> fst ` set szs \<subseteq> set cacheSizes)"

definition files_inv :: "preview_config \<Rightarrow> thumb_store \<Rightarrow> string \<Rightarrow> nat \<Rightarrow> string set \<Rightarrow> preview_run \<Rightarrow> bool" where
  "files_inv c st dp r old s \<longleftrightarrow>
     (\<forall>f. pr_files s f \<noteq> None \<longrightarrow> f \<in> old \<or> (\<exists>rel. f \<in> cache_names c st rel \<and> covered dp r s rel))"

definition preview_inv :: "preview_config \<Rightarrow> thumb_store \<Rightarrow> string \<Rightarrow> string \<Rightarrow> nat \<Rightarrow> string set \<Rightarrow> preview_run \<Rightarrow> bool" where
  "preview_inv c st dp pid r old s \<longleftrightarrow> files_inv c st dp r old s
     \<and> (\<forall>w\<in>set (pr_writers s). writer_ok dp pid w) \<and> (\<forall>h\<in>set (pr_handlers s). ops_ok h)
     \<and> (dirs_at (pr_m s) pid = None \<or> dirs_at (pr_m s) pid = Some r)"

lemma ops_ok_calls: "ops_ok (concat (map ops_of hs))"
proof (induction hs)
  case (Cons h hs)
  then show ?case by (cases h) auto
qed simp

lemma store_Remove_other: "store_Remove md5 st rel files f = (if f \<in> (\<lambda>d. size_path md5 st d rel) ` set cacheSizes then None else files f)"
  by (auto simp: store_Remove_def cacheSizes_def)

lemma removeNode_names: "nd_name ` set cs - {n} \<subseteq> nd_name ` set (snd (removeNode cs n))"
proof (induction cs n rule: removeNode.induct)
  case (2 ch cs n)
  then show ?case by (cases "removeNode cs n") auto
qed simp

text \<open>A step that writes no file keeps the files' part when what covered each remaining file still does.\<close>

lemma files_inv_mono:
  assumes "files_inv c st dp r old s" and "\<And>f. pr_files s' f \<noteq> None \<Longrightarrow> pr_files s f \<noteq> None"
    and "\<And>f rel. pr_files s' f \<noteq> None \<Longrightarrow> f \<in> cache_names c st rel \<Longrightarrow> covered dp r s rel \<Longrightarrow> covered dp r s' rel"
  shows "files_inv c st dp r old s'"
  using assms unfolding files_inv_def by blast

lemma listed_remove:
  "n' \<in> listed_names r m \<Longrightarrow> n' \<noteq> n \<Longrightarrow> n' \<in> listed_names r (upd_dir r (\<lambda>d. fst (removeChild n d)) m)"
proof -
  assume a: "n' \<in> listed_names r m" "n' \<noteq> n"
  then have "n' \<in> nd_name ` set (snd (removeNode (nil_list (dn_children (mt_dirs m r))) n))"
    using removeNode_names by (fastforce simp: listed_names_def)
  then show ?thesis
    using a(1) by (cases "dn_children (mt_dirs m r)")
      (auto simp: listed_names_def upd_dir_def removeChild_def schedulePersist_def nil_list_def)
qed

lemma dirs_at_upd: "dirs_at (upd_dir r f m) pid = dirs_at m pid"
  by (simp add: dirs_at_def upd_dir_def)

lemma stillListed_name:
  assumes "stillListed m j" and "dirs_at m (tj_parentID j) = None \<or> dirs_at m (tj_parentID j) = Some r"
  shows "path_base (tj_relPath j) \<in> listed_names r m"
proof -
  obtain ch where "ch \<in> set (entries r m)" "nd_name ch = path_base (tj_relPath j)"
    using assms by (auto simp: stillListed_def split: option.splits dest!: find_Some_mem)
  then show ?thesis by (force simp: listed_names_def)
qed


lemma covered_writer: "w \<in> set (pr_writers s) \<Longrightarrow> covered dp r s (tj_relPath (fst w))"
  by (auto simp: covered_def)

lemma covered_listed: "n \<in> listed_names r (pr_m s) \<Longrightarrow> covered dp r s (child_rel dp n)"
  by (auto simp: covered_def)

lemma covered_pending: "h \<in> set (pr_handlers s) \<Longrightarrow> ForgetPreview n \<in> set h \<Longrightarrow> covered dp r s (child_rel dp n)"
  by (auto simp: covered_def)

lemma covered_excused: "rel \<in> pr_excused s \<Longrightarrow> covered dp r s rel"
  by (simp add: covered_def)

lemma covered_cases [consumes 1, case_names excused writer listed pending]:
  assumes "covered dp r s rel"
    and "rel \<in> pr_excused s \<Longrightarrow> P"
    and "\<And>w. w \<in> set (pr_writers s) \<Longrightarrow> rel = tj_relPath (fst w) \<Longrightarrow> P"
    and "\<And>n. n \<in> listed_names r (pr_m s) \<Longrightarrow> rel = child_rel dp n \<Longrightarrow> P"
    and "\<And>n h. h \<in> set (pr_handlers s) \<Longrightarrow> ForgetPreview n \<in> set h \<Longrightarrow> rel = child_rel dp n \<Longrightarrow> P"
  shows P
  using assms by (auto simp: covered_def)

lemmas covered_intros = covered_writer covered_listed covered_pending covered_excused

text \<open>What stays covered when only writers change, or only handlers with the listing.\<close>

lemma covered_writers:
  assumes "covered dp r s rel" and "pr_excused s \<subseteq> pr_excused s'" and "pr_m s' = pr_m s" and "pr_handlers s' = pr_handlers s"
    and "\<And>w. w \<in> set (pr_writers s) \<Longrightarrow> rel = tj_relPath (fst w) \<Longrightarrow> covered dp r s' rel"
  shows "covered dp r s' rel"
  using assms(1)
proof (cases rule: covered_cases)
  case excused
  then show ?thesis using assms(2) by (intro covered_excused) blast
next
  case (writer w)
  then show ?thesis by (rule assms(5))
next
  case (listed n)
  then show ?thesis using assms(3) covered_listed [of n r s'] by simp
next
  case (pending n h)
  then show ?thesis using assms(4) covered_pending [of h s' n] by simp
qed

lemma covered_handlers:
  assumes "covered dp r s rel" and "pr_excused s \<subseteq> pr_excused s'" and "pr_writers s' = pr_writers s"
    and "\<And>n. n \<in> listed_names r (pr_m s) \<Longrightarrow> rel = child_rel dp n \<Longrightarrow> covered dp r s' rel"
    and "\<And>n h. h \<in> set (pr_handlers s) \<Longrightarrow> ForgetPreview n \<in> set h \<Longrightarrow> rel = child_rel dp n \<Longrightarrow> covered dp r s' rel"
  shows "covered dp r s' rel"
  using assms(1)
proof (cases rule: covered_cases)
  case excused
  then show ?thesis using assms(2) by (intro covered_excused) blast
next
  case (writer w)
  then show ?thesis using assms(3) covered_writer [of w s'] by simp
next
  case (listed n)
  then show ?thesis by (rule assms(4))
next
  case (pending n h)
  then show ?thesis by (rule assms(5))
qed

lemma dropped_covered:
  assumes "n \<in> listed_names r (pr_m s)" and "pr_excused s' = pr_excused s \<union> dropped dp r (pr_m s) (pr_m s')"
  shows "covered dp r s' (child_rel dp n)"
  using assms by (cases "n \<in> listed_names r (pr_m s')") (auto intro: covered_listed covered_excused simp: dropped_def)

text \<open>The steps that write no file.\<close>

lemma files_inv_same:
  assumes "files_inv c st dp r old s" and "pr_files s' = pr_files s" and "\<And>rel. covered dp r s rel \<Longrightarrow> covered dp r s' rel"
  shows "files_inv c st dp r old s'"
  by (rule files_inv_mono [OF assms(1)]) (use assms(2,3) in auto)

lemma files_inv_removed:
  assumes "files_inv c st dp r old s" and "pr_files s' = store_Remove (pc_md5 c) st gone (pr_files s)"
    and "\<And>rel. rel \<noteq> gone \<Longrightarrow> covered dp r s rel \<Longrightarrow> covered dp r s' rel"
  shows "files_inv c st dp r old s'"
proof (rule files_inv_mono [OF assms(1)])
  show "pr_files s' f \<noteq> None \<Longrightarrow> pr_files s f \<noteq> None" for f
    unfolding assms(2) store_Remove_other by (simp split: if_splits)
  show "pr_files s' f \<noteq> None \<Longrightarrow> f \<in> cache_names c st rel \<Longrightarrow> covered dp r s rel \<Longrightarrow> covered dp r s' rel" for f rel
    using assms(3) [of rel] unfolding assms(2) store_Remove_other cache_names_def
    by (cases "rel = gone") simp_all
qed

lemma files_inv_written:
  assumes "files_inv c st dp r old s" and w: "writeAtomic fl tmp (path_join [ts_dir st, d]) (fileName (pc_md5 c) st rel) data (pr_files s) = (True, pr_files s')"
    and "d \<in> set cacheSizes" and "covered dp r s' rel" and "\<And>rel. covered dp r s rel \<Longrightarrow> covered dp r s' rel"
  shows "files_inv c st dp r old s'"
  unfolding files_inv_def
proof (intro allI impI)
  fix f assume f: "pr_files s' f \<noteq> None"
  have e: "pr_files s' = (pr_files s)(size_path (pc_md5 c) st d rel \<mapsto> data, tmp := None)"
    using w by (auto simp: writeAtomic_def size_path_def split: thumb_fault.splits)
  show "f \<in> old \<or> (\<exists>rel. f \<in> cache_names c st rel \<and> covered dp r s' rel)"
  proof (cases "f = size_path (pc_md5 c) st d rel")
    case True
    then have "f \<in> cache_names c st rel" using assms(3) by (simp add: cache_names_def)
    then show ?thesis using assms(4) by blast
  next
    case False
    then have "pr_files s f \<noteq> None" using f unfolding e by (auto split: if_splits)
    then show ?thesis using assms(1,5) unfolding files_inv_def by blast
  qed
qed

lemma child_base: "dp = [] \<or> (\<exists>ds. ds \<noteq> [] \<and> list_all plain_elem ds \<and> dp = join_with [slash] ds) \<Longrightarrow> plain_elem n
    \<Longrightarrow> path_base (child_rel dp n) = n"
  by (auto simp: child_rel_def path_join_root path_join_plain path_base_plain path_base_join)

definition good_dir :: "string \<Rightarrow> bool" where
  "good_dir dp \<longleftrightarrow> dp = [] \<or> (\<exists>ds. ds \<noteq> [] \<and> list_all plain_elem ds \<and> dp = join_with [slash] ds)"

lemma preview_inv_parts:
  assumes "preview_inv c st dp pid r old s"
  shows "files_inv c st dp r old s" "\<And>w. w \<in> set (pr_writers s) \<Longrightarrow> writer_ok dp pid w"
    "\<And>h. h \<in> set (pr_handlers s) \<Longrightarrow> ops_ok h" "dirs_at (pr_m s) pid = None \<or> dirs_at (pr_m s) pid = Some r"
  using assms by (auto simp: preview_inv_def)

lemma store_sizes_cache: "fst ` set store_sizes \<subseteq> set cacheSizes"
  by (auto simp: store_sizes_def cacheSizes_def)

lemma preview_inv_step:
  assumes step: "preview_step c st dp pid r s s'" and inv: "preview_inv c st dp pid r old s"
    and dp: "good_dir dp" and c: "pc_thumbs c = Some st"
  shows "preview_inv c st dp pid r old s'"
  using step
proof (cases rule: preview_step.cases)
  case (begins j n)
  have "files_inv c st dp r old s'"
    by (rule files_inv_same [OF preview_inv_parts(1) [OF inv]])
       (auto simp: begins(1) elim!: covered_writers intro: covered_writer [where s = s', unfolded begins(1)])
  moreover have "writer_ok dp pid (j, Writing store_sizes)"
    using begins store_sizes_cache by (auto simp: writer_ok_def)
  ultimately show ?thesis using inv begins(1) by (auto simp: preview_inv_def)
next
  case (writes ws j d mx szs ws' fl tmp data files)
  have w: "writer_ok dp pid (j, Writing ((d, mx) # szs))" using preview_inv_parts(2) [OF inv] writes(2) by simp
  have k: "covered dp r s rel \<Longrightarrow> covered dp r s' rel" for rel
    by (erule covered_writers) (auto simp: writes(1,2) covered_def)
  have "files_inv c st dp r old s'"
    by (rule files_inv_written [OF preview_inv_parts(1) [OF inv], where rel = "tj_relPath j" and d = d and data = data and fl = fl and tmp = tmp])
       (use writes w k in \<open>auto simp: writer_ok_def covered_def\<close>)
  moreover have "writer_ok dp pid (j, Writing szs)" using w by (auto simp: writer_ok_def)
  ultimately show ?thesis using inv writes(1,2) by (auto simp: preview_inv_def)
next
  case (breaks ws j szs ws')
  have "files_inv c st dp r old s'"
    by (rule files_inv_same [OF preview_inv_parts(1) [OF inv]])
       (auto simp: breaks(1,2) covered_def)
  then show ?thesis using inv breaks by (auto simp: preview_inv_def)
next
  case (wrote ws j ws')
  have "files_inv c st dp r old s'"
    by (rule files_inv_same [OF preview_inv_parts(1) [OF inv]]) (auto simp: wrote(1,2) covered_def)
  then show ?thesis using inv wrote by (auto simp: preview_inv_def writer_ok_def)
next
  case (checks ws j ws')
  have w: "writer_ok dp pid (j, Checking)" using preview_inv_parts(2) [OF inv] checks(2) by simp
  obtain n where n: "plain_elem n" "tj_relPath j = child_rel dp n" "tj_parentID j = pid" using w by (auto simp: writer_ok_def)
  have l: "stillListed (pr_m s) j \<Longrightarrow> n \<in> listed_names r (pr_m s)"
    using stillListed_name [of "pr_m s" j r] preview_inv_parts(4) [OF inv] n child_base [of dp n] dp
    by (simp add: good_dir_def)
  have k: "covered dp r s rel \<Longrightarrow> covered dp r s' rel" for rel
    by (erule covered_writers) (use l n(2) in \<open>auto simp: checks(1,2) covered_def\<close>)
  have "files_inv c st dp r old s'"
    by (rule files_inv_same [OF preview_inv_parts(1) [OF inv] _ k]) (simp add: checks(1))
  then show ?thesis using inv checks by (auto simp: preview_inv_def writer_ok_def)
next
  case (takes_out ws j ws')
  have "files_inv c st dp r old s'"
    by (rule files_inv_removed [OF preview_inv_parts(1) [OF inv], where gone = "tj_relPath j"])
       (auto simp: takes_out(1,2) covered_def)
  then show ?thesis using inv takes_out by (auto simp: preview_inv_def)
next
  case (calls hs)
  have "files_inv c st dp r old s'"
    by (rule files_inv_same [OF preview_inv_parts(1) [OF inv]]) (auto simp: calls(1) covered_def)
  then show ?thesis using inv calls ops_ok_calls by (auto simp: preview_inv_def)
next
  case (drops hs n ops hs')
  have o: "ForgetPreview n \<in> set ops" "ops_ok ops" using preview_inv_parts(3) [OF inv, of "DropEntry n # ops"] drops(2) by simp_all
  have p: "covered dp r s' (child_rel dp n)" using o(1) by (intro covered_pending [of ops]) (simp_all add: drops(1))
  have "covered dp r s' (child_rel dp n')" if "n' \<in> listed_names r (pr_m s)" for n'
    using p listed_remove [OF that, of n] by (cases "n' = n") (auto intro!: covered_listed simp: drops(1))
  then have k: "covered dp r s rel \<Longrightarrow> covered dp r s' rel" for rel
    by (erule_tac covered_handlers) (auto simp: drops(1,2) covered_def)
  have "files_inv c st dp r old s'"
    by (rule files_inv_same [OF preview_inv_parts(1) [OF inv] _ k]) (simp add: drops(1))
  then show ?thesis using inv drops o(2) by (auto simp: preview_inv_def dirs_at_upd)
next
  case (forgets hs n ops hs')
  have "files_inv c st dp r old s'"
    by (rule files_inv_removed [OF preview_inv_parts(1) [OF inv], where gone = "child_rel dp n"])
       (auto simp: forgets(1,2) covered_def forgetThumbs_def c)
  then show ?thesis using inv forgets by (auto simp: preview_inv_def)
next
  case (patches hs x ops hs' m)
  have "covered dp r s' (child_rel dp n')" if "n' \<in> listed_names r (pr_m s)" for n'
    by (rule dropped_covered [OF that]) (simp add: patches(1))
  then have k: "covered dp r s rel \<Longrightarrow> covered dp r s' rel" for rel
    by (erule_tac covered_handlers) (auto simp: patches(1,2) covered_def)
  have "files_inv c st dp r old s'"
    by (rule files_inv_same [OF preview_inv_parts(1) [OF inv] _ k]) (simp add: patches(1))
  then show ?thesis using inv patches by (auto simp: preview_inv_def dirs_at_upd)
next
  case (publishes m cs)
  have "covered dp r s' (child_rel dp n')" if "n' \<in> listed_names r (pr_m s)" for n'
    by (rule dropped_covered [OF that]) (simp add: publishes(1))
  then have k: "covered dp r s rel \<Longrightarrow> covered dp r s' rel" for rel
    by (erule_tac covered_handlers) (auto simp: publishes(1) covered_def)
  have "files_inv c st dp r old s'"
    by (rule files_inv_same [OF preview_inv_parts(1) [OF inv] _ k]) (simp add: publishes(1))
  then show ?thesis using inv publishes by (auto simp: preview_inv_def dirs_at_upd)
next
  case unregisters
  have "files_inv c st dp r old s'"
    by (rule files_inv_same [OF preview_inv_parts(1) [OF inv]]) (auto simp: unregisters covered_def listed_names_def)
  then show ?thesis using inv unregisters by (auto simp: preview_inv_def dirs_at_def delete_conv)
qed


interpretation preview_runs: kept_invariant "preview_step c st dp pid r"
    "\<lambda>s. good_dir dp \<and> pc_thumbs c = Some st \<and> preview_inv c st dp pid r old s" for c st dp pid r old
  by unfold_locales (use preview_inv_step in blast)



definition demo_folder_mount :: "unit mount" where
  "demo_folder_mount = \<lparr>mt_dirs = (\<lambda>_. (new_dir demo_node 30)\<lparr>dn_children := Some [demo_node]\<rparr>), mt_ids = [(''p'', 0)],
     mt_parentOf = Map.empty, mt_store = ()\<rparr>"

lemma demo_path_base: "path_base ''a'' = ''a''"
  by (rule path_base_plain) (simp add: plain_elem_def)

lemma demo_still_listed: "stillListed demo_folder_mount demo_thumb_job"
  by (simp add: stillListed_def dirs_at_def demo_folder_mount_def demo_thumb_job_def nil_list_def demo_node_def newNode_def
      demo_link_def demo_path_base)

lemma path_join_ne: "e \<noteq> [] \<Longrightarrow> path_join [a, e] \<noteq> []"
  by (simp add: path_join_def path_clean_def Let_def)

lemma demo_preview_run:
  "\<exists>s. (preview_step demo_previews demo_store [] ''p'' 0)\<^sup>*\<^sup>* (previews_start demo_folder_mount Map.empty) s
     \<and> pr_writers s = [] \<and> pr_handlers s = [] \<and> pr_files s (size_path (\<lambda>u. u) demo_store ''large'' ''a'') = Some ''B''"
proof -
  let ?st = "preview_step demo_previews demo_store [] ''p'' 0"
  let ?j = demo_thumb_job
  let ?f1 = "Map.empty(size_path (\<lambda>u. u) demo_store ''normal'' ''a'' \<mapsto> ''A'', [] := None)"
  let ?f2 = "?f1(size_path (\<lambda>u. u) demo_store ''large'' ''a'' \<mapsto> ''B'', [] := None)"
  let ?s = "\<lambda>ws files. \<lparr>pr_m = demo_folder_mount, pr_files = files, pr_writers = ws, pr_handlers = [], pr_excused = {}\<rparr>"
  have rel: "child_rel [] ''a'' = ''a''" by (simp add: child_rel_def path_join_root plain_elem_def)
  have 1: "?st (?s [] Map.empty) (?s [(?j, Writing store_sizes)] Map.empty)"
    using preview_step.begins [of ?j "''p''" "[]" "''a''" demo_previews demo_store 0 "?s [] Map.empty"] rel
    by (simp add: demo_thumb_job_def plain_elem_def)
  have 2: "?st (?s [(?j, Writing store_sizes)] Map.empty) (?s [(?j, Writing [(''large'', largeSize)])] ?f1)"
    using preview_step.writes [of "?s [(?j, Writing store_sizes)] Map.empty" "[]" ?j "''normal''" normalSize
        "[(''large'', largeSize)]" "[]" NoFault "[]" demo_store demo_previews "''A''" ?f1 "[]" "''p''" 0]
    by (simp add: store_sizes_def writeAtomic_def size_path_def demo_previews_def demo_thumb_job_def)
  have 3: "?st (?s [(?j, Writing [(''large'', largeSize)])] ?f1) (?s [(?j, Writing [])] ?f2)"
    using preview_step.writes [of "?s [(?j, Writing [(''large'', largeSize)])] ?f1" "[]" ?j "''large''" largeSize
        "[]" "[]" NoFault "[]" demo_store demo_previews "''B''" ?f2 "[]" "''p''" 0]
    by (simp add: writeAtomic_def size_path_def demo_previews_def demo_thumb_job_def)
  have 4: "?st (?s [(?j, Writing [])] ?f2) (?s [(?j, Checking)] ?f2)"
    using preview_step.wrote [of "?s [(?j, Writing [])] ?f2" "[]" ?j "[]"] by simp
  have 5: "?st (?s [(?j, Checking)] ?f2) (?s [] ?f2)"
    using preview_step.checks [of "?s [(?j, Checking)] ?f2" "[]" ?j "[]"] by (simp add: demo_still_listed)
  have r: "?st\<^sup>*\<^sup>* (previews_start demo_folder_mount Map.empty) (?s [] ?f2)"
    unfolding previews_start_def
    using 1 2 3 4 5 by (meson converse_rtranclp_into_rtranclp r_into_rtranclp)
  have "size_path (\<lambda>u. u) demo_store ''large'' ''a'' \<noteq> []"
    unfolding size_path_def by (rule path_join_ne) (simp add: fileName_def)
  then show ?thesis using r by (intro exI [of _ "?s [] ?f2"]) simp
qed


end
