(* ===== verification/Mount_Life.thy ===== *)
theory Mount_Life
  imports Save_Fate Local_Api Previews
begin

text \<open>
  The life of a mount (internal/fusefs/fusefs.go: \<open>newMountState\<close>, \<open>openLocalStore\<close>, \<open>Mount\<close>): what it is
  set up with, the goroutines it starts, and its end. At the end two goroutines run beside the
  handlers: one waits for the context, flushes the parked buffers and detaches the mount; the other
  waits for the server to stop, or for the first one, and returns. Each of their moves is one step of
  \<open>life_step\<close>; every other goroutine of the mount is a step of \<open>fs_step\<close>. go-fuse's server is what its
  \<open>Wait\<close> and \<open>Unmount\<close> report.
\<close>

section \<open>Starting\<close>

definition newMountState :: "patterns \<Rightarrow> options \<Rightarrow> bool \<Rightarrow> (nat \<Rightarrow> string) \<Rightarrow> config" where
  "newMountState pt opts local paths =
     \<lparr>mc_excluded = excluded (parseExcludes pt (op_exclude opts)),
      mc_delayFor = delayFor (parseDelayRules pt (op_uploadDelays opts)) (op_uploadDelay opts),
      mc_local = local, mc_path = paths, mc_opTimeout = op_opTimeout opts\<rparr>"

definition openLocalStore :: "environ \<Rightarrow> bool \<Rightarrow> bool \<Rightarrow> string option" where
  "openLocalStore e mkdir_fails stat_fails =
     (case LocalDir e of
        None \<Rightarrow> None
      | Some dir \<Rightarrow> if mkdir_fails then None else if stat_fails then None else Some dir)"

record fuse_options =
  fo_FsName :: string
  fo_DisableXAttrs :: bool
  fo_Debug :: bool
  fo_EntryTimeout :: nanos
  fo_AttrTimeout :: nanos
  fo_NegativeTimeout :: nanos

definition mount_fuse_options :: "options \<Rightarrow> bool \<Rightarrow> fuse_options" where
  "mount_fuse_options opts debug =
     \<lparr>fo_FsName = ''proton-drive-fs'', fo_DisableXAttrs = True, fo_Debug = debug,
      fo_EntryTimeout = op_ttl opts, fo_AttrTimeout = op_ttl opts, fo_NegativeTimeout = seconds 1\<rparr>"

text \<open>The status the local API hands out is built on the spot, stamped with the time it is built at.\<close>

definition live_status :: "nanos \<Rightarrow> string \<Rightarrow> string \<Rightarrow> int \<Rightarrow> bool \<Rightarrow> activity \<Rightarrow> recentTransfer list \<Rightarrow> counters \<Rightarrow> status" where
  "live_status now mountpoint version pid paused act recent c =
     (snd (buildStatus now mountpoint version pid paused act recent c))\<lparr>ss_updated := unix_seconds now\<rparr>"

definition clear_cache_dep :: "cache_faults \<Rightarrow> string \<Rightarrow> (string \<times> cache_tree) list option \<Rightarrow> (string + int) \<times> (string \<times> cache_tree) list option" where
  "clear_cache_dep fl dir c =
     (case ClearCacheDir fl dir c of ((freed, failed), c1) \<Rightarrow> (if failed then Inl ''clear cache'' else Inr freed, c1))"

definition mount_api_deps :: "cache_faults \<Rightarrow> status \<Rightarrow> string \<Rightarrow> api_deps" where
  "mount_api_deps fl live dir = \<lparr>dp_Status = live, dp_CacheDir = dir, dp_clear = Some (clear_cache_dep fl dir)\<rparr>"

datatype worker = ApiCloser | EventsWorker | StatusWorker | WatchdogWorker | ThumbWorker | ExternalThumbWorker

definition mount_workers :: "preview_config \<Rightarrow> bool \<Rightarrow> worker list" where
  "mount_workers pc api_started =
     (if api_started then [ApiCloser] else []) @ [EventsWorker, StatusWorker, WatchdogWorker]
     @ (if pc_thumbs pc \<noteq> None then [ThumbWorker] else []) @ (if externalEnabled pc then [ExternalThumbWorker] else [])"

definition watchdogInterval :: nanos where "watchdogInterval = seconds 30"

section \<open>Ending\<close>

text \<open>The goroutine that waits for the context, and \<open>Mount\<close> itself.\<close>

datatype shut_pc = ShWait | ShFlush | ShUnmount | ShLazy | ShDone
datatype main_pc = MnSelect | MnGrace | MnListings | MnSafety | MnReturned

text \<open>
  \<open>lf_attached\<close> is the entry in the mount table, \<open>lf_ended\<close> that the server's \<open>Wait\<close> returned,
  \<open>lf_outside\<close> that another process detached the mount (fusermount, as the unmount command runs it) or
  aborted its connection. \<open>lf_atflush\<close> is the world \<open>flushDelayed\<close> left, when it ran.
\<close>

record 's life =
  lf_sys :: "'s sys"
  lf_cancelled :: bool
  lf_attached :: bool
  lf_outside :: bool
  lf_ended :: bool
  lf_shut :: shut_pc
  lf_main :: main_pc
  lf_listed :: bool
  lf_atflush :: "'s world option"

text \<open>A context is cancelled by a signal, by the tray's quit item and by a revoked session. Nothing moves once \<open>Mount\<close> has returned: the process exits.\<close>

inductive life_step :: "config \<Rightarrow> 's life \<Rightarrow> 's life \<Rightarrow> bool" for cfg where
  handlers: "lf_main l \<noteq> MnReturned \<Longrightarrow> fs_step cfg (lf_sys l) t \<Longrightarrow> life_step cfg l (l\<lparr>lf_sys := t\<rparr>)"
| cancel: "lf_main l \<noteq> MnReturned \<Longrightarrow> life_step cfg l (l\<lparr>lf_cancelled := True\<rparr>)"
| outside: "lf_main l \<noteq> MnReturned \<Longrightarrow> lf_attached l \<Longrightarrow> life_step cfg l (l\<lparr>lf_attached := False, lf_outside := True\<rparr>)"
| server_ends: "lf_main l \<noteq> MnReturned \<Longrightarrow> \<not> lf_attached l \<Longrightarrow> life_step cfg l (l\<lparr>lf_ended := True\<rparr>)"
| shut_begin: "lf_main l \<noteq> MnReturned \<Longrightarrow> lf_shut l = ShWait \<Longrightarrow> lf_cancelled l \<Longrightarrow> life_step cfg l (l\<lparr>lf_shut := ShFlush\<rparr>)"
| shut_flush: "lf_main l \<noteq> MnReturned \<Longrightarrow> lf_shut l = ShFlush \<Longrightarrow> w = flushDelayed cfg bio de up1 up2 late (sy_w (lf_sys l)) \<Longrightarrow>
    life_step cfg l (l\<lparr>lf_sys := (lf_sys l)\<lparr>sy_w := w\<rparr>, lf_shut := ShUnmount, lf_atflush := Some w\<rparr>)"
| shut_unmount: "lf_main l \<noteq> MnReturned \<Longrightarrow> lf_shut l = ShUnmount \<Longrightarrow> life_step cfg l (l\<lparr>lf_attached := False, lf_shut := ShDone\<rparr>)"
| shut_busy: "lf_main l \<noteq> MnReturned \<Longrightarrow> lf_shut l = ShUnmount \<Longrightarrow> life_step cfg l (l\<lparr>lf_shut := ShLazy\<rparr>)"
| shut_lazy: "lf_main l \<noteq> MnReturned \<Longrightarrow> lf_shut l = ShLazy \<Longrightarrow> life_step cfg l (l\<lparr>lf_attached := (lf_attached l \<and> failed), lf_shut := ShDone\<rparr>)"
| main_ended: "lf_main l \<in> {MnSelect, MnGrace} \<Longrightarrow> lf_ended l \<Longrightarrow> life_step cfg l (l\<lparr>lf_main := MnListings\<rparr>)"
| main_unmounted: "lf_main l = MnSelect \<Longrightarrow> lf_shut l = ShDone \<Longrightarrow> life_step cfg l (l\<lparr>lf_main := MnGrace\<rparr>)"
| main_grace_over: "lf_main l = MnGrace \<Longrightarrow> life_step cfg l (l\<lparr>lf_main := MnListings\<rparr>)"
| main_listings: "lf_main l = MnListings \<Longrightarrow>
    life_step cfg l (l\<lparr>lf_sys := (lf_sys l)\<lparr>sy_w := flushListings save dirty (sy_w (lf_sys l))\<rparr>, lf_listed := True, lf_main := MnSafety\<rparr>)"
| main_safety: "lf_main l = MnSafety \<Longrightarrow> life_step cfg l (l\<lparr>lf_attached := (lf_attached l \<and> failed), lf_main := MnReturned\<rparr>)"

definition life_reach :: "config \<Rightarrow> 's life \<Rightarrow> 's life \<Rightarrow> bool" where
  "life_reach cfg = (life_step cfg)\<^sup>*\<^sup>*"

definition mounted_on :: "'s sys \<Rightarrow> 's life" where
  "mounted_on s = \<lparr>lf_sys = s, lf_cancelled = False, lf_attached = True, lf_outside = False, lf_ended = False, lf_shut = ShWait,
     lf_main = MnSelect, lf_listed = False, lf_atflush = None\<rparr>"

section \<open>The flush before the return\<close>

lemma flush_dir_core: "same_core (w :: 's world) (flush_dir save r w)"
  by (simp add: flush_dir_def same_core_def core_def split: prod.split)

lemma flushListings_core: "same_core (w :: 's world) (flushListings save dirty w)"
proof (induction dirty arbitrary: w)
  case (Cons r rs)
  have "same_core w (flush_dir save r w)" by (rule flush_dir_core)
  then show ?case using Cons [of "flush_dir save r w"] by (simp add: flushListings_def same_core_def)
qed (simp add: flushListings_def same_core_def)

definition nothing_parked :: "'s world \<Rightarrow> bool" where
  "nothing_parked w \<longleftrightarrow> (\<forall>h. \<not> fh_parked (wd_handles w h)) \<and> wd_delayed w = [] \<and> wd_kept w = []"

text \<open>Until the flush ran, and unless another process detached the mount, the server serves and \<open>Mount\<close> waits.\<close>

definition life_ok :: "config \<Rightarrow> 's life \<Rightarrow> bool" where
  "life_ok cfg l \<longleftrightarrow>
     (lf_atflush l = None \<and> \<not> lf_outside l \<longrightarrow> sys_ok cfg (lf_sys l) \<and> lf_attached l \<and> \<not> lf_ended l \<and> lf_main l = MnSelect)
   \<and> (lf_atflush l = None \<longleftrightarrow> lf_shut l \<in> {ShWait, ShFlush})
   \<and> (\<not> lf_outside l \<longrightarrow> (\<forall>w. lf_atflush l = Some w \<longrightarrow> nothing_parked w))
   \<and> (lf_main l \<in> {MnSafety, MnReturned} \<longrightarrow> lf_listed l)
   \<and> (lf_shut l \<noteq> ShWait \<longrightarrow> lf_cancelled l)
   \<and> (lf_atflush l \<noteq> None \<longrightarrow> lf_cancelled l)"

lemma life_step_ok:
  assumes "life_step cfg l l'" "life_ok cfg l"
  shows "life_ok cfg l'"
  using assms
proof (induction rule: life_step.induct)
  case (handlers l t)
  then show ?case using fs_step_ok [OF handlers(2)] by (auto simp: life_ok_def)
next
  case (shut_flush l w bio de up1 up2 late)
  have "nothing_parked w" if "\<not> lf_outside l" "lf_atflush l = None"
    using flush_empties [OF sys_ok_buffers, of cfg "lf_sys l" w cfg bio de up1 up2 late] shut_flush that
    by (auto simp: life_ok_def nothing_parked_def)
  moreover have "lf_atflush l = None" using shut_flush by (auto simp: life_ok_def)
  ultimately show ?case using shut_flush by (simp add: life_ok_def)
qed (auto simp: life_ok_def)

interpretation life_runs: kept_invariant "life_step cfg" "life_ok cfg" for cfg
  by unfold_locales (rule life_step_ok)

lemmas life_reach_ok = life_runs.along [folded life_reach_def]


text \<open>The two ways to the end, as runs.\<close>

lemma life_more: "life_reach cfg a b \<Longrightarrow> life_step cfg b c \<Longrightarrow> life_reach cfg a c"
  unfolding life_reach_def by (rule rtranclp.rtrancl_into_rtrancl)

lemma life_handlers: "fs_reach cfg s t \<Longrightarrow> life_reach cfg (mounted_on s) (mounted_on t)"
  unfolding fs_reach_def
proof (induction rule: rtranclp_induct)
  case (step t u)
  have "life_step cfg (mounted_on t) ((mounted_on t)\<lparr>lf_sys := u\<rparr>)"
    by (rule life_step.handlers) (simp_all add: mounted_on_def step.hyps(2))
  then show ?case using life_more [OF step.IH] by (simp add: mounted_on_def)
qed (simp add: life_reach_def)

lemma cancelled_run:
  "\<exists>l. life_reach cfg (mounted_on s) l \<and> lf_main l = MnReturned \<and> \<not> lf_outside l"
proof -
  let ?l = "mounted_on s"
  have r0: "life_reach cfg ?l ?l" by (simp add: life_reach_def)
  note s1 = life_more [OF r0 life_step.cancel]
  note s2 = life_more [OF s1 life_step.shut_begin]
  note s3 = life_more [OF s2 life_step.shut_flush [OF _ _ refl]]
  note s4 = life_more [OF s3 life_step.shut_unmount]
  note s5 = life_more [OF s4 life_step.main_unmounted]
  note s6 = life_more [OF s5 life_step.main_grace_over]
  note s7 = life_more [OF s6 life_step.main_listings]
  note s8 = life_more [OF s7 life_step.main_safety]
  show ?thesis by (rule exI, intro conjI, rule s8) (simp_all add: mounted_on_def)
qed

text \<open>
  Detached from outside, as by \<open>fusermount -u\<close> in the unmount command, the server stops, \<open>Mount\<close> returns
  and the process exits: nobody cancelled the context, so the flush never starts. Every buffer still
  waiting stays as it was.
\<close>

lemma outside_run:
  "\<exists>l. life_reach cfg (mounted_on s) l \<and> lf_main l = MnReturned \<and> \<not> lf_cancelled l \<and> lf_atflush l = None \<and> lf_outside l
     \<and> sy_w (lf_sys l) = flushListings save dirty (sy_w s)"
proof -
  let ?l = "mounted_on s"
  have r0: "life_reach cfg ?l ?l" by (simp add: life_reach_def)
  note s1 = life_more [OF r0 life_step.outside]
  note s2 = life_more [OF s1 life_step.server_ends]
  note s3 = life_more [OF s2 life_step.main_ended]
  note s4 = life_more [OF s3 life_step.main_listings [of _ _ save dirty]]
  note s5 = life_more [OF s4 life_step.main_safety]
  show ?thesis by (rule exI, intro conjI, rule s5) (simp_all add: mounted_on_def)
qed

lemma flushListings_frame:
  "wd_unsaved (flushListings save dirty (w :: 's world)) = wd_unsaved w" "wd_calls (flushListings save dirty w) = wd_calls w"
proof (induction dirty arbitrary: w)
  case (Cons r rs)
  { case 1 then show ?case using Cons(1) [of "flush_dir save r w"] by (simp add: flushListings_def flush_dir_def split: prod.splits) }
  { case 2 then show ?case using Cons(2) [of "flush_dir save r w"] by (simp add: flushListings_def flush_dir_def split: prod.splits) }
qed (simp_all add: flushListings_def)

definition slow_cfg :: config where
  "slow_cfg = demo_cfg\<lparr>mc_delayFor := (\<lambda>_. seconds 5)\<rparr>"

definition saved1 :: "unit sys" where
  "saved1 = demo0\<lparr>sy_w := create_file 0 0 ''a'' demo_world, sy_next := 1, sy_open := (\<lambda>_. False)(0 := True)\<rparr>"

definition saved2 :: "unit sys" where
  "saved2 = saved1\<lparr>sy_w := write_buffer 0 [1, 2, 3] (sy_w saved1)\<rparr>"

definition saved3 :: "unit sys" where
  "saved3 = saved2\<lparr>sy_w := fst (release_begin slow_cfg demo_io 0 (sy_w saved2)), sy_open := (sy_open saved2)(0 := False), sy_job := (sy_job saved2)(0 := NoJob)\<rparr>"

lemmas saved_defs = saved1_def saved2_def saved3_def demo0_def demo_world_def slow_cfg_def demo_cfg_def demo_io_def create_file_def new_buffer_def
  write_buffer_def upd_file_def upd_tmp_def upd_handle_def release_begin_def park_def trackDelayed_def Let_def

lemma saved_reach: "fs_reach slow_cfg demo0 saved3"
proof -
  have a: "fs_step slow_cfg demo0 saved1" using fs_step.create [of slow_cfg demo0 0 "''a''"] by (simp add: saved1_def demo0_def)
  have b: "fs_step slow_cfg saved1 saved2" using fs_step.wrote [of saved1 0 slow_cfg "[1, 2, 3]"] by (simp add: saved2_def saved1_def)
  have "release_begin slow_cfg demo_io 0 (sy_w saved2) = (fst (release_begin slow_cfg demo_io 0 (sy_w saved2)), Released OK)"
    by (simp add: saved_defs)
  from fs_step.close [OF _ this] have c: "fs_step slow_cfg saved2 saved3"
    by (simp add: saved3_def job_phase_def) (simp add: saved2_def saved1_def)
  show ?thesis using a b c unfolding fs_reach_def by (meson converse_rtranclp_into_rtranclp rtranclp.rtrancl_refl)
qed

text \<open>C5. A save made within its upload delay of an outside unmount is not saved: there is a run in which the file was written and
  closed, the unmount command detached the mount, \<open>Mount\<close> returned, and the content is in the temporary file only, neither sent to
  the drive nor moved to the directory of unsaved files.
\<close>

theorem outside_unmount_drops_saves:
  "\<exists>l. life_reach slow_cfg (mounted_on demo0) l \<and> lf_main l = MnReturned \<and> lf_outside l
     \<and> fh_parked (wd_handles (sy_w (lf_sys l)) 0) \<and> fh_dirty (wd_handles (sy_w (lf_sys l)) 0)
     \<and> tf_there (wd_tmps (sy_w (lf_sys l)) 0) \<and> tf_data (wd_tmps (sy_w (lf_sys l)) 0) = [1, 2, 3]
     \<and> wd_calls (sy_w (lf_sys l)) = [] \<and> wd_unsaved (sy_w (lf_sys l)) = []"
proof -
  obtain l where l: "life_reach slow_cfg (mounted_on saved3) l" "lf_main l = MnReturned" "lf_outside l"
    "sy_w (lf_sys l) = sy_w saved3"
    using outside_run [of slow_cfg saved3 "\<lambda>_ _ s. s" "[]"] by (auto simp: flushListings_def)
  have "life_reach slow_cfg (mounted_on demo0) l"
    using life_handlers [OF saved_reach] l(1) unfolding life_reach_def by (rule rtranclp_trans)
  moreover have "fh_parked (wd_handles (sy_w saved3) 0) \<and> fh_dirty (wd_handles (sy_w saved3) 0) \<and> tf_there (wd_tmps (sy_w saved3) 0)
     \<and> tf_data (wd_tmps (sy_w saved3) 0) = [1, 2, 3] \<and> wd_calls (sy_w saved3) = [] \<and> wd_unsaved (sy_w saved3) = []"
    by (simp add: saved_defs)
  ultimately show ?thesis using l by auto
qed


text \<open>A status built for the API is fresh when it is read, and what the API serves is what the mount's own clearing frees.\<close>

lemma live_status_Fresh: "seconds 1 \<le> now \<Longrightarrow> Fresh now (live_status now mp v pid p act rec c)"
  by (simp add: live_status_def Fresh_def unix_seconds_def StaleAfter_def) linarith

text \<open>
  An idle mount publishes once and not again, so ten seconds later its snapshot is stale, though the
  mount is there: a reader of the file alone takes it for gone.
\<close>

lemma idle_status_goes_stale:
  assumes "publish_tick now prev cur = (cur, Some st)" "10 * seconds 1 \<le> later - now"
  shows "publish_tick later cur cur = (cur, None) \<and> \<not> Fresh later st"
  using assms
  by (auto simp: publish_tick_def Fresh_def unix_seconds_def StaleAfter_def split: if_splits)

end
