(* ===== verification/About.thy ===== *)
theory About
  imports Config_Load
begin

text \<open>
  The about dialog (internal/about/about.go): its text, put together from the embedded licenses, and the
  two ways of showing it. The embedded index, once decoded, and the license files are parameters; so is
  what each file system call and each started program reports.
\<close>

section \<open>The text\<close>

record license_entry =
  li_module :: string
  li_version :: string
  li_file :: string

text \<open>The embedded files, and the index as \<open>json.Unmarshal\<close> reads it.\<close>

record license_fs =
  lf_read :: "string \<Rightarrow> string option"
  lf_decode :: "string \<Rightarrow> license_entry list option"

definition Licenses :: "license_fs \<Rightarrow> string + license_entry list" where
  "Licenses l =
     (case lf_read l ''licenses/index.json'' of
        None \<Rightarrow> Inl ''open licenses/index.json: file does not exist''
      | Some data \<Rightarrow> (case lf_decode l data of None \<Rightarrow> Inl ''json'' | Some es \<Rightarrow> Inr es))"

definition LicenseText :: "license_fs \<Rightarrow> license_entry \<Rightarrow> string option" where
  "LicenseText l e = lf_read l (li_file e)"

definition println :: "string \<Rightarrow> string" where
  "println s = s @ [newline]"

definition license_block :: "license_fs \<Rightarrow> license_entry \<Rightarrow> string" where
  "license_block l e =
     println [] @ println (li_module e @ '' '' @ li_version e)
     @ (case LicenseText l e of None \<Rightarrow> println ''(license text unavailable)'' | Some t \<Rightarrow> println t)"

definition about_head :: "string \<Rightarrow> string \<Rightarrow> string" where
  "about_head version commit =
     concat (map println [''proton-drive-fs'', ''by Lucas Santos'', [], ''Version: '' @ version @ '' ('' @ commit @ '')'', [],
       ''GitHub: https://github.com/khaosdoctor/proton-drive-linux-fs'', ''Docs:   https://oss.lsantos.dev/proton-drive-linux-fs/'',
       ''Issues: https://github.com/khaosdoctor/proton-drive-linux-fs/issues'', [], ''Third-party licenses'', ''---------------------''])"

definition Text :: "license_fs \<Rightarrow> string \<Rightarrow> string \<Rightarrow> string" where
  "Text l version commit =
     about_head version commit
     @ (case Licenses l of
          Inl err \<Rightarrow> println [] @ println (''(license list unavailable: '' @ err @ '' )'')
        | Inr es \<Rightarrow> concat (map (license_block l) es))"

section \<open>Showing it\<close>

text \<open>\<open>html.EscapeString\<close>.\<close>

definition html_char :: "char \<Rightarrow> string" where
  "html_char c =
     (if c = CHR ''&'' then ''&amp;'' else if c = CHR 0x27 then ''&#39;'' else if c = CHR ''<'' then ''&lt;''
      else if c = CHR ''>'' then ''&gt;'' else if c = CHR 0x22 then ''&#34;'' else [c])"

definition html_escape :: "string \<Rightarrow> string" where
  "html_escape s = concat (map html_char s)"

record about_world =
  ab_runtimeDir :: string
  ab_cacheDir :: "string option"
  ab_mkdirFails :: bool
  ab_createFails :: bool
  ab_tmpName :: string
  ab_writeFails :: bool
  ab_closeFails :: bool
  ab_files :: "string \<Rightarrow> string option"
  ab_programs :: "string \<Rightarrow> bool"
  ab_run :: "string list \<Rightarrow> bool"

definition tmpDir :: "about_world \<Rightarrow> string option" where
  "tmpDir w =
     (case (if ab_runtimeDir w = [] then ab_cacheDir w else Some (ab_runtimeDir w)) of
        None \<Rightarrow> None
      | Some base \<Rightarrow> if ab_mkdirFails w then None else Some (path_join [base, ''proton-drive-fs'']))"

text \<open>Whether it worked, the program run and the file it was shown, and the files left. A failed write may have left anything in the file.\<close>

definition showZenity :: "string \<Rightarrow> string \<Rightarrow> about_world \<Rightarrow> bool \<times> (string list \<times> string) option \<times> about_world" where
  "showZenity part text' w =
     (case tmpDir w of
        None \<Rightarrow> (False, None, w)
      | Some dir \<Rightarrow>
          if ab_createFails w then (False, None, w)
          else (let path = path_join [dir, ab_tmpName w];
                    w1 = w\<lparr>ab_files := (ab_files w)(path \<mapsto> (if ab_writeFails w then part else text'))\<rparr>;
                    gone = w1\<lparr>ab_files := (ab_files w1)(path := None)\<rparr>
                in if ab_writeFails w then (False, None, gone)
                   else if ab_closeFails w then (False, None, gone)
                   else (let argv = [''zenity'', ''--text-info'', ''--title'', ''About proton-drive-fs'', ''--filename'', path]
                         in (ab_run w argv, Some (argv, text'), gone))))"

definition about_page :: "string \<Rightarrow> string" where
  "about_page text' =
     ''<!doctype html><meta charset='' @ [CHR 0x22] @ ''utf-8'' @ [CHR 0x22] @ ''><title>About proton-drive-fs</title>''
     @ ''<pre style='' @ [CHR 0x22] @ ''font-family:monospace;white-space:pre-wrap'' @ [CHR 0x22] @ ''>'' @ html_escape text' @ ''</pre>''"

definition showHTML :: "write_outcome \<Rightarrow> string \<Rightarrow> about_world \<Rightarrow> bool \<times> (string list \<times> string) option \<times> about_world" where
  "showHTML wr text' w =
     (case tmpDir w of
        None \<Rightarrow> (False, None, w)
      | Some dir \<Rightarrow>
          (let path = path_join [dir, ''about.html'']
           in case wr of
                NotOpened \<Rightarrow> (False, None, w)
              | Cut part \<Rightarrow> (False, None, w\<lparr>ab_files := (ab_files w)(path \<mapsto> part)\<rparr>)
              | Written \<Rightarrow>
                  (ab_run w [''xdg-open'', path], Some ([''xdg-open'', path], about_page text'),
                   w\<lparr>ab_files := (ab_files w)(path \<mapsto> about_page text')\<rparr>)))"

definition Show :: "license_fs \<Rightarrow> write_outcome \<Rightarrow> string \<Rightarrow> string \<Rightarrow> string \<Rightarrow> about_world
    \<Rightarrow> bool \<times> (string list \<times> string) option \<times> about_world" where
  "Show l wr part version commit w =
     (if ab_programs w ''zenity'' then showZenity part (Text l version commit) w
      else showHTML wr (Text l version commit) w)"

section \<open>What the reader sees\<close>

text \<open>A browser's reading of the five entities the escaping uses.\<close>

fun html_unescape :: "string \<Rightarrow> string" where
  "html_unescape [] = []"
| "html_unescape (c # s) =
     (if c \<noteq> CHR ''&'' then c # html_unescape s
      else if take 4 s = ''amp;'' then CHR ''&'' # html_unescape (drop 4 s)
      else if take 4 s = ''#39;'' then CHR 0x27 # html_unescape (drop 4 s)
      else if take 3 s = ''lt;'' then CHR ''<'' # html_unescape (drop 3 s)
      else if take 3 s = ''gt;'' then CHR ''>'' # html_unescape (drop 3 s)
      else if take 4 s = ''#34;'' then CHR 0x22 # html_unescape (drop 4 s)
      else c # html_unescape s)"

lemma html_unescape_char: "html_unescape (html_char c @ s) = c # html_unescape s"
  by (simp add: html_char_def)

lemma html_roundtrip: "html_unescape (html_escape s) = s"
  by (induction s) (simp_all add: html_escape_def html_unescape_char)

lemma html_no_markup: "CHR ''<'' \<notin> set (html_escape s)" "CHR ''>'' \<notin> set (html_escape s)"
  by (auto simp: html_escape_def html_char_def split: if_splits)

text \<open>What the dialog shows is the text: zenity is given a file holding it and that file is gone afterwards on every path;
  the page has the text between its tags with no markup of its own, reading back as the text, so a license cannot break out of it.
\<close>

theorem about_shows_text:
  "(snd (snd (showZenity part t w)) = w
      \<or> (\<exists>dir. tmpDir w = Some dir \<and> ab_files (snd (snd (showZenity part t w))) = (ab_files w)(path_join [dir, ab_tmpName w] := None)))
   \<and> (\<forall>argv shown. fst (snd (showZenity part t w)) = Some (argv, shown) \<longrightarrow> shown = t \<and> hd argv = ''zenity'')
   \<and> (\<exists>before after body. about_page t = before @ body @ after \<and> html_unescape body = t \<and> CHR ''<'' \<notin> set body
        \<and> (\<forall>u. about_page u = before @ html_escape u @ after))"
proof (intro conjI)
  show "snd (snd (showZenity part t w)) = w
      \<or> (\<exists>dir. tmpDir w = Some dir \<and> ab_files (snd (snd (showZenity part t w))) = (ab_files w)(path_join [dir, ab_tmpName w] := None))"
    by (auto simp: showZenity_def Let_def split: option.splits)
  show "\<forall>argv shown. fst (snd (showZenity part t w)) = Some (argv, shown) \<longrightarrow> shown = t \<and> hd argv = ''zenity''"
    by (auto simp: showZenity_def Let_def split: option.splits if_splits)
  let ?b = "''<!doctype html><meta charset='' @ [CHR 0x22] @ ''utf-8'' @ [CHR 0x22] @ ''><title>About proton-drive-fs</title>''
     @ ''<pre style='' @ [CHR 0x22] @ ''font-family:monospace;white-space:pre-wrap'' @ [CHR 0x22] @ ''>''"
  have "\<forall>u. about_page u = ?b @ html_escape u @ ''</pre>''" by (simp add: about_page_def)
  then show "\<exists>before after body. about_page t = before @ body @ after \<and> html_unescape body = t \<and> CHR ''<'' \<notin> set body
        \<and> (\<forall>u. about_page u = before @ html_escape u @ after)"
    using html_roundtrip html_no_markup(1) by blast
qed

definition demo_about :: about_world where
  "demo_about = \<lparr>ab_runtimeDir = ''/run/u'', ab_cacheDir = None, ab_mkdirFails = False, ab_createFails = False, ab_tmpName = ''about-1.txt'',
     ab_writeFails = False, ab_closeFails = False, ab_files = Map.empty, ab_programs = (\<lambda>_. True), ab_run = (\<lambda>_. True)\<rparr>"

theorem about_shows_text_witness:
  "map_option snd (fst (snd (showZenity [] ''a < b'' demo_about))) = Some ''a < b''"
proof -
  have "fst (snd (showZenity [] ''a < b'' demo_about)) \<noteq> None" by code_simp
  then obtain argv shown where "fst (snd (showZenity [] ''a < b'' demo_about)) = Some (argv, shown)" by fastforce
  then show ?thesis using about_shows_text [of "[]" "''a < b''" demo_about] by simp
qed

text \<open>An index that cannot be read still leaves the project's own lines; the entries come in the order of the index, sorted or not.\<close>

lemma Text_order: "Licenses l = Inr (xs @ ys) \<Longrightarrow> Text l v c = about_head v c @ concat (map (license_block l) xs) @ concat (map (license_block l) ys)"
  by (simp add: Text_def)

end
