(* ===== verification/Unsaved_Files.thy ===== *)
theory Unsaved_Files
  imports File_Handle State_Files
begin

text \<open>
  Moving a write buffer out of the temporary directory (internal/fusefs/fusefs.go: \<open>saveUnsaved\<close>,
  \<open>moveTmp\<close>), as the file system looks after every call, so that an interruption can be placed between
  any two of them. \<open>File_Handle\<close> takes the outcome of these moves as given.
\<close>

type_synonym file_map = "string \<Rightarrow> bytes option"

record move_faults =
  mf_rename :: bool
  mf_seek :: bool
  mf_copy :: "nat option"
  mf_sync :: bool
  mf_removeDst :: bool
  mf_removeTmp :: bool

text \<open>What the copy has written so far, byte by byte, up to where it fails.\<close>

definition copy_states :: "move_faults \<Rightarrow> string \<Rightarrow> bytes \<Rightarrow> file_map \<Rightarrow> file_map list" where
  "copy_states fl dst content s =
     map (\<lambda>n. s(dst \<mapsto> take n content)) [0..<Suc (case mf_copy fl of None \<Rightarrow> length content | Some n \<Rightarrow> min n (length content))]"

definition drop_dst :: "move_faults \<Rightarrow> string \<Rightarrow> file_map \<Rightarrow> file_map" where
  "drop_dst fl dst s = (if mf_removeDst fl then s else s(dst := None))"

text \<open>\<open>content\<close> is what the open temporary file holds. The states passed through, the first being the one the call found, and whether it succeeded.\<close>

definition moveTmp :: "move_faults \<Rightarrow> string \<Rightarrow> bytes \<Rightarrow> string \<Rightarrow> file_map \<Rightarrow> file_map list \<times> bool" where
  "moveTmp fl tmp content dst s =
     (if \<not> mf_rename fl \<and> s tmp \<noteq> None then ([s, s(tmp := None, dst := s tmp)], True)
      else if mf_seek fl then ([s, drop_dst fl dst s], False)
      else (let states = copy_states fl dst content s; copied = last states
            in if mf_copy fl \<noteq> None then (s # states @ [drop_dst fl dst copied], False)
               else if mf_sync fl then (s # states @ [drop_dst fl dst copied], False)
               else (s # states @ [if mf_removeTmp fl then copied else copied(tmp := None)], True)))"

datatype unsaved_error = NoUnsavedDir | UnsavedMkdir | UnsavedCreate | UnsavedMove

definition saveUnsaved :: "environ \<Rightarrow> bool \<Rightarrow> string option \<Rightarrow> move_faults \<Rightarrow> string \<Rightarrow> bytes \<Rightarrow> string \<Rightarrow> file_map
    \<Rightarrow> file_map list \<times> (unsaved_error + string)" where
  "saveUnsaved e mkdir_fails stamp fl tmp content name s =
     (case UnsavedDir e of
        None \<Rightarrow> ([s], Inl NoUnsavedDir)
      | Some dir \<Rightarrow>
          if mkdir_fails then ([s], Inl UnsavedMkdir)
          else (case stamp of
                  None \<Rightarrow> ([s], Inl UnsavedCreate)
                | Some st \<Rightarrow>
                    (let dst = path_join [dir, st @ truncateName name unsavedNameMax]
                     in case moveTmp fl tmp content dst (s(dst \<mapsto> [])) of
                          (states, ok) \<Rightarrow> (s # states, if ok then Inr dst else Inl UnsavedMove))))"

section \<open>The content is always somewhere\<close>

lemma copy_states_ne [simp]: "copy_states fl dst content s \<noteq> []"
  by (simp add: copy_states_def)

lemma copy_states_tmp: "x \<in> set (copy_states fl dst content s) \<Longrightarrow> tmp \<noteq> dst \<Longrightarrow> x tmp = s tmp"
  by (auto simp: copy_states_def)

lemma copy_states_last: "mf_copy fl = None \<Longrightarrow> last (copy_states fl dst content s) = s(dst \<mapsto> content)"
  by (simp add: copy_states_def last_map)

text \<open>C18. A buffer moved out of the temporary directory is whole in one of the two places at every moment, whatever call fails or
  wherever the process dies; when the move reports success it is in the new one.
\<close>

theorem moveTmp_crash_safe:
  assumes "s tmp = Some content" "tmp \<noteq> dst" "moveTmp fl tmp content dst s = (states, ok)"
  shows "(\<forall>x\<in>set states. x tmp = Some content \<or> x dst = Some content) \<and> (ok \<longrightarrow> last states dst = Some content)
    \<and> (\<not> ok \<longrightarrow> last states tmp = Some content)"
proof -
  let ?c = "copy_states fl dst content s"
  have cs: "x tmp = Some content" if "x \<in> set ?c" for x using copy_states_tmp [OF that assms(2)] assms(1) by simp
  have lst: "last ?c tmp = Some content" using cs last_in_set [OF copy_states_ne] by blast
  have dd: "drop_dst fl dst y tmp = y tmp" for y using assms(2) by (simp add: drop_dst_def)
  have dst: "mf_copy fl = None \<Longrightarrow> last ?c dst = Some content" by (simp add: copy_states_last)
  show ?thesis
    using assms cs lst dd dst by (auto simp: moveTmp_def Let_def split: if_splits)
qed

definition demo_faults :: move_faults where
  "demo_faults = \<lparr>mf_rename = True, mf_seek = False, mf_copy = Some 1, mf_sync = False, mf_removeDst = False, mf_removeTmp = False\<rparr>"

theorem moveTmp_crash_safe_witness:
  "last (fst (moveTmp demo_faults ''/t'' [1, 2] ''/d'' [''/t'' \<mapsto> [1, 2], ''/d'' \<mapsto> []])) ''/t'' = Some [1, 2]"
proof -
  let ?s = "[''/t'' \<mapsto> [1, 2], ''/d'' \<mapsto> []] :: file_map"
  have a: "?s ''/t'' = Some [1, 2]" "''/t'' \<noteq> ''/d''" by simp_all
  have ok: "\<not> snd (moveTmp demo_faults ''/t'' [1, 2] ''/d'' ?s)" by (simp add: moveTmp_def demo_faults_def Let_def)
  have e: "moveTmp demo_faults ''/t'' [1, 2] ''/d'' ?s = (fst (moveTmp demo_faults ''/t'' [1, 2] ''/d'' ?s), snd (moveTmp demo_faults ''/t'' [1, 2] ''/d'' ?s))"
    by simp
  from moveTmp_crash_safe [OF a e] ok show ?thesis by blast
qed

end
