(* ===== verification/Spec2Isabelle.thy ===== *)
theory Spec2Isabelle
  imports Drive_Write Drive_Events Singleflight Listing_Steps Dir_Ops Cmd_Run Preview_Steps Mount_Life About Unsaved_Files
begin

text \<open>
  A verification library of proton-drive-fs, a FUSE file system over Proton Drive with its daemon, its
  command line and its tray icon, written in Go. This theory imports every other one.

  \<^bold>\<open>The program.\<close> One process mounts the drive and serves it: \<open>cmd/proton-drive-fs\<close> reads flags and the
  configuration (\<open>internal/config\<close>), stops a previous daemon and takes its lock (\<open>internal/state\<close>), restores the
  session (\<open>internal/auth\<close>), makes a drive client (\<open>internal/drive\<close>) and mounts (\<open>internal/fusefs\<close>). The handlers of
  \<open>fusefs\<close> call \<open>drive\<close>, whose nodes hold decrypted names and keys, whose open files fetch blocks through a
  memory and a disk cache, and whose writes upload blocks and change links. A written file lives in a
  temporary file until its upload. A poller turns remote changes into invalidated listings. Previews
  (\<open>internal/thumbs\<close>, \<open>fusefs/previews.go\<close>) are fetched beside. The daemon publishes a status file and a local API
  (\<open>internal/api\<close>) that the tray (\<open>internal/tray\<close>) reads; everything logs through \<open>internal/logx\<close>.

  \<^bold>\<open>Which theory models what.\<close>
  \<^item> Ground: \<open>Prelude\<close> (errno, bytes, wrap-around, the contracts \<open>kept_invariant\<close> and \<open>lossy_store\<close>), \<open>Go_Strings\<close>
    (strings and paths of Go's library).
  \<^item> \<open>internal/drive\<close>: \<open>Api_Errors\<close> (backoff.go; \<open>go_error\<close> is an error chain), \<open>Http_Retry\<close> (http.go; \<open>http_st\<close> is
    clock, rate-limit window, context and trace), \<open>Block_Cache\<close> (cache.go over a \<open>disk\<close> whose calls may fail),
    \<open>Drive_Node\<close> (drive.go; \<open>node\<close>, \<open>client\<close>), \<open>Node_Keys\<close> (crypto.go), \<open>Activity\<close> (activity.go), \<open>Drive_File\<close> and
    \<open>Singleflight\<close> (file.go: one goroutine's read, and any number of \<open>getBlock\<close> calls), \<open>Drive_Write\<close> (write.go),
    \<open>Drive_Events\<close> (events.go).
  \<^item> \<open>internal/fusefs\<close>: \<open>Mount_State\<close> (options, rules, semaphore, status), \<open>Dir_Listing\<close> and \<open>Listing_Steps\<close> (a folder's
    cached listing, and its critical sections in any order), \<open>Mount_Registry\<close> (live folders, events), \<open>Local_Store\<close>
    (local-only entries), \<open>File_Handle\<close>, \<open>Handle_Steps\<close> and \<open>Save_Fate\<close> (write buffers: the operations, every
    interleaving of them, what becomes of a save), \<open>File_Ops\<close> and \<open>Dir_Ops\<close> (the handlers), \<open>Mount_Life\<close> (set-up and
    end of \<open>Mount\<close>), \<open>Unsaved_Files\<close> (\<open>moveTmp\<close>), \<open>Previews\<close> and \<open>Preview_Steps\<close> (previews.go).
  \<^item> \<open>internal/thumbs\<close>: \<open>Thumbs\<close> (thumbs.go), \<open>Thumb_Registry\<close> (registry.go).
  \<^item> \<open>internal/config\<close>, \<open>state\<close>, \<open>auth\<close>, \<open>api\<close>, \<open>logx\<close>, \<open>tray\<close>, \<open>about\<close>: \<open>Config_File\<close> and \<open>Config_Load\<close>, \<open>State_Files\<close>,
    \<open>Auth_Session\<close>, \<open>Local_Api\<close>, \<open>Logx\<close>, \<open>Tray\<close>, \<open>About\<close>.
  \<^item> \<open>cmd/proton-drive-fs\<close>: \<open>Cmd_Flags\<close> and \<open>Cmd_Config\<close> (flags.go, config.go), \<open>Cmd_Mount\<close> (mount table, waiting and
    killing), \<open>Cmd_Autostart\<close> (autostart.go and the systemd unit), \<open>Cmd_Run\<close> (the commands as a whole).

  \<^bold>\<open>How code becomes definitions.\<close> A function has its name as a definition; a struct is a record whose fields carry
  a two-letter prefix; an error is a value (\<open>go_error + 'a\<close>, an option, an errno). State a function changes is an
  argument returned updated. What the outside answers (the API, a system call, a clock, a process) is an
  argument, as a function or as a record of outcomes, so each failure is a branch. A \<open>time.Duration\<close> is
  an integer of nanoseconds, through \<open>wrap64\<close> where the code multiplies unchecked. Pointers to shared objects are
  numbers into heaps (\<open>mt_dirs\<close>, \<open>wd_files\<close>, \<open>wd_handles\<close>, \<open>wd_tmps\<close>). Concurrency is an inductive step relation
  whose steps are the stretches of code under one lock or between two waits: \<open>flight_step\<close>, \<open>listing_step\<close>,
  \<open>fs_step\<close>, \<open>life_step\<close>, \<open>claim_step\<close>, \<open>preview_step\<close>, \<open>daemon_step\<close>, \<open>log_step\<close>. Each keeps one invariant; all but the
  daemons' (a relation with its own start state) are interpretations of \<open>kept_invariant\<close>.

  \<^bold>\<open>What the lemmas show\<close> (the properties are numbered C1 to C40 where they stand).
  \<^item> Writing: an upload sends the whole file in order and commits it (C1), a failed one cleans up (C3), no
    save is lost on any interleaving (C2), every buffer is tracked (C8), atomic saves become revisions (C9),
    excluded names never go up (C20), moving a buffer away survives interruption (C18), the flush at the end
    of a mount empties the lists (C19) and runs before the return (C4), except when the mount is detached
    from outside (C5, a counterexample to the promise of no lost save).
  \<^item> Reading: the bytes are the file's (C6) and complete (C7), a download into a buffer is whole (C11), one
    fetch per block (C12); retries end (C14) and meet their specification (C24); the disk cache counts
    right (C25) and stays within its limit (C26).
  \<^item> Folders: lookup and listing agree (C10), handlers' patches survive refreshes (C13), local-only content is
    not removed (C21), children do not depend on the schedule (C28), no event is lost (C27).
  \<^item> Previews: none stale (C22), thumbnailers do not read through the mount (C23).
  \<^item> Around the mount: settings survive an upgrade (C29), flags never panic (C30), status is atomic (C31), one
    daemon (C32), the mount table is read right (C33), the old daemon is stopped gently (C34), \<open>mount\<close> serves
    last (C16), sessions (C35 to C38), autostart (C39), tray (C15, C17), log (C40).

  \<^bold>\<open>Contracts.\<close> \<open>lossy_store\<close>: a cache may forget but not lie; the memory and the disk cache interpret it and
  \<open>Drive_File\<close> reads through it. \<open>slot_source\<close> and \<open>framed_slots\<close>: acquiring and releasing a download slot; the
  retry loop is proved against it, once for raw GETs with no slot, once for \<open>acquireDownload\<close>, once for a
  transfer that also counts bytes. \<open>kept_invariant\<close> as above. \<open>pgp_laws\<close> is a hypothesis about gopenpgp, with
  an instance (\<open>demo_pgp\<close>) that satisfies it.

  \<^bold>\<open>Loops.\<close> Block loops terminate by a measure (what is left of the range or the reader). Waiting loops that may
  not end (\<open>unmount_loop\<close>, \<open>poll_exit\<close>, \<open>mount_wait\<close>, \<open>download_loop\<close>, \<open>external_loop\<close>) are partial functions into
  option, and that they return is proved under the condition that makes them (a clock that reaches the deadline, an honest
  file of known size); the thumbnailer's copy follows the buffer's download (last section of this theory). The event poller's inner loop has
  fuel; \<open>Events_no_loss\<close> asks for more of it than the log has events, and then proves a result. The retry
  loop recurses on its number of attempts, a constant of the code.

  \<^bold>\<open>Parameters and their hypotheses.\<close> go-proton-api (requests and events), gopenpgp, go-fuse, go-toml,
  encoding/json, image codecs, md5, mime, filepath.Match, regexp, the number and duration scanners, the
  keyring, systray, systemctl, processes and the terminal are parameters; a codec's round trip is a
  hypothesis where a property needs one. \<open>strings\<close>, \<open>path\<close>, base64, CRC-32, the query encoding, octal escapes of
  the mount table, \<open>slog\<close> groups and \<open>net/http\<close> routing are written out.

  \<^bold>\<open>Bounds and simplifications.\<close> White space is ASCII. Strings are bytes. Handlers in \<open>File_Ops\<close> and \<open>Dir_Ops\<close> run in one
  piece; their effect on a buffer or a listing is interleaved in \<open>Handle_Steps\<close> and \<open>Listing_Steps\<close>, one buffer
  operation or critical section at a time. In \<open>Mount_Life\<close> the flush is one step; a handler may run before or after
  it, not inside. \<open>no_stale_preview\<close> is about one folder whose own path stays. Log lines inside handlers, times
  and source positions of records, and progress callbacks are left out.

  \<^bold>\<open>Not modelled.\<close> The embedded icon bytes (tray/icons.go) and the two programs \<open>go generate\<close> runs (tray/gen,
  about/gen) run at build time only; the doc.go files hold comments. go-fuse's inode tree after a rename or
  an unlink is go-fuse's. Tests, packaging and scripts are not part of the program.
\<close>

section \<open>The two downloads\<close>

text \<open>
  The external thumbnailer's copy runs the loop a write buffer is filled with, except that a local write may refuse.
  So it returns whenever that one does, and without an error it holds the same bytes.
\<close>

lemma external_loop_follows:
  assumes "download_loop en f got = Some r"
  shows "\<exists>f' data err. external_loop en write_fails f got = Some (f', data, err) \<and> (err = None \<longrightarrow> data = fst (snd r) \<and> snd (snd r) = None)"
proof (rule download_loop.raw_induct [OF _ assms,
    where P = "\<lambda>en f got r. \<exists>f' data err. external_loop en write_fails f got = Some (f', data, err) \<and> (err = None \<longrightarrow> data = fst (snd r) \<and> snd (snd r) = None)"])
  fix loop en f got r
  assume IH: "\<And>en f got r. loop en f got = Some r \<Longrightarrow>
      \<exists>f' data err. external_loop en write_fails f got = Some (f', data, err) \<and> (err = None \<longrightarrow> data = fst (snd r) \<and> snd (snd r) = None)"
    and step: "(case ReadAt en copyChunk (int (length got)) f of (f1, xs, None) \<Rightarrow> loop en f1 (got @ xs)
      | (f1, xs, Some e) \<Rightarrow> Some (f1, got @ xs, if e = ErrEOF then None else Some e)) = Some r"
  obtain f1 xs err where "ReadAt en 262144 (int (length got)) f = (f1, xs, err)" by (metis prod_cases3)
  then show "\<exists>f' data err. external_loop en write_fails f got = Some (f', data, err) \<and> (err = None \<longrightarrow> data = fst (snd r) \<and> snd (snd r) = None)"
    using step IH [of en f1 "got @ xs" r] by (cases err) (auto simp: external_loop.simps [of en write_fails f] copyChunk_def)
qed

lemma external_loop_whole:
  assumes "honest en truth content f" "fl_size f = int (length content)"
  shows "\<exists>f' data err. external_loop en write_fails f [] = Some (f', data, err)
    \<and> (err = None \<longrightarrow> data = content \<or> (\<exists>idx f1 f2. keeps f f1 \<and> getBlock en idx f1 = (f2, Inl ErrEOF)))"
proof -
  obtain f' data err where d: "download_loop en f [] = Some (f', data, err)"
      "err = None \<longrightarrow> data = content \<or> (\<exists>idx f1 f2. keeps f f1 \<and> getBlock en idx f1 = (f2, Inl ErrEOF))"
    using download_loop_ends [OF assms keeps_refl, of "[]" 0] by fastforce
  show ?thesis using external_loop_follows [OF d(1), of write_fails] d(2) by auto
qed

end
